(* ===== verification/PyValue.thy ===== *)
theory PyValue
  imports Prelude Complex_Main
begin

text \<open>
  The Python values the scripts exchange as JSON: numbers (unbounded integers and IEEE doubles,
  a finite double being a rational), strings, lists and dictionaries in insertion order.
  \<open>py_eq\<close> is Python's \<open>==\<close> on them (numbers of different types compare by value, dictionaries
  ignore the order of their keys, NaN differs from everything), \<open>truthy\<close> is \<open>bool(x)\<close>,
  \<open>dget\<close> is \<open>d.get(k)\<close>, which raises on a value that is no dictionary, and
  \<open>strip_ts\<close> is the timestamp eraser that the receipt scripts and the all-reduce timer share.
\<close>

section \<open>Doubles\<close>

datatype pyfloat = Fin rat | PInf | NInf | NaN

fun flt :: "pyfloat \<Rightarrow> pyfloat \<Rightarrow> bool" where
  "flt NaN _ = False"
| "flt _ NaN = False"
| "flt (Fin x) (Fin y) = (x < y)"
| "flt NInf NInf = False"
| "flt NInf _ = True"
| "flt _ NInf = False"
| "flt PInf _ = False"
| "flt (Fin _) PInf = True"

fun feq :: "pyfloat \<Rightarrow> pyfloat \<Rightarrow> bool" where
  "feq NaN _ = False"
| "feq x y = (x = y)"

section \<open>JSON values\<close>

datatype json =
    JNull
  | JBool bool
  | JInt int
  | JFloat pyfloat
  | JStr string
  | JList "json list"
  | JObj "(string \<times> json) list"

text \<open>The numeric view: \<open>True\<close> and \<open>False\<close> are the integers 1 and 0.\<close>

fun num :: "json \<Rightarrow> pyfloat option" where
  "num (JBool b) = Some (Fin (if b then 1 else 0))"
| "num (JInt n) = Some (Fin (of_int n))"
| "num (JFloat x) = Some x"
| "num _ = None"

fun truthy :: "json \<Rightarrow> bool" where
  "truthy JNull = False"
| "truthy (JBool b) = b"
| "truthy (JInt n) = (n \<noteq> 0)"
| "truthy (JFloat x) = (x \<noteq> Fin 0)"
| "truthy (JStr s) = (s \<noteq> [])"
| "truthy (JList xs) = (xs \<noteq> [])"
| "truthy (JObj kvs) = (kvs \<noteq> [])"

lemma size_map_of_snd [termination_simp]:
  "(k, v) \<in> set kvs \<Longrightarrow> size v < Suc (size_list (size_prod (\<lambda>s. 0) size) kvs)"
  by (induction kvs) auto

lemma list_all2_fcong [fundef_cong]:
  "xs = xs' \<Longrightarrow> ys = ys' \<Longrightarrow>
   (\<And>x y. x \<in> set xs' \<Longrightarrow> y \<in> set ys' \<Longrightarrow> f x y = g x y) \<Longrightarrow>
   list_all2 f xs ys = list_all2 g xs' ys'"
  by (rule list.rel_cong) (auto simp: simp_implies_def)

text \<open>
  Python's \<open>==\<close>. Two dictionaries are equal when they have as many entries and every key of the
  one leads to an equal value in the other.
\<close>

fun py_eq :: "json \<Rightarrow> json \<Rightarrow> bool" where
  "py_eq (JObj xs) (JObj ys) =
     (length xs = length ys \<and>
      (\<forall>(k, v) \<in> set xs. case map_of ys k of None \<Rightarrow> False | Some w \<Rightarrow> py_eq v w))"
| "py_eq (JList xs) (JList ys) = list_all2 py_eq xs ys"
| "py_eq (JStr s) (JStr t) = (s = t)"
| "py_eq JNull JNull = True"
| "py_eq x y = (case (num x, num y) of (Some a, Some b) \<Rightarrow> feq a b | _ \<Rightarrow> False)"

text \<open>
  \<open>x < n\<close> and \<open>x > n\<close> against a number: a \<open>TypeError\<close> on a value that is no number.
\<close>

definition py_lt :: "json \<Rightarrow> rat \<Rightarrow> bool res" where
  "py_lt x n = (case num x of None \<Rightarrow> raised TypeError | Some a \<Rightarrow> returned (flt a (Fin n)))"

definition py_gt :: "json \<Rightarrow> rat \<Rightarrow> bool res" where
  "py_gt x n = (case num x of None \<Rightarrow> raised TypeError | Some a \<Rightarrow> returned (flt (Fin n) a))"

text \<open>Dictionary access; every attribute of a value that is no dictionary is missing.\<close>

fun dict_of :: "json \<Rightarrow> (string \<times> json) list res" where
  "dict_of (JObj kvs) = returned kvs"
| "dict_of _ = raised AttributeError"

definition or_empty :: "json option \<Rightarrow> json" where
  "or_empty v = (case v of None \<Rightarrow> JObj [] | Some x \<Rightarrow> if truthy x then x else JObj [])"

definition dget :: "json \<Rightarrow> string \<Rightarrow> json option res" where
  "dget d k = res_bind (dict_of d) (\<lambda>kvs. returned (map_of kvs k))"

text \<open>\<open>s in x\<close> for a string \<open>s\<close>.\<close>

fun py_contains :: "json \<Rightarrow> string \<Rightarrow> bool res" where
  "py_contains (JObj kvs) s = returned (map_of kvs s \<noteq> None)"
| "py_contains (JList xs) s = returned (list_ex (py_eq (JStr s)) xs)"
| "py_contains (JStr t) s = returned (contains_str t s)"
| "py_contains _ s = raised TypeError"

text \<open>\<open>x[i]\<close>, \<open>x[k]\<close>, \<open>len(x)\<close> and the values an iteration over \<open>x\<close> gives.\<close>

fun py_item :: "json \<Rightarrow> nat \<Rightarrow> json res" where
  "py_item (JList xs) i = (if i < length xs then returned (xs ! i) else raised IndexError)"
| "py_item (JStr s) i = (if i < length s then returned (JStr [s ! i]) else raised IndexError)"
| "py_item (JObj _) i = raised KeyError"
| "py_item _ i = raised TypeError"

fun py_len :: "json \<Rightarrow> nat res" where
  "py_len (JList xs) = returned (length xs)"
| "py_len (JStr s) = returned (length s)"
| "py_len (JObj d) = returned (length d)"
| "py_len _ = raised TypeError"

fun dict_item :: "json \<Rightarrow> string \<Rightarrow> json res" where
  "dict_item (JObj kvs) k = (case map_of kvs k of None \<Rightarrow> raised KeyError | Some v \<Rightarrow> returned v)"
| "dict_item _ k = raised TypeError"

fun py_list :: "json \<Rightarrow> json list res" where
  "py_list (JList xs) = returned xs"
| "py_list (JStr s) = returned (map (\<lambda>c. JStr [c]) s)"
| "py_list (JObj d) = returned (map (\<lambda>(k, v). JStr k) d)"
| "py_list _ = raised TypeError"

section \<open>Timestamps erased\<close>

fun strip_ts :: "json \<Rightarrow> json" where
  "strip_ts (JObj kvs) =
     JObj (map (\<lambda>(k, v). (k, strip_ts v)) (filter (\<lambda>(k, v). k \<noteq> ''ts'') kvs))"
| "strip_ts (JList xs) = JList (map strip_ts xs)"
| "strip_ts x = x"

section \<open>Well-formed values\<close>

text \<open>
  What \<open>json.loads\<close> returns: the keys of every dictionary are distinct. \<open>no_nan\<close> says that no
  NaN is inside, which is what makes \<open>==\<close> reflexive.
\<close>

fun wf_json :: "json \<Rightarrow> bool" where
  "wf_json (JObj kvs) \<longleftrightarrow> distinct (map fst kvs) \<and> (\<forall>(k, v) \<in> set kvs. wf_json v)"
| "wf_json (JList xs) \<longleftrightarrow> (\<forall>x \<in> set xs. wf_json x)"
| "wf_json _ \<longleftrightarrow> True"

fun no_nan :: "json \<Rightarrow> bool" where
  "no_nan (JObj kvs) \<longleftrightarrow> (\<forall>(k, v) \<in> set kvs. no_nan v)"
| "no_nan (JList xs) \<longleftrightarrow> (\<forall>x \<in> set xs. no_nan x)"
| "no_nan (JFloat x) \<longleftrightarrow> x \<noteq> NaN"
| "no_nan _ \<longleftrightarrow> True"

lemma feq_refl [simp]: "x \<noteq> NaN \<Longrightarrow> feq x x"
  by (cases x) simp_all

lemma feq_sym: "feq x y \<Longrightarrow> feq y x"
  by (cases x; cases y) simp_all

lemma feq_imp_eq: "feq x y \<Longrightarrow> x = y"
  by (cases x) simp_all

text \<open>Structural induction with the entries of a dictionary as pairs.\<close>

lemma json_induct [case_names JNull JBool JInt JFloat JStr JList JObj]:
  assumes "P JNull" "\<And>b. P (JBool b)" "\<And>n. P (JInt n)" "\<And>x. P (JFloat x)" "\<And>s. P (JStr s)"
    and "\<And>xs. (\<And>x. x \<in> set xs \<Longrightarrow> P x) \<Longrightarrow> P (JList xs)"
    and "\<And>kvs. (\<And>k v. (k, v) \<in> set kvs \<Longrightarrow> P v) \<Longrightarrow> P (JObj kvs)"
  shows "P x"
proof (induction x)
  case (JObj kvs)
  have "P v" if "(k, v) \<in> set kvs" for k v
    using JObj [of "(k, v)" v] that by simp
  then show ?case by (rule assms(7))
qed (use assms in auto)

lemma py_eq_refl: "wf_json x \<Longrightarrow> no_nan x \<Longrightarrow> py_eq x x"
proof (induction x rule: json_induct)
  case (JObj kvs)
  have "py_eq v v" "map_of kvs k = Some v" if "(k, v) \<in> set kvs" for k v
    using JObj.IH [OF that] JObj.prems that by auto
  then show ?case by auto
next
  case (JList xs)
  then show ?case by (auto simp: list_all2_same)
qed auto

lemma py_eq_JStr_iff [simp]:
  "py_eq (JStr s) x \<longleftrightarrow> x = JStr s"
  "py_eq x (JStr s) \<longleftrightarrow> x = JStr s"
  by (cases x; auto)+

lemma keys_strip_ts:
  "map fst (map (\<lambda>(k, v). (k, strip_ts v)) (filter (\<lambda>(k, v). k \<noteq> ''ts'') kvs))
   = filter (\<lambda>k. k \<noteq> ''ts'') (map fst kvs)"
  by (induction kvs) auto

lemma strip_ts_idem [simp]: "strip_ts (strip_ts x) = strip_ts x"
proof (induction x rule: json_induct)
  case (JObj kvs)
  then show ?case
    by (auto simp: filter_map o_def case_prod_unfold intro!: map_cong filter_True)
next
  case (JList xs)
  then show ?case by simp
qed auto

lemma wf_strip_ts: "wf_json x \<Longrightarrow> wf_json (strip_ts x)"
proof (induction x rule: json_induct)
  case (JObj kvs)
  have "distinct (filter (\<lambda>k. k \<noteq> ''ts'') (map fst kvs))"
    using JObj.prems by simp
  moreover have "wf_json (strip_ts v)" if "(k, v) \<in> set kvs" for k v
    using JObj.IH [OF that] JObj.prems that by auto
  ultimately show ?case
    by (auto simp only: strip_ts.simps wf_json.simps keys_strip_ts) auto
qed auto

lemma no_nan_strip_ts: "no_nan x \<Longrightarrow> no_nan (strip_ts x)"
  by (induction x rule: json_induct) auto

lemma py_eq_strip_refl: "wf_json x \<Longrightarrow> no_nan x \<Longrightarrow> py_eq (strip_ts x) (strip_ts x)"
  by (simp add: py_eq_refl wf_strip_ts no_nan_strip_ts)

text \<open>The stripped value does not depend on any timestamp of the top level.\<close>

lemma strip_ts_update_ts:
  "strip_ts (JObj (pre @ (''ts'', t) # post)) = strip_ts (JObj (pre @ (''ts'', t') # post))"
  by simp

lemma map_of_strip_ts:
  "strip_ts (JObj kvs) = JObj kvs' \<Longrightarrow>
   map_of kvs' k = (if k = ''ts'' then None else map_option strip_ts (map_of kvs k))"
  by (auto simp: map_of_map_value map_of_filter_key)

end
