(* ===== verification/FileStore.thy ===== *)
theory FileStore
  imports PyValue "HOL-Library.AList"
begin

text \<open>
  The file system as the receipt scripts see it: a finite table from paths (lists of components)
  to regular files and directories, which files can be read, and what a write meets. Operations
  return their result or exception together with the state they leave, so that an exception that
  the caller swallows keeps the effects made before it.
\<close>

section \<open>State\<close>

type_synonym path = "string list"

datatype node = Reg string | Dir

text \<open>
  What \<open>open(p, 'w')\<close> and the write meet: success, a refusal (permission, read-only mount), or a
  full disk after so many characters, which leaves a truncated file.
\<close>

datatype fate = WOk | WRefused | WTorn nat

record world =
  nodes :: "(path \<times> node) list"
  readable :: "path \<Rightarrow> bool"
  fate_of :: "path \<Rightarrow> fate"

definition put_node :: "world \<Rightarrow> path \<Rightarrow> node \<Rightarrow> world" where
  "put_node w p n = w\<lparr>nodes := AList.update p n (nodes w)\<rparr>"

definition node_at :: "world \<Rightarrow> path \<Rightarrow> node option" where
  "node_at w p = (if p = [] then Some Dir else map_of (nodes w) p)"

definition is_file :: "world \<Rightarrow> path \<Rightarrow> bool" where
  "is_file w p = (case node_at w p of Some (Reg _) \<Rightarrow> True | _ \<Rightarrow> False)"

definition is_dir :: "world \<Rightarrow> path \<Rightarrow> bool" where
  "is_dir w p = (node_at w p = Some Dir)"

section \<open>Operations\<close>

definition read_text :: "world \<Rightarrow> path \<Rightarrow> string res" where
  "read_text w p =
     (case node_at w p of
        Some (Reg t) \<Rightarrow> if readable w p then returned t else raised OSError
      | _ \<Rightarrow> raised OSError)"

text \<open>\<open>Path.mkdir(parents=True, exist_ok=True)\<close>: every missing prefix becomes a directory.\<close>

fun mkdirs_from :: "world \<Rightarrow> path \<Rightarrow> path \<Rightarrow> unit res \<times> world" where
  "mkdirs_from w done [] = (returned (), w)"
| "mkdirs_from w done (c # cs) =
     (let p = done @ [c] in
      case node_at w p of
        Some (Reg _) \<Rightarrow> (raised OSError, w)
      | Some Dir \<Rightarrow> mkdirs_from w p cs
      | None \<Rightarrow>
          if fate_of w p = WOk then mkdirs_from (put_node w p Dir) p cs
          else (raised OSError, w))"

definition mkdirs :: "world \<Rightarrow> path \<Rightarrow> unit res \<times> world" where
  "mkdirs w p = mkdirs_from w [] p"

definition write_text :: "world \<Rightarrow> path \<Rightarrow> string \<Rightarrow> unit res \<times> world" where
  "write_text w p t =
     (if p = [] \<or> is_dir w p \<or> \<not> is_dir w (butlast p) then (raised OSError, w)
      else case fate_of w p of
        WOk \<Rightarrow> (returned (), put_node w p (Reg t))
      | WRefused \<Rightarrow> (raised OSError, w)
      | WTorn n \<Rightarrow> (raised OSError, put_node w p (Reg (take n t))))"

text \<open>\<open>sorted(d.glob("*.json"))\<close>: the entries of a directory, by name.\<close>

definition children :: "world \<Rightarrow> path \<Rightarrow> path list" where
  "children w d = filter (\<lambda>p. p \<noteq> [] \<and> butlast p = d) (map fst (nodes w))"

definition glob_json :: "world \<Rightarrow> path \<Rightarrow> path list" where
  "glob_json w d =
     map (\<lambda>n. d @ [n])
       (sort (remdups (filter (\<lambda>n. endswith n ''.json'') (map last (children w d)))))"

text \<open>Path text to components: empty and \<open>.\<close> components vanish, as in \<open>pathlib\<close>.\<close>

definition path_parts :: "string \<Rightarrow> path" where
  "path_parts s = filter (\<lambda>c. c \<noteq> [] \<and> c \<noteq> ''.'') (split_on (CHR ''/'') s)"

text \<open>\<open>base / rel\<close>: an absolute \<open>rel\<close> replaces the base.\<close>

definition path_join :: "path \<Rightarrow> string \<Rightarrow> path" where
  "path_join base rel =
     (if startswith rel ''/'' then path_parts rel else base @ path_parts rel)"

definition stem :: "string \<Rightarrow> string" where
  "stem name =
     (if endswith name ''.json'' \<and> length name > 5 then take (length name - 5) name else name)"

section \<open>Laws\<close>

lemma node_at_put [simp]:
  "p \<noteq> [] \<Longrightarrow> node_at (put_node w p n) q = (if q = p then Some n else node_at w q)"
  by (simp add: node_at_def put_node_def update_conv')

lemma put_node_frame [simp]:
  "readable (put_node w p n) = readable w"
  "fate_of (put_node w p n) = fate_of w"
  by (simp_all add: put_node_def)

text \<open>\<open>w'\<close> is \<open>w\<close> with perhaps some more directories.\<close>

definition more_dirs :: "world \<Rightarrow> world \<Rightarrow> bool" where
  "more_dirs w w' \<longleftrightarrow> readable w' = readable w \<and> fate_of w' = fate_of w \<and>
     (\<forall>q. node_at w' q = node_at w q \<or> node_at w q = None \<and> node_at w' q = Some Dir)"

lemma more_dirs_refl [simp]: "more_dirs w w"
  by (simp add: more_dirs_def)

lemma more_dirs_trans: "more_dirs w w' \<Longrightarrow> more_dirs w' w'' \<Longrightarrow> more_dirs w w''"
  unfolding more_dirs_def by (metis option.distinct(1))

lemma more_dirs_put: "p \<noteq> [] \<Longrightarrow> node_at w p = None \<Longrightarrow> more_dirs w (put_node w p Dir)"
  by (simp add: more_dirs_def)

lemma more_dirs_file:
  "more_dirs w w' \<Longrightarrow> node_at w' q = Some (Reg t) \<longleftrightarrow> node_at w q = Some (Reg t)"
  unfolding more_dirs_def by (metis node.distinct(1) option.inject option.distinct(1))

lemma more_dirs_dir: "more_dirs w w' \<Longrightarrow> is_dir w q \<Longrightarrow> is_dir w' q"
  unfolding more_dirs_def is_dir_def by (metis option.distinct(1))

lemma more_dirs_fields:
  "more_dirs w w' \<Longrightarrow> readable w' = readable w"
  "more_dirs w w' \<Longrightarrow> fate_of w' = fate_of w"
  by (simp_all add: more_dirs_def)

lemma mkdirs_from_Cons:
  "mkdirs_from w d (c # cs) =
     (if is_dir w (d @ [c]) then mkdirs_from w (d @ [c]) cs
      else if node_at w (d @ [c]) = None \<and> fate_of w (d @ [c]) = WOk
      then mkdirs_from (put_node w (d @ [c]) Dir) (d @ [c]) cs
      else (Inl OSError, w))"
  by (auto simp: Let_def is_dir_def split: option.splits node.splits)

declare mkdirs_from.simps(2) [simp del]

lemma mkdirs_from_more_dirs: "more_dirs w (snd (mkdirs_from w d cs))"
proof (induction cs arbitrary: w d)
  case (Cons c cs)
  show ?case
    using Cons.IH [of w "d @ [c]"] Cons.IH [of "put_node w (d @ [c]) Dir" "d @ [c]"]
    by (auto simp: mkdirs_from_Cons intro: more_dirs_trans [OF more_dirs_put])
qed simp

lemma mkdirs_from_dir:
  "is_dir w d \<Longrightarrow> fst (mkdirs_from w d cs) = Inr () \<Longrightarrow> is_dir (snd (mkdirs_from w d cs)) (d @ cs)"
proof (induction cs arbitrary: w d)
  case (Cons c cs)
  have "is_dir (put_node w (d @ [c]) Dir) (d @ [c])"
    by (simp add: is_dir_def)
  with Cons.prems Cons.IH [of w "d @ [c]"] Cons.IH [of "put_node w (d @ [c]) Dir" "d @ [c]"]
  show ?case by (auto simp: mkdirs_from_Cons split: if_splits)
qed simp

lemma mkdirs_more_dirs [simp]: "more_dirs w (snd (mkdirs w p))"
  by (simp add: mkdirs_def mkdirs_from_more_dirs)

lemma is_dir_root [simp]: "is_dir w []"
  by (simp add: is_dir_def node_at_def)

lemma mkdirs_fields [simp]:
  "readable (snd (mkdirs w p)) = readable w"
  "fate_of (snd (mkdirs w p)) = fate_of w"
  using more_dirs_fields [OF mkdirs_more_dirs] by simp_all

lemma mkdirs_dir: "fst (mkdirs w p) = Inr () \<Longrightarrow> is_dir (snd (mkdirs w p)) p"
  unfolding mkdirs_def using mkdirs_from_dir [of w "[]" p] by simp

text \<open>A write changes at most the node it names.\<close>

lemma write_text_frame:
  "q \<noteq> p \<Longrightarrow> node_at (snd (write_text w p t)) q = node_at w q"
  by (auto simp: write_text_def split: fate.splits)

lemma write_text_fields [simp]:
  "readable (snd (write_text w p t)) = readable w"
  "fate_of (snd (write_text w p t)) = fate_of w"
  by (auto simp: write_text_def split: fate.splits)

lemma write_text_ok:
  "fst (write_text w p t) = Inr () \<Longrightarrow> node_at (snd (write_text w p t)) p = Some (Reg t)"
  by (auto simp: write_text_def split: fate.splits if_splits)

lemma read_text_Inr:
  "read_text w p = Inr t \<longleftrightarrow> node_at w p = Some (Reg t) \<and> readable w p"
  by (auto simp: read_text_def split: option.splits node.splits)

section \<open>The file tree\<close>

text \<open>The parent of every entry is a directory; every operation keeps it so.\<close>

definition wf_world :: "world \<Rightarrow> bool" where
  "wf_world w \<longleftrightarrow> (\<forall>q c. node_at w (q @ [c]) \<noteq> None \<longrightarrow> is_dir w q)"

lemma wf_world_put:
  "wf_world w \<Longrightarrow> p \<noteq> [] \<Longrightarrow> is_dir w (butlast p) \<Longrightarrow> \<not> is_dir w p \<Longrightarrow> wf_world (put_node w p n)"
  unfolding wf_world_def is_dir_def
  by (metis butlast_snoc node_at_put option.distinct(1))

lemma mkdirs_from_wf:
  "wf_world w \<Longrightarrow> is_dir w d \<Longrightarrow> wf_world (snd (mkdirs_from w d cs))"
proof (induction cs arbitrary: w d)
  case (Cons c cs)
  show ?case
  proof (cases "is_dir w (d @ [c])")
    case True
    with Cons show ?thesis by (simp add: mkdirs_from_Cons)
  next
    case False
    moreover have "wf_world (put_node w (d @ [c]) Dir)"
      using Cons.prems False by (intro wf_world_put) auto
    moreover have "is_dir (put_node w (d @ [c]) Dir) (d @ [c])"
      by (simp add: is_dir_def)
    ultimately show ?thesis using Cons.IH Cons.prems by (simp add: mkdirs_from_Cons)
  qed
qed simp

lemma mkdirs_wf: "wf_world w \<Longrightarrow> wf_world (snd (mkdirs w p))"
  by (simp add: mkdirs_def mkdirs_from_wf)

lemma write_text_wf: "wf_world w \<Longrightarrow> wf_world (snd (write_text w p t))"
  by (auto simp: write_text_def wf_world_put split: fate.splits)

text \<open>
  Nothing stands in the way of writing \<open>p\<close>: no file in the place of a directory, and no refusal or
  full disk at \<open>p\<close> or above it. What a write elsewhere meets is left open.
\<close>

definition writable_path :: "world \<Rightarrow> path \<Rightarrow> bool" where
  "writable_path w p \<longleftrightarrow> p \<noteq> [] \<and> \<not> is_dir w p \<and>
     (\<forall>i < length p. \<not> is_file w (take i p)) \<and> (\<forall>i \<le> length p. fate_of w (take i p) = WOk)"

lemma file_or_dir_or_none:
  "\<not> is_file w q \<Longrightarrow> \<not> is_dir w q \<Longrightarrow> node_at w q = None"
  by (auto simp: is_file_def is_dir_def split: option.splits node.splits)

lemma mkdirs_from_ok:
  "\<forall>i \<le> length cs. fate_of w (d @ take i cs) = WOk \<Longrightarrow> \<forall>i \<le> length cs. \<not> is_file w (d @ take i cs) \<Longrightarrow>
   fst (mkdirs_from w d cs) = Inr ()"
proof (induction cs arbitrary: w d)
  case (Cons c cs)
  have nf: "\<forall>i \<le> length cs. \<not> is_file w ((d @ [c]) @ take i cs)"
    using Cons.prems(2) by (auto dest: spec [of _ "Suc _"])
  have ok: "\<forall>i \<le> length cs. fate_of w ((d @ [c]) @ take i cs) = WOk"
    using Cons.prems(1) by (auto dest: spec [of _ "Suc _"])
  have here: "fate_of w (d @ [c]) = WOk" using ok by (auto dest: spec [of _ 0])
  show ?case
  proof (cases "is_dir w (d @ [c])")
    case True
    with Cons.IH [OF ok nf] show ?thesis by (simp add: mkdirs_from_Cons)
  next
    case False
    moreover have "node_at w (d @ [c]) = None"
      using False nf by (intro file_or_dir_or_none) (auto dest: spec [of _ 0])
    moreover have "\<forall>i \<le> length cs. \<not> is_file (put_node w (d @ [c]) Dir) ((d @ [c]) @ take i cs)"
      using nf by (simp add: is_file_def)
    ultimately show ?thesis
      using Cons.IH [of "put_node w (d @ [c]) Dir" "d @ [c]"] ok here
      by (simp add: mkdirs_from_Cons)
  qed
qed simp

lemma mkdirs_ok:
  "\<forall>i \<le> length p. fate_of w (take i p) = WOk \<Longrightarrow> \<forall>i \<le> length p. \<not> is_file w (take i p) \<Longrightarrow>
   fst (mkdirs w p) = Inr ()"
  using mkdirs_from_ok [of p w "[]"] by (simp add: mkdirs_def)

text \<open>Making the parents of \<open>p\<close> creates no node at or beside \<open>p\<close>.\<close>

lemma mkdirs_from_prefixes:
  "node_at (snd (mkdirs_from w d cs)) q \<noteq> node_at w q \<Longrightarrow> \<exists>i. 0 < i \<and> i \<le> length cs \<and> q = d @ take i cs"
proof (induction cs arbitrary: w d)
  case (Cons c cs)
  have step: "\<exists>i. 0 < i \<and> i \<le> length (c # cs) \<and> q = d @ take i (c # cs)"
    if "\<exists>i. 0 < i \<and> i \<le> length cs \<and> q = (d @ [c]) @ take i cs"
  proof -
    from that obtain i where "0 < i" "i \<le> length cs" "q = d @ take (Suc i) (c # cs)" by auto
    then show ?thesis by (intro exI [of _ "Suc i"]) auto
  qed
  have here: "\<exists>i. 0 < i \<and> i \<le> length (c # cs) \<and> q = d @ take i (c # cs)" if "q = d @ [c]"
    using that by (intro exI [of _ 1]) auto
  show ?case
    using Cons.prems Cons.IH [of w "d @ [c]"] Cons.IH [of "put_node w (d @ [c]) Dir" "d @ [c]"]
      step here
    by (cases "q = d @ [c]") (auto simp: mkdirs_from_Cons split: if_splits)
qed simp

lemma mkdirs_prefixes:
  "node_at (snd (mkdirs w p)) q \<noteq> node_at w q \<Longrightarrow> \<exists>i. 0 < i \<and> i \<le> length p \<and> q = take i p"
  using mkdirs_from_prefixes [of w "[]" p q] by (simp add: mkdirs_def)

end
