(* ===== verification/ReceiptStore.thy ===== *)
theory ReceiptStore
  imports FileStore
begin

text \<open>
  The contract of a receipt store, which the receipt guard's \<open>_place\<close> and the all-reduce
  timer's \<open>flush\<close> share: a receipt is put under a key unless an equal one (modulo \<open>ts\<close>) is
  already there. The client facts below (re-running is a no-op, a batch of puts leaves every
  receipt in the store, a batch repeated changes nothing) are proved once from the contract.
\<close>

text \<open>Putting a batch: exceptions of single puts are swallowed, as the mirror does.\<close>

fun put_all ::
  "('w \<Rightarrow> 'k \<Rightarrow> json \<Rightarrow> string \<Rightarrow> 'r res \<times> 'w) \<Rightarrow> 'w \<Rightarrow> ('k \<times> json \<times> string) list \<Rightarrow> 'w" where
  "put_all put w [] = w"
| "put_all put w ((k, r, t) # items) = put_all put (snd (put w k r t)) items"

text \<open>Every put of the batch succeeds.\<close>

fun all_put ::
  "('w \<Rightarrow> 'k \<Rightarrow> json \<Rightarrow> string \<Rightarrow> 'r res \<times> 'w) \<Rightarrow> 'w \<Rightarrow> ('k \<times> json \<times> string) list \<Rightarrow> bool" where
  "all_put put w [] \<longleftrightarrow> True"
| "all_put put w ((k, r, t) # items) \<longleftrightarrow>
     (\<exists>b. fst (put w k r t) = Inr b) \<and> all_put put (snd (put w k r t)) items"

locale receipt_store =
  fixes put :: "'w \<Rightarrow> 'k \<Rightarrow> json \<Rightarrow> string \<Rightarrow> 'r res \<times> 'w"
    and unchanged :: 'r
    and holds :: "'w \<Rightarrow> 'k \<Rightarrow> json \<Rightarrow> bool"
    and sound :: "'w \<Rightarrow> 'k \<Rightarrow> json \<Rightarrow> string \<Rightarrow> bool"
  assumes put_skips: "holds w k r \<Longrightarrow> put w k r t = (Inr unchanged, w)"
    and put_stores: "fst (put w k r t) = Inr b \<Longrightarrow> sound w k r t \<Longrightarrow> holds (snd (put w k r t)) k r"
    and put_frame: "k' \<noteq> k \<Longrightarrow> holds w k' r' \<Longrightarrow> holds (snd (put w k r t)) k' r'"
    and put_sound: "sound w k' r' t' \<Longrightarrow> sound (snd (put w k r t)) k' r' t'"
begin

lemma put_again:
  "fst (put w k r t) = Inr b \<Longrightarrow> sound w k r t \<Longrightarrow>
   put (snd (put w k r t)) k r t' = (Inr unchanged, snd (put w k r t))"
  by (rule put_skips) (rule put_stores)

lemma put_all_skips: "\<forall>(k, r, t) \<in> set items. holds w k r \<Longrightarrow> put_all put w items = w"
  by (induction items) (auto simp: put_skips)

lemma put_all_keeps:
  "k \<notin> fst ` set items \<Longrightarrow> holds w k r \<Longrightarrow> holds (put_all put w items) k r"
proof (induction items arbitrary: w)
  case (Cons item items)
  then show ?case by (cases item) (auto intro: put_frame)
qed simp

lemma put_all_stores:
  "distinct (map fst items) \<Longrightarrow> \<forall>(k, r, t) \<in> set items. sound w k r t \<Longrightarrow> all_put put w items \<Longrightarrow>
   \<forall>(k, r, t) \<in> set items. holds (put_all put w items) k r"
proof (induction items arbitrary: w)
  case (Cons item items)
  obtain k r t where item: "item = (k, r, t)" by (cases item)
  let ?w = "snd (put w k r t)"
  have "holds ?w k r" using Cons.prems by (auto simp: item intro: put_stores)
  then have "holds (put_all put ?w items) k r"
    using Cons.prems(1) by (intro put_all_keeps) (auto simp: item)
  moreover have "\<forall>(k, r, t) \<in> set items. holds (put_all put ?w items) k r"
    using Cons.prems by (intro Cons.IH) (auto simp: item intro: put_sound)
  ultimately show ?case by (simp add: item)
qed simp

lemma put_all_again:
  assumes "distinct (map fst items)" "\<forall>(k, r, t) \<in> set items. sound w k r t" "all_put put w items"
  shows "put_all put (put_all put w items) items = put_all put w items"
  using put_all_stores [OF assms] by (rule put_all_skips)

end

end
