(* ===== verification/ReceiptRestore.thy ===== *)
theory ReceiptRestore
  imports ReceiptStore
begin

text \<open>
  \<open>scripts/receipt-restore.py\<close>: the purity guard (\<open>restore\<close>), the durable mirror
  (\<open>mirror\<close>) and the durable-first writer (\<open>write\<close>). The JSON decoder \<open>loads\<close>
  (\<open>None\<close> is \<open>ValueError\<close>) and the three git commands are arguments; the messages on
  standard error are not modelled.
\<close>

section \<open>Placing one receipt\<close>

definition durable_dir :: "string option \<Rightarrow> path option" where
  "durable_dir state =
     (case state of
        None \<Rightarrow> None
      | Some s \<Rightarrow> if s = [] then None else Some (path_parts s @ [''receipts'']))"

text \<open>Does \<open>path\<close> already hold a receipt that is equal modulo \<open>ts\<close>?\<close>

definition same_receipt ::
  "(string \<Rightarrow> json option) \<Rightarrow> world \<Rightarrow> path \<Rightarrow> json \<Rightarrow> bool" where
  "same_receipt loads w p receipt =
     (case read_text w p of
        Inl _ \<Rightarrow> False
      | Inr t \<Rightarrow> (case loads t of
           None \<Rightarrow> False
         | Some old \<Rightarrow> py_eq (strip_ts old) (strip_ts receipt)))"

definition place ::
  "(string \<Rightarrow> json option) \<Rightarrow> world \<Rightarrow> path \<Rightarrow> json \<Rightarrow> string \<Rightarrow> bool res \<times> world" where
  "place loads w p receipt text =
     (if is_file w p \<and> same_receipt loads w p receipt then (returned False, w)
      else case mkdirs w (butlast p) of
        (Inl e, w1) \<Rightarrow> (raised e, w1)
      | (Inr _, w1) \<Rightarrow>
          (case write_text w1 p text of
             (Inl e, w2) \<Rightarrow> (raised e, w2)
           | (Inr _, w2) \<Rightarrow> (returned True, w2)))"

definition json_suffix :: string where
  "json_suffix = ''.json''"

text \<open>
  Where a receipt belongs under a receipts root: \<open>name or receipt.get("step")\<close>, under
  \<open>failed/\<close> when its status is \<open>fail\<close> (an absolute name replaces \<open>failed\<close>, and later the root);
  \<open>None\<close> when there is no usable name.
\<close>

definition relative :: "json \<Rightarrow> string option \<Rightarrow> string option res" where
  "relative receipt name =
     res_bind
       (case name of
          Some (c # cs) \<Rightarrow> returned (Some (JStr (c # cs)))
        | _ \<Rightarrow> dget receipt ''step'')
       (\<lambda>step. case step of
          Some (JStr (c # cs)) \<Rightarrow>
            res_bind (dget receipt ''status'')
              (\<lambda>status. returned (Some
                 (if status = Some (JStr ''fail'') \<and> c \<noteq> CHR ''/''
                  then ''failed/'' @ (c # cs) @ json_suffix
                  else (c # cs) @ json_suffix)))
        | _ \<Rightarrow> returned None)"

section \<open>restore: undo a change of timestamps only\<close>

text \<open>
  The git commands the guard runs: the paths \<open>git diff --name-only\<close> prints, the text
  \<open>git show HEAD:rel\<close> prints (\<open>None\<close>: the command failed), and \<open>git checkout -- rel\<close>.
\<close>

record git =
  git_diff :: "world \<Rightarrow> string list res"
  git_show :: "string \<Rightarrow> string option"
  git_checkout :: "world \<Rightarrow> string \<Rightarrow> unit res \<times> world"

definition unchanged_modulo_ts ::
  "(string \<Rightarrow> json option) \<Rightarrow> git \<Rightarrow> path \<Rightarrow> world \<Rightarrow> string \<Rightarrow> bool" where
  "unchanged_modulo_ts loads g repo w rel =
     (case git_show g rel of
        None \<Rightarrow> False
      | Some ht \<Rightarrow> (case loads ht of
          None \<Rightarrow> False
        | Some head \<Rightarrow> (case read_text w (path_join repo rel) of
            Inl _ \<Rightarrow> False
          | Inr ct \<Rightarrow> (case loads ct of
              None \<Rightarrow> False
            | Some cur \<Rightarrow> py_eq (strip_ts head) (strip_ts cur)))))"

fun restore_all ::
  "(string \<Rightarrow> json option) \<Rightarrow> git \<Rightarrow> path \<Rightarrow> world \<Rightarrow> string list \<Rightarrow> unit res \<times> world" where
  "restore_all loads g repo w [] = (returned (), w)"
| "restore_all loads g repo w (rel # rels) =
     (if rel = [] \<or> \<not> endswith rel json_suffix then restore_all loads g repo w rels
      else if unchanged_modulo_ts loads g repo w rel then
        (case git_checkout g w rel of
           (Inl e, w') \<Rightarrow> (raised e, w')
         | (Inr _, w') \<Rightarrow> restore_all loads g repo w' rels)
      else restore_all loads g repo w rels)"

definition restore ::
  "(string \<Rightarrow> json option) \<Rightarrow> git \<Rightarrow> path \<Rightarrow> world \<Rightarrow> unit res \<times> world" where
  "restore loads g repo w =
     (case git_diff g w of
        Inl e \<Rightarrow> (raised e, w)
      | Inr rels \<Rightarrow> restore_all loads g repo w rels)"

section \<open>mirror: the durable copy\<close>

definition receipts_root :: "path \<Rightarrow> path" where
  "receipts_root repo = repo @ [''results'', ''receipts'']"

definition mirror_sources :: "world \<Rightarrow> path \<Rightarrow> path list" where
  "mirror_sources w repo =
     (let src = receipts_root repo in
      glob_json w src @ glob_json w (src @ [''failed'']))"

text \<open>One source file: unreadable and unparseable ones are skipped, a failing write is swallowed.\<close>

definition mirror_one ::
  "(string \<Rightarrow> json option) \<Rightarrow> path \<Rightarrow> path \<Rightarrow> path \<Rightarrow> nat \<times> world \<Rightarrow> nat \<times> world" where
  "mirror_one loads src_root dest_root src cw =
     (case cw of (copied, w) \<Rightarrow>
       (case read_text w src of
          Inl _ \<Rightarrow> (copied, w)
        | Inr text \<Rightarrow> (case loads text of
            None \<Rightarrow> (copied, w)
          | Some receipt \<Rightarrow>
              (case place loads w (dest_root @ drop (length src_root) src) receipt text of
                 (Inr True, w') \<Rightarrow> (Suc copied, w')
               | (_, w') \<Rightarrow> (copied, w')))))"

definition mirror ::
  "(string \<Rightarrow> json option) \<Rightarrow> string option \<Rightarrow> path \<Rightarrow> world \<Rightarrow> nat \<times> world" where
  "mirror loads state repo w =
     (case durable_dir state of
        None \<Rightarrow> (0, w)
      | Some dest \<Rightarrow>
          fold (mirror_one loads (receipts_root repo) dest) (mirror_sources w repo) (0, w))"

section \<open>write: durable copy first, in-repo copy second\<close>

definition durable_write ::
  "(string \<Rightarrow> json option) \<Rightarrow> string option \<Rightarrow> string \<Rightarrow> json \<Rightarrow> string \<Rightarrow> world \<Rightarrow> world" where
  "durable_write loads state rel receipt text w =
     (case durable_dir state of
        None \<Rightarrow> w
      | Some dest \<Rightarrow> snd (place loads w (path_join dest rel) receipt text))"

text \<open>\<open>source\<close> is the text read from the file or from standard input, or its exception.\<close>

definition rr_write ::
  "(string \<Rightarrow> json option) \<Rightarrow> string option \<Rightarrow> path \<Rightarrow> string res \<Rightarrow> string option \<Rightarrow> world
     \<Rightarrow> int res \<times> world" where
  "rr_write loads state repo source name w =
     (case source of
        Inl e \<Rightarrow> (raised e, w)
      | Inr text \<Rightarrow> (case loads text of
          None \<Rightarrow> (raised ValueError, w)
        | Some receipt \<Rightarrow> (case relative receipt name of
            Inl e \<Rightarrow> (raised e, w)
          | Inr None \<Rightarrow> (returned 2, w)
          | Inr (Some rel) \<Rightarrow>
              (let w1 = durable_write loads state rel receipt text w in
               case place loads w1 (path_join (receipts_root repo) rel) receipt text of
                 (Inl e, w2) \<Rightarrow> (raised e, w2)
               | (Inr _, w2) \<Rightarrow> (returned 0, w2)))))"

text \<open>\<open>main\<close>: \<open>--write\<close> with its source, or the plain run (restore, then mirror).\<close>

definition restore_main ::
  "(string \<Rightarrow> json option) \<Rightarrow> git \<Rightarrow> string option \<Rightarrow> path
     \<Rightarrow> (string res \<times> string option) option \<Rightarrow> world \<Rightarrow> int res \<times> world" where
  "restore_main loads g state repo wr w =
     (case wr of
        Some (source, name) \<Rightarrow> rr_write loads state repo source name w
      | None \<Rightarrow>
          (case restore loads g repo w of
             (Inl e, w1) \<Rightarrow> (raised e, w1)
           | (Inr _, w1) \<Rightarrow> (returned 0, snd (mirror loads state repo w1))))"

section \<open>The store contract\<close>

text \<open>The path holds a readable receipt that is equal to \<open>r\<close> modulo \<open>ts\<close>.\<close>

definition banked :: "(string \<Rightarrow> json option) \<Rightarrow> world \<Rightarrow> path \<Rightarrow> json \<Rightarrow> bool" where
  "banked loads w p r \<longleftrightarrow> is_file w p \<and> same_receipt loads w p r"

text \<open>\<open>t\<close> is a text of the receipt \<open>r\<close> that can be read back from \<open>p\<close> and compared.\<close>

definition sound_text ::
  "(string \<Rightarrow> json option) \<Rightarrow> world \<Rightarrow> path \<Rightarrow> json \<Rightarrow> string \<Rightarrow> bool" where
  "sound_text loads w p r t \<longleftrightarrow> readable w p \<and> loads t = Some r \<and> wf_json r \<and> no_nan r"

lemma is_file_iff: "is_file w p \<longleftrightarrow> (\<exists>t. node_at w p = Some (Reg t))"
  by (auto simp: is_file_def split: option.splits node.splits)

lemma banked_iff:
  "banked loads w p r \<longleftrightarrow>
     (\<exists>t old. node_at w p = Some (Reg t) \<and> readable w p \<and> loads t = Some old \<and>
              py_eq (strip_ts old) (strip_ts r))"
  by (auto simp: banked_def same_receipt_def is_file_iff read_text_def
           split: sum.splits option.splits node.splits if_splits)

lemma place_skips: "banked loads w p r \<Longrightarrow> place loads w p r t = (Inr False, w)"
  by (simp add: place_def banked_def)

lemma place_unbanked:
  "\<not> banked loads w p r \<Longrightarrow> place loads w p r t =
     (let w1 = snd (mkdirs w (butlast p)) in
      case fst (mkdirs w (butlast p)) of
        Inl e \<Rightarrow> (Inl e, w1)
      | Inr _ \<Rightarrow> (case fst (write_text w1 p t) of
          Inl e \<Rightarrow> (Inl e, snd (write_text w1 p t))
        | Inr _ \<Rightarrow> (Inr True, snd (write_text w1 p t))))"
  by (auto simp: place_def banked_def Let_def split: prod.splits sum.splits)

text \<open>The state a placement leaves: as before, more directories, or the write on top of them.\<close>

lemma place_world:
  "snd (place loads w p r t) \<in>
     {w, snd (mkdirs w (butlast p)), snd (write_text (snd (mkdirs w (butlast p))) p t)}"
  by (cases "banked loads w p r")
     (auto simp: place_skips place_unbanked Let_def split: sum.splits)

lemma place_fields [simp]:
  "readable (snd (place loads w p r t)) = readable w"
  "fate_of (snd (place loads w p r t)) = fate_of w"
  using place_world [of loads w p r t] by auto

lemma place_files:
  assumes "q \<noteq> p"
  shows "node_at (snd (place loads w p r t)) q = Some (Reg u) \<longleftrightarrow> node_at w q = Some (Reg u)"
  using place_world [of loads w p r t]
  by (auto simp: write_text_frame [OF assms] more_dirs_file [OF mkdirs_more_dirs])

lemma place_read: "q \<noteq> p \<Longrightarrow> read_text (snd (place loads w p r t)) q = read_text w q"
  using place_files [of q p loads w r t]
  by (cases "read_text w q"; cases "read_text (snd (place loads w p r t)) q")
     (auto simp: read_text_def split: option.splits node.splits if_splits)

lemma place_stores:
  assumes "fst (place loads w p r t) = Inr b" and "sound_text loads w p r t"
  shows "banked loads (snd (place loads w p r t)) p r"
proof (cases "banked loads w p r")
  case True
  then show ?thesis by (simp add: place_skips)
next
  case False
  let ?w1 = "snd (mkdirs w (butlast p))"
  from assms(1) False have "fst (write_text ?w1 p t) = Inr ()"
    and w2: "snd (place loads w p r t) = snd (write_text ?w1 p t)"
    by (auto simp: place_unbanked Let_def split: sum.splits)
  then have "node_at (snd (place loads w p r t)) p = Some (Reg t)"
    by (simp add: write_text_ok)
  with assms(2) show ?thesis
    by (auto simp: banked_iff sound_text_def py_eq_strip_refl)
qed

interpretation rr: receipt_store
  "place loads" False "banked loads" "sound_text loads" for loads
proof
  fix w k r t b k' r' t'
  show "banked loads w k r \<Longrightarrow> place loads w k r t = (Inr False, w)"
    by (rule place_skips)
  show "fst (place loads w k r t) = Inr b \<Longrightarrow> sound_text loads w k r t \<Longrightarrow>
        banked loads (snd (place loads w k r t)) k r"
    by (rule place_stores)
  show "k' \<noteq> k \<Longrightarrow> banked loads w k' r' \<Longrightarrow> banked loads (snd (place loads w k r t)) k' r'"
    by (auto simp: banked_iff place_files)
  show "sound_text loads w k' r' t' \<Longrightarrow> sound_text loads (snd (place loads w k r t)) k' r' t'"
    by (simp add: sound_text_def)
qed

text \<open>A path that nothing obstructs: the placement succeeds.\<close>

lemma place_ok:
  assumes "writable_path w p"
  shows "\<exists>b. fst (place loads w p r t) = Inr b"
proof (cases "banked loads w p r")
  case True
  then show ?thesis by (auto simp: place_skips intro: exI [of _ False])
next
  case False
  let ?m = "mkdirs w (butlast p)"
  have p: "p \<noteq> []" using assms by (simp add: writable_path_def)
  have "\<not> is_file w (take i (butlast p)) \<and> fate_of w (take i (butlast p)) = WOk" for i
  proof -
    have "take i (butlast p) = take (min i (length p - 1)) p" by (simp add: butlast_conv_take)
    moreover have "min i (length p - 1) < length p" using p by (cases p) auto
    ultimately show ?thesis using assms by (simp add: writable_path_def)
  qed
  then have ok: "fst ?m = Inr ()" by (intro mkdirs_ok) auto
  have fate: "fate_of w p = WOk" using assms unfolding writable_path_def by (metis order_refl take_all)
  have "node_at (snd ?m) p = node_at w p"
  proof (rule ccontr)
    assume "node_at (snd ?m) p \<noteq> node_at w p"
    then obtain i where "p = take i (butlast p)" using mkdirs_prefixes by blast
    then have "length p \<le> length p - 1" by (metis length_butlast length_take min.cobounded1)
    with p show False by (cases p) auto
  qed
  then have "\<not> is_dir (snd ?m) p" using assms by (simp add: writable_path_def is_dir_def)
  then have "fst (write_text (snd ?m) p t) = Inr ()"
    using assms p fate mkdirs_dir [OF ok] by (simp add: write_text_def writable_path_def)
  with ok False show ?thesis by (auto simp: place_unbanked Let_def intro: exI [of _ True])
qed

lemma place_wf: "wf_world w \<Longrightarrow> wf_world (snd (place loads w p r t))"
  using place_world [of loads w p r t] by (auto simp: mkdirs_wf write_text_wf)

text \<open>
  Equal modulo \<open>ts\<close>: whatever a re-run writes over an identical measurement, the file stays
  byte-identical.
\<close>

lemma place_pure:
  assumes "node_at w p = Some (Reg t0)" "readable w p" "loads t0 = Some r0"
    and "py_eq (strip_ts r0) (strip_ts r)"
  shows "place loads w p r t = (Inr False, w)"
  using assms by (intro place_skips) (auto simp: banked_iff)

section \<open>The mirror as a batch of placements\<close>

definition mirror_target :: "path \<Rightarrow> path \<Rightarrow> path \<Rightarrow> path" where
  "mirror_target src_root dest src = dest @ drop (length src_root) src"

text \<open>The sources that can be read and parsed, with their durable paths.\<close>

fun mirror_items ::
  "(string \<Rightarrow> json option) \<Rightarrow> path \<Rightarrow> path \<Rightarrow> world \<Rightarrow> path list \<Rightarrow> (path \<times> json \<times> string) list" where
  "mirror_items loads src_root dest w [] = []"
| "mirror_items loads src_root dest w (src # srcs) =
     (case read_text w src of
        Inl _ \<Rightarrow> mirror_items loads src_root dest w srcs
      | Inr text \<Rightarrow> (case loads text of
          None \<Rightarrow> mirror_items loads src_root dest w srcs
        | Some receipt \<Rightarrow>
            (mirror_target src_root dest src, receipt, text) #
            mirror_items loads src_root dest w srcs))"

lemma mirror_items_cong:
  "\<forall>src \<in> set srcs. read_text w' src = read_text w src \<Longrightarrow>
   mirror_items loads sr dest w' srcs = mirror_items loads sr dest w srcs"
  by (induction srcs) (auto split: sum.splits option.splits)

lemma mirror_items_keys:
  "fst ` set (mirror_items loads sr dest w srcs) \<subseteq> mirror_target sr dest ` set srcs"
  by (induction srcs) (auto split: sum.splits option.splits)

lemma mirror_items_set:
  "(p, r, t) \<in> set (mirror_items loads sr dest w srcs) \<longleftrightarrow>
   (\<exists>src \<in> set srcs. read_text w src = Inr t \<and> loads t = Some r \<and> p = mirror_target sr dest src)"
  by (induction srcs) (auto split: sum.splits option.splits)

lemma mirror_items_distinct:
  "distinct (map (mirror_target sr dest) srcs) \<Longrightarrow>
   distinct (map fst (mirror_items loads sr dest w srcs))"
proof (induction srcs)
  case (Cons src srcs)
  have "mirror_target sr dest src \<notin> fst ` set (mirror_items loads sr dest w srcs)"
    using Cons.prems mirror_items_keys [of loads sr dest w srcs] by auto
  with Cons show ?case by (auto split: sum.splits option.splits)
qed simp

lemma mirror_one_world:
  "snd (mirror_one loads sr dest src (c, w)) = put_all (place loads) w (mirror_items loads sr dest w [src])"
  by (auto simp: mirror_one_def mirror_target_def split: sum.splits option.splits prod.splits bool.splits)

lemma put_all_read:
  "q \<notin> fst ` set items \<Longrightarrow> read_text (put_all (place loads) w items) q = read_text w q"
proof (induction items arbitrary: w)
  case (Cons item items)
  then show ?case by (cases item) (auto simp: place_read)
qed simp

lemma put_all_append:
  "put_all put w (xs @ ys) = put_all put (put_all put w xs) ys"
  by (induction put w xs rule: put_all.induct) simp_all

text \<open>No target is a source: the fold over the sources is one batch computed up front.\<close>

lemma mirror_fold_world:
  assumes "mirror_target sr dest ` set srcs \<inter> set srcs = {}"
  shows "snd (fold (mirror_one loads sr dest) srcs (c, w))
         = put_all (place loads) w (mirror_items loads sr dest w srcs)"
  using assms
proof (induction srcs arbitrary: c w)
  case (Cons src srcs)
  let ?cw = "mirror_one loads sr dest src (c, w)"
  have world: "snd ?cw = put_all (place loads) w (mirror_items loads sr dest w [src])"
    by (rule mirror_one_world)
  have "read_text (snd ?cw) q = read_text w q" if "q \<in> set srcs" for q
    unfolding world using that Cons.prems mirror_items_keys [of loads sr dest w "[src]"]
    by (intro put_all_read) auto
  then have items: "mirror_items loads sr dest (snd ?cw) srcs = mirror_items loads sr dest w srcs"
    by (intro mirror_items_cong) simp
  have split: "mirror_items loads sr dest w (src # srcs)
      = mirror_items loads sr dest w [src] @ mirror_items loads sr dest w srcs"
    by (simp split: sum.splits option.splits)
  have "snd (fold (mirror_one loads sr dest) srcs ?cw)
      = put_all (place loads) (snd ?cw) (mirror_items loads sr dest (snd ?cw) srcs)"
    using Cons.IH [of "fst ?cw" "snd ?cw"] Cons.prems by (simp add: disjoint_iff)
  then show ?case
    unfolding split put_all_append items [unfolded world] world [symmetric]
    by (simp add: items)
qed simp

section \<open>Where the mirror reads and writes\<close>

lemma glob_json_set:
  "src \<in> set (glob_json w d) \<longleftrightarrow>
   (\<exists>n. src = d @ [n] \<and> endswith n json_suffix \<and> d @ [n] \<in> fst ` set (nodes w))"
proof
  assume "src \<in> set (glob_json w d)"
  then obtain p where "p \<in> fst ` set (nodes w)" "p \<noteq> []" "butlast p = d"
    "src = d @ [last p]" "endswith (last p) json_suffix"
    by (auto simp: glob_json_def children_def json_suffix_def)
  moreover from this have "d @ [last p] = p" by (metis append_butlast_last_id)
  ultimately show "\<exists>n. src = d @ [n] \<and> endswith n json_suffix \<and> d @ [n] \<in> fst ` set (nodes w)"
    by metis
next
  assume "\<exists>n. src = d @ [n] \<and> endswith n json_suffix \<and> d @ [n] \<in> fst ` set (nodes w)"
  then obtain n where n: "src = d @ [n]" "endswith n json_suffix" "d @ [n] \<in> fst ` set (nodes w)"
    by auto
  then have "n \<in> last ` set (children w d)"
    by (force simp: children_def)
  with n show "src \<in> set (glob_json w d)" by (auto simp: glob_json_def json_suffix_def)
qed

lemma glob_json_distinct: "distinct (glob_json w d)"
  by (simp add: glob_json_def distinct_map inj_on_def)

lemma failed_no_json: "\<not> endswith ''failed'' json_suffix"
  by (simp add: endswith_def json_suffix_def)

lemma mirror_sources_shape:
  "src \<in> set (mirror_sources w repo) \<Longrightarrow>
   \<exists>n. endswith n json_suffix \<and>
       (src = receipts_root repo @ [n] \<or> src = receipts_root repo @ [''failed'', n])"
  by (auto simp: mirror_sources_def Let_def glob_json_set)

lemma mirror_targets_shape:
  "src \<in> set (mirror_sources w repo) \<Longrightarrow>
   \<exists>n. endswith n json_suffix \<and>
       (mirror_target (receipts_root repo) dest src = dest @ [n] \<or>
        mirror_target (receipts_root repo) dest src = dest @ [''failed'', n])"
  by (auto dest!: mirror_sources_shape simp: mirror_target_def)

lemma mirror_sources_distinct: "distinct (mirror_sources w repo)"
  by (auto simp: mirror_sources_def Let_def glob_json_distinct glob_json_set failed_no_json)

lemma mirror_targets_distinct:
  "distinct (map (mirror_target (receipts_root repo) dest) (mirror_sources w repo))"
proof -
  have "inj_on (mirror_target (receipts_root repo) dest) (set (mirror_sources w repo))"
    by (auto simp: inj_on_def mirror_target_def dest!: mirror_sources_shape)
  then show ?thesis by (simp add: distinct_map mirror_sources_distinct)
qed

text \<open>The durable root does not lie inside the in-repo one.\<close>

definition outside_root :: "path \<Rightarrow> path \<Rightarrow> bool" where
  "outside_root repo dest \<longleftrightarrow> take (length (receipts_root repo)) dest \<noteq> receipts_root repo"

lemma outside_root_neq:
  assumes "outside_root repo dest" and "receipts_root repo @ xs = dest @ ys" and "xs \<noteq> []"
    and "ys = [n] \<or> ys = [''failed'', n]"
  shows False
proof -
  have short: "length dest < length (receipts_root repo)"
  proof (rule ccontr)
    assume "\<not> length dest < length (receipts_root repo)"
    then have "take (length (receipts_root repo)) dest
        = take (length (receipts_root repo)) (receipts_root repo @ xs)"
      using assms(2) by simp
    with assms(1) show False by (simp add: outside_root_def)
  qed
  define us where "us = drop (length dest) (receipts_root repo)"
  have "take (length dest) (receipts_root repo) = dest"
    using arg_cong [OF assms(2), of "take (length dest)"] short by simp
  then have us: "receipts_root repo = dest @ us"
    unfolding us_def by (metis append_take_drop_id)
  with assms(2) have ys: "us @ xs = ys" by simp
  have "us \<noteq> []" using us short by auto
  then have "last us = last (receipts_root repo)" by (simp add: us)
  then have "last us = ''receipts''" by (simp add: receipts_root_def)
  with assms(3,4) ys \<open>us \<noteq> []\<close> show False
    by (cases us; cases "tl us") auto
qed

lemma mirror_targets_no_source:
  assumes "outside_root repo dest"
  shows "mirror_target (receipts_root repo) dest ` set (mirror_sources w repo)
         \<inter> set (mirror_sources w' repo) = {}"
proof -
  have False
    if src: "src \<in> set (mirror_sources w repo)" and
      tgt: "mirror_target (receipts_root repo) dest src \<in> set (mirror_sources w' repo)" for src
  proof -
    obtain xs where "mirror_target (receipts_root repo) dest src = receipts_root repo @ xs" "xs \<noteq> []"
      using mirror_sources_shape [OF tgt] by auto
    moreover obtain n where "mirror_target (receipts_root repo) dest src = dest @ [n] \<or>
        mirror_target (receipts_root repo) dest src = dest @ [''failed'', n]"
      using mirror_targets_shape [OF src] by auto
    ultimately show False using outside_root_neq [OF assms] by metis
  qed
  then show ?thesis by blast
qed

text \<open>A placement at a target changes the listing of no source directory.\<close>

lemma map_fst_update:
  "map fst (AList.update k v xs) = (if k \<in> fst ` set xs then map fst xs else map fst xs @ [k])"
  by (simp add: update_keys)

lemma children_put:
  "butlast p \<noteq> d \<or> node_at w p \<noteq> None \<Longrightarrow> p \<noteq> [] \<Longrightarrow> children (put_node w p n) d = children w d"
  by (auto simp: children_def put_node_def map_fst_update node_at_def map_of_eq_None_iff)

lemma mkdirs_from_children:
  "\<forall>i < length cs. e @ take i cs \<noteq> d \<Longrightarrow> children (snd (mkdirs_from w e cs)) d = children w d"
proof (induction cs arbitrary: w e)
  case (Cons c cs)
  have here: "e \<noteq> d" using Cons.prems by (auto dest: spec [of _ 0])
  have rest: "\<forall>i < length cs. (e @ [c]) @ take i cs \<noteq> d"
  proof (intro allI impI)
    fix i assume "i < length cs"
    then show "(e @ [c]) @ take i cs \<noteq> d"
      using Cons.prems [rule_format, of "Suc i"] by simp
  qed
  show ?case
    using here Cons.IH [OF rest] by (simp add: mkdirs_from_Cons children_put)
qed simp

lemma write_text_children:
  "butlast p \<noteq> d \<Longrightarrow> children (snd (write_text w p t)) d = children w d"
  by (auto simp: write_text_def children_put split: fate.splits)

lemma place_children:
  assumes "\<forall>i < length p. take i p \<noteq> d"
  shows "children (snd (place loads w p r t)) d = children w d"
proof (cases "p = []")
  case True
  then show ?thesis
    using place_world [of loads w p r t] by (auto simp: mkdirs_def write_text_def)
next
  case False
  have "take i (butlast p) \<noteq> d" if "i < length (butlast p)" for i
    using that assms by (simp add: take_butlast)
  then have mk: "children (snd (mkdirs w (butlast p))) d = children w d"
    using mkdirs_from_children [of "butlast p" "[]" d w] by (simp add: mkdirs_def)
  have "butlast p \<noteq> d"
    using assms False by (auto simp: butlast_conv_take dest: spec [of _ "length p - 1"])
  with mk show ?thesis
    using place_world [of loads w p r t] by (auto simp: write_text_children)
qed

lemma mirror_target_prefixes:
  assumes "outside_root repo dest" "src \<in> set (mirror_sources w repo)"
    and "i < length (mirror_target (receipts_root repo) dest src)"
  shows "take i (mirror_target (receipts_root repo) dest src)
         \<notin> {receipts_root repo, receipts_root repo @ [''failed'']}"
proof -
  let ?p = "mirror_target (receipts_root repo) dest src"
  have rest: "drop i ?p \<noteq> []" using assms(3) by simp
  obtain n where "?p = dest @ [n] \<or> ?p = dest @ [''failed'', n]"
    using mirror_targets_shape [OF assms(2)] by auto
  then obtain ys where ys: "?p = dest @ ys" "ys = [n] \<or> ys = [''failed'', n]" by blast
  have "receipts_root repo @ xs \<noteq> ?p" if "xs \<noteq> []" for xs
    using outside_root_neq [OF assms(1) _ that ys(2)] ys(1) by auto
  from this [OF rest] this [of "''failed'' # drop i ?p"] show ?thesis
    using append_take_drop_id [of i ?p] by (auto simp del: append_take_drop_id)
qed

lemma put_all_sources:
  assumes "outside_root repo dest"
    and "fst ` set items \<subseteq> mirror_target (receipts_root repo) dest ` set (mirror_sources w0 repo)"
  shows "mirror_sources (put_all (place loads) w items) repo = mirror_sources w repo"
  using assms(2)
proof (induction items arbitrary: w)
  case (Cons item items)
  obtain p r t where item: "item = (p, r, t)" by (cases item)
  then obtain src where "src \<in> set (mirror_sources w0 repo)"
    and p: "p = mirror_target (receipts_root repo) dest src"
    using Cons.prems by auto
  then have "\<forall>i < length p. take i p \<notin> {receipts_root repo, receipts_root repo @ [''failed'']}"
    using mirror_target_prefixes [OF assms(1)] by blast
  then have "mirror_sources (snd (place loads w p r t)) repo = mirror_sources w repo"
    by (simp add: mirror_sources_def glob_json_def place_children)
  with Cons show ?case by (simp add: item)
qed simp

text \<open>Nothing obstructs the targets; placements at them do not obstruct each other.\<close>

lemma place_writable:
  assumes "writable_path w q" "\<forall>i < length p. take i p \<noteq> q" "\<forall>i < length q. take i q \<noteq> p"
  shows "writable_path (snd (place loads w p r t)) q"
proof -
  let ?w1 = "snd (mkdirs w (butlast p))"
  have q: "q \<noteq> []" "\<not> is_dir w q" using assms(1) by (auto simp: writable_path_def)
  have "node_at ?w1 q = node_at w q"
  proof (rule ccontr)
    assume "node_at ?w1 q \<noteq> node_at w q"
    then obtain i where i: "0 < i" "i \<le> length (butlast p)" "q = take i (butlast p)"
      using mkdirs_prefixes by blast
    then have "i < length p" using length_butlast [of p] by linarith
    with i have "q = take i p" by (simp add: take_butlast)
    with assms(2) \<open>i < length p\<close> show False by blast
  qed
  then have dir1: "\<not> is_dir ?w1 q" using q by (simp add: is_dir_def)
  then have dir: "\<not> is_dir (snd (place loads w p r t)) q"
    using place_world [of loads w p r t] q
    by (cases "q = p")
       (auto simp: is_dir_def write_text_frame write_text_def split: fate.splits if_splits)
  have "\<not> is_file (snd (place loads w p r t)) (take i q)" if "i < length q" for i
    using that assms(1,3) place_files [of "take i q" p loads w r t]
    by (auto simp: writable_path_def is_file_iff)
  with dir assms(1) q show ?thesis by (simp add: writable_path_def)
qed

lemma mirror_targets_apart:
  assumes "src \<in> set (mirror_sources w repo)" "src' \<in> set (mirror_sources w repo)"
    and "i < length (mirror_target (receipts_root repo) dest src)"
  shows "take i (mirror_target (receipts_root repo) dest src)
         \<noteq> mirror_target (receipts_root repo) dest src'"
proof -
  obtain m us where us: "endswith m json_suffix" "us = [m] \<or> us = [''failed'', m]"
    "mirror_target (receipts_root repo) dest src = dest @ us"
    using mirror_targets_shape [OF assms(1)] by blast
  obtain n vs where vs: "endswith n json_suffix" "vs = [n] \<or> vs = [''failed'', n]"
    "mirror_target (receipts_root repo) dest src' = dest @ vs"
    using mirror_targets_shape [OF assms(2)] by blast
  show ?thesis
  proof
    assume eq: "take i (mirror_target (receipts_root repo) dest src)
      = mirror_target (receipts_root repo) dest src'"
    have "length (take i (mirror_target (receipts_root repo) dest src)) = i"
      using assms(3) by simp
    then have i: "i = length dest + length vs" unfolding eq by (simp add: vs(3))
    from eq i have "take (length vs) us = vs" by (simp add: us(3) vs(3))
    moreover have "length vs < length us" using assms(3) i by (simp add: us(3))
    ultimately show False using us(1,2) vs(1,2) failed_no_json by auto
  qed
qed

lemma mirror_all_put:
  assumes "set srcs \<subseteq> set (mirror_sources w0 repo)"
    and "\<forall>src \<in> set srcs. writable_path w (mirror_target (receipts_root repo) dest src)"
  shows "all_put (place loads) w (mirror_items loads (receipts_root repo) dest v srcs)"
  using assms
proof (induction srcs arbitrary: w)
  case (Cons src srcs)
  let ?tgt = "mirror_target (receipts_root repo) dest"
  have keep: "\<forall>src' \<in> set srcs. writable_path (snd (place loads w (?tgt src) r t)) (?tgt src')" for r t
  proof
    fix src' assume "src' \<in> set srcs"
    then have "src \<in> set (mirror_sources w0 repo)" "src' \<in> set (mirror_sources w0 repo)"
      using Cons.prems by auto
    then show "writable_path (snd (place loads w (?tgt src) r t)) (?tgt src')"
      using Cons.prems \<open>src' \<in> set srcs\<close> mirror_targets_apart by (intro place_writable) auto
  qed
  have "\<exists>b. fst (place loads w (?tgt src) r t) = Inr b" for r t
    using Cons.prems by (intro place_ok) simp
  then show ?case
    using Cons.IH [of w] Cons.IH keep Cons.prems by (auto split: sum.splits option.splits)
qed simp

text \<open>What a second run needs: readable files, decodable receipts without NaN, free targets.\<close>

definition mirror_ready ::
  "(string \<Rightarrow> json option) \<Rightarrow> path \<Rightarrow> path \<Rightarrow> world \<Rightarrow> bool" where
  "mirror_ready loads repo dest w \<longleftrightarrow>
     outside_root repo dest \<and> (\<forall>p. readable w p) \<and>
     (\<forall>src \<in> set (mirror_sources w repo).
        writable_path w (mirror_target (receipts_root repo) dest src) \<and>
        (\<forall>t r. read_text w src = Inr t \<longrightarrow> loads t = Some r \<longrightarrow> wf_json r \<and> no_nan r))"

lemma mirror_world:
  assumes "durable_dir state = Some dest" "outside_root repo dest"
  shows "snd (mirror loads state repo w)
         = put_all (place loads) w (mirror_items loads (receipts_root repo) dest w (mirror_sources w repo))"
  using mirror_fold_world [OF mirror_targets_no_source [OF assms(2)]] assms(1)
  by (simp add: mirror_def)

lemma mirror_banks:
  assumes "durable_dir state = Some dest" "mirror_ready loads repo dest w"
  shows "\<forall>(p, r, t) \<in> set (mirror_items loads (receipts_root repo) dest w (mirror_sources w repo)).
           banked loads (snd (mirror loads state repo w)) p r"
proof -
  have out: "outside_root repo dest" using assms(2) by (simp add: mirror_ready_def)
  show ?thesis
    unfolding mirror_world [OF assms(1) out]
  proof (rule rr.put_all_stores)
    show "distinct (map fst (mirror_items loads (receipts_root repo) dest w (mirror_sources w repo)))"
      by (rule mirror_items_distinct) (rule mirror_targets_distinct)
    show "\<forall>(p, r, t) \<in> set (mirror_items loads (receipts_root repo) dest w (mirror_sources w repo)).
            sound_text loads w p r t"
      using assms(2) by (auto simp: mirror_items_set mirror_ready_def sound_text_def)
    show "all_put (place loads) w
            (mirror_items loads (receipts_root repo) dest w (mirror_sources w repo))"
      using assms(2) by (intro mirror_all_put) (auto simp: mirror_ready_def)
  qed
qed

text \<open>The source files a mirror run reads are the ones the next run reads.\<close>

lemma mirror_items_again:
  assumes "durable_dir state = Some dest" "outside_root repo dest"
  shows "mirror_items loads (receipts_root repo) dest (snd (mirror loads state repo w))
           (mirror_sources (snd (mirror loads state repo w)) repo)
         = mirror_items loads (receipts_root repo) dest w (mirror_sources w repo)"
proof -
  let ?items = "mirror_items loads (receipts_root repo) dest w (mirror_sources w repo)"
  have keys: "fst ` set ?items \<subseteq> mirror_target (receipts_root repo) dest ` set (mirror_sources w repo)"
    by (rule mirror_items_keys)
  have "mirror_sources (put_all (place loads) w ?items) repo = mirror_sources w repo"
    by (rule put_all_sources [OF assms(2) keys])
  moreover have "\<forall>src \<in> set (mirror_sources w repo).
      read_text (put_all (place loads) w ?items) src = read_text w src"
    using keys mirror_targets_no_source [OF assms(2), of w w] by (intro ballI put_all_read) blast
  ultimately show ?thesis
    by (simp add: mirror_world [OF assms] mirror_items_cong)
qed

lemma mirror_one_banked:
  assumes "\<And>t r. read_text w src = Inr t \<Longrightarrow> loads t = Some r \<Longrightarrow>
             banked loads w (mirror_target sr dest src) r"
  shows "mirror_one loads sr dest src (c, w) = (c, w)"
  using assms by (auto simp: mirror_one_def mirror_target_def place_skips split: sum.splits option.splits)

section \<open>Properties\<close>

text \<open>C7: Running the mirror a second time copies nothing and changes no file: a durable copy that is
  equal modulo \<open>ts\<close> is left byte-identical.\<close>

theorem mirror_idempotent:
  assumes "durable_dir state = Some dest" and "mirror_ready loads repo dest w"
  shows "mirror loads state repo (snd (mirror loads state repo w)) = (0, snd (mirror loads state repo w))"
proof -
  let ?w = "snd (mirror loads state repo w)"
  have out: "outside_root repo dest" using assms(2) by (simp add: mirror_ready_def)
  have banked: "\<forall>(p, r, t) \<in> set (mirror_items loads (receipts_root repo) dest ?w (mirror_sources ?w repo)).
      banked loads ?w p r"
    using mirror_banks [OF assms] by (simp add: mirror_items_again [OF assms(1) out])
  have "mirror_one loads (receipts_root repo) dest src (0, ?w) = (0, ?w)"
    if "src \<in> set (mirror_sources ?w repo)" for src
  proof (rule mirror_one_banked)
    fix t r assume "read_text ?w src = Inr t" "loads t = Some r"
    with that have "(mirror_target (receipts_root repo) dest src, r, t)
        \<in> set (mirror_items loads (receipts_root repo) dest ?w (mirror_sources ?w repo))"
      by (auto simp: mirror_items_set)
    with banked show "banked loads ?w (mirror_target (receipts_root repo) dest src) r" by blast
  qed
  then have "fold (mirror_one loads (receipts_root repo) dest) srcs (0, ?w) = (0, ?w)"
    if "set srcs \<subseteq> set (mirror_sources ?w repo)" for srcs
    using that by (induction srcs) auto
  then show ?thesis using assms(1) by (simp add: mirror_def)
qed

text \<open>After a mirror run every receipt of the repository that can be read and parsed, quarantined
  ones included, has a durable twin that is equal modulo \<open>ts\<close>.\<close>

theorem mirror_complete:
  assumes "durable_dir state = Some dest" and "mirror_ready loads repo dest w"
    and "src \<in> set (mirror_sources w repo)" and "read_text w src = Inr t" and "loads t = Some r"
  shows "banked loads (snd (mirror loads state repo w)) (mirror_target (receipts_root repo) dest src) r"
  using mirror_banks [OF assms(1,2)] assms(3-5) by (force simp: mirror_items_set)

text \<open>C10: \<open>--write\<close> puts the durable copy first: when nothing stands in the way at the durable path,
  the durable root ends with a receipt that is equal modulo \<open>ts\<close>, whatever becomes of the in-repo copy:
  its directories or its write may be refused, or a full disk may leave a torn file and raise.\<close>

theorem write_durable_first:
  assumes "durable_dir state = Some dest" and "loads text = Some r"
    and "relative r name = Inr (Some rel)"
    and "sound_text loads w (path_join dest rel) r text" and "writable_path w (path_join dest rel)"
    and "path_join dest rel \<noteq> path_join (receipts_root repo) rel"
  shows "banked loads (snd (rr_write loads state repo (Inr text) name w)) (path_join dest rel) r"
proof -
  let ?w1 = "snd (place loads w (path_join dest rel) r text)"
  obtain b where "fst (place loads w (path_join dest rel) r text) = Inr b"
    using place_ok [OF assms(5)] by blast
  then have "banked loads ?w1 (path_join dest rel) r"
    using assms(4) by (rule place_stores)
  then have "banked loads (snd (place loads ?w1 (path_join (receipts_root repo) rel) r text))
      (path_join dest rel) r"
    by (rule rr.put_frame [OF assms(6)])
  moreover have "snd (rr_write loads state repo (Inr text) name w)
      = snd (place loads ?w1 (path_join (receipts_root repo) rel) r text)"
    using assms(1-3) by (simp add: rr_write_def durable_write_def Let_def split: prod.splits sum.splits)
  ultimately show ?thesis by simp
qed

text \<open>What \<open>git checkout -- rel\<close> does when the index holds what HEAD holds.\<close>

definition checkout_law :: "git \<Rightarrow> path \<Rightarrow> bool" where
  "checkout_law g repo \<longleftrightarrow>
     (\<forall>v rel t. git_show g rel = Some t \<longrightarrow>
        git_checkout g v rel = (Inr (), put_node v (path_join repo rel) (Reg t)))"

definition reverts ::
  "(string \<Rightarrow> json option) \<Rightarrow> git \<Rightarrow> path \<Rightarrow> world \<Rightarrow> string \<Rightarrow> bool" where
  "reverts loads g repo w rel \<longleftrightarrow>
     rel \<noteq> [] \<and> endswith rel json_suffix \<and> unchanged_modulo_ts loads g repo w rel"

lemma unchanged_local:
  "node_at w (path_join repo rel) = node_at w' (path_join repo rel) \<Longrightarrow> readable w' = readable w \<Longrightarrow>
   unchanged_modulo_ts loads g repo w rel = unchanged_modulo_ts loads g repo w' rel"
proof -
  assume "node_at w (path_join repo rel) = node_at w' (path_join repo rel)" "readable w' = readable w"
  then have "read_text w' (path_join repo rel) = read_text w (path_join repo rel)"
    by (auto simp: read_text_def split: option.splits node.splits)
  then show ?thesis by (simp add: unchanged_modulo_ts_def cong: option.case_cong)
qed

lemma unchanged_shows:
  "unchanged_modulo_ts loads g repo w rel \<Longrightarrow>
   \<exists>t. git_show g rel = Some t \<and> path_join repo rel \<noteq> []"
  by (auto simp: unchanged_modulo_ts_def read_text_def node_at_def
      split: option.splits sum.splits node.splits if_splits)

lemma restore_all_exact:
  assumes "checkout_law g repo" "inj_on (path_join repo) (set rels)" "distinct rels"
  shows "fst (restore_all loads g repo w rels) = Inr () \<and>
     (\<forall>q. node_at (snd (restore_all loads g repo w rels)) q =
        (case find (\<lambda>rel. path_join repo rel = q \<and> reverts loads g repo w rel) rels of
           Some rel \<Rightarrow> map_option Reg (git_show g rel)
         | None \<Rightarrow> node_at w q))"
  using assms(2,3)
proof (induction rels arbitrary: w)
  case (Cons rel rels)
  show ?case
  proof (cases "reverts loads g repo w rel")
    case False
    then show ?thesis using Cons by (auto simp: reverts_def)
  next
    case True
    then obtain t where t: "git_show g rel = Some t" and ne: "path_join repo rel \<noteq> []"
      using unchanged_shows [of loads g repo w rel] by (auto simp: reverts_def)
    let ?w = "put_node w (path_join repo rel) (Reg t)"
    have step: "restore_all loads g repo w (rel # rels) = restore_all loads g repo ?w rels"
      using True assms(1) t by (simp add: reverts_def checkout_law_def)
    have other: "path_join repo rel' \<noteq> path_join repo rel" if "rel' \<in> set rels" for rel'
      using that Cons.prems by (auto simp: inj_on_def)
    then have rev: "reverts loads g repo ?w rel' = reverts loads g repo w rel'" if "rel' \<in> set rels" for rel'
      using that unchanged_local [of ?w repo rel' w loads g] by (simp add: reverts_def ne)
    have "find (\<lambda>r. path_join repo r = q \<and> reverts loads g repo ?w r) rels
        = find (\<lambda>r. path_join repo r = q \<and> reverts loads g repo w r) rels" for q
      by (rule find_cong) (auto simp: rev)
    moreover have "find (\<lambda>r. path_join repo r = path_join repo rel \<and> reverts loads g repo w r) rels = None"
      using other by (auto simp: find_None_iff)
    ultimately show ?thesis
      unfolding step using Cons.IH [of ?w] Cons.prems True t ne by (auto split: option.splits)
  qed
qed simp


section \<open>Witnesses\<close>

definition demo_receipt :: json where
  "demo_receipt = JObj [(''step'', JStr ''a''), (''status'', JStr ''pass''), (''ts'', JStr ''0'')]"

definition demo_loads :: "string \<Rightarrow> json option" where
  "demo_loads s =
     (if s = ''A'' then Some demo_receipt
      else if s = ''B'' then Some (JObj [(''ts'', JStr ''1''), (''status'', JStr ''pass''), (''step'', JStr ''a'')])
      else None)"

definition demo_world :: world where
  "demo_world = \<lparr>nodes =
     [([''r''], Dir), ([''r'', ''results''], Dir), ([''r'', ''results'', ''receipts''], Dir),
      ([''r'', ''results'', ''receipts'', ''a.json''], Reg ''A'')],
     readable = (\<lambda>_. True), fate_of = (\<lambda>_. WOk)\<rparr>"

definition demo_git :: git where
  "demo_git = \<lparr>git_diff = (\<lambda>_. Inr [''results/receipts/a.json'']), git_show = (\<lambda>_. Some ''B''),
     git_checkout = (\<lambda>v rel. (Inr (), put_node v (path_join [''r''] rel) (Reg ''B'')))\<rparr>"

lemma demo_sources: "mirror_sources demo_world [''r''] = [[''r'', ''results'', ''receipts'', ''a.json'']]"
  by code_simp

lemma demo_dest: "durable_dir (Some ''/s'') = Some [''s'', ''receipts'']"
  by code_simp

lemma demo_ready: "mirror_ready demo_loads [''r''] [''s'', ''receipts''] demo_world"
  unfolding mirror_ready_def demo_sources
  by (simp add: outside_root_def receipts_root_def demo_world_def mirror_target_def writable_path_def
      All_less_Suc is_dir_def is_file_def node_at_def numeral_2_eq_2 demo_loads_def demo_receipt_def)

theorem mirror_idempotent_witness:
  "mirror demo_loads (Some ''/s'') [''r''] (snd (mirror demo_loads (Some ''/s'') [''r''] demo_world))
   = (0, snd (mirror demo_loads (Some ''/s'') [''r''] demo_world))"
  by (rule mirror_idempotent [OF demo_dest demo_ready])

theorem mirror_complete_witness:
  "banked demo_loads (snd (mirror demo_loads (Some ''/s'') [''r''] demo_world))
     (mirror_target (receipts_root [''r'']) [''s'', ''receipts''] [''r'', ''results'', ''receipts'', ''a.json''])
     demo_receipt"
proof (rule mirror_complete [OF demo_dest demo_ready, where t = "''A''"])
  show "[''r'', ''results'', ''receipts'', ''a.json''] \<in> set (mirror_sources demo_world [''r''])"
    by (simp add: demo_sources)
  show "read_text demo_world [''r'', ''results'', ''receipts'', ''a.json''] = Inr ''A''"
    by (simp add: demo_world_def read_text_def node_at_def)
  show "demo_loads ''A'' = Some demo_receipt" by (simp add: demo_loads_def)
qed

text \<open>The disk of the repository is full: the in-repo write raises and leaves a torn file.\<close>

definition full_disk :: world where
  "full_disk = demo_world\<lparr>nodes := [([''r''], Dir), ([''r'', ''results''], Dir), ([''r'', ''results'', ''receipts''], Dir)],
     fate_of := (\<lambda>p. if p = [''r'', ''results'', ''receipts'', ''a.json''] then WTorn 0 else WOk)\<rparr>"

theorem write_durable_first_witness:
  "fst (rr_write demo_loads (Some ''/s'') [''r''] (Inr ''A'') None full_disk) = raised OSError \<and>
   banked demo_loads (snd (rr_write demo_loads (Some ''/s'') [''r''] (Inr ''A'') None full_disk))
     (path_join [''s'', ''receipts''] ''a.json'') demo_receipt"
proof -
  have d: "path_join [''s'', ''receipts''] ''a.json'' = [''s'', ''receipts'', ''a.json'']"
    by code_simp
  have r: "path_join (receipts_root [''r'']) ''a.json'' = [''r'', ''results'', ''receipts'', ''a.json'']"
    by code_simp
  have "banked demo_loads (snd (rr_write demo_loads (Some ''/s'') [''r''] (Inr ''A'') None full_disk))
     (path_join [''s'', ''receipts''] ''a.json'') demo_receipt"
  proof (rule write_durable_first [OF demo_dest])
    show "demo_loads ''A'' = Some demo_receipt" by (simp add: demo_loads_def)
    show "relative demo_receipt None = Inr (Some ''a.json'')" by code_simp
    show "sound_text demo_loads full_disk (path_join [''s'', ''receipts''] ''a.json'') demo_receipt ''A''"
      by (simp add: sound_text_def full_disk_def demo_world_def demo_loads_def demo_receipt_def)
    show "writable_path full_disk (path_join [''s'', ''receipts''] ''a.json'')"
      unfolding d by (auto simp: writable_path_def full_disk_def demo_world_def is_dir_def is_file_def node_at_def
          All_less_Suc take_Cons' split: if_splits)
    show "path_join [''s'', ''receipts''] ''a.json'' \<noteq> path_join (receipts_root [''r'']) ''a.json''"
      unfolding d r by simp
  qed
  moreover have "fst (rr_write demo_loads (Some ''/s'') [''r''] (Inr ''A'') None full_disk) = raised OSError"
    by code_simp
  ultimately show ?thesis by blast
qed


end
