(* ===== verification/ReceiptsVerify.thy ===== *)
theory ReceiptsVerify
  imports ReceiptRestore
begin

text \<open>
  \<open>scripts/receipts-verify.py\<close>, the ladder gate: the per-step bounds, the graded and the
  quarantined receipt sets over the two roots, \<open>--require\<close>, and \<open>main\<close> with its exit status.
  A violation is a value (one per printed violation line), an escaping exception is the \<open>Inl\<close> of
  the run. \<open>loads\<close> is the JSON decoder, \<open>utf8\<close> says which texts decode as UTF-8.
\<close>

section \<open>Bounds\<close>

datatype bound_error =
    ResidencyOver string json
  | TableResident
  | NotWarmed
  | NotByteIdentical
  | FewShards json
  | FewLoads
  | SingleArmMismatch json
  | NotCounterbalanced
  | ContextRatio json
  | ApertureDiverges json
  | U4NoOutcome
  | U4NoServeUp
  | U4NoReason string
  | U4BadOutcome string
  | U4OpenCount json
  | U4MissingKey string
  | U4NoRtt nat
  | U4NoExchange nat
  | U4MissingField string string
  | U4Throughput json
  | U4NoConfigfs string
  | U4NoDevice
  | U4NoLoop

type_synonym verdict = "bound_error option res"

text \<open>A sequence of checks: the first error is returned.\<close>

definition first_err :: "verdict \<Rightarrow> verdict \<Rightarrow> verdict" where
  "first_err a b = res_bind a (\<lambda>e. case e of Some x \<Rightarrow> returned (Some x) | None \<Rightarrow> b)"

definition fail_if :: "bool \<Rightarrow> bound_error \<Rightarrow> verdict" where
  "fail_if b e = returned (if b then Some e else None)"

definition get_or :: "json \<Rightarrow> string \<Rightarrow> json \<Rightarrow> json res" where
  "get_or d k dflt = res_bind (dget d k) (\<lambda>v. returned (case v of None \<Rightarrow> dflt | Some x \<Rightarrow> x))"

fun residency_ranks :: "(string \<times> json) list \<Rightarrow> verdict" where
  "residency_ranks [] = returned None"
| "residency_ranks ((rank, gib) # rest) =
     res_bind (py_gt gib 80)
       (\<lambda>over. if over then returned (Some (ResidencyOver rank gib)) else residency_ranks rest)"

definition residency :: "json \<Rightarrow> verdict" where
  "residency d =
     first_err
       (res_bind (dget d ''gtt_gib_per_rank'') (\<lambda>v. res_bind (dict_of (or_empty v)) residency_ranks))
       (first_err
         (res_bind (get_or d ''table_gpu_resident_bytes'' (JInt 0))
            (\<lambda>t. fail_if (\<not> py_eq t (JInt 0)) TableResident))
         (res_bind (get_or d ''read_after_warmed_decode'' (JBool False))
            (\<lambda>b. fail_if (\<not> truthy b) NotWarmed)))"

definition tp2_bound :: "json \<Rightarrow> verdict" where
  "tp2_bound d =
     res_bind (get_or d ''byte_identical_repeat'' (JBool False))
       (\<lambda>b. fail_if (\<not> truthy b) NotByteIdentical)"

definition weights :: "json \<Rightarrow> verdict" where
  "weights d =
     res_bind (get_or d ''shards'' (JInt 0))
       (\<lambda>n. res_bind (py_lt n 131) (\<lambda>few.
         res_bind (get_or d ''shards'' JNull) (\<lambda>shown. fail_if few (FewShards shown))))"

definition bench :: "json \<Rightarrow> verdict" where
  "bench d =
     first_err
       (res_bind (get_or d ''loads_per_arm'' (JInt 0))
          (\<lambda>n. res_bind (py_lt n 3) (\<lambda>few. fail_if few FewLoads)))
       (res_bind (dget d ''spec_on_failed'') (\<lambda>sf.
          if (case sf of None \<Rightarrow> False | Some x \<Rightarrow> truthy x)
          then res_bind (get_or d ''arms'' JNull)
                 (\<lambda>arms. fail_if (\<not> py_eq arms (JList [JStr ''spec_off''])) (SingleArmMismatch arms))
          else res_bind (get_or d ''counterbalanced'' (JBool False))
                 (\<lambda>b. fail_if (\<not> truthy b) NotCounterbalanced)))"

text \<open>The double nearest to 0.9.\<close>

definition double_0_9 :: rat where
  "double_0_9 = 8106479329266893 / 9007199254740992"

definition context_bound :: "json \<Rightarrow> verdict" where
  "context_bound d =
     res_bind (get_or d ''decode_ratio_vs_short_context'' JNull) (\<lambda>ratio.
       if ratio = JNull then returned None
       else res_bind (py_lt ratio double_0_9) (\<lambda>low. fail_if low (ContextRatio ratio)))"

definition smoke :: "json \<Rightarrow> verdict" where
  "smoke d =
     res_bind (dget d ''aperture'') (\<lambda>v.
     res_bind (get_or (or_empty v) ''ttm_pages_limit'' JNull) (\<lambda>ap.
       fail_if (ap \<noteq> JNull \<and> \<not> py_eq ap (JInt 33554432)) (ApertureDiverges ap)))"

section \<open>The stream-primitive receipt\<close>

text \<open>\<open>str(size) not in (d.get(key) or {})\<close> for each size of the schedule.\<close>

fun sizes_present :: "json \<Rightarrow> nat list \<Rightarrow> (nat \<Rightarrow> bound_error) \<Rightarrow> verdict" where
  "sizes_present stat [] err = returned None"
| "sizes_present stat (n # ns) err =
     res_bind (py_contains stat (str_nat n))
       (\<lambda>there. if there then sizes_present stat ns err else returned (Some (err n)))"

definition cell_fields :: "string \<Rightarrow> json \<Rightarrow> verdict" where
  "cell_fields size_name cell =
     first_err
       (res_bind (get_or (or_empty (Some cell)) ''p50'' JNull)
          (\<lambda>v. fail_if (v = JNull) (U4MissingField size_name ''p50'')))
       (res_bind (get_or (or_empty (Some cell)) ''p99'' JNull)
          (\<lambda>v. fail_if (v = JNull) (U4MissingField size_name ''p99'')))"

fun stat_cells :: "(string \<times> json) list \<Rightarrow> verdict" where
  "stat_cells [] = returned None"
| "stat_cells ((size_name, cell) # rest) = first_err (cell_fields size_name cell) (stat_cells rest)"

text \<open>\<open>len(tput) < 2 or any(v is None for v in tput.values())\<close>\<close>

fun tput_bad :: "json \<Rightarrow> bool res" where
  "tput_bad (JObj kvs) = returned (length kvs < 2 \<or> JNull \<in> snd ` set kvs)"
| "tput_bad (JList xs) = (if length xs < 2 then returned True else raised AttributeError)"
| "tput_bad (JStr s) = (if length s < 2 then returned True else raised AttributeError)"
| "tput_bad _ = raised TypeError"

fun opens_bad :: "json \<Rightarrow> bool" where
  "opens_bad (JObj kvs) = (kvs = [] \<or> (\<exists>v \<in> snd ` set kvs. \<not> py_eq v (JInt 1)))"
| "opens_bad x = (\<not> py_eq x (JInt 1))"

definition key_present :: "json \<Rightarrow> string \<Rightarrow> verdict" where
  "key_present d k = res_bind (get_or d k JNull) (\<lambda>v. fail_if (\<not> truthy v) (U4MissingKey k))"

definition device_end :: "json \<Rightarrow> string \<Rightarrow> bool res" where
  "device_end d side =
     res_bind (dget d ''device'') (\<lambda>v.
     res_bind (get_or (or_empty v) side JNull) (\<lambda>x. returned (truthy x)))"

text \<open>The checks of an \<open>ok\<close> receipt, in the order of the code.\<close>

definition usb4stream_ok :: "json \<Rightarrow> verdict" where
  "usb4stream_ok d =
     first_err (res_bind (get_or d ''open_count'' JNull) (\<lambda>opens. fail_if (opens_bad opens) (U4OpenCount opens)))
    (first_err (key_present d ''rtt_us'')
    (first_err (key_present d ''exchange_us'')
    (first_err (key_present d ''throughput_mb_s'')
    (first_err (key_present d ''device'')
    (first_err (res_bind (dget d ''rtt_us'')
                  (\<lambda>v. sizes_present (or_empty v) [64, 4096, 16384, 65536] U4NoRtt))
    (first_err (res_bind (dget d ''exchange_us'')
                  (\<lambda>v. sizes_present (or_empty v) [8192, 16384, 65536] U4NoExchange))
    (first_err (res_bind (dget d ''rtt_us'') (\<lambda>v. res_bind (dict_of (or_empty v)) stat_cells))
    (first_err (res_bind (dget d ''exchange_us'') (\<lambda>v. res_bind (dict_of (or_empty v)) stat_cells))
    (first_err (res_bind (dget d ''throughput_mb_s'')
                  (\<lambda>v. res_bind (tput_bad (or_empty v)) (\<lambda>b. fail_if b (U4Throughput (or_empty v)))))
    (first_err (res_bind (py_contains d ''ring_size'') (\<lambda>b. fail_if (\<not> b) (U4NoConfigfs ''ring_size'')))
    (first_err (res_bind (py_contains d ''throttling'') (\<lambda>b. fail_if (\<not> b) (U4NoConfigfs ''throttling'')))
    (first_err (res_bind (device_end d ''coordinator'') (\<lambda>a.
                  if \<not> a then returned (Some U4NoDevice)
                  else res_bind (device_end d ''peer'') (\<lambda>b. fail_if (\<not> b) U4NoDevice)))
       (res_bind (get_or d ''loop'' JNull) (\<lambda>l. fail_if (\<not> py_eq l (JStr ''python'')) U4NoLoop))))))))))))))"

definition usb4stream :: "json \<Rightarrow> verdict" where
  "usb4stream d =
     res_bind (get_or d ''outcome'' JNull) (\<lambda>oc.
       case oc of
         JStr (c # cs) \<Rightarrow>
           (let outcome = c # cs in
            res_bind (py_contains d ''serve_up'') (\<lambda>there.
              if \<not> there then returned (Some U4NoServeUp)
              else if startswith outcome ''skipped:'' then
                fail_if (strip (drop 8 outcome) = []) (U4NoReason outcome)
              else if startswith outcome ''aborted:'' then
                fail_if (strip (drop 8 outcome) = []) (U4NoReason outcome)
              else if outcome \<noteq> ''ok'' then returned (Some (U4BadOutcome outcome))
              else usb4stream_ok d))
       | _ \<Rightarrow> returned (Some U4NoOutcome))"

definition BOUNDS :: "(string \<times> (json \<Rightarrow> verdict)) list" where
  "BOUNDS =
     [(''residency'', residency), (''tp2'', tp2_bound), (''weights'', weights), (''bench'', bench),
      (''context'', context_bound), (''smoke'', smoke), (''usb4stream'', usb4stream)]"

section \<open>The receipt sets\<close>

definition durable_receipts :: "string option \<Rightarrow> path option" where
  "durable_receipts state =
     (case state of
        None \<Rightarrow> None
      | Some s \<Rightarrow> if s = [] then None else Some (path_parts s @ [''receipts'']))"

definition receipt_dirs :: "path \<Rightarrow> string option \<Rightarrow> path list" where
  "receipt_dirs repo state =
     receipts_root repo # (case durable_receipts state of None \<Rightarrow> [] | Some d \<Rightarrow> [d])"

definition add_dir :: "world \<Rightarrow> path \<Rightarrow> (string \<times> path) list \<Rightarrow> (string \<times> path) list" where
  "add_dir w base found =
     (if is_dir w base then fold (\<lambda>p d. setdefault d (last p) p) (glob_json w base) found else found)"

definition graded :: "world \<Rightarrow> path \<Rightarrow> string option \<Rightarrow> (string \<times> path) list" where
  "graded w repo state = fold (add_dir w) (receipt_dirs repo state) []"

definition quarantined :: "world \<Rightarrow> path \<Rightarrow> string option \<Rightarrow> (string \<times> path) list" where
  "quarantined w repo state =
     fold (\<lambda>base. add_dir w (base @ [''failed''])) (receipt_dirs repo state) []"

text \<open>The names a receipt answers to: its file stem and its declared step.\<close>

definition names_of :: "path \<Rightarrow> json option \<Rightarrow> string list res" where
  "names_of p receipt =
     res_bind (dget (or_empty receipt) ''step'')
       (\<lambda>step. returned (stem (last p) #
          (case step of Some (JStr (c # cs)) \<Rightarrow> [c # cs] | _ \<Rightarrow> [])))"

definition read_receipt :: "(string \<Rightarrow> bool) \<Rightarrow> (string \<Rightarrow> json option) \<Rightarrow> world \<Rightarrow> path \<Rightarrow> json option" where
  "read_receipt utf8 loads w p =
     (case read_text w p of Inl _ \<Rightarrow> None | Inr t \<Rightarrow> if utf8 t then loads t else None)"

section \<open>Grading\<close>

datatype violation =
    PatchUnparsable
  | InvalidJson path
  | MissingKey path string
  | StepFailed path json
  | BoundViolated path bound_error
  | RequiredFailed string
  | RequiredAbsent string

fun missing_keys :: "path \<Rightarrow> json \<Rightarrow> string list \<Rightarrow> violation list res" where
  "missing_keys p r [] = returned []"
| "missing_keys p r (k # ks) =
     res_bind (py_contains r k) (\<lambda>there.
     res_bind (missing_keys p r ks) (\<lambda>vs. returned (if there then vs else MissingKey p k # vs)))"

text \<open>
  \<open>str(r.get("step", "")).startswith(prefix)\<close>: the text of a value that is no string starts with
  a digit, a sign, a bracket or one of \<open>N\<close>, \<open>T\<close>, \<open>F\<close>, \<open>n\<close>, \<open>i\<close>, and no bound does.
\<close>

definition step_has_prefix :: "json \<Rightarrow> string \<Rightarrow> bool" where
  "step_has_prefix step prefix = (case step of JStr s \<Rightarrow> startswith s prefix | _ \<Rightarrow> False)"

fun check_bounds ::
  "path \<Rightarrow> json \<Rightarrow> (string \<times> (json \<Rightarrow> verdict)) list \<Rightarrow> violation list res" where
  "check_bounds p r [] = returned []"
| "check_bounds p r ((prefix, check) # bs) =
     res_bind (get_or r ''step'' (JStr [])) (\<lambda>step.
       if step_has_prefix step prefix then
         res_bind (dget r ''data'') (\<lambda>data.
         res_bind (check (or_empty data)) (\<lambda>err.
         res_bind (check_bounds p r bs) (\<lambda>vs. returned
           (case err of None \<Rightarrow> vs | Some e \<Rightarrow> BoundViolated p e # vs))))
       else check_bounds p r bs)"

definition grade_receipt :: "path \<Rightarrow> json \<Rightarrow> (string list \<times> violation list) res" where
  "grade_receipt p r =
     res_bind (names_of p (Some r)) (\<lambda>names.
     res_bind (missing_keys p r [''step'', ''status'', ''ts'']) (\<lambda>v1.
     res_bind (dget r ''status'') (\<lambda>status.
     res_bind (get_or r ''step'' JNull) (\<lambda>step.
     res_bind (check_bounds p r BOUNDS) (\<lambda>v3. returned
       (names, v1 @ (if status = Some (JStr ''fail'') then [StepFailed p step] else []) @ v3))))))"

definition grade_path ::
  "(string \<Rightarrow> bool) \<Rightarrow> (string \<Rightarrow> json option) \<Rightarrow> world \<Rightarrow> path \<Rightarrow> (string list \<times> violation list) res" where
  "grade_path utf8 loads w p =
     (case read_text w p of
        Inl _ \<Rightarrow> returned ([], [InvalidJson p])
      | Inr t \<Rightarrow>
          if \<not> utf8 t then raised ValueError
          else (case loads t of
            None \<Rightarrow> returned ([], [InvalidJson p])
          | Some r \<Rightarrow> grade_receipt p r))"

fun grade_all ::
  "(string \<Rightarrow> bool) \<Rightarrow> (string \<Rightarrow> json option) \<Rightarrow> world \<Rightarrow> path list \<Rightarrow> (string list \<times> violation list) res" where
  "grade_all utf8 loads w [] = returned ([], [])"
| "grade_all utf8 loads w (p # ps) =
     res_bind (grade_path utf8 loads w p) (\<lambda>(names, vs).
     res_bind (grade_all utf8 loads w ps) (\<lambda>(names', vs'). returned (names @ names', vs @ vs')))"

fun quarantine_names :: "(string \<Rightarrow> bool) \<Rightarrow> (string \<Rightarrow> json option) \<Rightarrow> world \<Rightarrow> path list \<Rightarrow> string list res" where
  "quarantine_names utf8 loads w [] = returned []"
| "quarantine_names utf8 loads w (p # ps) =
     res_bind (names_of p (read_receipt utf8 loads w p)) (\<lambda>names.
     res_bind (quarantine_names utf8 loads w ps) (\<lambda>names'. returned (names @ names')))"

definition expected :: "string list \<Rightarrow> string list \<Rightarrow> string list \<Rightarrow> violation list" where
  "expected required present failed =
     map (\<lambda>s. if s \<in> set failed then RequiredFailed s else RequiredAbsent s)
       (filter (\<lambda>s. s \<notin> set present) required)"

text \<open>\<open>--require\<close>: comma-separated, repeatable, blanks and repetitions dropped.\<close>

definition parse_require :: "string list \<Rightarrow> string list" where
  "parse_require chunks =
     fold (\<lambda>name acc. if name \<noteq> [] \<and> name \<notin> set acc then acc @ [name] else acc)
       (concat (map (\<lambda>chunk. map strip (split_on (CHR '','') chunk)) chunks)) []"

definition handoff_patch_ok :: "world \<Rightarrow> path \<Rightarrow> int \<Rightarrow> violation list" where
  "handoff_patch_ok w repo git_apply_rc =
     (if is_file w (repo @ [''handoff'', ''catalog-row.patch'']) \<and> git_apply_rc \<noteq> 0
      then [PatchUnparsable] else [])"

record gate_report =
  seen :: nat
  violations :: "violation list"
  warned :: "path list"

definition verify_run ::
  "(string \<Rightarrow> bool) \<Rightarrow> (string \<Rightarrow> json option) \<Rightarrow> int \<Rightarrow> path \<Rightarrow> string option \<Rightarrow> string list \<Rightarrow> world
     \<Rightarrow> gate_report res" where
  "verify_run utf8 loads rc repo state requires w =
     (let required = parse_require requires;
          patch = handoff_patch_ok w repo rc in
      if \<not> list_ex (is_dir w) (receipt_dirs repo state) then
        returned \<lparr>seen = 0, violations = patch @ expected required [] [], warned = []\<rparr>
      else
        (let ps = map snd (graded w repo state);
             qs = map snd (quarantined w repo state) in
         res_bind (grade_all utf8 loads w ps) (\<lambda>(present, vs).
         res_bind (quarantine_names utf8 loads w qs) (\<lambda>failed. returned
           \<lparr>seen = length ps, violations = patch @ vs @ expected required present failed,
            warned = qs\<rparr>))))"

text \<open>The process status: 1 for a traceback, 2 for any violation, else 0.\<close>

definition exit_code :: "gate_report res \<Rightarrow> int" where
  "exit_code r = (case r of Inl _ \<Rightarrow> 1 | Inr rep \<Rightarrow> if violations rep = [] then 0 else 2)"

section \<open>Verdicts\<close>

lemma first_err_pass [simp]: "first_err a b = Inr None \<longleftrightarrow> a = Inr None \<and> b = Inr None"
  by (cases a) (auto simp: first_err_def split: option.splits)

lemma fail_if_pass [simp]: "fail_if b e = Inr None \<longleftrightarrow> \<not> b"
  by (simp add: fail_if_def)

lemma dget_JObj [simp]: "dget (JObj kvs) k = Inr (map_of kvs k)"
  by (simp add: dget_def)

lemma get_or_JObj [simp]:
  "get_or (JObj kvs) k dflt = Inr (case map_of kvs k of None \<Rightarrow> dflt | Some x \<Rightarrow> x)"
  by (simp add: get_or_def)

lemma or_empty_JObj: "or_empty v = JObj kvs \<Longrightarrow> kvs \<noteq> [] \<Longrightarrow> v = Some (JObj kvs)"
  by (auto simp: or_empty_def split: option.splits if_splits)

lemma dict_of_Inr: "dict_of x = Inr kvs \<longleftrightarrow> x = JObj kvs"
  by (cases x) auto

lemma dget_Inr: "dget d k = Inr v \<longleftrightarrow> (\<exists>kvs. d = JObj kvs \<and> v = map_of kvs k)"
  by (auto simp: dget_def res_simps dict_of_Inr)

lemma get_or_Inr:
  "get_or d k dflt = Inr v \<longleftrightarrow>
   (\<exists>kvs. d = JObj kvs \<and> v = (case map_of kvs k of None \<Rightarrow> dflt | Some x \<Rightarrow> x))"
  by (auto simp: get_or_def res_simps dget_Inr)

section \<open>What an accepted stream receipt says\<close>

definition stat_complete :: "json option \<Rightarrow> nat list \<Rightarrow> bool" where
  "stat_complete v sizes \<longleftrightarrow>
     (\<exists>cells. v = Some (JObj cells) \<and> cells \<noteq> [] \<and>
        (\<forall>n \<in> set sizes. map_of cells (str_nat n) \<noteq> None) \<and>
        (\<forall>(k, c) \<in> set cells. \<exists>cell. c = JObj cell \<and>
           (\<forall>f \<in> {''p50'', ''p99''}. \<exists>x. map_of cell f = Some x \<and> x \<noteq> JNull)))"

definition device_complete :: "json option \<Rightarrow> bool" where
  "device_complete v \<longleftrightarrow>
     (\<exists>ends. v = Some (JObj ends) \<and>
        (\<forall>side \<in> {''coordinator'', ''peer''}. \<exists>x. map_of ends side = Some x \<and> truthy x))"

definition tput_complete :: "json option \<Rightarrow> bool" where
  "tput_complete v \<longleftrightarrow>
     (\<exists>ts. v = Some (JObj ts) \<and> 2 \<le> length ts \<and> (\<forall>(k, x) \<in> set ts. x \<noteq> JNull))"

definition opened_once :: "json option \<Rightarrow> bool" where
  "opened_once v \<longleftrightarrow> (\<exists>x. v = Some x \<and> \<not> opens_bad x)"

text \<open>The schedule is fully present and each side opened its device exactly once.\<close>

definition complete_ok :: "(string \<times> json) list \<Rightarrow> bool" where
  "complete_ok kvs \<longleftrightarrow>
     opened_once (map_of kvs ''open_count'') \<and>
     stat_complete (map_of kvs ''rtt_us'') [64, 4096, 16384, 65536] \<and>
     stat_complete (map_of kvs ''exchange_us'') [8192, 16384, 65536] \<and>
     tput_complete (map_of kvs ''throughput_mb_s'') \<and>
     device_complete (map_of kvs ''device'') \<and>
     map_of kvs ''ring_size'' \<noteq> None \<and> map_of kvs ''throttling'' \<noteq> None \<and>
     map_of kvs ''loop'' = Some (JStr ''python'')"

text \<open>A skip or an abort with its reason.\<close>

definition typed_refusal :: "string \<Rightarrow> bool" where
  "typed_refusal oc \<longleftrightarrow>
     (\<exists>reason. (oc = ''skipped:'' @ reason \<or> oc = ''aborted:'' @ reason) \<and> strip reason \<noteq> [])"

lemma key_present_pass:
  "key_present (JObj kvs) k = Inr None \<longleftrightarrow> (\<exists>x. map_of kvs k = Some x \<and> truthy x)"
  by (auto simp: key_present_def split: option.splits)

lemma sizes_present_pass:
  "sizes_present (JObj cells) ns err = Inr None \<longleftrightarrow> (\<forall>n \<in> set ns. map_of cells (str_nat n) \<noteq> None)"
  by (induction ns) auto

lemma cell_fields_pass:
  "cell_fields n c = Inr None \<longleftrightarrow>
   (\<exists>cell. c = JObj cell \<and> (\<forall>f \<in> {''p50'', ''p99''}. \<exists>x. map_of cell f = Some x \<and> x \<noteq> JNull))"
  by (cases c)
     (auto simp: cell_fields_def or_empty_def get_or_def dget_def fail_if_def first_err_def
           split: option.splits if_splits)

lemma stat_cells_pass:
  "stat_cells cells = Inr None \<longleftrightarrow>
   (\<forall>(k, c) \<in> set cells. \<exists>cell. c = JObj cell \<and>
      (\<forall>f \<in> {''p50'', ''p99''}. \<exists>x. map_of cell f = Some x \<and> x \<noteq> JNull))"
  by (induction cells rule: stat_cells.induct) (auto simp: cell_fields_pass)

lemma tput_pass:
  "tput_bad x = Inr False \<longleftrightarrow> (\<exists>ts. x = JObj ts \<and> 2 \<le> length ts \<and> (\<forall>(k, v) \<in> set ts. v \<noteq> JNull))"
  by (cases x) (force split: if_splits)+

lemma or_empty_Some_JObj [simp]: "or_empty (Some (JObj kvs)) = JObj kvs"
  by (simp add: or_empty_def)

lemma or_empty_None [simp]: "or_empty None = JObj []"
  by (simp add: or_empty_def)

lemma device_end_true:
  "device_end (JObj kvs) side = Inr True \<longleftrightarrow>
   (\<exists>ends x. map_of kvs ''device'' = Some (JObj ends) \<and> map_of ends side = Some x \<and> truthy x)"
proof (cases "map_of kvs ''device''")
  case (Some v)
  then show ?thesis
    by (cases v) (auto simp: device_end_def or_empty_def get_or_def dget_def split: option.splits)
qed (auto simp: device_end_def)

lemma stat_pass:
  "(\<exists>x. v = Some x \<and> truthy x) \<and> sizes_present (or_empty v) ns err = Inr None \<and>
   res_bind (dict_of (or_empty v)) stat_cells = Inr None \<longleftrightarrow> stat_complete v ns"
  by (cases v; cases "the v")
     (auto simp: stat_complete_def or_empty_def sizes_present_pass stat_cells_pass split: if_splits)

lemma tput_pass_or_empty:
  "(\<exists>x. v = Some x \<and> truthy x) \<and> tput_bad (or_empty v) = Inr False \<longleftrightarrow> tput_complete v"
  by (auto simp: tput_pass tput_complete_def or_empty_def split: option.splits if_splits)

lemma res_bind_fail_if_pass [simp]:
  "res_bind m (\<lambda>b. fail_if (f b) e) = Inr None \<longleftrightarrow> (\<exists>b. m = Inr b \<and> \<not> f b)"
  by (simp add: res_simps)

lemma device_step_pass:
  "res_bind (device_end (JObj kvs) ''coordinator'') (\<lambda>a.
     if \<not> a then returned (Some U4NoDevice)
     else res_bind (device_end (JObj kvs) ''peer'') (\<lambda>b. fail_if (\<not> b) U4NoDevice)) = Inr None
   \<longleftrightarrow> device_complete (map_of kvs ''device'')"
proof -
  have "?thesis \<longleftrightarrow> (device_end (JObj kvs) ''coordinator'' = Inr True \<and> device_end (JObj kvs) ''peer'' = Inr True
      \<longleftrightarrow> device_complete (map_of kvs ''device''))"
    by (auto simp: res_simps split: if_splits)
  then show ?thesis by (auto simp: device_end_true device_complete_def)
qed

lemma usb4stream_ok_pass: "usb4stream_ok (JObj kvs) = Inr None \<longleftrightarrow> complete_ok kvs"
proof -
  let ?m = "map_of kvs"
  have "usb4stream_ok (JObj kvs) = Inr None \<longleftrightarrow>
      opened_once (?m ''open_count'') \<and>
      ((\<exists>x. ?m ''rtt_us'' = Some x \<and> truthy x) \<and>
        sizes_present (or_empty (?m ''rtt_us'')) [64, 4096, 16384, 65536] U4NoRtt = Inr None \<and>
        res_bind (dict_of (or_empty (?m ''rtt_us''))) stat_cells = Inr None) \<and>
      ((\<exists>x. ?m ''exchange_us'' = Some x \<and> truthy x) \<and>
        sizes_present (or_empty (?m ''exchange_us'')) [8192, 16384, 65536] U4NoExchange = Inr None \<and>
        res_bind (dict_of (or_empty (?m ''exchange_us''))) stat_cells = Inr None) \<and>
      ((\<exists>x. ?m ''throughput_mb_s'' = Some x \<and> truthy x) \<and>
        tput_bad (or_empty (?m ''throughput_mb_s'')) = Inr False) \<and>
      (\<exists>x. ?m ''device'' = Some x \<and> truthy x) \<and> device_complete (?m ''device'') \<and>
      ?m ''ring_size'' \<noteq> None \<and> ?m ''throttling'' \<noteq> None \<and> ?m ''loop'' = Some (JStr ''python'')"
    unfolding usb4stream_ok_def first_err_pass key_present_pass device_step_pass
    by (auto simp: opened_once_def split: option.splits)
  moreover have "device_complete v \<Longrightarrow> \<exists>x. v = Some x \<and> truthy x" for v
    by (auto simp: device_complete_def)
  ultimately show ?thesis
    unfolding stat_pass tput_pass_or_empty complete_ok_def by blast
qed

lemma typed_refusal_iff:
  "typed_refusal oc \<longleftrightarrow>
   (startswith oc ''skipped:'' \<or> startswith oc ''aborted:'') \<and> strip (drop 8 oc) \<noteq> []"
proof
  assume "typed_refusal oc"
  then show "(startswith oc ''skipped:'' \<or> startswith oc ''aborted:'') \<and> strip (drop 8 oc) \<noteq> []"
    by (auto simp: typed_refusal_def startswith_def)
next
  assume r: "(startswith oc ''skipped:'' \<or> startswith oc ''aborted:'') \<and> strip (drop 8 oc) \<noteq> []"
  have "typed_refusal oc" if "startswith oc p" "p = ''skipped:'' \<or> p = ''aborted:''" for p
  proof -
    from that(1) obtain t where t: "oc = p @ t" by (auto simp only: startswith_iff)
    moreover from that(2) have "length p = 8" by auto
    ultimately have "drop 8 oc = t" by simp
    with r t that(2) show ?thesis unfolding typed_refusal_def by (intro exI [of _ t]) auto
  qed
  with r show "typed_refusal oc" by blast
qed

lemma usb4stream_step:
  "oc \<noteq> [] \<Longrightarrow> map_of kvs ''outcome'' = Some (JStr oc) \<Longrightarrow> map_of kvs ''serve_up'' \<noteq> None \<Longrightarrow>
   usb4stream (JObj kvs) =
     (if startswith oc ''skipped:'' \<or> startswith oc ''aborted:'' then
        fail_if (strip (drop 8 oc) = []) (U4NoReason oc)
      else if oc \<noteq> ''ok'' then Inr (Some (U4BadOutcome oc)) else usb4stream_ok (JObj kvs))"
  by (cases oc) (auto simp: usb4stream_def Let_def)

lemma ok_is_no_prefix:
  "\<not> startswith ''ok'' ''skipped:''" "\<not> startswith ''ok'' ''aborted:''"
  by (simp_all add: startswith_def)

lemma usb4stream_none:
  assumes "usb4stream (JObj kvs) = Inr None"
  shows "\<exists>oc. oc \<noteq> [] \<and> map_of kvs ''outcome'' = Some (JStr oc) \<and> map_of kvs ''serve_up'' \<noteq> None"
  using assms
  by (auto simp: usb4stream_def Let_def split: option.splits json.splits list.splits if_splits)

section \<open>The gate's properties\<close>

lemma usb4stream_pass:
  "usb4stream (JObj kvs) = Inr None \<longleftrightarrow>
     (\<exists>oc. map_of kvs ''outcome'' = Some (JStr oc) \<and> map_of kvs ''serve_up'' \<noteq> None \<and>
           (typed_refusal oc \<or> oc = ''ok'' \<and> complete_ok kvs))"
proof
  assume "usb4stream (JObj kvs) = Inr None"
  moreover from usb4stream_none [OF this] obtain oc where
    "oc \<noteq> []" "map_of kvs ''outcome'' = Some (JStr oc)" "map_of kvs ''serve_up'' \<noteq> None" by blast
  ultimately show "\<exists>oc. map_of kvs ''outcome'' = Some (JStr oc) \<and> map_of kvs ''serve_up'' \<noteq> None \<and>
      (typed_refusal oc \<or> oc = ''ok'' \<and> complete_ok kvs)"
    by (auto simp: usb4stream_step typed_refusal_iff usb4stream_ok_pass split: if_splits)
next
  assume "\<exists>oc. map_of kvs ''outcome'' = Some (JStr oc) \<and> map_of kvs ''serve_up'' \<noteq> None \<and>
      (typed_refusal oc \<or> oc = ''ok'' \<and> complete_ok kvs)"
  then obtain oc where oc: "map_of kvs ''outcome'' = Some (JStr oc)" "map_of kvs ''serve_up'' \<noteq> None"
    "typed_refusal oc \<or> oc = ''ok'' \<and> complete_ok kvs" by blast
  then have "oc \<noteq> []" by (auto simp: typed_refusal_def)
  with oc show "usb4stream (JObj kvs) = Inr None"
    by (auto simp: usb4stream_step typed_refusal_iff usb4stream_ok_pass ok_is_no_prefix)
qed

text \<open>C32: The bound on the stream-primitive receipt accepts exactly the typed skips and aborts that
  carry a reason and the \<open>ok\<close> receipts whose schedule is fully present, with every device opened
  exactly once.\<close>

theorem usb4stream_accepts_iff:
  "usb4stream (JObj kvs) = Inr None \<longleftrightarrow>
     (\<exists>oc. map_of kvs ''outcome'' = Some (JStr oc) \<and> map_of kvs ''serve_up'' \<noteq> None \<and>
           (typed_refusal oc \<or> oc = ''ok'' \<and> complete_ok kvs))"
  by (rule usb4stream_pass)

text \<open>A receipt with no violation: the three keys, not failed, within the bound of its step.\<close>

definition within_bounds :: "(string \<times> json) list \<Rightarrow> bool" where
  "within_bounds kvs \<longleftrightarrow>
     (\<forall>(prefix, check) \<in> set BOUNDS.
        step_has_prefix (case map_of kvs ''step'' of None \<Rightarrow> JStr [] | Some s \<Rightarrow> s) prefix \<longrightarrow>
        check (or_empty (map_of kvs ''data'')) = Inr None)"

definition clean_receipt :: "(string \<times> json) list \<Rightarrow> bool" where
  "clean_receipt kvs \<longleftrightarrow>
     (\<forall>k \<in> {''step'', ''status'', ''ts''}. map_of kvs k \<noteq> None) \<and>
     map_of kvs ''status'' \<noteq> Some (JStr ''fail'') \<and> within_bounds kvs"

lemma missing_keys_clean:
  "missing_keys p (JObj kvs) ks = Inr [] \<longleftrightarrow> (\<forall>k \<in> set ks. map_of kvs k \<noteq> None)"
  by (induction ks) (auto simp: res_simps split: if_splits)

lemma check_bounds_clean:
  "check_bounds p (JObj kvs) bs = Inr [] \<longleftrightarrow>
   (\<forall>(prefix, check) \<in> set bs.
      step_has_prefix (case map_of kvs ''step'' of None \<Rightarrow> JStr [] | Some s \<Rightarrow> s) prefix \<longrightarrow>
      check (or_empty (map_of kvs ''data'')) = Inr None)"
proof (induction bs)
  case (Cons b bs)
  then show ?case by (cases b) (auto simp: res_simps split: option.splits)
qed simp

text \<open>The answers of a receipt: the stem of its file and its step.\<close>

definition answers :: "path \<Rightarrow> (string \<times> json) list \<Rightarrow> string list" where
  "answers p kvs = stem (last p) #
     (case map_of kvs ''step'' of Some (JStr (c # cs)) \<Rightarrow> [c # cs] | _ \<Rightarrow> [])"

lemma names_of_JObj [simp]: "names_of p (Some (JObj kvs)) = Inr (answers p kvs)"
  by (simp add: names_of_def answers_def)

lemma grade_receipt_clean:
  "grade_receipt p (JObj kvs) = Inr (names, []) \<longleftrightarrow> clean_receipt kvs \<and> names = answers p kvs"
proof -
  have "grade_receipt p (JObj kvs) = Inr (names, []) \<longleftrightarrow>
      names = answers p kvs \<and> missing_keys p (JObj kvs) [''step'', ''status'', ''ts''] = Inr [] \<and>
      map_of kvs ''status'' \<noteq> Some (JStr ''fail'') \<and> check_bounds p (JObj kvs) BOUNDS = Inr []"
    by (auto simp: grade_receipt_def res_simps)
  then show ?thesis
    unfolding missing_keys_clean check_bounds_clean clean_receipt_def within_bounds_def by auto
qed

text \<open>JSON that is no object is never graded: the gate raises.\<close>

lemma grade_receipt_object:
  assumes "\<And>kvs. r \<noteq> JObj kvs"
  shows "\<exists>e. grade_receipt p r = Inl e"
proof (cases "truthy r")
  case True
  with assms show ?thesis
    by (cases r) (auto simp: grade_receipt_def names_of_def or_empty_def dget_def)
next
  case False
  with assms show ?thesis
    by (cases r)
       (auto simp: grade_receipt_def names_of_def or_empty_def dget_def startswith_def)
qed

lemma grade_path_clean:
  "grade_path utf8 loads w p = Inr (names, []) \<longleftrightarrow>
   (\<exists>t kvs. read_text w p = Inr t \<and> utf8 t \<and> loads t = Some (JObj kvs) \<and> clean_receipt kvs \<and>
            names = answers p kvs)"
proof (cases "read_text w p")
  case (Inr t)
  show ?thesis
  proof (cases "loads t")
    case (Some r)
    show ?thesis
    proof (cases "\<exists>kvs. r = JObj kvs")
      case True
      with Inr Some show ?thesis by (auto simp: grade_path_def grade_receipt_clean)
    next
      case False
      with grade_receipt_object [of r p] Inr Some show ?thesis by (auto simp: grade_path_def)
    qed
  qed (use Inr in \<open>auto simp: grade_path_def\<close>)
qed (auto simp: grade_path_def)

definition clean_at ::
  "(string \<Rightarrow> bool) \<Rightarrow> (string \<Rightarrow> json option) \<Rightarrow> world \<Rightarrow> path \<Rightarrow> (string \<times> json) list \<Rightarrow> bool" where
  "clean_at utf8 loads w p kvs \<longleftrightarrow>
     (\<exists>t. read_text w p = Inr t \<and> utf8 t \<and> loads t = Some (JObj kvs) \<and> clean_receipt kvs)"

lemma clean_at_unique: "clean_at utf8 loads w p kvs \<Longrightarrow> clean_at utf8 loads w p kvs' \<Longrightarrow> kvs = kvs'"
  by (auto simp: clean_at_def)

lemma grade_all_clean:
  "grade_all utf8 loads w ps = Inr (names, []) \<Longrightarrow>
     (\<forall>p \<in> set ps. \<exists>kvs. clean_at utf8 loads w p kvs) \<and>
     set names = (\<Union>p \<in> set ps. \<Union>kvs \<in> {kvs. clean_at utf8 loads w p kvs}. set (answers p kvs))"
proof (induction ps arbitrary: names)
  case (Cons p ps)
  then obtain n1 n2 where "grade_path utf8 loads w p = Inr (n1, [])"
    "grade_all utf8 loads w ps = Inr (n2, [])" and names: "names = n1 @ n2"
    by (auto simp: res_simps)
  moreover from this obtain kvs where "clean_at utf8 loads w p kvs" "n1 = answers p kvs"
    by (auto simp: grade_path_clean clean_at_def)
  moreover have "{k. clean_at utf8 loads w p k} = {kvs}"
    using \<open>clean_at utf8 loads w p kvs\<close> clean_at_unique by blast
  ultimately show ?case using Cons.IH by auto
qed simp

lemma grade_all_clean_conv:
  "\<forall>p \<in> set ps. \<exists>kvs. clean_at utf8 loads w p kvs \<Longrightarrow> \<exists>names. grade_all utf8 loads w ps = Inr (names, [])"
proof (induction ps)
  case (Cons p ps)
  then obtain kvs where "grade_path utf8 loads w p = Inr (answers p kvs, [])"
    by (auto simp: grade_path_clean clean_at_def)
  with Cons show ?case by auto
qed simp

lemma grade_all_covers:
  "(\<exists>present. grade_all utf8 loads w ps = Inr (present, []) \<and> set req \<subseteq> set present) \<longleftrightarrow>
   (\<forall>p \<in> set ps. \<exists>kvs. clean_at utf8 loads w p kvs) \<and>
   (\<forall>s \<in> set req. \<exists>p \<in> set ps. \<exists>kvs. clean_at utf8 loads w p kvs \<and> s \<in> set (answers p kvs))"
  (is "?L \<longleftrightarrow> ?A \<and> ?B")
proof
  assume ?L
  then obtain present where present: "grade_all utf8 loads w ps = Inr (present, [])"
    and sub: "set req \<subseteq> set present" by blast
  note clean = grade_all_clean [OF present]
  show "?A \<and> ?B"
  proof
    show ?A using clean by blast
    show ?B
    proof
      fix s assume "s \<in> set req"
      with sub have "s \<in> (\<Union>p \<in> set ps. \<Union>kvs \<in> {kvs. clean_at utf8 loads w p kvs}. set (answers p kvs))"
        unfolding clean [THEN conjunct2, symmetric] by blast
      then show "\<exists>p \<in> set ps. \<exists>kvs. clean_at utf8 loads w p kvs \<and> s \<in> set (answers p kvs)" by blast
    qed
  qed
next
  assume r: "?A \<and> ?B"
  then obtain present where present: "grade_all utf8 loads w ps = Inr (present, [])"
    using grade_all_clean_conv by blast
  have "set req \<subseteq> set present"
    using r unfolding grade_all_clean [OF present, THEN conjunct2] by blast
  with present show ?L by blast
qed

lemma expected_Nil: "expected required present failed = [] \<longleftrightarrow> set required \<subseteq> set present"
  by (auto simp: expected_def filter_empty_conv)

text \<open>Every quarantined file answers with some names: it is an object, unreadable, or falsy.\<close>

definition quarantine_ok :: "(string \<Rightarrow> bool) \<Rightarrow> (string \<Rightarrow> json option) \<Rightarrow> world \<Rightarrow> path list \<Rightarrow> bool" where
  "quarantine_ok utf8 loads w qs \<longleftrightarrow>
     (\<forall>p \<in> set qs. \<forall>r. read_receipt utf8 loads w p = Some r \<longrightarrow> truthy r \<longrightarrow> (\<exists>kvs. r = JObj kvs))"

lemma names_of_ok:
  "(\<exists>names. names_of p r = Inr names) \<longleftrightarrow> (\<forall>x. r = Some x \<longrightarrow> truthy x \<longrightarrow> (\<exists>kvs. x = JObj kvs))"
  by (auto simp: names_of_def or_empty_def res_simps dget_Inr split: option.splits)

lemma quarantine_names_ok:
  "(\<exists>names. quarantine_names utf8 loads w qs = Inr names) \<longleftrightarrow> quarantine_ok utf8 loads w qs"
proof (induction qs)
  case (Cons p qs)
  have "(\<exists>names. quarantine_names utf8 loads w (p # qs) = Inr names) \<longleftrightarrow>
      (\<exists>names. names_of p (read_receipt utf8 loads w p) = Inr names) \<and>
      (\<exists>names. quarantine_names utf8 loads w qs = Inr names)"
    by (auto simp: res_simps)
  then show ?case by (auto simp: Cons.IH names_of_ok quarantine_ok_def)
qed (simp add: quarantine_ok_def)

lemma exit_code_zero: "exit_code r = 0 \<longleftrightarrow> (\<exists>rep. r = Inr rep \<and> violations rep = [])"
  by (auto simp: exit_code_def split: sum.splits)

text \<open>
  C8: The gate exits 0 exactly when the hand-off patch parses, every graded file is a readable JSON
  object with its three keys, not failed and within the bound of its step, the quarantine can be
  listed, and every required name is answered by a graded receipt (a quarantined one never
  counts).
\<close>

theorem gate_passes_iff:
  assumes "list_ex (is_dir w) (receipt_dirs repo state)"
  shows "exit_code (verify_run utf8 loads rc repo state requires w) = 0 \<longleftrightarrow>
     handoff_patch_ok w repo rc = [] \<and>
     (\<forall>p \<in> snd ` set (graded w repo state). \<exists>kvs. clean_at utf8 loads w p kvs) \<and>
     quarantine_ok utf8 loads w (map snd (quarantined w repo state)) \<and>
     (\<forall>s \<in> set (parse_require requires). \<exists>p \<in> snd ` set (graded w repo state). \<exists>kvs.
        clean_at utf8 loads w p kvs \<and> s \<in> set (answers p kvs))"
proof -
  let ?ps = "map snd (graded w repo state)" and ?qs = "map snd (quarantined w repo state)"
  let ?req = "parse_require requires"
  have "exit_code (verify_run utf8 loads rc repo state requires w) = 0 \<longleftrightarrow>
      handoff_patch_ok w repo rc = [] \<and> (\<exists>failed. quarantine_names utf8 loads w ?qs = Inr failed) \<and>
      (\<exists>present. grade_all utf8 loads w ?ps = Inr (present, []) \<and> set ?req \<subseteq> set present)"
    using assms
    by (fastforce simp: exit_code_zero verify_run_def Let_def res_simps expected_Nil)
  also have "(\<exists>present. grade_all utf8 loads w ?ps = Inr (present, []) \<and> set ?req \<subseteq> set present) \<longleftrightarrow>
      (\<forall>p \<in> set ?ps. \<exists>kvs. clean_at utf8 loads w p kvs) \<and>
      (\<forall>s \<in> set ?req. \<exists>p \<in> set ?ps. \<exists>kvs. clean_at utf8 loads w p kvs \<and> s \<in> set (answers p kvs))"
    by (rule grade_all_covers)
  finally show ?thesis unfolding quarantine_names_ok by (simp only: set_map) blast
qed

section \<open>The two roots\<close>

definition carries :: "world \<Rightarrow> path \<Rightarrow> string \<Rightarrow> bool" where
  "carries w d n \<longleftrightarrow> is_dir w d \<and> endswith n json_suffix \<and> node_at w (d @ [n]) \<noteq> None"

lemma node_at_listed: "p \<noteq> [] \<Longrightarrow> p \<in> fst ` set (nodes w) \<longleftrightarrow> node_at w p \<noteq> None"
  by (auto simp: node_at_def map_of_eq_None_iff)

definition json_names :: "world \<Rightarrow> path \<Rightarrow> string list" where
  "json_names w d = sort (remdups (filter (\<lambda>n. endswith n ''.json'') (map last (children w d))))"

lemma glob_json_names: "glob_json w d = map (\<lambda>n. d @ [n]) (json_names w d)"
  by (simp add: glob_json_def json_names_def)

lemma json_names_set:
  "n \<in> set (json_names w d) \<longleftrightarrow> endswith n json_suffix \<and> node_at w (d @ [n]) \<noteq> None"
proof -
  have "n \<in> set (json_names w d) \<longleftrightarrow> d @ [n] \<in> set (glob_json w d)"
    by (auto simp: glob_json_names)
  then show ?thesis by (simp add: glob_json_set node_at_listed)
qed

lemma json_names_cong:
  assumes "\<And>n. endswith n json_suffix \<Longrightarrow> (node_at w' (d @ [n]) = None) = (node_at w (d @ [n]) = None)"
  shows "json_names w' d = json_names w d"
proof (rule sorted_distinct_set_unique)
  show "set (json_names w' d) = set (json_names w d)"
    by (intro set_eqI) (simp only: json_names_set assms cong: conj_cong)
qed (simp_all add: json_names_def)

lemma map_of_fold_setdefault:
  "map_of (fold (\<lambda>p d. setdefault d (last p) p) (map (\<lambda>n. b @ [n]) ns) found) n =
   (case map_of found n of
      Some p \<Rightarrow> Some p | None \<Rightarrow> if n \<in> set ns then Some (b @ [n]) else None)"
  by (induction ns arbitrary: found) (auto simp: map_of_setdefault split: option.splits)

lemma map_of_add_dir:
  "map_of (add_dir w base found) n =
   (case map_of found n of
      Some p \<Rightarrow> Some p | None \<Rightarrow> if carries w base n then Some (base @ [n]) else None)"
  by (auto simp: add_dir_def glob_json_names map_of_fold_setdefault json_names_set carries_def
      split: option.splits)

lemma distinct_fold_setdefault:
  "distinct (map fst found) \<Longrightarrow>
   distinct (map fst (fold (\<lambda>p d. setdefault d (last p) p) ps found))"
  by (induction ps arbitrary: found) (auto simp: distinct_setdefault)

lemma distinct_add_dir: "distinct (map fst found) \<Longrightarrow> distinct (map fst (add_dir w d found))"
  by (simp add: add_dir_def distinct_fold_setdefault)

lemma map_of_fold_add_dir:
  "map_of (fold (add_dir w) ds found) n =
   (case map_of found n of
      Some p \<Rightarrow> Some p
    | None \<Rightarrow> (case filter (\<lambda>d. carries w d n) ds of [] \<Rightarrow> None | d # _ \<Rightarrow> Some (d @ [n])))"
  by (induction ds arbitrary: found) (auto simp: map_of_add_dir split: option.splits)

lemma distinct_fold_add_dir:
  "distinct (map fst found) \<Longrightarrow> distinct (map fst (fold (add_dir w) ds found))"
  by (induction ds arbitrary: found) (auto simp: distinct_add_dir)

text \<open>A file name is graded once, from the first root in precedence order (the in-repo one before
  the durable one) that carries it.\<close>

theorem graded_precedence:
  "map_of (graded w repo state) n =
     (case filter (\<lambda>d. carries w d n) (receipt_dirs repo state) of
        [] \<Rightarrow> None | d # _ \<Rightarrow> Some (d @ [n])) \<and>
   distinct (map fst (graded w repo state))"
  by (simp add: graded_def map_of_fold_add_dir distinct_fold_add_dir)

lemma graded_paths:
  assumes "p \<in> snd ` set (graded w repo state)"
  shows "\<exists>d \<in> set (receipt_dirs repo state). \<exists>n. p = d @ [n] \<and> endswith n json_suffix"
proof -
  obtain n where "(n, p) \<in> set (graded w repo state)" using assms by auto
  then have "map_of (graded w repo state) n = Some p"
    by (simp add: graded_def distinct_fold_add_dir map_of_eq_Some_iff)
  then have f: "(case filter (\<lambda>d. carries w d n) (receipt_dirs repo state) of
      [] \<Rightarrow> None | d # _ \<Rightarrow> Some (d @ [n])) = Some p"
    by (simp add: graded_def map_of_fold_add_dir)
  then obtain d ds where "filter (\<lambda>d. carries w d n) (receipt_dirs repo state) = d # ds" "p = d @ [n]"
    by (auto split: list.splits)
  moreover from this(1) have "d \<in> set (receipt_dirs repo state)" "carries w d n"
    by (auto dest!: arg_cong [of _ _ set])
  ultimately show ?thesis by (auto simp: carries_def)
qed

text \<open>The part of the world the grading walk reads.\<close>

definition same_graded :: "path \<Rightarrow> string option \<Rightarrow> world \<Rightarrow> world \<Rightarrow> bool" where
  "same_graded repo state w w' \<longleftrightarrow>
     is_file w' (repo @ [''handoff'', ''catalog-row.patch'']) =
       is_file w (repo @ [''handoff'', ''catalog-row.patch'']) \<and>
     (\<forall>d \<in> set (receipt_dirs repo state). is_dir w' d = is_dir w d \<and>
        (\<forall>n. endswith n json_suffix \<longrightarrow>
           node_at w' (d @ [n]) = node_at w (d @ [n]) \<and> readable w' (d @ [n]) = readable w (d @ [n])))"

lemma fold_add_dir_cong:
  "\<forall>d \<in> set ds. add_dir w' d = add_dir w d \<Longrightarrow> fold (add_dir w') ds found = fold (add_dir w) ds found"
  by (induction ds arbitrary: found) auto

lemma graded_cong:
  assumes "same_graded repo state w w'"
  shows "graded w' repo state = graded w repo state"
proof -
  have "add_dir w' d = add_dir w d" if "d \<in> set (receipt_dirs repo state)" for d
  proof -
    have "json_names w' d = json_names w d" "is_dir w' d = is_dir w d"
      using assms that by (auto simp: same_graded_def intro!: json_names_cong)
    then show ?thesis by (simp add: add_dir_def glob_json_names fun_eq_iff)
  qed
  then show ?thesis by (simp add: graded_def fold_add_dir_cong)
qed

lemma grade_all_cong:
  "\<forall>p \<in> set ps. read_text w' p = read_text w p \<Longrightarrow>
   grade_all utf8 loads w' ps = grade_all utf8 loads w ps"
proof (induction ps)
  case (Cons p ps)
  then have "grade_path utf8 loads w' p = grade_path utf8 loads w p"
    by (simp add: grade_path_def)
  with Cons show ?case by simp
qed simp

text \<open>A quarantined failure never reddens the gate: two worlds that differ only under the
  \<open>failed/\<close> directories give the same exit status when no receipt is required, as long as the
  quarantined files hold objects (or cannot be parsed).\<close>

theorem quarantine_never_reddens:
  assumes "same_graded repo state w w'" and "parse_require requires = []"
    and "quarantine_ok utf8 loads w (map snd (quarantined w repo state))"
    and "quarantine_ok utf8 loads w' (map snd (quarantined w' repo state))"
  shows "exit_code (verify_run utf8 loads rc repo state requires w')
       = exit_code (verify_run utf8 loads rc repo state requires w)"
proof -
  have patch: "handoff_patch_ok w' repo rc = handoff_patch_ok w repo rc"
    using assms(1) by (simp add: same_graded_def handoff_patch_ok_def)
  have dirs: "list_ex (is_dir w') (receipt_dirs repo state) = list_ex (is_dir w) (receipt_dirs repo state)"
    using assms(1) by (auto simp: same_graded_def list_ex_iff)
  have g: "graded w' repo state = graded w repo state"
    using assms(1) by (rule graded_cong)
  have "\<forall>p \<in> set (map snd (graded w repo state)). read_text w' p = read_text w p"
  proof
    fix p assume "p \<in> set (map snd (graded w repo state))"
    with graded_paths [of p w repo state] assms(1)
    have "node_at w' p = node_at w p" "readable w' p = readable w p"
      by (auto simp: same_graded_def)
    then show "read_text w' p = read_text w p"
      by (auto simp: read_text_def split: option.splits node.splits)
  qed
  then have all: "grade_all utf8 loads w' (map snd (graded w repo state))
      = grade_all utf8 loads w (map snd (graded w repo state))"
    by (rule grade_all_cong)
  obtain f f' where
    "quarantine_names utf8 loads w (map snd (quarantined w repo state)) = Inr f"
    "quarantine_names utf8 loads w' (map snd (quarantined w' repo state)) = Inr f'"
    using assms(3,4) quarantine_names_ok by blast
  then show ?thesis
    by (cases "grade_all utf8 loads w (map snd (graded w repo state))")
       (auto simp: verify_run_def Let_def patch dirs g all assms(2) exit_code_def expected_def)
qed

lemma grade_all_raises:
  "p \<in> set ps \<Longrightarrow> grade_path utf8 loads w p = Inl e \<Longrightarrow> \<exists>e'. grade_all utf8 loads w ps = Inl e'"
proof (induction ps)
  case (Cons q ps)
  then show ?case by (cases "grade_path utf8 loads w q") (auto simp: res_simps)
qed simp

text \<open>A present receipt that is valid JSON but no object ends the gate with a traceback (status 1),
  not with the violation status 2 that the header promises.\<close>

theorem non_object_receipt_raises:
  assumes "list_ex (is_dir w) (receipt_dirs repo state)"
    and "p \<in> snd ` set (graded w repo state)"
    and "read_text w p = Inr t" and "utf8 t" and "loads t = Some r" and "\<forall>kvs. r \<noteq> JObj kvs"
  shows "exit_code (verify_run utf8 loads rc repo state requires w) = 1"
proof -
  obtain e where "grade_receipt p r = Inl e" using grade_receipt_object assms(6) by blast
  then have "grade_path utf8 loads w p = Inl e" using assms(3-5) by (simp add: grade_path_def)
  then obtain e' where "grade_all utf8 loads w (map snd (graded w repo state)) = Inl e'"
    using grade_all_raises assms(2) by (metis set_map)
  then show ?thesis using assms(1) by (simp add: verify_run_def Let_def exit_code_def)
qed

text \<open>At most one bound applies to a step: no bound's name is a prefix of another's.\<close>

lemma bounds_prefix_free:
  "(p, c) \<in> set BOUNDS \<Longrightarrow> (q, d) \<in> set BOUNDS \<Longrightarrow> startswith s p \<Longrightarrow> startswith s q \<Longrightarrow> p = q"
proof -
  assume a: "(p, c) \<in> set BOUNDS" "(q, d) \<in> set BOUNDS" and b: "startswith s p" "startswith s q"
  have "p \<noteq> []" "q \<noteq> []" using a by (auto simp: BOUNDS_def)
  moreover have "hd p = hd s" if "p \<noteq> []" "startswith s p" for p
    using that by (auto simp: startswith_iff)
  ultimately have "hd p = hd s" "hd q = hd s" using b by blast+
  then have "hd p = hd q" by simp
  with a show "p = q" by (auto simp: BOUNDS_def)
qed

section \<open>Witnesses\<close>

definition gate_world :: world where
  "gate_world = \<lparr>nodes =
     [([''r''], Dir), ([''r'', ''results''], Dir), ([''r'', ''results'', ''receipts''], Dir),
      ([''r'', ''results'', ''receipts'', ''a.json''], Reg ''A''),
      ([''r'', ''results'', ''receipts'', ''failed''], Dir),
      ([''r'', ''results'', ''receipts'', ''failed'', ''b.json''], Reg ''F'')],
     readable = (\<lambda>_. True), fate_of = (\<lambda>_. WOk)\<rparr>"

definition gate_world_clean :: world where
  "gate_world_clean = \<lparr>nodes =
     [([''r''], Dir), ([''r'', ''results''], Dir), ([''r'', ''results'', ''receipts''], Dir),
      ([''r'', ''results'', ''receipts'', ''a.json''], Reg ''A'')],
     readable = (\<lambda>_. True), fate_of = (\<lambda>_. WOk)\<rparr>"

definition gate_world_list :: world where
  "gate_world_list = \<lparr>nodes =
     [([''r''], Dir), ([''r'', ''results''], Dir), ([''r'', ''results'', ''receipts''], Dir),
      ([''r'', ''results'', ''receipts'', ''a.json''], Reg ''L'')],
     readable = (\<lambda>_. True), fate_of = (\<lambda>_. WOk)\<rparr>"

definition gate_loads :: "string \<Rightarrow> json option" where
  "gate_loads s =
     (if s = ''A'' then Some (JObj [(''step'', JStr ''a''), (''status'', JStr ''pass''), (''ts'', JStr ''0'')])
      else if s = ''F'' then Some (JObj [(''step'', JStr ''b''), (''status'', JStr ''fail''), (''ts'', JStr ''0'')])
      else if s = ''L'' then Some (JList []) else None)"

theorem gate_passes_iff_witness:
  "exit_code (verify_run (\<lambda>_. True) gate_loads 0 [''r''] None [''a''] gate_world) = 0 \<longleftrightarrow>
     handoff_patch_ok gate_world [''r''] 0 = [] \<and>
     (\<forall>p \<in> snd ` set (graded gate_world [''r''] None). \<exists>kvs. clean_at (\<lambda>_. True) gate_loads gate_world p kvs) \<and>
     quarantine_ok (\<lambda>_. True) gate_loads gate_world (map snd (quarantined gate_world [''r''] None)) \<and>
     (\<forall>s \<in> set (parse_require [''a'']). \<exists>p \<in> snd ` set (graded gate_world [''r''] None). \<exists>kvs.
        clean_at (\<lambda>_. True) gate_loads gate_world p kvs \<and> s \<in> set (answers p kvs))"
proof (rule gate_passes_iff)
  show "list_ex (is_dir gate_world) (receipt_dirs [''r''] None)" by code_simp
qed

lemma gate_world_run:
  "exit_code (verify_run (\<lambda>_. True) gate_loads 0 [''r''] None [''a''] gate_world) = 0"
  "exit_code (verify_run (\<lambda>_. True) gate_loads 0 [''r''] None [''b''] gate_world) = 2"
  by code_simp+

theorem quarantine_never_reddens_witness:
  "exit_code (verify_run (\<lambda>_. True) gate_loads 0 [''r''] None [] gate_world)
   = exit_code (verify_run (\<lambda>_. True) gate_loads 0 [''r''] None [] gate_world_clean)"
proof (rule quarantine_never_reddens)
  show "parse_require [] = []" by code_simp
  have "snd ` set (quarantined gate_world [''r''] None) = {[''r'', ''results'', ''receipts'', ''failed'', ''b.json'']}"
    by code_simp
  then show "quarantine_ok (\<lambda>_. True) gate_loads gate_world (map snd (quarantined gate_world [''r''] None))"
    by (auto simp: quarantine_ok_def read_receipt_def read_text_def gate_world_def node_at_def gate_loads_def)
  have "quarantined gate_world_clean [''r''] None = []" by code_simp
  then show "quarantine_ok (\<lambda>_. True) gate_loads gate_world_clean (map snd (quarantined gate_world_clean [''r''] None))"
    by (simp add: quarantine_ok_def)
  show "same_graded [''r''] None gate_world_clean gate_world"
    using failed_no_json
    by (auto simp: same_graded_def receipt_dirs_def durable_receipts_def receipts_root_def is_file_def
        is_dir_def node_at_def gate_world_def gate_world_clean_def)
qed

theorem non_object_receipt_raises_witness:
  "exit_code (verify_run (\<lambda>_. True) gate_loads 0 [''r''] None [] gate_world_list) = 1"
proof (rule non_object_receipt_raises)
  show "list_ex (is_dir gate_world_list) (receipt_dirs [''r''] None)" by code_simp
  have "snd ` set (graded gate_world_list [''r''] None) = {[''r'', ''results'', ''receipts'', ''a.json'']}"
    by code_simp
  then show "[''r'', ''results'', ''receipts'', ''a.json''] \<in> snd ` set (graded gate_world_list [''r''] None)"
    by simp
  show "read_text gate_world_list [''r'', ''results'', ''receipts'', ''a.json''] = Inr ''L''"
    by (simp add: gate_world_list_def read_text_def node_at_def)
  show "gate_loads ''L'' = Some (JList [])" by (simp add: gate_loads_def)
qed simp_all

end
