(* ===== verification/PyFloat.thy ===== *)
theory PyFloat
  imports PyValue
begin

text \<open>
  Arithmetic of Python floats: a finite double is the rational it stands for, and every operation
  returns the exact result rounded to the nearest double (\<open>fl64\<close>, ties to even, with gradual
  underflow and overflow to an infinity). The sign of a zero is not kept. \<open>round_half_even\<close> is
  \<open>round(x)\<close>, \<open>trunc_rat\<close> is \<open>int(x)\<close> of a finite double. Rounding is monotone and exact on the
  integers of up to 53 bits, which is what the callers rest on.
\<close>

section \<open>Rounding a rational\<close>

definition round_half_even :: "rat \<Rightarrow> int" where
  "round_half_even x =
     (let f = \<lfloor>x\<rfloor>; d = x - of_int f
      in if d < 1 / 2 then f else if 1 / 2 < d then f + 1 else if even f then f else f + 1)"

definition trunc_rat :: "rat \<Rightarrow> int" where
  "trunc_rat x = (if 0 \<le> x then \<lfloor>x\<rfloor> else - \<lfloor>- x\<rfloor>)"

text \<open>
  Powers by squaring and the number of binary digits, over \<open>int\<close>, so that evaluation works on
  binary numerals.
\<close>

definition square :: "int \<Rightarrow> int" where
  "square x = x * x"

function ipow :: "int \<Rightarrow> int \<Rightarrow> int" where
  "ipow b n =
     (if n \<le> 0 then 1
      else if even n then square (ipow b (n div 2)) else b * square (ipow b (n div 2)))"
  by pat_completeness auto
termination
  by (relation "measure (\<lambda>(b, n). nat n)") auto

declare ipow.simps [simp del]

lemma ipow_power: "ipow b (int n) = b ^ n"
proof (induction n rule: less_induct)
  case (less n)
  have h: "int n div 2 = int (n div 2)" by (simp add: zdiv_int)
  have "even n \<Longrightarrow> b ^ n = b ^ (n div 2) * b ^ (n div 2)"
    by (metis even_two_times_div_two mult_2 power_add)
  moreover have "odd n \<Longrightarrow> b ^ n = b * (b ^ (n div 2) * b ^ (n div 2))"
    by (metis mult_2 odd_two_times_div_two_succ plus_1_eq_Suc add.commute power_Suc power_add)
  moreover have "0 < n \<Longrightarrow> ipow b (int (n div 2)) = b ^ (n div 2)"
    by (rule less) simp
  ultimately show ?case by (subst ipow.simps) (auto simp: h square_def)
qed

definition pow2 :: "int \<Rightarrow> rat" where
  "pow2 e = (if 0 \<le> e then of_int (ipow 2 e) else 1 / of_int (ipow 2 (- e)))"

lemma pow2_power: "pow2 e = (if 0 \<le> e then 2 ^ nat e else 1 / 2 ^ nat (- e))"
  using ipow_power [of 2 "nat e"] ipow_power [of 2 "nat (- e)"]
  by (cases "0 \<le> e") (simp_all add: pow2_def)

function bits :: "int \<Rightarrow> int" where
  "bits n = (if n \<le> 0 then 0 else 1 + bits (n div 2))"
  by pat_completeness auto
termination
  by (relation "measure nat") auto

declare bits.simps [simp del]

text \<open>
  The exponent of the last place of the double nearest to a positive rational: 53 bits, but never
  below \<open>2^-1074\<close>.
\<close>

definition last_place :: "rat \<Rightarrow> int" where
  "last_place a =
     (case quotient_of a of (p, q) \<Rightarrow>
        let d = bits p - bits q
        in max (- 1074) (if a < pow2 d then d - 53 else d - 52))"

definition fl_pos :: "rat \<Rightarrow> rat" where
  "fl_pos a = of_int (round_half_even (a / pow2 (last_place a))) * pow2 (last_place a)"

text \<open>The least magnitude that is no double; evaluation unfolds it as a numeral.\<close>

definition overflow_bound :: rat where
  "overflow_bound = 2 ^ 1024"

lemma overflow_bound_numeral [code]: "overflow_bound = 179769313486231590772930519078902473361797697894230657273430081157732675805500963132708477322407536021120113879871393357658789768814416622492847430639474124377767893424865485276302219601246094119453082952085005768838150682342462881473913110540827237163350510684586298239947245938479716304835356329624224137216"
  by (simp add: overflow_bound_def)

definition fl64 :: "rat \<Rightarrow> pyfloat" where
  "fl64 x =
     (if x = 0 then Fin 0
      else let r = fl_pos \<bar>x\<bar>
           in if r < overflow_bound then Fin (if 0 < x then r else - r)
              else if 0 < x then PInf else NInf)"

section \<open>Operations\<close>

fun fneg :: "pyfloat \<Rightarrow> pyfloat" where
  "fneg (Fin x) = Fin (- x)"
| "fneg PInf = NInf"
| "fneg NInf = PInf"
| "fneg NaN = NaN"

fun fadd :: "pyfloat \<Rightarrow> pyfloat \<Rightarrow> pyfloat" where
  "fadd (Fin x) (Fin y) = fl64 (x + y)"
| "fadd NaN _ = NaN"
| "fadd _ NaN = NaN"
| "fadd PInf NInf = NaN"
| "fadd NInf PInf = NaN"
| "fadd PInf _ = PInf"
| "fadd NInf _ = NInf"
| "fadd (Fin _) y = y"

definition fsub :: "pyfloat \<Rightarrow> pyfloat \<Rightarrow> pyfloat" where
  "fsub x y = fadd x (fneg y)"

fun fmul :: "pyfloat \<Rightarrow> pyfloat \<Rightarrow> pyfloat" where
  "fmul (Fin x) (Fin y) = fl64 (x * y)"
| "fmul NaN _ = NaN"
| "fmul _ NaN = NaN"
| "fmul (Fin x) y = (if x = 0 then NaN else if 0 < x then y else fneg y)"
| "fmul x (Fin y) = (if y = 0 then NaN else if 0 < y then x else fneg x)"
| "fmul x y = (if x = y then PInf else NInf)"

text \<open>\<open>x / y\<close>: a zero divisor raises, whatever is divided.\<close>

fun fdiv :: "pyfloat \<Rightarrow> pyfloat \<Rightarrow> pyfloat res" where
  "fdiv x NaN = returned NaN"
| "fdiv (Fin x) (Fin y) = (if y = 0 then raised ZeroDivisionError else returned (fl64 (x / y)))"
| "fdiv (Fin x) _ = returned (Fin 0)"
| "fdiv NaN (Fin y) = (if y = 0 then raised ZeroDivisionError else returned NaN)"
| "fdiv x (Fin y) =
     (if y = 0 then raised ZeroDivisionError else returned (if 0 < y then x else fneg x))"
| "fdiv _ _ = returned NaN"

text \<open>\<open>float(n)\<close>, \<open>a / b\<close> of two integers, \<open>int(x)\<close> and \<open>round(x)\<close>.\<close>

definition float_of_rat :: "rat \<Rightarrow> pyfloat res" where
  "float_of_rat x = (case fl64 x of Fin r \<Rightarrow> returned (Fin r) | _ \<Rightarrow> raised OverflowError)"

definition float_of_int :: "int \<Rightarrow> pyfloat res" where
  "float_of_int n = float_of_rat (of_int n)"

definition int_div :: "int \<Rightarrow> int \<Rightarrow> pyfloat res" where
  "int_div a b =
     (if b = 0 then raised ZeroDivisionError else float_of_rat (of_int a / of_int b))"

fun int_of_float :: "pyfloat \<Rightarrow> int res" where
  "int_of_float (Fin x) = returned (trunc_rat x)"
| "int_of_float NaN = raised ValueError"
| "int_of_float _ = raised OverflowError"

fun round_float :: "pyfloat \<Rightarrow> int res" where
  "round_float (Fin x) = returned (round_half_even x)"
| "round_float NaN = raised ValueError"
| "round_float _ = raised OverflowError"

text \<open>\<open>x <= y\<close> of two floats, false when one is NaN.\<close>

definition fle :: "pyfloat \<Rightarrow> pyfloat \<Rightarrow> bool" where
  "fle x y \<longleftrightarrow> flt x y \<or> feq x y"

text \<open>\<open>min(x, y)\<close> and \<open>max(x, y)\<close>: the first one unless the second is strictly beyond it.\<close>

definition fmin :: "pyfloat \<Rightarrow> pyfloat \<Rightarrow> pyfloat" where
  "fmin x y = (if flt y x then y else x)"

definition fmax :: "pyfloat \<Rightarrow> pyfloat \<Rightarrow> pyfloat" where
  "fmax x y = (if flt x y then y else x)"

section \<open>Laws of rounding\<close>

lemma round_half_even_bounds: "\<lfloor>x\<rfloor> \<le> round_half_even x" "round_half_even x \<le> \<lfloor>x\<rfloor> + 1"
  by (auto simp: round_half_even_def Let_def)

lemma round_half_even_of_int [simp]: "round_half_even (of_int n) = n"
  by (simp add: round_half_even_def)

lemma round_half_even_mono: "x \<le> y \<Longrightarrow> round_half_even x \<le> round_half_even y"
proof (cases "\<lfloor>x\<rfloor> = \<lfloor>y\<rfloor>")
  case True
  assume "x \<le> y"
  then show ?thesis unfolding round_half_even_def Let_def True by auto
next
  case False
  assume "x \<le> y"
  then have "\<lfloor>x\<rfloor> + 1 \<le> \<lfloor>y\<rfloor>" using False floor_mono [of x y] by linarith
  then show ?thesis
    using round_half_even_bounds [of x] round_half_even_bounds [of y] by linarith
qed

lemma round_half_even_near: "\<bar>of_int (round_half_even x) - x\<bar> \<le> 1 / 2"
proof -
  have "of_int \<lfloor>x\<rfloor> \<le> x" "x < of_int \<lfloor>x\<rfloor> + 1" by linarith+
  then show ?thesis by (auto simp: round_half_even_def Let_def abs_le_iff)
qed

lemma trunc_rat_of_int [simp]: "trunc_rat (of_int n) = n"
  by (simp add: trunc_rat_def)

lemma trunc_rat_mono: "x \<le> y \<Longrightarrow> trunc_rat x \<le> trunc_rat y"
proof -
  assume le: "x \<le> y"
  have "- \<lfloor>- x\<rfloor> \<le> - \<lfloor>- y\<rfloor>" "\<lfloor>x\<rfloor> \<le> \<lfloor>y\<rfloor>"
    using le floor_mono [of "- y" "- x"] floor_mono [of x y] by auto
  moreover have "x < 0 \<Longrightarrow> 0 \<le> y \<Longrightarrow> - \<lfloor>- x\<rfloor> \<le> \<lfloor>y\<rfloor>"
  proof -
    assume "x < 0" "0 \<le> y"
    then have "0 \<le> \<lfloor>- x\<rfloor>" "0 \<le> \<lfloor>y\<rfloor>" by simp_all
    then show ?thesis by linarith
  qed
  ultimately show ?thesis using le by (auto simp: trunc_rat_def)
qed

lemma pow2_powi: "pow2 e = 2 powi e"
  by (simp add: pow2_power power_int_def field_simps)

lemma pow2_pos [simp]: "0 < pow2 e"
  by (simp add: pow2_power)

lemma pow2_nonzero [simp]: "pow2 e \<noteq> 0"
  using pow2_pos [of e] by linarith

lemma pow2_add: "pow2 (d + e) = pow2 d * pow2 e"
  by (simp add: pow2_powi power_int_add)

lemma pow2_mono: "d \<le> e \<Longrightarrow> pow2 d \<le> pow2 e"
  by (simp add: pow2_powi power_int_increasing)

lemma pow2_nat: "pow2 (int n) = 2 ^ n"
  by (simp add: pow2_power)

lemma bits_nonneg: "0 \<le> bits n"
  by (induction n rule: bits.induct) (subst bits.simps, simp)

lemma bits_bounds: "0 < n \<Longrightarrow> 2 ^ nat (bits n) \<le> 2 * n \<and> n < 2 ^ nat (bits n)"
proof (induction n rule: bits.induct)
  case (1 n)
  show ?case
  proof (cases "n div 2 = 0")
    case True
    then have "n = 1" using 1 by linarith
    then show ?thesis by (simp add: bits.simps)
  next
    case False
    then have "0 < n div 2" using 1 by linarith
    then have IH: "2 ^ nat (bits (n div 2)) \<le> 2 * (n div 2)" "n div 2 < 2 ^ nat (bits (n div 2))"
      using 1 by auto
    have b: "bits n = 1 + bits (n div 2)" using 1(2) by (subst bits.simps) simp
    have "(2::int) ^ nat (bits n) = 2 * 2 ^ nat (bits (n div 2))"
      by (simp add: b nat_add_distrib bits_nonneg)
    then show ?thesis using IH by linarith
  qed
qed

text \<open>A fraction lies between half and twice the power of two of the difference of the lengths.\<close>

lemma fraction_scale:
  assumes "0 < a" and "quotient_of a = (p, q)"
  shows "a < 2 * pow2 (bits p - bits q)" and "pow2 (bits p - bits q) < 2 * a"
proof -
  have a: "a = of_int p / of_int q" and q: "0 < q"
    using assms(2) quotient_of_div quotient_of_denom_pos by auto
  have p: "0 < p" using assms(1) a q by (simp add: zero_less_divide_iff)
  define d where "d = bits p - bits q"
  define P Q where "P = (2::rat) ^ nat (bits p)" and "Q = (2::rat) ^ nat (bits q)"
  have "pow2 (int (nat (bits p))) = pow2 (d + int (nat (bits q)))"
    by (simp add: d_def bits_nonneg)
  then have pd: "pow2 d * Q = P" unfolding P_def Q_def by (simp only: pow2_add pow2_nat)
  have P: "P \<le> 2 * of_int p" "of_int p < P" and Q: "Q \<le> 2 * of_int q" "of_int q < Q"
  proof -
    note bp = bits_bounds [OF p] and bq = bits_bounds [OF q]
    have "P = of_int (2 ^ nat (bits p))" "Q = of_int (2 ^ nat (bits q))"
      by (simp_all add: P_def Q_def)
    then show "P \<le> 2 * of_int p" "of_int p < P" "Q \<le> 2 * of_int q" "of_int q < Q"
      using bp bq by (metis of_int_le_iff of_int_less_iff of_int_mult of_int_numeral)+
  qed
  have "of_int p < 2 * pow2 d * (of_int q :: rat)"
  proof -
    have "pow2 d * Q \<le> pow2 d * (2 * of_int q)"
      by (rule mult_left_mono [OF Q(1)]) (simp add: less_imp_le)
    then have "P \<le> pow2 d * (2 * of_int q)" by (simp only: pd)
    then have "P \<le> 2 * pow2 d * of_int q" by (metis mult.assoc mult.commute)
    with P(2) show ?thesis by linarith
  qed
  then show "a < 2 * pow2 (bits p - bits q)" using q by (simp add: a d_def divide_less_eq mult.assoc)
  have "pow2 d * of_int q < 2 * (of_int p :: rat)"
  proof -
    have "pow2 d * of_int q < pow2 d * Q"
      by (rule mult_strict_left_mono [OF Q(2)]) simp
    then show ?thesis using P(1) by (simp add: pd)
  qed
  then have "pow2 d < 2 * of_int p / of_int q" using q by (simp add: less_divide_eq)
  then show "pow2 (bits p - bits q) < 2 * a" by (simp add: a d_def)
qed

lemma last_place_bounds:
  assumes "0 < a"
  shows "a < pow2 (last_place a + 53)"
    and "last_place a = - 1074 \<or> pow2 (last_place a + 52) \<le> a"
    and "- 1074 \<le> last_place a"
proof -
  obtain p q where pq: "quotient_of a = (p, q)" by force
  define d where "d = bits p - bits q"
  note scale = fraction_scale [OF assms pq, folded d_def]
  have lp: "last_place a = max (- 1074) (if a < pow2 d then d - 53 else d - 52)"
    by (simp add: last_place_def pq d_def)
  have sh: "pow2 (d + 1) = 2 * pow2 d" "2 * pow2 (d - 1) = pow2 d"
    using pow2_add [of d 1] pow2_add [of "d - 1" 1] by (simp_all add: pow2_power)
  define e where "e = (if a < pow2 d then d - 53 else d - 52)"
  have e: "a < pow2 (e + 53)" "pow2 (e + 52) \<le> a"
    using scale sh by (auto simp: e_def add.commute [of d])
  have l: "last_place a = max (- 1074) e" unfolding lp e_def ..
  show "a < pow2 (last_place a + 53)"
    using e(1) pow2_mono [of "e + 53" "last_place a + 53"] by (simp add: l)
  show "last_place a = - 1074 \<or> pow2 (last_place a + 52) \<le> a"
    using e(2) by (auto simp: l max_def)
  show "- 1074 \<le> last_place a" by (simp add: l)
qed

lemma last_place_mono:
  assumes "0 < a" "a \<le> b"
  shows "last_place a \<le> last_place b"
proof (rule ccontr)
  assume "\<not> last_place a \<le> last_place b"
  moreover have "0 < b" using assms by simp
  ultimately have lt: "last_place b + 53 \<le> last_place a + 52" and ne: "last_place a \<noteq> - 1074"
    using last_place_bounds(3) [of b] by auto
  have "b < pow2 (last_place a + 52)"
    using last_place_bounds(1) [OF \<open>0 < b\<close>] pow2_mono [OF lt] by linarith
  then show False using last_place_bounds(2) [OF assms(1)] ne assms(2) by linarith
qed

lemma scaled_pow2: "pow2 (e + int k) / pow2 e = of_int (2 ^ k)"
  by (simp add: pow2_add pow2_nat)

lemma fl_pos_mono:
  assumes "0 < a" "a \<le> b"
  shows "fl_pos a \<le> fl_pos b"
proof (cases "last_place a = last_place b")
  case True
  then show ?thesis
    using assms(2) by (simp add: fl_pos_def round_half_even_mono divide_right_mono less_imp_le)
next
  case False
  then have lt: "last_place a + 53 \<le> last_place b + 52" and ne: "last_place b \<noteq> - 1074"
    using last_place_mono [OF assms] last_place_bounds(3) [OF assms(1)] by auto
  have b: "0 < b" using assms by simp
  have "a / pow2 (last_place a) \<le> of_int (2 ^ 53)"
    using last_place_bounds(1) [OF assms(1)] scaled_pow2 [of "last_place a" 53]
    by (metis divide_right_mono less_imp_le of_nat_numeral pow2_pos)
  then have "round_half_even (a / pow2 (last_place a)) \<le> 2 ^ 53"
    by (metis round_half_even_mono round_half_even_of_int)
  then have "(of_int (round_half_even (a / pow2 (last_place a))) :: rat) \<le> of_int (2 ^ 53)"
    by (rule of_int_le_iff [THEN iffD2])
  then have "fl_pos a \<le> of_int (2 ^ 53) * pow2 (last_place a)"
    unfolding fl_pos_def by (rule mult_right_mono) (simp add: less_imp_le)
  also have "\<dots> = pow2 (last_place a + 53)"
    using pow2_add [of "last_place a" 53] pow2_nat [of 53] by simp
  also have "\<dots> \<le> pow2 (last_place b + 52)" by (rule pow2_mono [OF lt])
  also have "\<dots> = of_int (2 ^ 52) * pow2 (last_place b)"
    using pow2_add [of "last_place b" 52] pow2_nat [of 52] by simp
  also have "\<dots> \<le> fl_pos b"
  proof -
    have "of_int (2 ^ 52) \<le> b / pow2 (last_place b)"
      using last_place_bounds(2) [OF b] ne scaled_pow2 [of "last_place b" 52]
      by (metis divide_right_mono less_imp_le of_nat_numeral pow2_pos)
    then have "2 ^ 52 \<le> round_half_even (b / pow2 (last_place b))"
      by (metis round_half_even_mono round_half_even_of_int)
    then have "(of_int (2 ^ 52) :: rat) \<le> of_int (round_half_even (b / pow2 (last_place b)))"
      by (rule of_int_le_iff [THEN iffD2])
    then show ?thesis unfolding fl_pos_def by (rule mult_right_mono) (simp add: less_imp_le)
  qed
  finally show ?thesis .
qed

text \<open>The integers of at most 53 bits are doubles.\<close>

lemma fl_pos_int:
  assumes "0 < n" "n \<le> 2 ^ 53"
  shows "fl_pos (of_int n) = of_int n"
proof -
  define e where "e = last_place (of_int n)"
  have n: "0 < (of_int n :: rat)" using assms by simp
  have le: "(of_int n :: rat) \<le> pow2 53"
    using assms(2) by (metis numeral_One of_int_le_iff of_int_numeral of_int_power of_nat_numeral pow2_nat)
  have "e \<le> 1"
  proof (rule ccontr)
    assume "\<not> e \<le> 1"
    then have "pow2 54 \<le> (of_int n :: rat)"
      using last_place_bounds(2) [OF n] pow2_mono [of 54 "e + 52"] by (auto simp: e_def)
    then show False using le by (simp add: pow2_power)
  qed
  show ?thesis
  proof (cases "e \<le> 0")
    case True
    define k where "k = nat (- e)"
    have e: "pow2 e = 1 / 2 ^ k" using True by (auto simp: pow2_power k_def)
    have "of_int n / pow2 e = of_int (n * 2 ^ k)" by (simp add: e)
    then have "round_half_even (of_int n / pow2 e) = n * 2 ^ k"
      by (metis round_half_even_of_int)
    then show ?thesis by (simp add: fl_pos_def e_def [symmetric] e)
  next
    case False
    then have e: "e = 1" using \<open>e \<le> 1\<close> by simp
    then have "pow2 53 \<le> (of_int n :: rat)"
      using last_place_bounds(2) [OF n] by (auto simp: e_def)
    then have "of_int n = pow2 53" using le by simp
    also have "\<dots> = of_int (2 ^ 52) * pow2 e" by (simp add: pow2_power e)
    finally have eq: "of_int n / pow2 e = of_int (2 ^ 52)" "of_int n = of_int (2 ^ 52) * pow2 e"
      by auto
    show ?thesis unfolding fl_pos_def e_def [symmetric] eq(1) round_half_even_of_int
      by (rule eq(2) [symmetric])
  qed
qed

lemma fl_pos_nonneg: "0 < a \<Longrightarrow> 0 \<le> fl_pos a"
proof -
  assume a: "0 < a"
  then have "0 \<le> round_half_even (a / pow2 (last_place a))"
    using round_half_even_mono [of 0 "a / pow2 (last_place a)"] round_half_even_of_int [of 0]
    by (simp add: less_imp_le)
  then show ?thesis by (simp add: fl_pos_def less_imp_le)
qed

lemma fl64_int:
  assumes "\<bar>n\<bar> \<le> 2 ^ 53"
  shows "fl64 (of_int n) = Fin (of_int n)"
proof (cases "n = 0")
  case False
  have f: "fl_pos \<bar>of_int n\<bar> = \<bar>of_int n\<bar>"
    using fl_pos_int [of "\<bar>n\<bar>"] False assms by simp
  have "(of_int \<bar>n\<bar> :: rat) \<le> of_int (2 ^ 53)" using assms of_int_le_iff by blast
  then have "\<bar>of_int n\<bar> < (2 ^ 1024 :: rat)" by (simp add: le_less_trans)
  then show ?thesis using False by (simp add: fl64_def overflow_bound_def f Let_def)
qed (simp add: fl64_def)

lemma float_of_int_exact: "\<bar>n\<bar> \<le> 2 ^ 53 \<Longrightarrow> float_of_int n = returned (Fin (of_int n))"
  by (simp add: float_of_int_def float_of_rat_def fl64_int)

lemma fl64_le_int:
  assumes "0 \<le> x" "x \<le> of_int n" "0 \<le> n" "n \<le> 2 ^ 53"
  shows "\<exists>r. fl64 x = Fin r \<and> 0 \<le> r \<and> r \<le> of_int n"
proof (cases "x = 0")
  case False
  then have x: "0 < x" using assms by simp
  then have n: "0 < n" using assms by (metis le_less_trans of_int_0_less_iff less_le_trans)
  have le: "fl_pos x \<le> of_int n"
    using fl_pos_mono [OF x assms(2)] fl_pos_int [OF n assms(4)] by simp
  have "(of_int n :: rat) \<le> of_int (2 ^ 53)" using assms(4) of_int_le_iff by blast
  then have "fl_pos x < 2 ^ 1024" using le by simp
  then show ?thesis using x le fl_pos_nonneg [OF x] by (simp add: fl64_def overflow_bound_def)
qed (use assms in \<open>simp add: fl64_def\<close>)

lemma fl64_nonneg: "0 \<le> x \<Longrightarrow> fl64 x = PInf \<or> (\<exists>r. fl64 x = Fin r \<and> 0 \<le> r)"
  using fl_pos_nonneg [of x] by (auto simp: fl64_def Let_def)

end
