(* ===== verification/PyText.thy ===== *)
theory PyText
  imports PyFloat
begin

text \<open>
  Parsing and cutting of text with the Python library: \<open>int(s)\<close> and \<open>float(s)\<close> of a literal
  (surrounding white space, a sign, underscores between digits, an exponent, the names of the
  infinities and of NaN), \<open>s.split()\<close>, \<open>s.splitlines()\<close>, \<open>s.replace(a, b)\<close>, \<open>s.find(p)\<close>
  and the two-way splits at the first or the last occurrence of a character. A literal that does
  not parse is \<open>None\<close>, where Python raises \<open>ValueError\<close>. Only ASCII digits and white space are
  recognised.
\<close>

section \<open>Numerals\<close>

definition skip_underscore :: "string \<Rightarrow> string" where
  "skip_underscore s =
     (case s of u # d # ds \<Rightarrow> if u = CHR ''_'' \<and> py_digit d then d # ds else s | _ \<Rightarrow> s)"

lemma length_skip_underscore [simp]: "length (skip_underscore s) \<le> length s"
  by (auto simp: skip_underscore_def split: list.splits)

function digit_run :: "string \<Rightarrow> string \<times> string" where
  "digit_run [] = ([], [])"
| "digit_run (c # cs) =
     (if py_digit c then (case digit_run (skip_underscore cs) of (ds, r) \<Rightarrow> (c # ds, r))
      else ([], c # cs))"
  by pat_completeness auto
termination
  by (relation "measure length") (auto simp: le_imp_less_Suc)

definition split_sign :: "string \<Rightarrow> bool \<times> string" where
  "split_sign s =
     (case s of c # cs \<Rightarrow>
        if c = CHR ''-'' then (True, cs) else if c = CHR ''+'' then (False, cs) else (False, s)
      | [] \<Rightarrow> (False, []))"

fun digits_int :: "int \<Rightarrow> string \<Rightarrow> int" where
  "digits_int acc [] = acc"
| "digits_int acc (c # cs) = digits_int (acc * 10 + (int (of_char c) - 48)) cs"

definition parse_int :: "string \<Rightarrow> int option" where
  "parse_int s =
     (case split_sign (strip s) of (neg, t) \<Rightarrow>
        (case digit_run t of (ds, r) \<Rightarrow>
           if ds \<noteq> [] \<and> r = []
           then Some (if neg then - digits_int 0 ds else digits_int 0 ds)
           else None))"

definition lower_char :: "char \<Rightarrow> char" where
  "lower_char c =
     (let n = (of_char c :: nat) in if 65 \<le> n \<and> n \<le> 90 then char_of (n + 32) else c)"

definition lower :: "string \<Rightarrow> string" where
  "lower s = map lower_char s"

text \<open>The exponent part: nothing, or \<open>e\<close>, a sign and digits up to the end.\<close>

definition parse_exponent :: "string \<Rightarrow> int option" where
  "parse_exponent s =
     (case s of [] \<Rightarrow> Some 0
      | c # cs \<Rightarrow>
          if c = CHR ''e'' \<or> c = CHR ''E'' then
            (case split_sign cs of (neg, t) \<Rightarrow>
               (case digit_run t of (ds, r) \<Rightarrow>
                  if ds \<noteq> [] \<and> r = []
                  then Some (if neg then - digits_int 0 ds else digits_int 0 ds)
                  else None))
          else None)"

definition scale10 :: "rat \<Rightarrow> int \<Rightarrow> rat" where
  "scale10 x e = (if 0 \<le> e then x * of_int (ipow 10 e) else x / of_int (ipow 10 (- e)))"

definition parse_decimal :: "string \<Rightarrow> rat option" where
  "parse_decimal s =
     (case digit_run s of (whole, r) \<Rightarrow>
        (case (case r of c # cs \<Rightarrow> if c = CHR ''.'' then digit_run cs else ([], r) | [] \<Rightarrow> ([], []))
         of (fraction, r') \<Rightarrow>
           if whole = [] \<and> fraction = [] then None
           else map_option
                  (\<lambda>e. scale10 (of_int (digits_int 0 (whole @ fraction))) (e - int (length fraction)))
                  (parse_exponent r')))"

definition parse_float :: "string \<Rightarrow> pyfloat option" where
  "parse_float s =
     (case split_sign (strip s) of (neg, t) \<Rightarrow>
        if lower t = ''inf'' \<or> lower t = ''infinity'' then Some (if neg then NInf else PInf)
        else if lower t = ''nan'' then Some NaN
        else map_option (\<lambda>x. fl64 (if neg then - x else x)) (parse_decimal t))"

section \<open>Cutting\<close>

fun words_from :: "string \<Rightarrow> string \<Rightarrow> string list" where
  "words_from acc [] = (if acc = [] then [] else [rev acc])"
| "words_from acc (c # cs) =
     (if py_space c then (if acc = [] then words_from [] cs else rev acc # words_from [] cs)
      else words_from (c # acc) cs)"

definition split_ws :: "string \<Rightarrow> string list" where
  "split_ws s = words_from [] s"

text \<open>The line boundaries of \<open>str.splitlines\<close> below 128; \<open>\r\n\<close> is one of them.\<close>

definition line_break :: "char \<Rightarrow> bool" where
  "line_break c \<longleftrightarrow>
     (let n = (of_char c :: nat) in (10 \<le> n \<and> n \<le> 13) \<or> (28 \<le> n \<and> n \<le> 30))"

definition after_break :: "char \<Rightarrow> string \<Rightarrow> string" where
  "after_break c s =
     (if (of_char c :: nat) = 13 \<and> s \<noteq> [] \<and> (of_char (hd s) :: nat) = 10 then tl s else s)"

lemma length_after_break [simp]: "length (after_break c s) \<le> length s"
  by (simp add: after_break_def)

function lines_from :: "string \<Rightarrow> string \<Rightarrow> string list" where
  "lines_from acc [] = (if acc = [] then [] else [rev acc])"
| "lines_from acc (c # cs) =
     (if line_break c then rev acc # lines_from [] (after_break c cs)
      else lines_from (c # acc) cs)"
  by pat_completeness auto
termination
  by (relation "measure (\<lambda>(acc, s). length s)") (auto simp: le_imp_less_Suc)

definition splitlines :: "string \<Rightarrow> string list" where
  "splitlines s = lines_from [] s"

text \<open>\<open>s.find(p)\<close>, \<open>s.split(c, 1)\<close> and \<open>s.rsplit(c, 1)\<close>.\<close>

fun find_from :: "nat \<Rightarrow> string \<Rightarrow> string \<Rightarrow> nat option" where
  "find_from i s p =
     (if startswith s p then Some i
      else (case s of [] \<Rightarrow> None | _ # cs \<Rightarrow> find_from (Suc i) cs p))"

declare find_from.simps [simp del]

definition find_str :: "string \<Rightarrow> string \<Rightarrow> nat option" where
  "find_str s p = find_from 0 s p"

definition cut_first :: "char \<Rightarrow> string \<Rightarrow> (string \<times> string) option" where
  "cut_first c s =
     (if c \<in> set s
      then Some (takeWhile (\<lambda>x. x \<noteq> c) s, tl (dropWhile (\<lambda>x. x \<noteq> c) s)) else None)"

definition cut_last :: "char \<Rightarrow> string \<Rightarrow> (string \<times> string) option" where
  "cut_last c s =
     (case cut_first c (rev s) of None \<Rightarrow> None | Some (b, a) \<Rightarrow> Some (rev a, rev b))"

text \<open>\<open>s.replace(p, q)\<close> for a nonempty \<open>p\<close>: the occurrences from left to right.\<close>

fun replace_from :: "nat \<Rightarrow> string \<Rightarrow> string \<Rightarrow> string \<Rightarrow> string" where
  "replace_from skip [] p q = []"
| "replace_from (Suc skip) (c # cs) p q = replace_from skip cs p q"
| "replace_from 0 (c # cs) p q =
     (if startswith (c # cs) p then q @ replace_from (length p - 1) cs p q
      else c # replace_from 0 cs p q)"

definition replace_str :: "string \<Rightarrow> string \<Rightarrow> string \<Rightarrow> string" where
  "replace_str s p q = replace_from 0 s p q"

text \<open>\<open>os.path.join\<close> of two parts: an absolute second part wins.\<close>

definition os_join :: "string \<Rightarrow> string \<Rightarrow> string" where
  "os_join a b =
     (if startswith b ''/'' then b
      else if a = [] \<or> endswith a ''/'' then a @ b else a @ ''/'' @ b)"

text \<open>\<open>sep.join(parts)\<close>.\<close>

fun join :: "string \<Rightarrow> string list \<Rightarrow> string" where
  "join sep [] = []"
| "join sep [x] = x"
| "join sep (x # y # ys) = x @ sep @ join sep (y # ys)"

text \<open>\<open>str(n)\<close> of an integer, and two characters.\<close>

definition str_int :: "int \<Rightarrow> string" where
  "str_int n = (if n < 0 then ''-'' @ str_nat (nat (- n)) else str_nat (nat n))"

text \<open>Digits filled up with zeros on the left.\<close>

definition zero_pad :: "nat \<Rightarrow> string \<Rightarrow> string" where
  "zero_pad k s = replicate (k - length s) (CHR ''0'') @ s"

definition newline :: char where
  "newline = char_of (10 :: nat)"

definition tab :: string where
  "tab = [char_of (9 :: nat)]"

text \<open>The one character of the programs' texts that is not ASCII, as the bytes of its encoding.\<close>

text \<open>\<open>f"{x:.kf}"\<close>: the exact value to \<open>k\<close> places, halves to even; padding to a width on either side.\<close>

fun fixed :: "nat \<Rightarrow> pyfloat \<Rightarrow> string" where
  "fixed k (Fin r) =
     (let n = nat (round_half_even (\<bar>r\<bar> * 10 ^ k))
      in (if r < 0 then ''-'' else []) @ str_nat (n div 10 ^ k) @
         (if k = 0 then [] else ''.'' @ zero_pad k (str_nat (n mod 10 ^ k))))"
| "fixed k PInf = ''inf''"
| "fixed k NInf = ''-inf''"
| "fixed k NaN = ''nan''"

definition left_pad :: "nat \<Rightarrow> string \<Rightarrow> string" where
  "left_pad k s = replicate (k - length s) (CHR '' '') @ s"

definition right_pad :: "nat \<Rightarrow> string \<Rightarrow> string" where
  "right_pad k s = s @ replicate (k - length s) (CHR '' '')"

definition apostrophe :: char where
  "apostrophe = CHR 0x27"

definition em_dash :: string where
  "em_dash = [CHR 0xE2, CHR 0x80, CHR 0x94]"

text \<open>\<open>str\<close> of a decoded value; floats, lists and dictionaries are left to an argument.\<close>

fun py_str :: "(json \<Rightarrow> string) \<Rightarrow> json \<Rightarrow> string" where
  "py_str show_rest (JStr s) = s"
| "py_str show_rest (JInt n) = str_int n"
| "py_str show_rest (JBool b) = (if b then ''True'' else ''False'')"
| "py_str show_rest JNull = ''None''"
| "py_str show_rest v = show_rest v"

section \<open>Laws\<close>

text \<open>A run of plain digits is read whole.\<close>

lemma skip_underscore_digits [simp]: "list_all py_digit s \<Longrightarrow> skip_underscore s = s"
  by (auto simp: skip_underscore_def py_digit_def split: list.splits)

lemma digit_run_digits [simp]: "list_all py_digit s \<Longrightarrow> digit_run s = (s, [])"
  by (induction s rule: digit_run.induct) auto

lemma digit_not_sign: "py_digit c \<Longrightarrow> c \<noteq> CHR ''-'' \<and> c \<noteq> CHR ''+''"
  by (auto simp: py_digit_def)

lemma digit_not_space: "py_digit c \<Longrightarrow> \<not> py_space c"
  by (simp add: py_digit_def py_space_def Let_def)

lemma strip_no_space:
  assumes "\<forall>c \<in> set s. \<not> py_space c"
  shows "strip s = s"
proof -
  have keep: "dropWhile py_space t = t" if "\<forall>c \<in> set t. \<not> py_space c" for t
    using that by (cases t) auto
  show ?thesis using keep [of s] keep [of "rev s"] assms by (simp add: strip_def)
qed

lemma split_sign_digits: "s \<noteq> [] \<Longrightarrow> list_all py_digit s \<Longrightarrow> split_sign s = (False, s)"
  by (cases s) (auto simp: split_sign_def dest: digit_not_sign)

lemma digits_int_digits: "list_all py_digit s \<Longrightarrow> digits_int (int n) s = int (digits_value n s)"
proof (induction s arbitrary: n)
  case (Cons c s)
  have "48 \<le> (of_char c :: nat)" using Cons.prems by (simp add: py_digit_def Let_def)
  then have eq: "int n * 10 + (int (of_char c) - 48) = int (n * 10 + (of_char c - 48))"
    by (simp add: of_nat_diff)
  have "list_all py_digit s" using Cons.prems by simp
  then show ?case unfolding digits_int.simps digits_value.simps eq by (rule Cons.IH)
qed simp

lemma parse_int_digits:
  assumes "s \<noteq> []" "list_all py_digit s"
  shows "parse_int s = Some (int (int_of_digits s))"
proof -
  have "strip s = s"
    using assms(2) by (intro strip_no_space) (auto simp: list_all_iff dest: digit_not_space)
  then show ?thesis
    using assms digits_int_digits [of s 0]
    by (simp add: parse_int_def split_sign_digits int_of_digits_def)
qed

text \<open>\<open>int(str(n)) = n\<close>.\<close>

lemma parse_int_str_nat [simp]: "parse_int (str_nat n) = Some (int n)"
  by (simp add: parse_int_digits str_nat_digits)

text \<open>The digits say the sign and the number.\<close>

lemma str_int_inject [simp]: "str_int m = str_int n \<longleftrightarrow> m = n"
proof
  have sign: "CHR ''-'' # s \<noteq> str_nat k" for s k
    using str_nat_digits [of k] by (auto simp: py_digit_def dest: sym)
  assume "str_int m = str_int n"
  then show "m = n"
    using sign sign [symmetric] by (auto simp: str_int_def split: if_splits)
qed simp

text \<open>\<open>%0kd\<close> of a natural number reads back, and is \<open>k\<close> characters when the number has at most \<open>k\<close> digits.\<close>

lemma digits_value_zeros: "digits_value 0 (replicate k (CHR ''0'') @ s) = digits_value 0 s"
  by (induction k) auto

lemma parse_int_zero_pad: "parse_int (zero_pad k (str_nat n)) = Some (int n)"
proof -
  have "list_all py_digit (zero_pad k (str_nat n))"
    using str_nat_digits [of n] by (auto simp: zero_pad_def list_all_iff py_digit_def)
  moreover have "zero_pad k (str_nat n) \<noteq> []" by (simp add: zero_pad_def)
  moreover have "int_of_digits (zero_pad k (str_nat n)) = n"
    using int_of_str_nat [of n] by (simp add: int_of_digits_def zero_pad_def digits_value_zeros)
  ultimately show ?thesis by (simp add: parse_int_digits)
qed

lemma length_str_nat: "n < 10 ^ k \<Longrightarrow> 0 < k \<Longrightarrow> length (str_nat n) \<le> k"
proof (induction k arbitrary: n)
  case (Suc k)
  show ?case
  proof (cases "n < 10")
    case True
    then show ?thesis by (subst str_nat.simps) simp
  next
    case False
    then have "0 < k" using Suc.prems(1) by (cases k) auto
    moreover have "n div 10 < 10 ^ k" using Suc.prems(1) by (simp add: less_mult_imp_div_less mult.commute)
    ultimately show ?thesis using Suc.IH False by (subst str_nat.simps) simp
  qed
qed simp

lemma length_zero_pad: "n < 10 ^ k \<Longrightarrow> 0 < k \<Longrightarrow> length (zero_pad k (str_nat n)) = k"
  using length_str_nat [of n k] by (simp add: zero_pad_def)

lemma parse_int_padded:
  "list_all (\<lambda>c. py_space c) sp \<Longrightarrow> parse_int (sp @ str_nat n) = Some (int n)"
proof -
  assume sp: "list_all (\<lambda>c. py_space c) sp"
  have d: "\<forall>c \<in> set (str_nat n). \<not> py_space c"
    using str_nat_digits [of n] by (auto simp: list_all_iff dest: digit_not_space)
  obtain c cs where c: "str_nat n = c # cs" by (cases "str_nat n") auto
  have "dropWhile py_space (sp @ str_nat n) = str_nat n"
    using sp d by (simp add: dropWhile_append2 list_all_iff)
  then have "strip (sp @ str_nat n) = strip (str_nat n)"
    using d c by (simp add: strip_def)
  then show ?thesis using parse_int_str_nat [of n] by (simp add: parse_int_def)
qed

lemma cut_first_iff: "cut_first c s = Some (a, b) \<longleftrightarrow> s = a @ c # b \<and> c \<notin> set a"
proof -
  have "s = takeWhile (\<lambda>x. x \<noteq> c) s @ c # tl (dropWhile (\<lambda>x. x \<noteq> c) s)" if "c \<in> set s"
    using that by (induction s) auto
  moreover have "c \<notin> set (takeWhile (\<lambda>x. x \<noteq> c) s)" using set_takeWhileD [of c "\<lambda>x. x \<noteq> c" s] by blast
  moreover have "takeWhile (\<lambda>x. x \<noteq> c) (a @ c # b) = a \<and> dropWhile (\<lambda>x. x \<noteq> c) (a @ c # b) = c # b"
    if "c \<notin> set a" using that by (induction a) auto
  ultimately show ?thesis by (auto simp: cut_first_def)
qed

lemma cut_last_iff: "cut_last c s = Some (a, b) \<longleftrightarrow> s = a @ c # b \<and> c \<notin> set b"
proof -
  have "cut_last c s = Some (a, b) \<longleftrightarrow> cut_first c (rev s) = Some (rev b, rev a)"
    by (auto simp: cut_last_def split: option.splits)
  also have "\<dots> \<longleftrightarrow> rev s = rev b @ c # rev a \<and> c \<notin> set b"
    by (simp add: cut_first_iff)
  also have "\<dots> \<longleftrightarrow> s = a @ c # b \<and> c \<notin> set b"
    by (metis append.assoc append_Cons append_Nil rev.simps(2) rev_append rev_rev_ident)
  finally show ?thesis .
qed

lemma cut_first_None: "cut_first c s = None \<longleftrightarrow> c \<notin> set s"
  by (simp add: cut_first_def)

section \<open>Lines that were written are read back\<close>

definition one_line :: "string \<Rightarrow> bool" where
  "one_line s \<longleftrightarrow> list_all (\<lambda>c. \<not> line_break c) s"

definition text_of_lines :: "string list \<Rightarrow> string" where
  "text_of_lines ls = concat (map (\<lambda>l. l @ [newline]) ls)"

lemma lines_from_line: "one_line l \<Longrightarrow> lines_from acc (l @ newline # s) = (rev acc @ l) # lines_from [] s"
proof (induction l arbitrary: acc)
  case Nil
  have "line_break newline" "(of_char newline :: nat) \<noteq> 13" by code_simp+
  then show ?case by (simp add: after_break_def)
qed (simp add: one_line_def)

lemma splitlines_text: "list_all one_line ls \<Longrightarrow> splitlines (text_of_lines ls) = ls"
  unfolding splitlines_def text_of_lines_def by (induction ls) (simp_all add: lines_from_line)

end
