(* ===== verification/GateMain.thy ===== *)
theory GateMain
  imports ReceiptsVerify PyText
begin

text \<open>
  \<open>scripts/receipts-verify.py\<close> with what it prints: \<open>main\<close> as the code runs it, each part printing its
  lines and raising the counter \<open>bad\<close>, and the command line. The properties relate it to the
  report of \<open>ReceiptsVerify\<close>. \<open>show_rest\<close> is \<open>str\<close> of a float, list or dictionary, \<open>why\<close> the text of
  the exception for a file that is no JSON and \<open>patch_error\<close> what git says of the patch.
\<close>

section \<open>Printing and counting\<close>

text \<open>The lines printed so far, then an escaping exception or the violations counted and a value.\<close>

type_synonym 'a gate = "string list \<times> (int \<times> 'a) res"

fun and_gate :: "'a gate \<Rightarrow> ('a \<Rightarrow> 'b gate) \<Rightarrow> 'b gate" where
  "and_gate (ls, Inl e) f = (ls, Inl e)"
| "and_gate (ls, Inr (n, x)) f =
     (case f x of (ls', Inl e) \<Rightarrow> (ls @ ls', Inl e) | (ls', Inr (m, y)) \<Rightarrow> (ls @ ls', Inr (n + m, y)))"

definition silent :: "'a res \<Rightarrow> 'a gate" where
  "silent r = ([], res_bind r (\<lambda>x. returned (0, x)))"

definition say :: "string \<Rightarrow> unit gate" where
  "say text = ([''receipts-verify: '' @ text], returned (0, ()))"

definition violated :: "string \<Rightarrow> unit gate" where
  "violated text = ([''receipts-verify: '' @ text], returned (1, ()))"

section \<open>The texts\<close>

definition durable :: "path \<Rightarrow> path \<Rightarrow> bool" where
  "durable repo p \<longleftrightarrow> receipts_root repo \<notin> {butlast p, butlast (butlast p)}"

definition label :: "path \<Rightarrow> path \<Rightarrow> string" where
  "label repo p = (if durable repo p then last p @ '' (durable)'' else last p)"

fun bound_text :: "(json \<Rightarrow> string) \<Rightarrow> bound_error \<Rightarrow> string" where
  "bound_text sr (ResidencyOver rank gib) = ''rank '' @ rank @ '' GTT '' @ py_str sr gib @ '' GiB exceeds the 80 GiB bound''"
| "bound_text sr TableResident = ''table has GPU-resident bytes; the mmap path is not engaged''"
| "bound_text sr NotWarmed = ''residency was not read after a warmed decode''"
| "bound_text sr NotByteIdentical = ''greedy repeat was not byte-identical''"
| "bound_text sr (FewShards n) = ''only '' @ py_str sr n @ '' shards staged''"
| "bound_text sr FewLoads = ''fewer than 3 loads per arm''"
| "bound_text sr (SingleArmMismatch arms) =
     ''spec_on_failed receipt must carry arms=['spec_off'], got '' @ py_str sr arms"
| "bound_text sr NotCounterbalanced = ''arms were not counterbalanced''"
| "bound_text sr (ContextRatio ratio) = ''full-context decode ratio '' @ py_str sr ratio @ '' below the 0.9 bound''"
| "bound_text sr (ApertureDiverges ap) = ''aperture '' @ py_str sr ap @ '' diverges from the 33554432-page ceiling''"
| "bound_text sr U4NoOutcome = ''usb4stream receipt carries no data.outcome''"
| "bound_text sr U4NoServeUp = ''usb4stream receipt does not record data.serve_up''"
| "bound_text sr (U4NoReason oc) = ''usb4stream outcome '' @ [apostrophe] @ oc @ [apostrophe] @ '' carries no reason text''"
| "bound_text sr (U4BadOutcome oc) = ''usb4stream outcome '' @ [apostrophe] @ oc @ [apostrophe] @ '' is not one of ok/skipped:/aborted:''"
| "bound_text sr (U4OpenCount opens) =
     ''usb4stream open_count '' @ py_str sr opens @ '' is not exactly 1'' @
     (case opens of JObj _ \<Rightarrow> '' per side'' | _ \<Rightarrow> [])"
| "bound_text sr (U4MissingKey k) = ''usb4stream 'ok' receipt is missing '' @ k"
| "bound_text sr (U4NoRtt n) = ''usb4stream 'ok' receipt has no rtt entry at '' @ str_nat n @ '' bytes''"
| "bound_text sr (U4NoExchange n) = ''usb4stream 'ok' receipt has no exchange entry at '' @ str_nat n @ '' bytes''"
| "bound_text sr (U4MissingField size_name f) = ''usb4stream size '' @ size_name @ '' is missing '' @ f"
| "bound_text sr (U4Throughput tput) = ''usb4stream throughput '' @ py_str sr tput @ '' does not cover both directions''"
| "bound_text sr (U4NoConfigfs k) = ''usb4stream 'ok' receipt does not record '' @ k @ '' from configfs''"
| "bound_text sr U4NoDevice = ''usb4stream 'ok' receipt does not resolve a device on both ends''"
| "bound_text sr U4NoLoop = ''usb4stream 'ok' receipt does not state its measurement loop''"

text \<open>What the texts of a run depend on.\<close>

record gate_texts =
  repo_root :: path
  show_rest :: "json \<Rightarrow> string"
  why :: "path \<Rightarrow> string"
  patch_error :: string

definition required_text :: "string list \<Rightarrow> string \<Rightarrow> string" where
  "required_text failed s =
     ''required receipt '' @ [apostrophe] @ s @ [apostrophe] @
     (if s \<in> set failed then '' is absent from the graded set '' @ em_dash @ '' it ran and FAILED, see failed/''
      else '' is absent '' @ em_dash @ '' the step did not run'')"

definition expected_set_text :: "nat \<Rightarrow> nat \<Rightarrow> string" where
  "expected_set_text missing asked =
     ''expected set: '' @ str_int (int asked - int missing) @ ''/'' @ str_nat asked @ '' present''"

definition warn_text :: "path \<Rightarrow> path \<Rightarrow> string" where
  "warn_text repo p =
     ''WARN: quarantined failure receipt failed/'' @ label repo p @ '' '' @ em_dash @
     '' typed blocker, see docs/MORNING.md''"

definition summary_text :: "nat \<Rightarrow> int \<Rightarrow> string" where
  "summary_text n bad = str_nat n @ '' receipts checked, '' @ str_int bad @ '' violations''"

section \<open>The program\<close>

fun gate_keys :: "gate_texts \<Rightarrow> path \<Rightarrow> json \<Rightarrow> string list \<Rightarrow> unit gate" where
  "gate_keys g p r [] = silent (returned ())"
| "gate_keys g p r (k # ks) =
     and_gate (silent (py_contains r k)) (\<lambda>there.
     and_gate (if there then silent (returned ())
               else violated (label (repo_root g) p @ '': missing '' @ [apostrophe] @ k @ [apostrophe])) (\<lambda>_.
       gate_keys g p r ks))"

fun gate_bounds :: "gate_texts \<Rightarrow> path \<Rightarrow> json \<Rightarrow> (string \<times> (json \<Rightarrow> verdict)) list \<Rightarrow> unit gate" where
  "gate_bounds g p r [] = silent (returned ())"
| "gate_bounds g p r ((prefix, check) # bs) =
     and_gate (silent (get_or r ''step'' (JStr []))) (\<lambda>step.
       if step_has_prefix step prefix then
         and_gate (silent (res_bind (dget r ''data'') (\<lambda>data. check (or_empty data)))) (\<lambda>err.
         and_gate (case err of None \<Rightarrow> silent (returned ())
                   | Some e \<Rightarrow> violated (label (repo_root g) p @ '': '' @ bound_text (show_rest g) e)) (\<lambda>_.
           gate_bounds g p r bs))
       else gate_bounds g p r bs)"

definition gate_receipt :: "gate_texts \<Rightarrow> path \<Rightarrow> json \<Rightarrow> string list gate" where
  "gate_receipt g p r =
     and_gate (silent (names_of p (Some r))) (\<lambda>names.
     and_gate (gate_keys g p r [''step'', ''status'', ''ts'']) (\<lambda>_.
     and_gate (silent (dget r ''status'')) (\<lambda>status.
     and_gate (if status = Some (JStr ''fail'')
               then and_gate (silent (get_or r ''step'' JNull)) (\<lambda>step.
                 violated (label (repo_root g) p @ '': step '' @ [apostrophe] @ py_str (show_rest g) step @
                   [apostrophe] @ '' FAILED''))
               else silent (returned ())) (\<lambda>_.
     and_gate (gate_bounds g p r BOUNDS) (\<lambda>_. silent (returned names))))))"

definition gate_file ::
  "(string \<Rightarrow> bool) \<Rightarrow> (string \<Rightarrow> json option) \<Rightarrow> gate_texts \<Rightarrow> world \<Rightarrow> path \<Rightarrow> string list gate" where
  "gate_file utf8 loads g w p =
     (let no_json = and_gate (violated (label (repo_root g) p @ '': invalid JSON: '' @ why g p)) (\<lambda>_. silent (returned []))
      in case read_text w p of
        Inl _ \<Rightarrow> no_json
      | Inr t \<Rightarrow>
          if \<not> utf8 t then silent (raised ValueError)
          else (case loads t of None \<Rightarrow> no_json | Some r \<Rightarrow> gate_receipt g p r))"

fun gate_files ::
  "(string \<Rightarrow> bool) \<Rightarrow> (string \<Rightarrow> json option) \<Rightarrow> gate_texts \<Rightarrow> world \<Rightarrow> path list \<Rightarrow> string list \<Rightarrow> string list gate" where
  "gate_files utf8 loads g w [] present = silent (returned present)"
| "gate_files utf8 loads g w (p # ps) present =
     and_gate (gate_file utf8 loads g w p) (\<lambda>names. gate_files utf8 loads g w ps (present @ names))"

fun gate_quarantine ::
  "(string \<Rightarrow> bool) \<Rightarrow> (string \<Rightarrow> json option) \<Rightarrow> gate_texts \<Rightarrow> world \<Rightarrow> path list \<Rightarrow> string list \<Rightarrow> string list gate" where
  "gate_quarantine utf8 loads g w [] failed = silent (returned failed)"
| "gate_quarantine utf8 loads g w (p # ps) failed =
     and_gate (say (warn_text (repo_root g) p)) (\<lambda>_.
     and_gate (silent (names_of p (read_receipt utf8 loads w p))) (\<lambda>names.
       gate_quarantine utf8 loads g w ps (failed @ names)))"

text \<open>The loop of \<open>_expected\<close>; its value is the number of the missing, which the caller adds to \<open>bad\<close>.\<close>

fun gate_missing :: "string list \<Rightarrow> string list \<Rightarrow> string list \<Rightarrow> nat \<Rightarrow> nat gate" where
  "gate_missing [] present failed n = silent (returned n)"
| "gate_missing (s # ss) present failed n =
     (if s \<in> set present then gate_missing ss present failed n
      else and_gate (say (required_text failed s)) (\<lambda>_. gate_missing ss present failed (n + 1)))"

definition gate_expected :: "string list \<Rightarrow> string list \<Rightarrow> string list \<Rightarrow> unit gate" where
  "gate_expected required present failed =
     and_gate (gate_missing required present failed 0) (\<lambda>missing.
     and_gate (if required = [] then silent (returned ()) else say (expected_set_text missing (length required))) (\<lambda>_.
       ([], returned (int missing, ()))))"

definition gate_body ::
  "(string \<Rightarrow> bool) \<Rightarrow> (string \<Rightarrow> json option) \<Rightarrow> gate_texts \<Rightarrow> int \<Rightarrow> string option \<Rightarrow> string list \<Rightarrow> world
     \<Rightarrow> nat option gate" where
  "gate_body utf8 loads g rc state required w =
     and_gate (if is_file w (repo_root g @ [''handoff'', ''catalog-row.patch'']) \<and> rc \<noteq> 0
               then violated (''handoff/catalog-row.patch does not parse: '' @ patch_error g)
               else silent (returned ())) (\<lambda>_.
     if \<not> list_ex (is_dir w) (receipt_dirs (repo_root g) state)
     then and_gate (say ''no receipts directory; nothing ran'') (\<lambda>_.
          and_gate (gate_expected required [] []) (\<lambda>_. silent (returned None)))
     else
       and_gate (gate_files utf8 loads g w (map snd (graded w (repo_root g) state)) []) (\<lambda>present.
       and_gate (gate_quarantine utf8 loads g w (map snd (quarantined w (repo_root g) state)) []) (\<lambda>failed.
       and_gate (gate_expected required present failed) (\<lambda>_.
         silent (returned (Some (length (graded w (repo_root g) state))))))))"

text \<open>\<open>main\<close> behind its arguments: what is printed, and the status of the process.\<close>

definition gate_main ::
  "(string \<Rightarrow> bool) \<Rightarrow> (string \<Rightarrow> json option) \<Rightarrow> gate_texts \<Rightarrow> int \<Rightarrow> string option \<Rightarrow> string list \<Rightarrow> world
     \<Rightarrow> string list \<times> int" where
  "gate_main utf8 loads g rc state required w =
     (case gate_body utf8 loads g rc state required w of
        (ls, Inl e) \<Rightarrow> (ls, 1)
      | (ls, Inr (bad, checked)) \<Rightarrow>
          (ls @ (case checked of None \<Rightarrow> [] | Some n \<Rightarrow> [''receipts-verify: '' @ summary_text n bad]),
           if bad \<noteq> 0 then 2 else 0))"

section \<open>Every violation is one line and one count\<close>

fun violation_text :: "gate_texts \<Rightarrow> violation \<Rightarrow> string" where
  "violation_text g PatchUnparsable = ''handoff/catalog-row.patch does not parse: '' @ patch_error g"
| "violation_text g (InvalidJson p) = label (repo_root g) p @ '': invalid JSON: '' @ why g p"
| "violation_text g (MissingKey p k) = label (repo_root g) p @ '': missing '' @ [apostrophe] @ k @ [apostrophe]"
| "violation_text g (StepFailed p step) =
     label (repo_root g) p @ '': step '' @ [apostrophe] @ py_str (show_rest g) step @ [apostrophe] @ '' FAILED''"
| "violation_text g (BoundViolated p e) = label (repo_root g) p @ '': '' @ bound_text (show_rest g) e"
| "violation_text g (RequiredFailed s) = required_text [s] s"
| "violation_text g (RequiredAbsent s) = required_text [] s"

definition violation_line :: "gate_texts \<Rightarrow> violation \<Rightarrow> string" where
  "violation_line g v = ''receipts-verify: '' @ violation_text g v"

fun of_requirement :: "violation \<Rightarrow> bool" where
  "of_requirement (RequiredFailed s) = True"
| "of_requirement (RequiredAbsent s) = True"
| "of_requirement _ = False"

text \<open>What a run prints, from its report; \<open>dirs\<close> says whether there is a directory of receipts.\<close>

definition report_lines :: "gate_texts \<Rightarrow> bool \<Rightarrow> string list \<Rightarrow> gate_report \<Rightarrow> string list" where
  "report_lines g dirs required rep =
     (let asked = filter of_requirement (violations rep) in
      map (violation_line g) (filter (\<lambda>v. \<not> of_requirement v) (violations rep)) @
      (if dirs then map (\<lambda>p. ''receipts-verify: '' @ warn_text (repo_root g) p) (warned rep)
       else [''receipts-verify: no receipts directory; nothing ran'']) @
      map (violation_line g) asked @
      (if required = [] then []
       else [''receipts-verify: '' @ expected_set_text (length asked) (length required)]) @
      (if dirs then [''receipts-verify: '' @ summary_text (seen rep) (int (length (violations rep)))] else []))"

text \<open>A part of the program does as a result with its violations says.\<close>

definition accounts :: "gate_texts \<Rightarrow> 'a gate \<Rightarrow> ('a \<times> violation list) res \<Rightarrow> bool" where
  "accounts g m v \<longleftrightarrow>
     (case v of
        Inl e \<Rightarrow> snd m = Inl e
      | Inr (x, vs) \<Rightarrow> m = (map (violation_line g) vs, Inr (int (length vs), x)))"

lemma bind_assoc: "res_bind (res_bind m f) h = res_bind m (\<lambda>x. res_bind (f x) h)"
  by (cases m) simp_all

lemma and_silent [simp]:
  "and_gate (silent (returned x)) f = f x"
  "and_gate (silent (raised e)) f = ([], raised e)"
  by (cases "f x" rule: prod.exhaust; cases "snd (f x)"; auto simp: silent_def) (simp add: silent_def)

lemma accounts_quiet: "accounts g (silent (returned x)) (returned (x, []))"
  by (simp add: accounts_def silent_def)

lemma accounts_raised: "accounts g (silent (raised e)) (raised e)"
  by (simp add: accounts_def silent_def)

lemma accounts_violated: "accounts g (violated (violation_text g v)) (returned ((), [v]))"
  by (simp add: accounts_def violated_def violation_line_def)

lemma accounts_silent_and:
  "(\<And>x. r = returned x \<Longrightarrow> accounts g (f x) (h x)) \<Longrightarrow> accounts g (and_gate (silent r) f) (res_bind r h)"
  by (cases r) (simp_all add: accounts_def)

lemma accounts_and:
  assumes "accounts g m v" and "\<And>x. accounts g (f x) (h x)"
  shows "accounts g (and_gate m f) (res_bind v (\<lambda>(x, vs). res_bind (h x) (\<lambda>(y, ws). returned (y, vs @ ws))))"
proof (cases v)
  case (Inl e)
  then show ?thesis using assms(1) by (cases m) (auto simp: accounts_def)
next
  case (Inr xv)
  obtain x vs where xv: "xv = (x, vs)" by force
  with Inr assms(1) have "m = (map (violation_line g) vs, Inr (int (length vs), x))" by (simp add: accounts_def)
  then show ?thesis
    using assms(2) [of x] Inr xv by (cases "f x"; cases "h x") (auto simp: accounts_def)
qed

lemma gate_keys_accounts:
  "accounts g (gate_keys g p r ks) (res_bind (missing_keys p r ks) (\<lambda>vs. returned ((), vs)))"
proof (induction ks)
  case (Cons k ks)
  have "accounts g
      (and_gate (if there then silent (returned ()) else violated (violation_text g (MissingKey p k))) (\<lambda>_. gate_keys g p r ks))
      (res_bind (missing_keys p r ks) (\<lambda>vs. returned ((), if there then vs else MissingKey p k # vs)))" for there
    using Cons accounts_and [OF accounts_violated Cons, of "MissingKey p k"]
    by (cases there; cases "missing_keys p r ks") simp_all
  then have "accounts g (gate_keys g p r (k # ks)) (res_bind (py_contains r k) (\<lambda>there.
      res_bind (missing_keys p r ks) (\<lambda>vs. returned ((), if there then vs else MissingKey p k # vs))))"
    unfolding gate_keys.simps violation_text.simps by (rule accounts_silent_and)
  then show ?case by (cases "py_contains r k"; cases "missing_keys p r ks") simp_all
qed (simp add: accounts_quiet)

lemma gate_bounds_accounts:
  "accounts g (gate_bounds g p r bs) (res_bind (check_bounds p r bs) (\<lambda>vs. returned ((), vs)))"
proof (induction bs)
  case (Cons b bs)
  obtain prefix check where b: "b = (prefix, check)" by force
  have err: "accounts g
      (and_gate (case e of None \<Rightarrow> silent (returned ())
          | Some x \<Rightarrow> violated (violation_text g (BoundViolated p x))) (\<lambda>_. gate_bounds g p r bs))
      (res_bind (check_bounds p r bs) (\<lambda>vs. returned ((), case e of None \<Rightarrow> vs | Some x \<Rightarrow> BoundViolated p x # vs)))"
    for e
    using Cons accounts_and [OF accounts_violated Cons, of "BoundViolated p (the e)"]
    by (cases e; cases "check_bounds p r bs") simp_all
  note step = accounts_silent_and [OF err, of "res_bind (dget r ''data'') (\<lambda>data. check (or_empty data))",
      unfolded violation_text.simps]
  show ?case
    unfolding b gate_bounds.simps check_bounds.simps bind_assoc
    by (rule accounts_silent_and) (use Cons step in \<open>simp add: bind_assoc\<close>)
qed (simp add: accounts_quiet)

lemma accounts_andI:
  assumes "accounts g m v" and "\<And>x. accounts g (f x) (h x)"
    and "w = res_bind v (\<lambda>(x, vs). res_bind (h x) (\<lambda>(y, ws). returned (y, vs @ ws)))"
  shows "accounts g (and_gate m f) w"
  unfolding assms(3) using assms(1,2) by (rule accounts_and)

lemma gate_failed_accounts:
  "accounts g
     (if failed then and_gate (silent (get_or r ''step'' JNull)) (\<lambda>step. violated (violation_text g (StepFailed p step)))
      else silent (returned ()))
     (if failed then res_bind (get_or r ''step'' JNull) (\<lambda>step. returned ((), [StepFailed p step])) else returned ((), []))"
  by (cases failed) (simp_all only: if_True if_False accounts_quiet accounts_silent_and [OF accounts_violated])

lemma gate_receipt_accounts: "accounts g (gate_receipt g p r) (grade_receipt p r)"
proof -
  define ks where "ks = [''step'', ''status'', ''ts'']"
  let ?failed = "\<lambda>status. if status = Some (JStr ''fail'')
    then res_bind (get_or r ''step'' JNull) (\<lambda>step. returned ((), [StepFailed p step])) else returned ((), [])"
  have bounds: "accounts g (and_gate (gate_bounds g p r BOUNDS) (\<lambda>_. silent (returned names)))
      (res_bind (check_bounds p r BOUNDS) (\<lambda>vs. returned (names, vs)))" for names
    by (rule accounts_andI [OF gate_bounds_accounts accounts_quiet]) (simp add: bind_assoc)
  have "accounts g (gate_receipt g p r) (res_bind (names_of p (Some r)) (\<lambda>names.
      res_bind (res_bind (missing_keys p r ks) (\<lambda>vs. returned ((), vs))) (\<lambda>(_, v1).
      res_bind (res_bind (dget r ''status'') (\<lambda>status. res_bind (?failed status) (\<lambda>(_, v2).
        res_bind (res_bind (check_bounds p r BOUNDS) (\<lambda>vs. returned (names, vs))) (\<lambda>(y, v3). returned (y, v2 @ v3)))))
        (\<lambda>(y, ws). returned (y, v1 @ ws)))))"
    unfolding gate_receipt_def ks_def [symmetric]
    by (rule accounts_silent_and, rule accounts_and [OF gate_keys_accounts], rule accounts_silent_and,
        rule accounts_and [OF gate_failed_accounts [unfolded violation_text.simps] bounds])
  moreover have "\<dots> = grade_receipt p r"
    unfolding grade_receipt_def ks_def [symmetric]
    by (cases "names_of p (Some r)"; cases "missing_keys p r ks"; cases "dget r ''status''";
        cases "check_bounds p r BOUNDS") (auto simp: dget_Inr)
  ultimately show ?thesis by simp
qed

lemma gate_file_accounts: "accounts g (gate_file utf8 loads g w p) (grade_path utf8 loads w p)"
proof -
  have "accounts g (and_gate (violated (violation_text g (InvalidJson p))) (\<lambda>_. silent (returned [])))
      (returned ([], [InvalidJson p]))"
    using accounts_and [OF accounts_violated accounts_quiet, of g "InvalidJson p" "\<lambda>_. []"] by simp
  then show ?thesis
    by (auto simp: gate_file_def grade_path_def Let_def gate_receipt_accounts accounts_raised
        split: sum.split option.split)
qed

lemma gate_files_accounts:
  "accounts g (gate_files utf8 loads g w ps present)
     (res_bind (grade_all utf8 loads w ps) (\<lambda>(names, vs). returned (present @ names, vs)))"
proof (induction ps arbitrary: present)
  case (Cons p ps)
  have "accounts g (gate_files utf8 loads g w (p # ps) present)
      (res_bind (grade_path utf8 loads w p) (\<lambda>(x, vs). res_bind (res_bind (grade_all utf8 loads w ps)
        (\<lambda>(names, vs). returned ((present @ x) @ names, vs))) (\<lambda>(y, ws). returned (y, vs @ ws))))"
    unfolding gate_files.simps by (rule accounts_and [OF gate_file_accounts Cons])
  then show ?case
    by (cases "grade_path utf8 loads w p"; cases "grade_all utf8 loads w ps") (auto simp: case_prod_unfold)
qed (simp add: accounts_quiet)

lemma gate_quarantine_lines:
  "case quarantine_names utf8 loads w ps of
     Inl e \<Rightarrow> snd (gate_quarantine utf8 loads g w ps failed) = Inl e
   | Inr names \<Rightarrow> gate_quarantine utf8 loads g w ps failed =
       (map (\<lambda>p. ''receipts-verify: '' @ warn_text (repo_root g) p) ps, Inr (0, failed @ names))"
proof (induction ps arbitrary: failed)
  case (Cons p ps)
  show ?case
  proof (cases "names_of p (read_receipt utf8 loads w p)")
    case (Inr names)
    show ?thesis
      using Cons [of "failed @ names"] Inr
      by (cases "gate_quarantine utf8 loads g w ps (failed @ names)"; cases "quarantine_names utf8 loads w ps")
        (auto simp: say_def)
  qed (simp add: say_def)
qed (simp add: silent_def)

lemma gate_missing_lines:
  "gate_missing ss present failed n =
     (map (violation_line g) (expected ss present failed), Inr (0, n + length (expected ss present failed)))"
proof (induction ss arbitrary: n)
  case (Cons s ss)
  have "violation_line g (if s \<in> set failed then RequiredFailed s else RequiredAbsent s) =
      ''receipts-verify: '' @ required_text failed s"
    by (simp add: violation_line_def required_text_def)
  then show ?case using Cons [of n] Cons [of "n + 1"] by (simp add: expected_def say_def)
qed (simp add: silent_def expected_def)

lemma gate_expected_lines:
  "gate_expected required present failed =
     (map (violation_line g) (expected required present failed) @
      (if required = [] then []
       else [''receipts-verify: '' @ expected_set_text (length (expected required present failed)) (length required)]),
      Inr (int (length (expected required present failed)), ()))"
  unfolding gate_expected_def gate_missing_lines [where g = g] by (simp add: silent_def say_def)

lemma missing_keys_graded: "missing_keys p r ks = returned vs \<Longrightarrow> filter of_requirement vs = []"
  by (induction ks arbitrary: vs) (auto simp: res_simps split: if_splits)

lemma check_bounds_graded: "check_bounds p r bs = returned vs \<Longrightarrow> filter of_requirement vs = []"
proof (induction bs arbitrary: vs)
  case (Cons b bs)
  then show ?case by (cases b) (auto simp: res_simps split: if_splits option.splits)
qed simp

lemma grade_path_graded: "grade_path utf8 loads w p = returned (names, vs) \<Longrightarrow> filter of_requirement vs = []"
  by (auto simp: grade_path_def grade_receipt_def res_simps missing_keys_graded check_bounds_graded
      dest: missing_keys_graded split: sum.splits option.splits if_splits simp del: missing_keys.simps)

lemma grade_all_graded: "grade_all utf8 loads w ps = returned (names, vs) \<Longrightarrow> filter of_requirement vs = []"
  by (induction ps arbitrary: names vs) (auto simp: res_simps grade_path_graded)

lemma expected_asked: "filter of_requirement (expected ss present failed) = expected ss present failed"
  by (auto simp: expected_def filter_id_conv)

lemma graded_lines:
  assumes "grade_all utf8 loads w ps = returned (present, vs)"
  shows "gate_files utf8 loads g w ps [] = (map (violation_line g) vs, returned (int (length vs), present))"
  using gate_files_accounts [of g utf8 loads w ps "[]"] assms by (simp add: accounts_def)

lemma patch_lines:
  "(if is_file w (repo_root g @ [''handoff'', ''catalog-row.patch'']) \<and> rc \<noteq> 0
    then violated (''handoff/catalog-row.patch does not parse: '' @ patch_error g) else silent (returned ())) =
   (map (violation_line g) (handoff_patch_ok w (repo_root g) rc),
    returned (int (length (handoff_patch_ok w (repo_root g) rc)), ()))"
  by (simp add: handoff_patch_ok_def violated_def silent_def violation_line_def)

lemma patch_graded: "filter of_requirement (handoff_patch_ok w repo rc) = []"
  by (simp add: handoff_patch_ok_def)

lemma not_asked: "filter of_requirement vs = [] \<Longrightarrow> filter (\<lambda>v. \<not> of_requirement v) vs = vs"
  by (auto simp: filter_empty_conv filter_id_conv)

lemma none_graded: "filter (\<lambda>v. \<not> of_requirement v) (expected ss present failed) = []"
  by (auto simp: expected_def filter_empty_conv)

lemma files_raise:
  "grade_all utf8 loads w ps = raised e \<Longrightarrow> snd (gate_files utf8 loads g w ps []) = raised e"
  using gate_files_accounts [of g utf8 loads w ps "[]"] by (simp add: accounts_def)

lemma raised_after [simp]: "snd m = raised e \<Longrightarrow> snd (and_gate m f) = raised e"
  by (cases m) auto

lemma and_gate_returned:
  "and_gate (ls, returned (n, x)) f =
     (ls @ fst (f x), res_bind (snd (f x)) (\<lambda>(m, y). returned (n + m, y)))"
  by (cases "f x"; cases "snd (f x)") auto

lemma gate_raises:
  assumes "snd (gate_body utf8 loads g rc state required w) = raised e"
  shows "snd (gate_main utf8 loads g rc state required w) = 1"
  using assms by (cases "gate_body utf8 loads g rc state required w") (simp add: gate_main_def)

lemma no_counts [simp]: "int (length xs) + int (length ys) = 0 \<longleftrightarrow> xs = [] \<and> ys = []"
  "int (length xs) + (int (length ys) + int (length zs)) = 0 \<longleftrightarrow> xs = [] \<and> ys = [] \<and> zs = []"
  by (simp_all flip: of_nat_add)

lemma gate_main_report:
  "snd (gate_main utf8 loads g rc state (parse_require requires) w) =
     exit_code (verify_run utf8 loads rc (repo_root g) state requires w) \<and>
   (case verify_run utf8 loads rc (repo_root g) state requires w of
      Inl e \<Rightarrow> True
    | Inr rep \<Rightarrow> fst (gate_main utf8 loads g rc state (parse_require requires) w) =
        report_lines g (list_ex (is_dir w) (receipt_dirs (repo_root g) state)) (parse_require requires) rep)"
proof (cases "list_ex (is_dir w) (receipt_dirs (repo_root g) state)")
  case False
  then show ?thesis
    unfolding gate_main_def gate_body_def patch_lines gate_expected_lines [where g = g]
    by (simp add: verify_run_def Let_def and_gate_returned say_def silent_def report_lines_def exit_code_def
        patch_graded not_asked expected_asked none_graded del: and_gate.simps)
next
  case True
  note dirs = True
  let ?ps = "map snd (graded w (repo_root g) state)" and ?qs = "map snd (quarantined w (repo_root g) state)"
  show ?thesis
  proof (cases "grade_all utf8 loads w ?ps")
    case (Inl e)
    then have "snd (gate_body utf8 loads g rc state (parse_require requires) w) = raised e"
      using dirs unfolding gate_body_def patch_lines by (simp add: and_gate_returned files_raise del: and_gate.simps)
    from gate_raises [OF this] show ?thesis using Inl dirs by (simp add: verify_run_def Let_def exit_code_def)
  next
    case (Inr r)
    obtain present vs where r: "r = (present, vs)" by force
    note graded = Inr [unfolded r]
    note files = graded_lines [OF graded, of g]
    note quarantine = gate_quarantine_lines [of utf8 loads g w ?qs "[]"]
    show ?thesis
    proof (cases "quarantine_names utf8 loads w ?qs")
      case (Inl e)
      then have "snd (gate_body utf8 loads g rc state (parse_require requires) w) = raised e"
        using dirs quarantine unfolding gate_body_def patch_lines files
        by (simp add: and_gate_returned del: and_gate.simps)
      from gate_raises [OF this] show ?thesis
        using Inl graded dirs by (simp add: verify_run_def Let_def exit_code_def)
    next
      case (Inr failed)
      then show ?thesis
        using dirs quarantine graded grade_all_graded [OF graded]
        unfolding gate_main_def gate_body_def patch_lines files gate_expected_lines [where g = g]
        by (simp add: verify_run_def Let_def and_gate_returned silent_def report_lines_def exit_code_def
            patch_graded not_asked expected_asked none_graded del: and_gate.simps)
    qed
  qed
qed

text \<open>
  C9: The gate ends with the status of its report, and a run that is not cut short by an exception prints
  exactly the lines of the report: one for each violation that it counts.
\<close>

theorem gate_prints_report:
  "snd (gate_main utf8 loads g rc state (parse_require requires) w) =
     exit_code (verify_run utf8 loads rc (repo_root g) state requires w) \<and>
   (case verify_run utf8 loads rc (repo_root g) state requires w of
      Inl e \<Rightarrow> True
    | Inr rep \<Rightarrow> fst (gate_main utf8 loads g rc state (parse_require requires) w) =
        report_lines g (list_ex (is_dir w) (receipt_dirs (repo_root g) state)) (parse_require requires) rep)"
  by (rule gate_main_report)

end
