(* ===== verification/ArgParse.thy ===== *)
theory ArgParse
  imports PyText
begin

text \<open>
  What the programs use of \<open>argparse\<close>: long options with one value or none, \<open>type=int\<close> and
  \<open>type=float\<close>, \<open>choices\<close>, \<open>required\<close>, defaults, the help option, unambiguous abbreviations and
  \<open>--name=value\<close>. No program that uses it declares positional arguments or short options
  (\<open>receipt-restore\<close>, which does, is in ReceiptCommand). Parsing ends with the namespace, with the
  status 2 of a usage error, or with the status 0 of the help text. As in the library up to Python
  3.12.2, all words are classified first, so that an ambiguous abbreviation is an error even behind
  \<open>-h\<close>.
\<close>

section \<open>Parsers and namespaces\<close>

datatype arg_value =
    Text_value string
  | Int_value int
  | Float_value pyfloat
  | Flag_value bool
  | No_value

datatype arg_kind = Text_arg | Int_arg | Float_arg | Flag_arg

record arg_spec =
  arg_name :: string
  arg_kind :: arg_kind
  arg_choices :: "string list"
  arg_required :: bool
  arg_default :: arg_value

type_synonym namespace = "(string \<times> arg_value) list"

datatype parsed = Parsed namespace | Parser_exit int

definition option_of :: "string \<Rightarrow> arg_kind \<Rightarrow> arg_value \<Rightarrow> arg_spec" where
  "option_of name k d =
     \<lparr>arg_name = name, arg_kind = k, arg_choices = [], arg_required = False, arg_default = d\<rparr>"

definition flag_of :: "string \<Rightarrow> arg_spec" where
  "flag_of name = option_of name Flag_arg (Flag_value False)"

fun find_spec :: "arg_spec list \<Rightarrow> string \<Rightarrow> arg_spec option" where
  "find_spec [] n = None"
| "find_spec (s # ss) n = (if arg_name s = n then Some s else find_spec ss n)"

definition defaults :: "arg_spec list \<Rightarrow> namespace" where
  "defaults specs = map (\<lambda>s. (arg_name s, arg_default s)) specs"

fun put_arg :: "namespace \<Rightarrow> string \<Rightarrow> arg_value \<Rightarrow> namespace" where
  "put_arg [] n v = [(n, v)]"
| "put_arg ((m, w) # ns) n v = (if m = n then (n, v) # ns else (m, w) # put_arg ns n v)"

section \<open>The words of a command line\<close>

datatype arg_word =
    Plain_word
  | Option_word string "string option"
  | Ambiguous_word
  | Unknown_word

definition help_name :: string where
  "help_name = ''--help''"

text \<open>\<open>-\<close> digits, with at most one point that digits follow.\<close>

definition negative_number :: "string \<Rightarrow> bool" where
  "negative_number s \<longleftrightarrow>
     (case s of [] \<Rightarrow> False
      | c # cs \<Rightarrow> c = CHR ''-'' \<and>
          (case cut_first (CHR ''.'') cs of
             None \<Rightarrow> isdigit cs
           | Some (a, b) \<Rightarrow> list_all py_digit a \<and> isdigit b))"

definition split_word :: "string \<Rightarrow> string \<times> string option" where
  "split_word a = (case cut_first (CHR ''='') a of None \<Rightarrow> (a, None) | Some (n, v) \<Rightarrow> (n, Some v))"

definition not_option :: "string \<Rightarrow> arg_word" where
  "not_option a = (if negative_number a \<or> CHR '' '' \<in> set a then Plain_word else Unknown_word)"

definition classify :: "string list \<Rightarrow> string \<Rightarrow> arg_word" where
  "classify names a =
     (if a = [] \<or> hd a \<noteq> CHR ''-'' then Plain_word
      else if a \<in> set names then Option_word a None
      else if a = ''-h'' then Option_word help_name None
      else if length a = 1 then Plain_word
      else let (n, v) = split_word a
        in if v \<noteq> None \<and> n \<in> set names then Option_word n v
           else if v \<noteq> None \<and> n = ''-h'' then Option_word help_name v
           else if startswith a ''--''
           then (case filter (\<lambda>m. startswith m n) names of
                   [m] \<Rightarrow> Option_word m v
                 | [] \<Rightarrow> not_option a
                 | _ \<Rightarrow> Ambiguous_word)
           else if startswith a ''-h'' then Option_word help_name None
           else not_option a)"

text \<open>
  The classified words: behind a lone \<open>--\<close> everything is a plain word, and the \<open>--\<close> itself is one that no
  option takes.
\<close>

fun classify_all :: "string list \<Rightarrow> string list \<Rightarrow> (arg_word \<times> string) list" where
  "classify_all names [] = []"
| "classify_all names (a # as) =
     (if a = ''--'' then (Unknown_word, a) # map (Pair Plain_word) as
      else (classify names a, a) # classify_all names as)"

section \<open>Values\<close>

text \<open>The converted value, unless the type or the choices refuse it.\<close>

definition convert_arg :: "arg_spec \<Rightarrow> string \<Rightarrow> arg_value option" where
  "convert_arg spec s =
     (if arg_choices spec \<noteq> [] \<and> s \<notin> set (arg_choices spec) then None
      else case arg_kind spec of
        Int_arg \<Rightarrow> map_option Int_value (parse_int s)
      | Float_arg \<Rightarrow> map_option Float_value (parse_float s)
      | _ \<Rightarrow> Some (Text_value s))"

text \<open>
  The loop over the words. Words that no option takes and unknown options are only refused at the end,
  as are missing required options; the first flaw of an option, or the help option, ends it at once.
\<close>

fun consume :: "arg_spec list \<Rightarrow> string list \<Rightarrow> bool \<Rightarrow> namespace \<Rightarrow> (arg_word \<times> string) list \<Rightarrow> parsed" where
  "consume specs seen extra ns [] =
     (if extra \<or> (\<exists>s \<in> set specs. arg_required s \<and> arg_name s \<notin> set seen) then Parser_exit 2 else Parsed ns)"
| "consume specs seen extra ns ((Option_word n v, a) # ws) =
     (if n = help_name then Parser_exit (if v = None then 0 else 2)
      else case find_spec specs n of
        None \<Rightarrow> Parser_exit 2
      | Some spec \<Rightarrow>
          if arg_kind spec = Flag_arg
          then (if v = None then consume specs (n # seen) extra (put_arg ns n (Flag_value True)) ws
                else Parser_exit 2)
          else case v of
            Some s \<Rightarrow>
              (case convert_arg spec s of None \<Rightarrow> Parser_exit 2
               | Some x \<Rightarrow> consume specs (n # seen) extra (put_arg ns n x) ws)
          | None \<Rightarrow>
              (case ws of
                 (Plain_word, s) # ws' \<Rightarrow>
                   (case convert_arg spec s of None \<Rightarrow> Parser_exit 2
                    | Some x \<Rightarrow> consume specs (n # seen) extra (put_arg ns n x) ws')
               | _ \<Rightarrow> Parser_exit 2))"
| "consume specs seen extra ns ((w, a) # ws) = consume specs seen True ns ws"

definition parse_args :: "arg_spec list \<Rightarrow> string list \<Rightarrow> parsed" where
  "parse_args specs argv =
     (let words = classify_all (help_name # map arg_name specs) argv
      in if Ambiguous_word \<in> set (map fst words) then Parser_exit 2
         else consume specs [] False (defaults specs) words)"

section \<open>Reading a namespace\<close>

definition text_arg :: "namespace \<Rightarrow> string \<Rightarrow> string" where
  "text_arg ns n = (case map_of ns n of Some (Text_value s) \<Rightarrow> s | _ \<Rightarrow> [])"

definition opt_text_arg :: "namespace \<Rightarrow> string \<Rightarrow> string option" where
  "opt_text_arg ns n = (case map_of ns n of Some (Text_value s) \<Rightarrow> Some s | _ \<Rightarrow> None)"

definition int_arg :: "namespace \<Rightarrow> string \<Rightarrow> int" where
  "int_arg ns n = (case map_of ns n of Some (Int_value i) \<Rightarrow> i | _ \<Rightarrow> 0)"

definition float_arg :: "namespace \<Rightarrow> string \<Rightarrow> pyfloat" where
  "float_arg ns n = (case map_of ns n of Some (Float_value x) \<Rightarrow> x | _ \<Rightarrow> Fin 0)"

definition flag_arg :: "namespace \<Rightarrow> string \<Rightarrow> bool" where
  "flag_arg ns n \<longleftrightarrow> map_of ns n = Some (Flag_value True)"

lemmas arg_readers = text_arg_def opt_text_arg_def int_arg_def float_arg_def flag_arg_def

text \<open>\<open>os.environ.get(name, default)\<close>, and a number read from it at once.\<close>

type_synonym environ = "string \<Rightarrow> string option"

definition env_get :: "environ \<Rightarrow> string \<Rightarrow> string \<Rightarrow> string" where
  "env_get env n d = (case env n of None \<Rightarrow> d | Some s \<Rightarrow> s)"

definition env_int :: "environ \<Rightarrow> string \<Rightarrow> string \<Rightarrow> int res" where
  "env_int env n d = (case parse_int (env_get env n d) of None \<Rightarrow> raised ValueError | Some i \<Rightarrow> returned i)"

definition env_float :: "environ \<Rightarrow> string \<Rightarrow> string \<Rightarrow> pyfloat res" where
  "env_float env n d = (case parse_float (env_get env n d) of None \<Rightarrow> raised ValueError | Some x \<Rightarrow> returned x)"

section \<open>Command lines that a program writes\<close>

text \<open>
  A command line written as options with their values. Such a line is read back as it was meant when
  every option is declared under its full name, every value can be a value, and its type takes it.
\<close>

datatype written = With_value string string | Bare string

fun words_written :: "written \<Rightarrow> string list" where
  "words_written (With_value n s) = [n, s]"
| "words_written (Bare n) = [n]"

definition command_line :: "written list \<Rightarrow> string list" where
  "command_line ws = concat (map words_written ws)"

definition can_be_value :: "string list \<Rightarrow> string \<Rightarrow> bool" where
  "can_be_value names s \<longleftrightarrow> s \<noteq> ''--'' \<and> classify names s = Plain_word"

fun well_written :: "arg_spec list \<Rightarrow> written \<Rightarrow> bool" where
  "well_written specs (With_value n s) \<longleftrightarrow>
     (\<exists>spec. find_spec specs n = Some spec \<and> arg_kind spec \<noteq> Flag_arg \<and> convert_arg spec s \<noteq> None) \<and>
     can_be_value (help_name # map arg_name specs) s"
| "well_written specs (Bare n) \<longleftrightarrow>
     (\<exists>spec. find_spec specs n = Some spec \<and> arg_kind spec = Flag_arg)"

fun meaning_of :: "arg_spec list \<Rightarrow> namespace \<Rightarrow> written \<Rightarrow> namespace" where
  "meaning_of specs ns (With_value n s) =
     put_arg ns n (the (convert_arg (the (find_spec specs n)) s))"
| "meaning_of specs ns (Bare n) = put_arg ns n (Flag_value True)"

fun written_name :: "written \<Rightarrow> string" where
  "written_name (With_value n s) = n"
| "written_name (Bare n) = n"

definition long_names :: "arg_spec list \<Rightarrow> bool" where
  "long_names specs \<longleftrightarrow> (\<forall>s \<in> set specs. startswith (arg_name s) ''--'' \<and> arg_name s \<noteq> ''--'' \<and> arg_name s \<noteq> help_name)"

lemma find_spec_name: "find_spec specs n = Some s \<Longrightarrow> arg_name s = n \<and> s \<in> set specs"
  by (induction specs) (auto split: if_splits)

lemma classify_name:
  "long_names specs \<Longrightarrow> s \<in> set specs \<Longrightarrow>
   classify (help_name # map arg_name specs) (arg_name s) = Option_word (arg_name s) None \<and> arg_name s \<noteq> ''--''"
proof -
  assume "long_names specs" "s \<in> set specs"
  then have l: "startswith (arg_name s) ''--''" "arg_name s \<noteq> ''--''" by (auto simp: long_names_def)
  then obtain c cs where n: "arg_name s = CHR ''-'' # c # cs"
    by (cases "arg_name s"; cases "tl (arg_name s)") (auto simp: startswith_def)
  have "arg_name s \<in> set (help_name # map arg_name specs)" using \<open>s \<in> set specs\<close> by simp
  then show ?thesis using l(2) n by (simp add: classify_def)
qed

lemma classify_command_line:
  assumes "long_names specs" "list_all (well_written specs) ws"
  shows "classify_all (help_name # map arg_name specs) (command_line ws) =
    concat (map (\<lambda>w. case w of With_value n s \<Rightarrow> [(Option_word n None, n), (Plain_word, s)]
                             | Bare n \<Rightarrow> [(Option_word n None, n)]) ws)"
  using assms(2)
proof (induction ws)
  case (Cons w ws)
  have "\<exists>s. find_spec specs (written_name w) = Some s" using Cons.prems by (cases w) auto
  then obtain s where s: "s \<in> set specs" "arg_name s = written_name w" using find_spec_name by blast
  note name = classify_name [OF assms(1) s(1), unfolded s(2)]
  show ?case using Cons name
    by (cases w) (simp_all add: command_line_def can_be_value_def)
qed (simp add: command_line_def)

lemma consume_command_line:
  assumes "long_names specs" "list_all (well_written specs) ws"
  shows "consume specs seen extra ns (concat (map (\<lambda>w. case w of
        With_value n s \<Rightarrow> [(Option_word n None, n), (Plain_word, s)] | Bare n \<Rightarrow> [(Option_word n None, n)]) ws)) =
    consume specs (rev (map written_name ws) @ seen) extra (foldl (meaning_of specs) ns ws) []"
  using assms(2)
proof (induction ws arbitrary: seen ns)
  case (Cons w ws)
  obtain spec where s: "find_spec specs (written_name w) = Some spec" "spec \<in> set specs"
    using Cons.prems find_spec_name by (cases w) force+
  then have "written_name w \<noteq> help_name"
    using assms(1) find_spec_name [OF s(1)] by (auto simp: long_names_def)
  then show ?case using Cons s by (cases w) auto
qed simp

text \<open>A line that is written well and has all required options is read as it is meant.\<close>

theorem parse_command_line:
  assumes "long_names specs" "list_all (well_written specs) ws"
    and "\<forall>s \<in> set specs. arg_required s \<longrightarrow> arg_name s \<in> set (map written_name ws)"
  shows "parse_args specs (command_line ws) = Parsed (foldl (meaning_of specs) (defaults specs) ws)"
proof -
  have "Ambiguous_word \<notin> set (map fst (concat (map (\<lambda>w. case w of
      With_value n s \<Rightarrow> [(Option_word n None, n), (Plain_word, s)] | Bare n \<Rightarrow> [(Option_word n None, n)]) ws)))"
    by (induction ws) (auto split: written.splits)
  then show ?thesis
    using assms(3)
    by (simp add: parse_args_def classify_command_line [OF assms(1,2)] consume_command_line [OF assms(1,2)])
qed

lemma map_of_put_arg [simp]: "map_of (put_arg ns n v) m = (if m = n then Some v else map_of ns m)"
  by (induction ns n v rule: put_arg.induct) auto

text \<open>A word without a leading dash can always be a value.\<close>

lemma plain_value [simp]: "s = [] \<or> hd s \<noteq> CHR ''-'' \<Longrightarrow> can_be_value names s"
  by (auto simp: can_be_value_def classify_def)

text \<open>A decimal integer is a value, a negative one as well, and is read as itself.\<close>

lemma parse_int_minus: "parse_int (CHR ''-'' # str_nat n) = Some (- int n)"
proof -
  have digits: "list_all py_digit (str_nat n)" by (rule str_nat_digits)
  have "\<not> py_space (CHR ''-'')" by code_simp
  then have "strip (CHR ''-'' # str_nat n) = CHR ''-'' # str_nat n"
    by (intro strip_no_space) (use digits in \<open>auto simp: list_all_iff dest: digit_not_space\<close>)
  then show ?thesis
    using digits digits_int_digits [OF digits, of 0] int_of_str_nat [of n]
    by (simp add: parse_int_def split_sign_def int_of_digits_def)
qed

lemma parse_int_str_int [simp]: "parse_int (str_int n) = Some n"
  by (simp add: str_int_def parse_int_minus)

lemma digit_char: "py_digit c \<Longrightarrow> c \<noteq> CHR ''.'' \<and> c \<noteq> CHR ''='' \<and> c \<noteq> CHR ''-'' \<and> c \<noteq> CHR ''h''"
  by (auto simp: py_digit_def)

lemma minus_number:
  assumes "\<forall>m \<in> set names. startswith m ''--''" "ds \<noteq> []" "list_all py_digit ds"
  shows "can_be_value names (CHR ''-'' # ds)"
proof -
  obtain d r where ds: "ds = d # r" using assms(2) by (cases ds) auto
  have d: "d \<noteq> CHR ''-''" "d \<noteq> CHR ''h''" using assms(3) digit_char [of d] by (auto simp: ds)
  have "CHR ''.'' \<notin> set ds" "CHR ''='' \<notin> set (CHR ''-'' # ds)"
    using assms(3) digit_char by (auto simp: list_all_iff)
  then have "negative_number (CHR ''-'' # ds)" "split_word (CHR ''-'' # ds) = (CHR ''-'' # ds, None)"
    using assms(2,3) by (auto simp: negative_number_def split_word_def isdigit_def cut_first_def)
  moreover have "CHR ''-'' # ds \<notin> set names" using assms(1) d by (auto simp: ds startswith_def)
  ultimately show ?thesis
    using d by (simp add: can_be_value_def classify_def not_option_def ds startswith_def)
qed

lemma int_can_be_value:
  assumes "\<forall>m \<in> set names. startswith m ''--''"
  shows "can_be_value names (str_int n)"
proof (cases "n < 0")
  case True
  then show ?thesis using minus_number [OF assms _ str_nat_digits [of "nat (- n)"]]
    by (simp add: str_int_def)
next
  case False
  obtain c cs where s: "str_nat (nat n) = c # cs" by (cases "str_nat (nat n)") auto
  have "py_digit c" using str_nat_digits [of "nat n"] by (simp add: s)
  then show ?thesis using False digit_char [of c] by (simp add: str_int_def s)
qed

section \<open>What any parsed line satisfies\<close>

definition typed_value :: "arg_spec \<Rightarrow> arg_value \<Rightarrow> bool" where
  "typed_value spec v \<longleftrightarrow>
     v = arg_default spec \<or> (\<exists>s. convert_arg spec s = Some v) \<or> (arg_kind spec = Flag_arg \<and> v = Flag_value True)"

definition typed_namespace :: "arg_spec list \<Rightarrow> namespace \<Rightarrow> bool" where
  "typed_namespace specs ns \<longleftrightarrow>
     (\<forall>n spec. find_spec specs n = Some spec \<longrightarrow> (\<exists>v. map_of ns n = Some v \<and> typed_value spec v))"

lemma typed_defaults: "typed_namespace specs (defaults specs)"
proof -
  have "map_of (defaults specs) n = map_option arg_default (find_spec specs n)" for n
    by (induction specs) (auto simp: defaults_def)
  then show ?thesis by (auto simp: typed_namespace_def typed_value_def)
qed

lemma typed_put:
  "typed_namespace specs ns \<Longrightarrow> find_spec specs n = Some spec \<Longrightarrow> typed_value spec v \<Longrightarrow>
   typed_namespace specs (put_arg ns n v)"
  by (auto simp: typed_namespace_def)

text \<open>The option step, as one of its successful cases.\<close>

lemma consume_option:
  assumes "consume specs seen extra ns ((Option_word n v, a) # ws) = Parsed ns'"
  obtains (flag) spec where "find_spec specs n = Some spec" "arg_kind spec = Flag_arg"
      "consume specs (n # seen) extra (put_arg ns n (Flag_value True)) ws = Parsed ns'" "v = None"
  | (joined) spec s x where "find_spec specs n = Some spec" "convert_arg spec s = Some x" "v = Some s"
      "arg_kind spec \<noteq> Flag_arg" "consume specs (n # seen) extra (put_arg ns n x) ws = Parsed ns'"
  | (apart) spec s x ws' where "find_spec specs n = Some spec" "convert_arg spec s = Some x" "v = None"
      "arg_kind spec \<noteq> Flag_arg" "ws = (Plain_word, s) # ws'"
      "consume specs (n # seen) extra (put_arg ns n x) ws' = Parsed ns'"
proof -
  have n: "n \<noteq> help_name" using assms by (auto split: if_splits)
  obtain spec where spec: "find_spec specs n = Some spec"
    using assms n by (cases "find_spec specs n") auto
  show ?thesis
  proof (cases "arg_kind spec = Flag_arg")
    case True
    then show ?thesis using flag spec assms n by (cases v) auto
  next
    case False
    show ?thesis
    proof (cases v)
      case (Some s)
      then show ?thesis using joined [OF spec] assms n spec False by (cases "convert_arg spec s") auto
    next
      case None
      then obtain s ws' where "ws = (Plain_word, s) # ws'"
        using assms n spec False by (cases ws rule: list.exhaust; cases "fst (hd ws)") (auto split: prod.splits)
      then show ?thesis using apart [OF spec] assms n spec False None by (cases "convert_arg spec s") auto
    qed
  qed
qed

lemma consume_typed:
  "consume specs seen extra ns ws = Parsed ns' \<Longrightarrow> typed_namespace specs ns \<Longrightarrow> typed_namespace specs ns'"
proof (induction "length ws" arbitrary: seen extra ns ws rule: less_induct)
  case less
  show ?case
  proof (cases ws)
    case Nil
    then show ?thesis using less.prems by (auto split: if_splits)
  next
    case (Cons e ws1)
    obtain w a where e: "e = (w, a)" by (cases e)
    show ?thesis
    proof (cases w)
      case (Option_word n v)
      note option = less.prems(1) [unfolded Cons e Option_word]
      from option show ?thesis
      proof (cases rule: consume_option)
        case (flag spec)
        then have "typed_value spec (Flag_value True)" by (simp add: typed_value_def)
        from less.hyps [OF _ flag(3) typed_put [OF less.prems(2) flag(1) this]] show ?thesis by (simp add: Cons)
      next
        case (joined spec s x)
        then have "typed_value spec x" by (auto simp: typed_value_def)
        from less.hyps [OF _ joined(5) typed_put [OF less.prems(2) joined(1) this]] show ?thesis by (simp add: Cons)
      next
        case (apart spec s x ws')
        then have "typed_value spec x" by (auto simp: typed_value_def)
        from less.hyps [OF _ apart(6) typed_put [OF less.prems(2) apart(1) this]] show ?thesis
          by (simp add: Cons apart(5))
      qed
    qed (use less Cons e in auto)
  qed
qed

text \<open>Every option has a value, its default or one that its type and choices admit.\<close>

theorem parse_args_typed: "parse_args specs argv = Parsed ns \<Longrightarrow> typed_namespace specs ns"
  using consume_typed typed_defaults by (auto simp: parse_args_def Let_def split: if_splits)

lemma parsed_choice:
  assumes "parse_args specs argv = Parsed ns" "find_spec specs n = Some spec" "arg_kind spec = Text_arg"
    and "arg_choices spec \<noteq> []" "arg_default spec \<in> Text_value ` set (arg_choices spec)"
  shows "text_arg ns n \<in> set (arg_choices spec)"
proof -
  obtain v where v: "map_of ns n = Some v" "typed_value spec v"
    using parse_args_typed [OF assms(1)] assms(2) by (auto simp: typed_namespace_def)
  then obtain s where "v = Text_value s" "s \<in> set (arg_choices spec)"
    using assms(3-5) by (auto simp: typed_value_def convert_arg_def split: if_splits)
  then show ?thesis by (simp add: text_arg_def v(1))
qed

end
