(* ===== verification/ReceiptCommand.thy ===== *)
theory ReceiptCommand
  imports GateMain ArgParse
begin

text \<open>
  The command lines of the two receipt scripts: the repeatable \<open>--require\<close> of
  \<open>scripts/receipts-verify.py\<close>, the optional positional \<open>root\<close> of \<open>scripts/receipt-restore.py\<close>, and the
  processes around their \<open>main\<close>. A usage error ends with status 2, the help text with 0; their text is
  not modelled. \<open>path_of\<close> is the path that a text names and \<open>stdin\<close> what is read from standard input.
\<close>

section \<open>receipts-verify\<close>

fun require_chunks :: "(arg_word \<times> string) list \<Rightarrow> bool \<Rightarrow> string list \<Rightarrow> int + string list" where
  "require_chunks [] extra chunks = (if extra then Inl 2 else Inr chunks)"
| "require_chunks ((Option_word n v, a) # ws) extra chunks =
     (if n = help_name then Inl (if v = None then 0 else 2)
      else case v of
        Some s \<Rightarrow> require_chunks ws extra (chunks @ [s])
      | None \<Rightarrow>
          (case ws of
             (Plain_word, s) # ws' \<Rightarrow> require_chunks ws' extra (chunks @ [s])
           | _ \<Rightarrow> Inl 2))"
| "require_chunks ((w, a) # ws) extra chunks = require_chunks ws True chunks"

definition require_args :: "string list \<Rightarrow> int + string list" where
  "require_args argv =
     (let words = classify_all [help_name, ''--require'', ''--expect-set''] argv
      in if Ambiguous_word \<in> set (map fst words) then Inl 2 else require_chunks words False [])"

definition gate_process ::
  "(string \<Rightarrow> bool) \<Rightarrow> (string \<Rightarrow> json option) \<Rightarrow> gate_texts \<Rightarrow> int \<Rightarrow> environ \<Rightarrow> string list \<Rightarrow> world
     \<Rightarrow> string list \<times> int" where
  "gate_process utf8 loads g rc env argv w =
     (case require_args argv of
        Inl status \<Rightarrow> ([], status)
      | Inr chunks \<Rightarrow> gate_main utf8 loads g rc (env ''FN_STATE_DIR'') (parse_require chunks) w)"

section \<open>receipt-restore\<close>

record restore_args =
  root_of :: string
  write_of :: "string option"
  name_of :: "string option"

text \<open>
  Has the positional argument been taken? A lone \<open>--\<close> is dropped in front of it and right behind it, and is
  an error later.
\<close>

datatype root_seen = No_root | Just_root | Past_root

definition moved_on :: "root_seen \<Rightarrow> root_seen" where
  "moved_on st = (if st = No_root then No_root else Past_root)"

definition put_option :: "string \<Rightarrow> string \<Rightarrow> restore_args \<Rightarrow> restore_args" where
  "put_option n s a = (if n = ''--write'' then a\<lparr>write_of := Some s\<rparr> else a\<lparr>name_of := Some s\<rparr>)"

fun restore_words :: "(arg_word \<times> string) list \<Rightarrow> root_seen \<Rightarrow> bool \<Rightarrow> restore_args \<Rightarrow> int + restore_args" where
  "restore_words [] st extra a = (if extra then Inl 2 else Inr a)"
| "restore_words ((Option_word n v, x) # ws) st extra a =
     (if n = help_name then Inl (if v = None then 0 else 2)
      else case v of
        Some s \<Rightarrow> restore_words ws (moved_on st) extra (put_option n s a)
      | None \<Rightarrow>
          (case ws of
             (Plain_word, s) # ws' \<Rightarrow> restore_words ws' (moved_on st) extra (put_option n s a)
           | _ \<Rightarrow> Inl 2))"
| "restore_words ((Plain_word, s) # ws) st extra a =
     (if st = No_root then restore_words ws Just_root extra (a\<lparr>root_of := s\<rparr>)
      else restore_words ws Past_root True a)"
| "restore_words ((w, x) # ws) st extra a =
     restore_words ws (moved_on st) (extra \<or> \<not> (x = ''--'' \<and> st \<noteq> Past_root)) a"

definition no_restore_args :: restore_args where
  "no_restore_args = \<lparr>root_of = ''.'', write_of = None, name_of = None\<rparr>"

definition restore_args_of :: "string list \<Rightarrow> int + restore_args" where
  "restore_args_of argv =
     (let words = classify_all [help_name, ''--write'', ''--name''] argv
      in if Ambiguous_word \<in> set (map fst words) then Inl 2 else restore_words words No_root False no_restore_args)"

text \<open>What \<open>--write\<close> names, read; an empty name is no \<open>--write\<close>.\<close>

definition write_source ::
  "(string \<Rightarrow> path) \<Rightarrow> (string \<Rightarrow> bool) \<Rightarrow> string res \<Rightarrow> world \<Rightarrow> restore_args \<Rightarrow> (string res \<times> string option) option" where
  "write_source path_of utf8 stdin w a =
     (case write_of a of
        None \<Rightarrow> None
      | Some [] \<Rightarrow> None
      | Some (c # cs) \<Rightarrow> Some
          (if c # cs = ''-'' then stdin
           else res_bind (read_text w (path_of (c # cs))) (\<lambda>t. if utf8 t then returned t else raised ValueError),
           name_of a))"

definition restore_process ::
  "(string \<Rightarrow> path) \<Rightarrow> (string \<Rightarrow> bool) \<Rightarrow> (string \<Rightarrow> json option) \<Rightarrow> git \<Rightarrow> string res \<Rightarrow> environ \<Rightarrow> string list \<Rightarrow> world
     \<Rightarrow> int \<times> world" where
  "restore_process path_of utf8 loads g stdin env argv w =
     (case restore_args_of argv of
        Inl status \<Rightarrow> (status, w)
      | Inr a \<Rightarrow>
          (case restore_main loads g (env ''FN_STATE_DIR'') (path_of (root_of a)) (write_source path_of utf8 stdin w a) w of
             (Inl e, w') \<Rightarrow> (1, w')
           | (Inr status, w') \<Rightarrow> (status, w')))"

section \<open>Command lines that are written out\<close>

abbreviation plain_text :: "string \<Rightarrow> bool" where
  "plain_text s \<equiv> s = [] \<or> hd s \<noteq> CHR ''-''"

lemma classify_plain: "plain_text s \<Longrightarrow> s \<noteq> ''--'' \<and> classify names s = Plain_word"
  by (auto simp: classify_def)

lemma require_words_read:
  assumes "list_all plain_text chunks"
  shows "require_args (concat (map (\<lambda>c. [''--require'', c]) chunks)) = Inr chunks"
proof -
  let ?names = "[help_name, ''--require'', ''--expect-set'']"
  have words: "classify_all ?names (concat (map (\<lambda>c. [''--require'', c]) chunks)) =
      concat (map (\<lambda>c. [(Option_word ''--require'' None, ''--require''), (Plain_word, c)]) chunks)"
    using assms by (induction chunks) (auto simp: classify_plain classify_def)
  have "require_chunks (concat (map (\<lambda>c. [(Option_word ''--require'' None, ''--require''), (Plain_word, c)]) cs)) False acc
      = Inr (acc @ cs)" for cs acc
    by (induction cs arbitrary: acc) (simp_all add: help_name_def)
  from this [of chunks "[]"] show ?thesis by (auto simp: require_args_def words)
qed

text \<open>The gate as the ladder calls it: its status is that of the report for the names it is to require.\<close>

lemma gate_process_status:
  assumes "list_all plain_text chunks"
  shows "snd (gate_process utf8 loads g rc env (concat (map (\<lambda>c. [''--require'', c]) chunks)) w) =
    exit_code (verify_run utf8 loads rc (repo_root g) (env ''FN_STATE_DIR'') chunks w)"
  using gate_main_report by (simp add: gate_process_def require_words_read [OF assms])

lemma restore_words_read:
  assumes "plain_text f" "plain_text r" "plain_text n"
  shows "restore_args_of [] = Inr no_restore_args"
    and "restore_args_of [r] = Inr (no_restore_args\<lparr>root_of := r\<rparr>)"
    and "restore_args_of [r, ''--write'', f] = Inr (no_restore_args\<lparr>root_of := r, write_of := Some f\<rparr>)"
    and "restore_args_of [r, ''--write'', f, ''--name'', n] =
      Inr \<lparr>root_of = r, write_of = Some f, name_of = Some n\<rparr>"
proof -
  let ?names = "[help_name, ''--write'', ''--name'']"
  have names: "classify ?names ''--write'' = Option_word ''--write'' None" "classify ?names ''--name'' = Option_word ''--name'' None"
    by (simp_all add: classify_def)
  note read = assms [THEN classify_plain, of ?names]
  show "restore_args_of [] = Inr no_restore_args" by (simp add: restore_args_of_def)
  show "restore_args_of [r] = Inr (no_restore_args\<lparr>root_of := r\<rparr>)"
    using read by (simp add: restore_args_of_def)
  show "restore_args_of [r, ''--write'', f] = Inr (no_restore_args\<lparr>root_of := r, write_of := Some f\<rparr>)"
    using read names by (simp add: restore_args_of_def help_name_def put_option_def)
  show "restore_args_of [r, ''--write'', f, ''--name'', n] = Inr \<lparr>root_of = r, write_of = Some f, name_of = Some n\<rparr>"
    using read names by (simp add: restore_args_of_def help_name_def put_option_def no_restore_args_def)
qed

section \<open>What is written is graded\<close>

lemma split_on_none: "c \<notin> set s \<Longrightarrow> split_on c s = [s]"
  by (induction s) auto

lemma path_join_name:
  assumes "CHR ''/'' \<notin> set s"
  shows "path_join base (s @ json_suffix) = base @ [s @ json_suffix]"
proof -
  have "CHR ''/'' \<notin> set (s @ json_suffix)" using assms by (simp add: json_suffix_def)
  moreover from this have "\<not> startswith (s @ json_suffix) ''/''"
    by (cases s) (auto simp: startswith_def json_suffix_def)
  ultimately show ?thesis
    by (simp add: path_join_def path_parts_def split_on_none) (cases s; simp add: json_suffix_def)
qed

lemma relative_named:
  assumes "relative r name = returned (Some (s @ json_suffix))"
  shows "s \<noteq> []"
proof -
  from assms obtain step where "(case step of
      Some (JStr (c # cs)) \<Rightarrow> res_bind (dget r ''status'') (\<lambda>status. returned (Some
        (if status = Some (JStr ''fail'') \<and> c \<noteq> CHR ''/'' then ''failed/'' @ (c # cs) @ json_suffix else (c # cs) @ json_suffix)))
    | _ \<Rightarrow> returned None) = returned (Some (s @ json_suffix))"
    unfolding relative_def res_bind_Inr_iff by blast
  then show ?thesis by (auto simp: res_bind_Inr_iff split: option.splits json.splits list.splits if_splits)
qed

lemma rr_write_places:
  assumes "rr_write loads state repo (returned text) name w = (returned 0, w')"
    and "loads text = Some r" "relative r name = returned (Some rel)"
  obtains w1 b where "place loads w1 (path_join (receipts_root repo) rel) r text = (returned b, w')"
    and "w1 = durable_write loads state rel r text w"
  using assms by (auto simp: rr_write_def Let_def split: prod.splits sum.splits)

lemma durable_write_keeps:
  "wf_world w \<Longrightarrow> wf_world (durable_write loads state rel r text w)"
  "readable (durable_write loads state rel r text w) = readable w"
  by (simp_all add: durable_write_def place_wf split: option.split)

lemma written_is_graded:
  assumes "rr_write loads state repo (returned text) name w = (returned 0, w')"
    and "loads text = Some r" and "relative r name = returned (Some (s @ json_suffix))" and "CHR ''/'' \<notin> set s"
    and "wf_world w" and sound: "sound_text loads w (receipts_root repo @ [s @ json_suffix]) r text"
  shows "map_of (graded w' repo state) (s @ json_suffix) = Some (receipts_root repo @ [s @ json_suffix]) \<and>
    banked loads w' (receipts_root repo @ [s @ json_suffix]) r"
proof -
  let ?p = "receipts_root repo @ [s @ json_suffix]"
  obtain w1 b where put: "place loads w1 ?p r text = (returned b, w')"
    and w1: "w1 = durable_write loads state (s @ json_suffix) r text w"
    using rr_write_places [OF assms(1,2,3)] path_join_name [OF assms(4)] by metis
  have "sound_text loads w1 ?p r text" using sound by (simp add: sound_text_def w1 durable_write_keeps)
  then have banked: "banked loads w' ?p r" using place_stores [of loads w1 ?p r "text" b] put by simp
  moreover have "wf_world w'" using place_wf [of w1 loads ?p r "text"] put assms(5) by (simp add: w1 durable_write_keeps)
  ultimately have "carries w' (receipts_root repo) (s @ json_suffix)"
    by (auto simp: carries_def banked_iff wf_world_def)
  then have "map_of (graded w' repo state) (s @ json_suffix) = Some ?p"
    by (simp add: graded_precedence receipt_dirs_def)
  with banked show ?thesis by simp
qed

lemma graded_names:
  assumes "grade_all utf8 loads w ps = returned (present, vs)" and "p \<in> set ps"
    and "read_text w p = returned t" and "loads t = Some r"
  shows "stem (last p) \<in> set present"
  using assms(1,2)
proof (induction ps arbitrary: present vs)
  case (Cons q ps)
  then show ?case
    using assms(3,4)
    by (auto simp: res_simps grade_path_def grade_receipt_def names_of_def simp del: missing_keys.simps split: if_splits)
qed simp

lemma banked_answers:
  assumes "verify_run utf8 loads rc repo state chunks w = returned rep"
    and "map_of (graded w repo state) (s @ json_suffix) = Some p" and "last p = s @ json_suffix" and "s \<noteq> []"
    and "banked loads w p r"
  shows "RequiredAbsent s \<notin> set (violations rep) \<and> RequiredFailed s \<notin> set (violations rep)"
proof -
  obtain t old where t: "read_text w p = returned t" "loads t = Some old"
    using assms(5) by (auto simp: banked_iff read_text_def)
  have p: "p \<in> set (map snd (graded w repo state))" using map_of_SomeD [OF assms(2)] by force
  have "\<exists>d \<in> set (receipt_dirs repo state). is_dir w d"
    using graded_precedence [of w repo state "s @ json_suffix"] assms(2)
    by (auto simp: carries_def filter_eq_Cons_iff split: list.splits)
  then have "list_ex (is_dir w) (receipt_dirs repo state)" by (auto simp: list_ex_iff)
  then obtain present vs failed where g: "grade_all utf8 loads w (map snd (graded w repo state)) = returned (present, vs)"
    and rep: "violations rep = handoff_patch_ok w repo rc @ vs @ expected (parse_require chunks) present failed"
    using assms(1) by (auto simp: verify_run_def Let_def res_simps)
  have "stem (s @ json_suffix) = s" using assms(4) by (cases s) (auto simp: stem_def endswith_def json_suffix_def)
  then have answered: "s \<in> set present" using graded_names [OF g p t] assms(3) by simp
  have "\<not> of_requirement v" if "v \<in> set (handoff_patch_ok w repo rc @ vs)" for v
    using that patch_graded [of w repo rc] grade_all_graded [OF g] by (auto simp: filter_empty_conv)
  then have "RequiredAbsent s \<notin> set (handoff_patch_ok w repo rc @ vs)" "RequiredFailed s \<notin> set (handoff_patch_ok w repo rc @ vs)"
    by force+
  with answered show ?thesis unfolding rep by (auto simp: expected_def)
qed

text \<open>
  C14: A receipt that \<open>receipt-restore.py ROOT --write FILE\<close> has written, and that is no failure, is what the
  gate then grades under its name, equal to what was written but for its timestamp; a gate that runs to
  the end does not report its step as missing, whatever it is asked to require.
\<close>

theorem written_receipt_answers_gate:
  assumes "restore_process path_of utf8 loads git stdin env [root_name, ''--write'', f] w = (0, w')"
    and "plain_text root_name" "plain_text f" "f \<noteq> []"
    and "read_text w (path_of f) = returned text" "utf8 text" "loads text = Some r"
    and "relative r None = returned (Some (s @ json_suffix))" "CHR ''/'' \<notin> set s"
    and "wf_world w" "sound_text loads w (receipts_root (path_of root_name) @ [s @ json_suffix]) r text"
    and "verify_run utf8 loads rc (path_of root_name) (env ''FN_STATE_DIR'') chunks w' = returned rep"
  shows "map_of (graded w' (path_of root_name) (env ''FN_STATE_DIR'')) (s @ json_suffix) =
      Some (receipts_root (path_of root_name) @ [s @ json_suffix]) \<and>
    banked loads w' (receipts_root (path_of root_name) @ [s @ json_suffix]) r \<and>
    RequiredAbsent s \<notin> set (violations rep) \<and> RequiredFailed s \<notin> set (violations rep)"
proof -
  obtain c cs where f: "f = c # cs" using assms(4) by (cases f) auto
  have "c \<noteq> CHR ''-''" using assms(3) f by simp
  then have "write_source path_of utf8 stdin w (no_restore_args\<lparr>root_of := root_name, write_of := Some f\<rparr>) =
      Some (returned text, None)"
    using assms(5,6) by (simp add: write_source_def no_restore_args_def f)
  moreover have "restore_args_of [root_name, ''--write'', f] = Inr (no_restore_args\<lparr>root_of := root_name, write_of := Some f\<rparr>)"
    by (rule restore_words_read(3) [OF assms(3,2), of "[]"]) simp
  ultimately have "rr_write loads (env ''FN_STATE_DIR'') (path_of root_name) (returned text) None w = (returned 0, w')"
    using assms(1)
    by (auto simp: restore_process_def restore_main_def split: prod.splits sum.splits)
  note graded = written_is_graded [OF this assms(7-11)]
  have "RequiredAbsent s \<notin> set (violations rep) \<and> RequiredFailed s \<notin> set (violations rep)"
    using banked_answers [OF assms(12) conjunct1 [OF graded] _ relative_named [OF assms(8)] conjunct2 [OF graded]] by simp
  with graded show ?thesis by simp
qed

definition demo_lane :: world where
  "demo_lane = \<lparr>nodes = [([''r''], Dir), ([''f''], Reg ''A'')], readable = (\<lambda>_. True), fate_of = (\<lambda>_. WOk)\<rparr>"

abbreviation demo_write :: "int \<times> world" where
  "demo_write \<equiv> restore_process path_parts (\<lambda>_. True) demo_loads demo_git (raised OSError) (\<lambda>_. None)
     [''r'', ''--write'', ''f''] demo_lane"

lemma demo_lane_wf: "wf_world demo_lane"
  by (auto simp: wf_world_def demo_lane_def node_at_def is_dir_def)

theorem written_receipt_answers_gate_witness:
  "map_of (graded (snd demo_write) [''r''] None) ''a.json'' = Some [''r'', ''results'', ''receipts'', ''a.json''] \<and>
   banked demo_loads (snd demo_write) [''r'', ''results'', ''receipts'', ''a.json''] demo_receipt"
proof -
  have "fst demo_write = 0" by code_simp
  then have run: "demo_write = (0, snd demo_write)" by (metis prod.collapse)
  obtain rep where rep: "verify_run (\<lambda>_. True) demo_loads 0 (path_parts ''r'') None [''a''] (snd demo_write) = returned rep"
  proof -
    have "\<not> isl (verify_run (\<lambda>_. True) demo_loads 0 (path_parts ''r'') None [''a''] (snd demo_write))" by code_simp
    then show ?thesis using that by (cases "verify_run (\<lambda>_. True) demo_loads 0 (path_parts ''r'') None [''a''] (snd demo_write)") auto
  qed
  have parts: "path_parts ''r'' = [''r'']" "path_parts ''f'' = [''f'']" by code_simp+
  have step: "''a'' @ json_suffix = ''a.json''" by (simp add: json_suffix_def)
  have rel: "relative demo_receipt None = returned (Some (''a'' @ json_suffix))" by code_simp
  have text_read: "read_text demo_lane (path_parts ''f'') = returned ''A''" "demo_loads ''A'' = Some demo_receipt"
    by (simp_all add: parts demo_lane_def read_text_def node_at_def demo_loads_def)
  have sound: "sound_text demo_loads demo_lane (receipts_root (path_parts ''r'') @ [''a'' @ json_suffix]) demo_receipt ''A''"
    by (simp add: sound_text_def demo_lane_def demo_loads_def demo_receipt_def)
  show ?thesis
    using written_receipt_answers_gate [OF run _ _ _ text_read(1) _ text_read(2) rel _ demo_lane_wf sound rep]
    unfolding parts step receipts_root_def by simp
qed

end
