(* ===== verification/Checkpoint.thy ===== *)
theory Checkpoint
  imports PyText "HOL-Library.Product_Lexorder" "HOL-Library.Multiset"
begin

text \<open>
  The checkpoint as \<open>host/fn-tp2-guards.py\<close> reads it: \<open>config.json\<close> with the text tower unwrapped,
  the safetensors headers (an 8-byte little-endian length and that many bytes of JSON per shard
  file), the tensor names cut by the two regular expressions of the file, the expert stacks, the
  QSA/GDN schedule derived from the tensors that exist, the selection-time shard plan and the
  digests. The JSON decoder and encoder and SHA-256 are arguments. A header entry is assumed to
  have the types of the safetensors format (a list of two integers, a string, a list of
  integers); anything else raises when it is read. So does a \<open>text_config\<close> that is neither empty nor
  an object, where Python would also take a list of pairs.
\<close>

section \<open>Dictionaries and numbers\<close>

text \<open>\<open>d[k] = v\<close> and \<open>int(x)\<close> of a JSON value.\<close>

fun dput :: "('k \<times> 'v) list \<Rightarrow> 'k \<Rightarrow> 'v \<Rightarrow> ('k \<times> 'v) list" where
  "dput [] k v = [(k, v)]"
| "dput ((k', v') # d) k v = (if k' = k then (k, v) # d else (k', v') # dput d k v)"

fun py_int :: "json \<Rightarrow> int res" where
  "py_int (JInt n) = returned n"
| "py_int (JBool b) = returned (if b then 1 else 0)"
| "py_int (JFloat x) = int_of_float x"
| "py_int (JStr s) = (case parse_int s of None \<Rightarrow> raised ValueError | Some n \<Rightarrow> returned n)"
| "py_int _ = raised TypeError"

lemma map_of_dput: "map_of (dput d k v) = (map_of d)(k \<mapsto> v)"
  by (induction d) (auto simp: fun_eq_iff)

lemma keys_dput: "set (map fst (dput d k v)) = insert k (set (map fst d))"
proof (induction d)
  case (Cons x d)
  then show ?case by (cases x) (simp add: insert_commute del: set_map)
qed simp

lemma distinct_dput: "distinct (map fst d) \<Longrightarrow> distinct (map fst (dput d k v))"
proof (induction d)
  case (Cons x d)
  then show ?case using keys_dput [of d k v] by (cases x) auto
qed simp

section \<open>Reading the checkpoint\<close>

record tensor =
  nbytes :: int
  dtype :: string
  shape :: "int list"

type_synonym tensors = "(string \<times> tensor) list"
type_synonym config = "(string \<times> json) list"

text \<open>
  \<open>read_config\<close>: \<open>None\<close> stands for a \<open>config.json\<close> that cannot be opened, which is a guard failure;
  the decoded file is the argument otherwise.
\<close>

definition read_config :: "json res option \<Rightarrow> config res" where
  "read_config file =
     (case file of None \<Rightarrow> raised GuardFailure
      | Some doc \<Rightarrow>
          res_bind doc (\<lambda>r. res_bind (dict_of r) (\<lambda>raw.
            (let text_config = or_empty (map_of raw ''text_config'')
             in res_bind (case text_config of JObj d \<Rightarrow> returned d | _ \<Rightarrow> raised TypeError) (\<lambda>tower.
                  let cfg = fold (\<lambda>(k, v) d. dput d k v) tower raw;
                      quant = (case map_of raw ''quantization_config'' of
                                 Some q \<Rightarrow> if truthy q then q
                                           else or_empty (map_of cfg ''quantization_config'')
                               | None \<Rightarrow> or_empty (map_of cfg ''quantization_config''))
                  in returned (dput cfg ''_quantization_config'' quant))))))"

fun require :: "config \<Rightarrow> string list \<Rightarrow> json res" where
  "require cfg [] = raised GuardFailure"
| "require cfg (n # ns) =
     (case map_of cfg n of Some v \<Rightarrow> if v = JNull then require cfg ns else returned v
      | None \<Rightarrow> require cfg ns)"

definition require_int :: "config \<Rightarrow> string list \<Rightarrow> int res" where
  "require_int cfg names = res_bind (require cfg names) py_int"

text \<open>Little-endian integers.\<close>

fun unpack_le :: "string \<Rightarrow> nat" where
  "unpack_le [] = 0"
| "unpack_le (c # cs) = of_char c + 256 * unpack_le cs"

fun pack_le :: "nat \<Rightarrow> nat \<Rightarrow> string" where
  "pack_le 0 n = []"
| "pack_le (Suc k) n = char_of (n mod 256) # pack_le k (n div 256)"

definition read_header :: "(string \<Rightarrow> json res) \<Rightarrow> string \<Rightarrow> json res" where
  "read_header loads file =
     (let raw_len = take 8 file
      in if length raw_len \<noteq> 8 then raised GuardFailure
         else loads (take (unpack_le raw_len) (drop 8 file)))"

definition int_value :: "json \<Rightarrow> int res" where
  "int_value x = (case x of JInt n \<Rightarrow> returned n | _ \<Rightarrow> raised TypeError)"

definition field :: "(string \<times> json) list \<Rightarrow> string \<Rightarrow> json res" where
  "field d k = (case map_of d k of None \<Rightarrow> raised KeyError | Some v \<Rightarrow> returned v)"

definition tensor_of :: "json \<Rightarrow> tensor res" where
  "tensor_of meta =
     res_bind (dict_of meta) (\<lambda>m.
     res_bind (field m ''data_offsets'') (\<lambda>offs.
     res_bind (py_list offs) (\<lambda>se.
     case se of [s, e] \<Rightarrow>
       res_bind (int_value s) (\<lambda>start.
       res_bind (int_value e) (\<lambda>end'.
       res_bind (field m ''dtype'') (\<lambda>dt.
       res_bind (case dt of JStr t \<Rightarrow> returned t | _ \<Rightarrow> raised TypeError) (\<lambda>t.
       res_bind (field m ''shape'') (\<lambda>sh.
       res_bind (py_list sh) (\<lambda>dims.
       res_bind (res_seq (map int_value dims)) (\<lambda>ds.
         returned \<lparr>nbytes = end' - start, dtype = t, shape = ds\<rparr>)))))))
     | _ \<Rightarrow> raised ValueError)))"

fun add_header :: "tensors \<Rightarrow> (string \<times> json) list \<Rightarrow> tensors res" where
  "add_header ts [] = returned ts"
| "add_header ts ((name, meta) # rest) =
     (if name = ''__metadata__'' then add_header ts rest
      else res_bind (tensor_of meta) (\<lambda>t. add_header (dput ts name t) rest))"

fun add_files :: "(string \<Rightarrow> json res) \<Rightarrow> (string \<Rightarrow> string) \<Rightarrow> tensors \<Rightarrow> string list \<Rightarrow> tensors res" where
  "add_files loads content ts [] = returned ts"
| "add_files loads content ts (f # fs) =
     res_bind (read_header loads (content f)) (\<lambda>h.
     res_bind (dict_of h) (\<lambda>entries.
     res_bind (add_header ts entries) (\<lambda>ts'. add_files loads content ts' fs)))"

definition read_headers ::
  "(string \<Rightarrow> json res) \<Rightarrow> string list \<Rightarrow> (string \<Rightarrow> string) \<Rightarrow> tensors res" where
  "read_headers loads listing content =
     (let files = sort (filter (\<lambda>f. endswith f ''.safetensors'') listing)
      in if files = [] then raised GuardFailure else add_files loads content [] files)"

section \<open>Names\<close>

definition after_prefix :: "string \<Rightarrow> string \<Rightarrow> string option" where
  "after_prefix p s = (if startswith s p then Some (drop (length p) s) else None)"

text \<open>\<open>\d+\<close> followed by a dot, and the rest.\<close>

definition digits_dot :: "string \<Rightarrow> (nat \<times> string) option" where
  "digits_dot s =
     (let ds = takeWhile py_digit s; r = dropWhile py_digit s
      in if ds \<noteq> [] \<and> startswith r ''.'' then Some (int_of_digits ds, tl r) else None)"

text \<open>\<open>^(.*?)R\<close>: the shortest prefix without a line break after which \<open>R\<close> matches.\<close>

fun lazy_prefix :: "(string \<Rightarrow> 'a option) \<Rightarrow> string \<Rightarrow> (string \<times> 'a) option" where
  "lazy_prefix R [] = map_option (\<lambda>x. ([], x)) (R [])"
| "lazy_prefix R (c # cs) =
     (case R (c # cs) of Some x \<Rightarrow> Some ([], x)
      | None \<Rightarrow> if c = newline then None
                else map_option (\<lambda>(p, x). (c # p, x)) (lazy_prefix R cs))"

definition expert_tail :: "string \<Rightarrow> (nat \<times> nat) option" where
  "expert_tail s =
     Option.bind (after_prefix ''.layers.'' s) (\<lambda>r.
     Option.bind (digits_dot r) (\<lambda>(layer, r').
     Option.bind (after_prefix ''mlp.experts.'' r') (\<lambda>r''.
     map_option (\<lambda>(expert, _). (layer, expert)) (digits_dot r''))))"

definition layer_tail :: "string \<Rightarrow> (nat \<times> string) option" where
  "layer_tail s =
     Option.bind (after_prefix ''.layers.'' s) (\<lambda>r.
     Option.bind (digits_dot r) (\<lambda>(layer, r').
       let body = takeWhile (\<lambda>c. c \<noteq> newline) r'
       in if drop (length body) r' \<in> {[], [newline]} then Some (layer, body) else None))"

text \<open>The stack, the layer and the expert of a routed expert's tensor name.\<close>

definition is_expert :: "string \<Rightarrow> (string \<times> nat \<times> nat) option" where
  "is_expert name = lazy_prefix expert_tail name"

definition layer_match :: "string \<Rightarrow> (string \<times> nat \<times> string) option" where
  "layer_match name = lazy_prefix layer_tail name"

definition is_table :: "string \<Rightarrow> bool" where
  "is_table name \<longleftrightarrow> contains_str name ''ngram_embedding''"

section \<open>Derived facts\<close>

text \<open>\<open>d.setdefault(k, set()).add(x)\<close>, a set being a list without duplicates.\<close>

fun set_add :: "('k \<times> 'v list) list \<Rightarrow> 'k \<Rightarrow> 'v \<Rightarrow> ('k \<times> 'v list) list" where
  "set_add [] k x = [(k, [x])]"
| "set_add ((k', xs) # d) k x =
     (if k' = k then (k', if x \<in> set xs then xs else xs @ [x]) # d else (k', xs) # set_add d k x)"

definition group_by :: "(string \<Rightarrow> ('k \<times> 'v) option) \<Rightarrow> string list \<Rightarrow> ('k \<times> 'v list) list" where
  "group_by f names =
     fold (\<lambda>n d. case f n of None \<Rightarrow> d | Some (k, x) \<Rightarrow> set_add d k x) names []"

definition expert_entry :: "string \<Rightarrow> (string \<times> nat) option" where
  "expert_entry name = map_option (\<lambda>(s, _, e). (s, e)) (is_expert name)"

definition expert_stacks :: "tensors \<Rightarrow> (string \<times> nat list) list" where
  "expert_stacks ts =
     map (\<lambda>(s, ids). (s, sort ids)) (sort_key fst (group_by expert_entry (map fst ts)))"

datatype kind = Full_attention | Linear_attention

definition kind_name :: "kind \<Rightarrow> string" where
  "kind_name k = (case k of Full_attention \<Rightarrow> ''full_attention'' | Linear_attention \<Rightarrow> ''linear_attention'')"

definition kind_of_rest :: "string \<Rightarrow> kind option" where
  "kind_of_rest rest =
     (if startswith rest ''self_attn.'' then Some Full_attention
      else if startswith rest ''linear_attn.'' then Some Linear_attention else None)"

definition kind_entry :: "string \<Rightarrow> ((string \<times> nat) \<times> kind) option" where
  "kind_entry name =
     Option.bind (layer_match name) (\<lambda>(s, l, rest).
       map_option (\<lambda>k. ((s, l), k)) (kind_of_rest rest))"

definition layer_key :: "string \<times> nat \<Rightarrow> string" where
  "layer_key k = fst k @ ''.'' @ str_nat (snd k)"

fun schedule_of :: "((string \<times> nat) \<times> kind list) list \<Rightarrow> (string \<times> kind) list \<Rightarrow> (string \<times> kind) list res"
where
  "schedule_of [] sched = returned sched"
| "schedule_of ((key, seen) # rest) sched =
     (case seen of [k] \<Rightarrow> schedule_of rest (dput sched (layer_key key) k)
      | _ \<Rightarrow> raised GuardFailure)"

definition schedule_from_tensor_presence :: "tensors \<Rightarrow> (string \<times> kind) list res" where
  "schedule_from_tensor_presence ts =
     res_bind (schedule_of (sort_key fst (group_by kind_entry (map fst ts))) []) (\<lambda>sched.
       if sched = [] then raised GuardFailure else returned sched)"

text \<open>The payload that the twins compare; its keys are sorted before it is rendered.\<close>

fun scalar :: "json \<Rightarrow> bool" where
  "scalar (JList _) = False"
| "scalar (JObj _) = False"
| "scalar _ = True"

fun sort_keys :: "json \<Rightarrow> json" where
  "sort_keys (JObj d) = JObj (sort_key fst (map (\<lambda>(k, v). (k, sort_keys v)) d))"
| "sort_keys (JList xs) = JList (map sort_keys xs)"
| "sort_keys x = x"

definition guard_payload :: "config \<Rightarrow> tensors \<Rightarrow> (string \<times> kind) list \<Rightarrow> int \<Rightarrow> json" where
  "guard_payload cfg ts sched tp =
     JObj [(''tp'', JInt tp),
           (''config'', JObj (filter (\<lambda>(k, v). \<not> startswith k ''_'' \<and> scalar v) (sort_key fst cfg))),
           (''tensors'', JList (map (\<lambda>(name, t).
               JList [JStr name, JStr (dtype t), JList (map JInt (shape t))]) (sort_key fst ts))),
           (''schedule'', JObj (map (\<lambda>(k, v). (k, JStr (kind_name v))) sched))]"

definition guard_inputs_digest ::
  "(json \<Rightarrow> string) \<Rightarrow> (string \<Rightarrow> string) \<Rightarrow> config \<Rightarrow> tensors \<Rightarrow> (string \<times> kind) list \<Rightarrow> int \<Rightarrow> string" where
  "guard_inputs_digest dumps sha256 cfg ts sched tp =
     sha256 (dumps (sort_keys (guard_payload cfg ts sched tp)))"

section \<open>The shard plan\<close>

record shard_plan =
  owned :: "string list list"
  replicated :: "string list"
  table :: "string list"
  experts_per_rank :: int

text \<open>\<open>xs[i].append(x)\<close>, counting from the end when \<open>i\<close> is negative.\<close>

definition append_at :: "'a list list \<Rightarrow> int \<Rightarrow> 'a \<Rightarrow> 'a list list res" where
  "append_at xs i x =
     (let j = (if 0 \<le> i then i else i + int (length xs))
      in if 0 \<le> j \<and> j < int (length xs)
         then returned (xs[nat j := xs ! nat j @ [x]]) else raised IndexError)"

definition place_tensor ::
  "(string \<times> nat list) list \<Rightarrow> int \<Rightarrow> string \<Rightarrow> shard_plan \<Rightarrow> shard_plan res" where
  "place_tensor stacks tp name plan =
     (if is_table name then returned (plan\<lparr>table := table plan @ [name]\<rparr>)
      else (case is_expert name of
          None \<Rightarrow> returned (plan\<lparr>replicated := replicated plan @ [name]\<rparr>)
        | Some (s, _, expert) \<Rightarrow>
            (case map_of stacks s of None \<Rightarrow> raised KeyError
             | Some ids \<Rightarrow>
                 if tp = 0 \<or> int (length ids) div tp = 0 then raised ZeroDivisionError
                 else let rank = int expert div (int (length ids) div tp)
                      in res_bind (append_at (owned plan) (min rank (tp - 1)) name) (\<lambda>o'.
                           returned (plan\<lparr>owned := o'\<rparr>)))))"

fun place_tensors ::
  "(string \<times> nat list) list \<Rightarrow> int \<Rightarrow> string list \<Rightarrow> shard_plan \<Rightarrow> shard_plan res" where
  "place_tensors stacks tp [] plan = returned plan"
| "place_tensors stacks tp (n # ns) plan =
     res_bind (place_tensor stacks tp n plan) (\<lambda>plan'. place_tensors stacks tp ns plan')"

definition make_shard_plan :: "tensors \<Rightarrow> (string \<times> nat list) list \<Rightarrow> int \<Rightarrow> shard_plan res" where
  "make_shard_plan ts stacks tp =
     res_bind (case stacks of [] \<Rightarrow> returned 0
               | (s, ids) # _ \<Rightarrow> if tp = 0 then raised ZeroDivisionError
                                 else returned (int (length ids) div tp)) (\<lambda>per_rank.
       place_tensors stacks tp (sort (map fst ts))
         \<lparr>owned = replicate (nat tp) [], replicated = [], table = [], experts_per_rank = per_rank\<rparr>)"

text \<open>One line per tensor of a rank: name, type, shape and size.\<close>

definition digest_line :: "string \<Rightarrow> tensor \<Rightarrow> string" where
  "digest_line name t =
     name @ tab @ dtype t @ tab @ ''['' @ join '', '' (map str_int (shape t)) @ '']'' @ tab
     @ str_int (nbytes t) @ [newline]"

definition shard_digest :: "(string \<Rightarrow> string) \<Rightarrow> string list \<Rightarrow> tensors \<Rightarrow> string res" where
  "shard_digest sha256 names ts =
     res_bind (res_seq (map (\<lambda>n. case map_of ts n of None \<Rightarrow> raised KeyError
                               | Some t \<Rightarrow> returned (digest_line n t)) names))
       (\<lambda>ls. returned (sha256 (concat ls)))"

section \<open>Headers\<close>

lemma length_pack_le [simp]: "length (pack_le k n) = k"
  by (induction k arbitrary: n) simp_all

lemma unpack_pack_le: "n < 256 ^ k \<Longrightarrow> unpack_le (pack_le k n) = n"
proof (induction k arbitrary: n)
  case (Suc k)
  then have "unpack_le (pack_le k (n div 256)) = n div 256" by (simp add: less_mult_imp_div_less mult.commute)
  then show ?case by simp
qed simp

text \<open>
  A shard file that starts with the 8-byte little-endian length of its header and the header
  itself is read back as that header, whatever weights follow.
\<close>

theorem read_header_written:
  assumes "length header < 2 ^ 64"
  shows "read_header loads (pack_le 8 (length header) @ header @ weights) = loads header"
  using unpack_pack_le [of "length header" 8] assms by (simp add: read_header_def Let_def)

theorem read_header_written_witness:
  "read_header (\<lambda>s. returned (JStr s)) (pack_le 8 2 @ ''{}'' @ ''xyz'') = returned (JStr ''{}'')"
proof -
  have l: "length ''{}'' = 2" by simp
  show ?thesis
    using read_header_written [of "''{}''" "\<lambda>s. returned (JStr s)" "''xyz''", unfolded l] by simp
qed

lemma read_header_truncated: "length file < 8 \<Longrightarrow> read_header loads file = raised GuardFailure"
  by (simp add: read_header_def)

section \<open>Grouping\<close>

lemma map_of_set_add:
  "map_of (set_add d k x) k' =
     (if k' = k then Some (case map_of d k of None \<Rightarrow> [x]
                           | Some xs \<Rightarrow> if x \<in> set xs then xs else xs @ [x])
      else map_of d k')"
  by (induction d k x rule: set_add.induct) auto

lemma keys_set_add: "set (map fst (set_add d k x)) = insert k (set (map fst d))"
  by (induction d k x rule: set_add.induct) auto

lemma distinct_set_add: "distinct (map fst d) \<Longrightarrow> distinct (map fst (set_add d k x))"
proof (induction d k x rule: set_add.induct)
  case (2 k' xs d k x)
  then show ?case using keys_set_add [of d k x] by auto
qed simp

definition grouped :: "(string \<Rightarrow> ('k \<times> 'v) option) \<Rightarrow> string set \<Rightarrow> ('k \<times> 'v list) list \<Rightarrow> bool" where
  "grouped f N d \<longleftrightarrow>
     distinct (map fst d) \<and>
     (\<forall>k xs. map_of d k = Some xs \<longrightarrow>
        xs \<noteq> [] \<and> distinct xs \<and> set xs = {x. \<exists>n \<in> N. f n = Some (k, x)}) \<and>
     (\<forall>k. map_of d k = None \<longrightarrow> (\<forall>n \<in> N. \<forall>x. f n \<noteq> Some (k, x)))"

lemma groupedD:
  assumes "grouped f N d"
  shows "distinct (map fst d)"
    and "map_of d k = Some xs \<Longrightarrow> xs \<noteq> []"
    and "map_of d k = Some xs \<Longrightarrow> distinct xs"
    and "map_of d k = Some xs \<Longrightarrow> x \<in> set xs \<longleftrightarrow> (\<exists>n \<in> N. f n = Some (k, x))"
    and "map_of d k = None \<Longrightarrow> n \<in> N \<Longrightarrow> f n \<noteq> Some (k, x)"
  using assms unfolding grouped_def by blast+

lemma grouped_add:
  assumes g: "grouped f N d" and n: "f n = Some (k, x)"
  shows "grouped f (insert n N) (set_add d k x)"
  unfolding grouped_def
proof (intro conjI allI impI)
  show "distinct (map fst (set_add d k x))" using g by (simp add: grouped_def distinct_set_add)
next
  fix k' xs assume "map_of (set_add d k x) k' = Some xs"
  then show "xs \<noteq> []" "distinct xs" "set xs = {x. \<exists>n \<in> insert n N. f n = Some (k', x)}"
    using g n by (auto simp: map_of_set_add grouped_def split: if_splits option.splits)
next
  fix k' assume "map_of (set_add d k x) k' = None"
  then show "\<forall>m \<in> insert n N. \<forall>y. f m \<noteq> Some (k', y)"
    using g n by (auto simp: map_of_set_add grouped_def split: if_splits)
qed

lemma grouped_skip: "grouped f N d \<Longrightarrow> f n = None \<Longrightarrow> grouped f (insert n N) d"
  unfolding grouped_def by auto

lemma grouped_group_by: "grouped f (set names) (group_by f names)"
proof -
  have "grouped f (N \<union> set names)
          (fold (\<lambda>n d. case f n of None \<Rightarrow> d | Some (k, x) \<Rightarrow> set_add d k x) names d)"
    if "grouped f N d" for N d
    using that
  proof (induction names arbitrary: N d)
    case (Cons n names)
    have "grouped f (insert n N) (case f n of None \<Rightarrow> d | Some (k, x) \<Rightarrow> set_add d k x)"
      using Cons.prems by (auto intro: grouped_add grouped_skip split: option.splits)
    from Cons.IH [OF this] show ?case by simp
  qed simp
  from this [of "{}" "[]"] show ?thesis by (simp add: group_by_def grouped_def)
qed

lemma distinct_map_fst_sort_key [simp]:
  "distinct (map fst (sort_key k d)) = distinct (map fst d)"
proof -
  have "mset (map fst (sort_key k d)) = mset (map fst d)" by simp
  then show ?thesis by (rule mset_eq_imp_distinct_iff)
qed

lemma map_of_sort_key:
  "distinct (map fst d) \<Longrightarrow> map_of (sort_key g d) = map_of d"
  by (intro map_of_inject_set [THEN iffD2]) auto

lemma grouped_sort: "grouped f N d \<Longrightarrow> grouped f N (sort_key g d)"
  by (simp add: grouped_def map_of_sort_key)

lemma map_of_expert_stacks:
  "map_of (expert_stacks ts) s = map_option sort (map_of (group_by expert_entry (map fst ts)) s)"
proof -
  have "distinct (map fst (group_by expert_entry (map fst ts)))"
    using grouped_group_by by (auto simp: grouped_def)
  then show ?thesis by (simp add: expert_stacks_def map_of_map_value map_of_sort_key)
qed

text \<open>The experts of a stack, each once and in order.\<close>

lemma expert_stacks_Some:
  assumes "map_of (expert_stacks ts) s = Some ids"
  shows "sorted ids" "distinct ids"
    "set ids = {e. \<exists>n \<in> fst ` set ts. \<exists>l. is_expert n = Some (s, l, e)}"
proof -
  have g: "grouped expert_entry (set (map fst ts)) (group_by expert_entry (map fst ts))"
    by (rule grouped_group_by)
  obtain xs where xs: "map_of (group_by expert_entry (map fst ts)) s = Some xs" "ids = sort xs"
    using assms by (auto simp: map_of_expert_stacks)
  then show "sorted ids" "distinct ids" using g by (auto simp: grouped_def)
  show "set ids = {e. \<exists>n \<in> fst ` set ts. \<exists>l. is_expert n = Some (s, l, e)}"
    using g xs by (fastforce simp: grouped_def expert_entry_def)
qed

lemma expert_stacks_None:
  "map_of (expert_stacks ts) s = None \<Longrightarrow> n \<in> fst ` set ts \<Longrightarrow> is_expert n \<noteq> Some (s, l, e)"
  using grouped_group_by [of expert_entry "map fst ts"] unfolding grouped_def map_of_expert_stacks
  by (force simp: expert_entry_def)

section \<open>The schedule\<close>

lemma layer_key_inject [simp]: "layer_key a = layer_key b \<longleftrightarrow> a = b"
proof
  have key: "cut_last (CHR ''.'') (layer_key k) = Some (fst k, str_nat (snd k))" for k
  proof -
    have "CHR ''.'' \<notin> set (str_nat (snd k))"
      using str_nat_digits [of "snd k"] by (auto simp: list_all_iff py_digit_def)
    then show ?thesis by (simp add: cut_last_iff layer_key_def)
  qed
  assume "layer_key a = layer_key b"
  then show "a = b" using key [of a] key [of b] by (auto simp: prod_eq_iff)
qed simp

text \<open>A tensor of the checkpoint that makes a layer a full-attention or a linear-attention one.\<close>

definition carries :: "tensors \<Rightarrow> string \<times> nat \<Rightarrow> kind \<Rightarrow> bool" where
  "carries ts key k \<longleftrightarrow> (\<exists>n \<in> fst ` set ts. kind_entry n = Some (key, k))"

lemma schedule_of_Inr:
  "schedule_of kinds sched = Inr sched' \<Longrightarrow> distinct (map fst kinds) \<Longrightarrow>
   \<forall>(key, seen) \<in> set kinds. map_of sched (layer_key key) = None \<Longrightarrow>
   (\<forall>(key, seen) \<in> set kinds. \<exists>k. seen = [k]) \<and>
   (\<forall>name. map_of sched' name =
      (case map_of (map (\<lambda>(key, seen). (layer_key key, hd seen)) kinds) name of
         None \<Rightarrow> map_of sched name | Some k \<Rightarrow> Some k))"
proof (induction kinds arbitrary: sched)
  case (Cons entry rest)
  obtain key seen where entry: "entry = (key, seen)" by (cases entry)
  obtain k where k: "seen = [k]" and r: "schedule_of rest (dput sched (layer_key key) k) = Inr sched'"
    using Cons.prems(1) by (auto simp: entry split: list.splits)
  have d: "distinct (map fst rest)" "key \<notin> fst ` set rest"
    using Cons.prems(2) by (auto simp: entry)
  have fresh: "\<forall>(key', seen') \<in> set rest. map_of (dput sched (layer_key key) k) (layer_key key') = None"
    using Cons.prems(3) d(2) by (force simp: map_of_dput)
  have "map_of (map (\<lambda>(key, seen). (layer_key key, hd seen)) rest) (layer_key key) = None"
    using d(2) by (force simp: map_of_eq_None_iff)
  then show ?case
    using Cons.IH [OF r d(1) fresh] by (auto simp: entry k map_of_dput split: option.splits)
qed simp

lemma schedule_of_Inl:
  "schedule_of kinds sched = Inl e \<Longrightarrow>
   e = GuardFailure \<and> (\<exists>(key, seen) \<in> set kinds. \<not> (\<exists>k. seen = [k]))"
  by (induction kinds sched rule: schedule_of.induct) (auto split: list.splits)

lemma list_of_one: "xs \<noteq> [] \<Longrightarrow> distinct xs \<Longrightarrow> (\<forall>x \<in> set xs. x = a) \<Longrightarrow> xs = [a]"
  by (cases xs; cases "tl xs") auto

lemma carries_iff:
  "carries ts key k \<longleftrightarrow> (\<exists>xs. map_of (group_by kind_entry (map fst ts)) key = Some xs \<and> k \<in> set xs)"
proof -
  have g: "grouped kind_entry (set (map fst ts)) (group_by kind_entry (map fst ts))"
    by (rule grouped_group_by)
  show ?thesis
    using groupedD(4) [OF g, of key _ k] groupedD(5) [OF g, of key _ k]
    by (cases "map_of (group_by kind_entry (map fst ts)) key") (auto simp: carries_def)
qed

lemma map_of_layer_keys:
  "map_of (map (\<lambda>(key, seen). (layer_key key, f seen)) kinds) (layer_key key) =
     map_option f (map_of kinds key)"
  by (induction kinds) auto

text \<open>The kinds of attention that the names show, by layer and in the order of the layers.\<close>

definition kinds_seen :: "tensors \<Rightarrow> ((string \<times> nat) \<times> kind list) list" where
  "kinds_seen ts = sort_key fst (group_by kind_entry (map fst ts))"

lemma schedule_from_kinds_seen:
  "schedule_from_tensor_presence ts =
     res_bind (schedule_of (kinds_seen ts) []) (\<lambda>sched. if sched = [] then raised GuardFailure else returned sched)"
  by (simp add: schedule_from_tensor_presence_def kinds_seen_def)

lemma kinds_seen_grouped: "grouped kind_entry (set (map fst ts)) (kinds_seen ts)"
  unfolding kinds_seen_def by (intro grouped_sort grouped_group_by)

lemmas kinds_seen_distinct = groupedD(1) [OF kinds_seen_grouped]

lemma carries_seen: "carries ts key k \<longleftrightarrow> (\<exists>xs. map_of (kinds_seen ts) key = Some xs \<and> k \<in> set xs)"
  using groupedD(1) [OF grouped_group_by [of kind_entry "map fst ts"]]
  by (simp add: carries_iff kinds_seen_def map_of_sort_key)

lemma kinds_seen_lists: "(key, xs) \<in> set (kinds_seen ts) \<Longrightarrow> xs \<noteq> [] \<and> distinct xs"
  using groupedD(2,3) [OF kinds_seen_grouped] map_of_is_SomeI [OF kinds_seen_distinct] by blast

lemma conflict_seen:
  assumes "schedule_of (kinds_seen ts) [] = Inl e"
  shows "e = GuardFailure \<and> (\<exists>key. carries ts key Full_attention \<and> carries ts key Linear_attention)"
proof -
  from schedule_of_Inl [OF assms] obtain key xs where e: "e = GuardFailure"
    and x: "(key, xs) \<in> set (kinds_seen ts)" "\<not> (\<exists>k. xs = [k])" by blast
  have "Full_attention \<in> set xs \<and> Linear_attention \<in> set xs"
  proof (rule ccontr)
    assume "\<not> (Full_attention \<in> set xs \<and> Linear_attention \<in> set xs)"
    then have "\<exists>a. \<forall>k \<in> set xs. k = a" by (metis kind.exhaust)
    then show False using x kinds_seen_lists [OF x(1)] list_of_one by metis
  qed
  then have "carries ts key Full_attention \<and> carries ts key Linear_attention"
    using x(1) kinds_seen_distinct map_of_is_SomeI by (fastforce simp: carries_seen)
  with e show ?thesis by blast
qed

lemma schedule_seen:
  assumes "schedule_of (kinds_seen ts) [] = Inr sched"
  shows "map_of sched (layer_key key) = Some k \<longleftrightarrow> carries ts key k" and "dom (map_of sched) \<subseteq> range layer_key"
proof -
  note r = schedule_of_Inr [OF assms kinds_seen_distinct]
  have one: "\<exists>k. xs = [k]" if "map_of (kinds_seen ts) key = Some xs" for key xs
    using r map_of_SomeD [OF that] by auto
  have look: "map_of sched name =
      map_of (map (\<lambda>(key, seen). (layer_key key, hd seen)) (kinds_seen ts)) name" for name
    using r by (auto split: option.splits)
  show "map_of sched (layer_key key) = Some k \<longleftrightarrow> carries ts key k"
    unfolding look map_of_layer_keys carries_seen using one by fastforce
  show "dom (map_of sched) \<subseteq> range layer_key"
  proof
    fix name assume "name \<in> dom (map_of sched)"
    then obtain k where "map_of (map (\<lambda>(key, seen). (layer_key key, hd seen)) (kinds_seen ts)) name = Some k"
      by (auto simp only: look dom_def)
    from map_of_SomeD [OF this] show "name \<in> range layer_key" by auto
  qed
qed

lemma schedule_meaning:
  "case schedule_from_tensor_presence ts of
     Inr sched \<Rightarrow>
       (\<forall>key k. map_of sched (layer_key key) = Some k \<longleftrightarrow> carries ts key k) \<and>
       dom (map_of sched) \<subseteq> range layer_key \<and> sched \<noteq> []
   | Inl e \<Rightarrow>
       e = GuardFailure \<and>
       ((\<exists>key. carries ts key Full_attention \<and> carries ts key Linear_attention) \<or>
        (\<forall>key k. \<not> carries ts key k))"
proof (cases "schedule_of (kinds_seen ts) []")
  case (Inl e)
  then show ?thesis using conflict_seen [OF Inl] by (simp add: schedule_from_kinds_seen)
next
  case (Inr sched)
  note iff = schedule_seen [OF Inr]
  show ?thesis
  proof (cases "sched = []")
    case True
    then have "\<forall>key k. \<not> carries ts key k" using iff(1) by auto
    then show ?thesis by (auto simp: schedule_from_kinds_seen Inr True)
  next
    case False
    then show ?thesis using iff by (simp add: schedule_from_kinds_seen Inr)
  qed
qed

text \<open>
  The schedule is exactly what the tensors say: when it is derived, every layer's kind is the
  one kind of attention tensor it carries, and every entry belongs to a layer; it is refused
  exactly when some layer carries both kinds or no layer carries any.
\<close>

theorem schedule_from_presence:
  "case schedule_from_tensor_presence ts of
     Inr sched \<Rightarrow>
       (\<forall>key k. map_of sched (layer_key key) = Some k \<longleftrightarrow> carries ts key k) \<and>
       dom (map_of sched) \<subseteq> range layer_key \<and> sched \<noteq> []
   | Inl e \<Rightarrow>
       e = GuardFailure \<and>
       ((\<exists>key. carries ts key Full_attention \<and> carries ts key Linear_attention) \<or>
        (\<forall>key k. \<not> carries ts key k))"
  by (rule schedule_meaning)

lemma schedule_lookup:
  "schedule_from_tensor_presence ts = returned sched \<Longrightarrow>
   map_of sched (layer_key key) = Some k \<longleftrightarrow> carries ts key k"
  using schedule_meaning [of ts] by (cases key) auto

section \<open>The shard plan\<close>

lemma int_div_less_iff:
  assumes "0 < (k::int)"
  shows "a div k < b \<longleftrightarrow> a < b * k"
proof
  have a: "a = a div k * k + a mod k" "0 \<le> a mod k" "a mod k < k" using assms by simp_all
  { assume "a div k < b"
    then have "(a div k + 1) * k \<le> b * k" using assms by (intro mult_right_mono) auto
    then have "a div k * k + k \<le> b * k" by (simp add: distrib_right)
    then show "a < b * k" using a by linarith }
  { assume less: "a < b * k"
    show "a div k < b"
    proof (rule ccontr)
      assume "\<not> a div k < b"
      then have "b * k \<le> a div k * k" using assms by (intro mult_right_mono) auto
      then show False using a less by linarith
    qed }
qed

lemma int_div_eq_iff:
  assumes "0 < (k::int)"
  shows "a div k = r \<longleftrightarrow> r * k \<le> a \<and> a < (r + 1) * k"
  using int_div_less_iff [OF assms, of a r] int_div_less_iff [OF assms, of a "r + 1"] by auto

text \<open>The rank that owns a routed expert's tensor.\<close>

definition rank_of :: "(string \<times> nat list) list \<Rightarrow> int \<Rightarrow> string \<Rightarrow> nat option" where
  "rank_of stacks tp name =
     (if is_table name then None
      else Option.bind (is_expert name) (\<lambda>(s, _, e).
        map_option (\<lambda>ids. nat (min (int e div (int (length ids) div tp)) (tp - 1))) (map_of stacks s)))"

definition is_replicated :: "string \<Rightarrow> bool" where
  "is_replicated name \<longleftrightarrow> \<not> is_table name \<and> is_expert name = None"

text \<open>Every stack has at least one expert for every rank.\<close>

definition shardable :: "(string \<times> nat list) list \<Rightarrow> int \<Rightarrow> bool" where
  "shardable stacks tp \<longleftrightarrow> 0 < tp \<and> (\<forall>(s, ids) \<in> set stacks. tp \<le> int (length ids))"

lemma rank_bound:
  assumes "0 < tp" "tp \<le> int k"
  shows "0 \<le> min (int e div (int k div tp)) (tp - 1)" "min (int e div (int k div tp)) (tp - 1) < tp"
proof -
  have "0 < int k div tp" using assms by (simp add: pos_imp_zdiv_pos_iff)
  then have "0 \<le> int e div (int k div tp)" by (simp add: pos_imp_zdiv_nonneg_iff)
  then show "0 \<le> min (int e div (int k div tp)) (tp - 1)" using assms by simp
qed (use assms in simp)

lemma list_update_map_upt:
  "length xs = n \<Longrightarrow> i < n \<Longrightarrow>
   xs[i := xs ! i @ [x]] = map (\<lambda>r. xs ! r @ (if r = i then [x] else [])) [0..<n]"
  by (auto intro!: nth_equalityI simp: nth_list_update)

text \<open>What placing tensors one by one amounts to.\<close>

definition placed :: "(string \<times> nat list) list \<Rightarrow> int \<Rightarrow> string list \<Rightarrow> shard_plan \<Rightarrow> shard_plan" where
  "placed stacks tp names plan = plan\<lparr>
     owned := map (\<lambda>r. owned plan ! r @ filter (\<lambda>n. rank_of stacks tp n = Some r) names) [0..<nat tp],
     replicated := replicated plan @ filter is_replicated names,
     table := table plan @ filter is_table names\<rparr>"

lemma place_tensor_ok:
  assumes sh: "shardable stacks tp" and len: "length (owned plan) = nat tp"
    and known: "\<And>s l e. is_expert name = Some (s, l, e) \<Longrightarrow> map_of stacks s \<noteq> None"
  shows "place_tensor stacks tp name plan = returned (placed stacks tp [name] plan)"
proof -
  have same: "map (\<lambda>r. owned plan ! r) [0..<nat tp] = owned plan"
    using len by (metis map_nth)
  show ?thesis
  proof (cases "is_table name \<or> is_expert name = None")
    case True
    then show ?thesis
      using same by (auto simp: place_tensor_def placed_def rank_of_def is_replicated_def)
  next
    case False
    then obtain s l e where e: "is_expert name = Some (s, l, e)" and t: "\<not> is_table name" by auto
    obtain ids where ids: "map_of stacks s = Some ids" using known [OF e] by auto
    have tp: "0 < tp" "tp \<le> int (length ids)"
      using sh map_of_SomeD [OF ids] by (auto simp: shardable_def)
    then have "0 < int (length ids) div tp" by (simp add: pos_imp_zdiv_pos_iff)
    then have nz: "int (length ids) div tp \<noteq> 0" by simp
    define r where "r = min (int e div (int (length ids) div tp)) (tp - 1)"
    have r: "0 \<le> r" "r < tp" using rank_bound [OF tp] by (simp_all add: r_def)
    have "append_at (owned plan) r name =
        returned (map (\<lambda>q. owned plan ! q @ (if q = nat r then [name] else [])) [0..<nat tp])"
      using r list_update_map_upt [OF len, of "nat r" name] by (simp add: append_at_def len)
    moreover have rk: "rank_of stacks tp name = Some (nat r)"
      by (simp add: rank_of_def e t ids r_def)
    ultimately have "place_tensor stacks tp name plan =
        returned (plan\<lparr>owned := map (\<lambda>q. owned plan ! q @ (if q = nat r then [name] else [])) [0..<nat tp]\<rparr>)"
      using tp nz by (simp add: place_tensor_def e t ids r_def)
    then show ?thesis
      by (simp add: placed_def rk is_replicated_def e t eq_commute [of "nat r"] cong: map_cong)
  qed
qed

lemma placed_Cons: "placed stacks tp ns (placed stacks tp [n] plan) = placed stacks tp (n # ns) plan"
  by (simp add: placed_def)

lemma place_tensors_ok:
  assumes sh: "shardable stacks tp" and len: "length (owned plan) = nat tp"
    and known: "\<And>n s l e. n \<in> set names \<Longrightarrow> is_expert n = Some (s, l, e) \<Longrightarrow> map_of stacks s \<noteq> None"
  shows "place_tensors stacks tp names plan = returned (placed stacks tp names plan)"
  using len known
proof (induction names arbitrary: plan)
  case Nil
  have "map (\<lambda>r. owned plan ! r) [0..<nat tp] = owned plan"
    using Nil.prems(1) by (metis map_nth)
  then show ?case by (simp add: placed_def)
next
  case (Cons n ns)
  have "place_tensor stacks tp n plan = returned (placed stacks tp [n] plan)"
    by (rule place_tensor_ok [OF sh Cons.prems(1) Cons.prems(2) [of n]]) auto
  moreover have k: "map_of stacks s \<noteq> None" if "m \<in> set ns" "is_expert m = Some (s, l, e)" for m s l e
    using that by (intro Cons.prems(2) [of m s l e]) simp_all
  have "place_tensors stacks tp ns (placed stacks tp [n] plan) =
      returned (placed stacks tp ns (placed stacks tp [n] plan))"
    by (rule Cons.IH [OF _ k]) (simp_all add: placed_def)
  ultimately show ?case by (simp only: place_tensors.simps res_bind_simps placed_Cons)
qed

lemma make_shard_plan_ok:
  assumes sh: "shardable (expert_stacks ts) tp"
  shows "\<exists>k. make_shard_plan ts (expert_stacks ts) tp = returned
    \<lparr>owned = map (\<lambda>r. filter (\<lambda>n. rank_of (expert_stacks ts) tp n = Some r) (sort (map fst ts))) [0..<nat tp],
     replicated = filter is_replicated (sort (map fst ts)),
     table = filter is_table (sort (map fst ts)), experts_per_rank = k\<rparr>"
proof -
  have tp: "0 < tp" using sh by (simp add: shardable_def)
  have known: "map_of (expert_stacks ts) s \<noteq> None"
    if "n \<in> set (sort (map fst ts))" "is_expert n = Some (s, l, e)" for n s l e
  proof
    assume "map_of (expert_stacks ts) s = None"
    from expert_stacks_None [OF this, of n] show False using that by auto
  qed
  have e: "map (\<lambda>r. replicate (nat tp) [] ! r @ f r) [0..<nat tp] = map f [0..<nat tp]"
    for f :: "nat \<Rightarrow> string list" by (auto intro!: map_cong)
  have "place_tensors (expert_stacks ts) tp (sort (map fst ts))
      \<lparr>owned = replicate (nat tp) [], replicated = [], table = [], experts_per_rank = k\<rparr> = returned
    \<lparr>owned = map (\<lambda>r. filter (\<lambda>n. rank_of (expert_stacks ts) tp n = Some r) (sort (map fst ts))) [0..<nat tp],
     replicated = filter is_replicated (sort (map fst ts)),
     table = filter is_table (sort (map fst ts)), experts_per_rank = k\<rparr>" for k
    by (subst place_tensors_ok [OF sh _ known]) (simp_all add: placed_def e)
  then show ?thesis
    using tp by (cases "expert_stacks ts") (auto simp: make_shard_plan_def)
qed

lemma mset_by_rank:
  "mset (concat (map (\<lambda>r. filter (\<lambda>n. f n = Some r) xs) [0..<k])) =
     mset (filter (\<lambda>n. \<exists>r<k. f n = Some r) xs)"
proof (induction k)
  case (Suc k)
  have "filter_mset (\<lambda>n. \<exists>r<Suc k. f n = Some r) M =
      filter_mset (\<lambda>n. \<exists>r<k. f n = Some r) M + filter_mset (\<lambda>n. f n = Some k) M" for M
    by (induction M) (auto simp: less_Suc_eq)
  then show ?case using Suc by simp
qed simp

lemma rank_of_Some:
  assumes "shardable stacks tp" "rank_of stacks tp n = Some r"
  shows "r < nat tp"
proof -
  obtain s l e ids where "is_expert n = Some (s, l, e)" and ids: "map_of stacks s = Some ids"
    and r: "r = nat (min (int e div (int (length ids) div tp)) (tp - 1))"
    using assms(2) by (auto simp: rank_of_def split: if_splits Option.bind_splits)
  have "0 < tp" "tp \<le> int (length ids)"
    using assms(1) map_of_SomeD [OF ids] by (auto simp: shardable_def)
  from rank_bound [OF this] show ?thesis by (simp add: r)
qed

text \<open>
  C19: When every expert stack has at least one expert per rank, the plan exists and puts every
  tensor of the checkpoint in exactly one place: the table, the replicated set, or the shard of
  exactly one rank.
\<close>

theorem shard_plan_partition:
  assumes "shardable (expert_stacks ts) tp"
  shows "\<exists>plan. make_shard_plan ts (expert_stacks ts) tp = returned plan \<and>
    length (owned plan) = nat tp \<and>
    mset (concat (owned plan)) + mset (replicated plan) + mset (table plan) = mset (map fst ts) \<and>
    set (table plan) = {n \<in> fst ` set ts. is_table n} \<and>
    set (replicated plan) = {n \<in> fst ` set ts. \<not> is_table n \<and> is_expert n = None}"
proof -
  define names where "names = map fst ts"
  define st where "st = expert_stacks ts"
  have cls: "(\<exists>r<nat tp. rank_of st tp n = Some r) \<longleftrightarrow> \<not> is_table n \<and> is_expert n \<noteq> None"
    if "n \<in> set names" for n
  proof
    assume a: "\<not> is_table n \<and> is_expert n \<noteq> None"
    then obtain s l e where e: "is_expert n = Some (s, l, e)" by auto
    have "map_of st s \<noteq> None"
      using expert_stacks_None [of ts s n l e] that e by (auto simp: st_def names_def)
    then obtain r where "rank_of st tp n = Some r" using a e by (auto simp: rank_of_def)
    then show "\<exists>r<nat tp. rank_of st tp n = Some r" using rank_of_Some assms by (auto simp: st_def)
  qed (auto simp: rank_of_def split: if_splits Option.bind_splits)
  have "filter (\<lambda>n. \<exists>r<nat tp. rank_of st tp n = Some r) (sort names) =
      filter (\<lambda>n. \<not> is_table n \<and> is_expert n \<noteq> None) (sort names)"
    using cls by (intro filter_cong) auto
  then have own: "mset (concat (map (\<lambda>r. filter (\<lambda>n. rank_of st tp n = Some r) (sort names)) [0..<nat tp]))
      = filter_mset (\<lambda>n. \<not> is_table n \<and> is_expert n \<noteq> None) (mset names)"
    by (simp only: mset_by_rank mset_filter mset_sort)
  have "filter_mset (\<lambda>n. \<not> is_table n \<and> is_expert n \<noteq> None) M + filter_mset is_replicated M
      + filter_mset is_table M = M" for M
    by (induction M) (auto simp: is_replicated_def)
  then have all: "mset (concat (map (\<lambda>r. filter (\<lambda>n. rank_of st tp n = Some r) (sort names)) [0..<nat tp]))
      + mset (filter is_replicated (sort names)) + mset (filter is_table (sort names)) = mset names"
    unfolding own by (simp only: mset_filter mset_sort)
  have sets: "set (filter P (sort names)) = {n \<in> fst ` set ts. P n}" for P
    by (auto simp: names_def)
  obtain k where k: "make_shard_plan ts st tp = returned
    \<lparr>owned = map (\<lambda>r. filter (\<lambda>n. rank_of st tp n = Some r) (sort names)) [0..<nat tp],
     replicated = filter is_replicated (sort names),
     table = filter is_table (sort names), experts_per_rank = k\<rparr>"
    using make_shard_plan_ok [OF assms] unfolding st_def names_def by blast
  show ?thesis
    unfolding st_def [symmetric] names_def [symmetric]
    by (rule exI, rule conjI [OF k], simp only: shard_plan.simps length_map length_upt sets all)
      (simp add: is_replicated_def)
qed

text \<open>
  When the tensor-parallel size divides the experts of a stack, numbered from 0, rank \<open>r\<close>
  owns the tensors of exactly the experts \<open>r * n / tp\<close> up to but excluding \<open>(r + 1) * n / tp\<close>.
\<close>

theorem shard_plan_ranges:
  assumes "shardable (expert_stacks ts) tp"
    and "make_shard_plan ts (expert_stacks ts) tp = returned plan"
    and "map_of (expert_stacks ts) s = Some [0..<n]" and "int n mod tp = 0"
    and "name \<in> fst ` set ts" and "\<not> is_table name" and "is_expert name = Some (s, l, e)"
    and "r < nat tp"
  shows "name \<in> set (owned plan ! r) \<longleftrightarrow>
    int r * (int n div tp) \<le> int e \<and> int e < (int r + 1) * (int n div tp)"
proof -
  have tp: "0 < tp" "tp \<le> int n"
    using assms(1) map_of_SomeD [OF assms(3)] by (auto simp: shardable_def)
  define k where "k = int n div tp"
  have k: "0 < k" "int n = k * tp"
    using tp assms(4) by (auto simp: k_def pos_imp_zdiv_pos_iff)
  have "e \<in> set [0..<n]"
    using expert_stacks_Some(3) [OF assms(3)] assms(5,7) by auto
  then have "int e < tp * k" using k(2) by (simp add: mult.commute)
  then have q: "int e div k < tp" "0 \<le> int e div k"
    using k(1) by (simp_all add: int_div_less_iff pos_imp_zdiv_nonneg_iff)
  have rk: "rank_of (expert_stacks ts) tp name = Some (nat (int e div k))"
    using assms(3,6,7) q by (simp add: rank_of_def k_def)
  have "owned plan ! r = filter (\<lambda>n. rank_of (expert_stacks ts) tp n = Some r) (sort (map fst ts))"
    using make_shard_plan_ok [OF assms(1)] assms(2,8) by auto
  then have "name \<in> set (owned plan ! r) \<longleftrightarrow> int e div k = int r"
    using assms(5) q by (auto simp: rk)
  also have "\<dots> \<longleftrightarrow> int r * k \<le> int e \<and> int e < (int r + 1) * k"
    by (rule int_div_eq_iff [OF k(1)])
  finally show ?thesis by (simp add: k_def)
qed

section \<open>A small checkpoint\<close>

definition demo_tensor :: "int \<Rightarrow> tensor" where
  "demo_tensor n = \<lparr>nbytes = n, dtype = ''BF16'', shape = [n]\<rparr>"

definition demo_tensors :: tensors where
  "demo_tensors =
     [(''m.layers.0.mlp.experts.1.up.weight'', demo_tensor 2),
      (''m.layers.0.mlp.experts.0.up.weight'', demo_tensor 2),
      (''m.layers.0.self_attn.q_proj.weight'', demo_tensor 3),
      (''m.layers.1.linear_attn.o.weight'', demo_tensor 3),
      (''ngram_embedding.table'', demo_tensor 9)]"

lemma demo_stacks: "expert_stacks demo_tensors = [(''m'', [0, 1])]"
  by code_simp

lemma demo_shardable: "shardable (expert_stacks demo_tensors) 2"
  by (simp add: demo_stacks shardable_def)

definition demo_plan :: shard_plan where
  "demo_plan =
     \<lparr>owned = [[''m.layers.0.mlp.experts.0.up.weight''], [''m.layers.0.mlp.experts.1.up.weight'']],
      replicated = [''m.layers.0.self_attn.q_proj.weight'', ''m.layers.1.linear_attn.o.weight''],
      table = [''ngram_embedding.table''], experts_per_rank = 1\<rparr>"

lemma demo_plan: "make_shard_plan demo_tensors (expert_stacks demo_tensors) 2 = returned demo_plan"
  by code_simp

theorem shard_plan_partition_witness:
  "make_shard_plan demo_tensors (expert_stacks demo_tensors) 2 = returned demo_plan \<and>
   mset (concat (owned demo_plan)) + mset (replicated demo_plan) + mset (table demo_plan) =
     mset (map fst demo_tensors)"
  using shard_plan_partition [OF demo_shardable] demo_plan by simp

theorem shard_plan_ranges_witness:
  "''m.layers.0.mlp.experts.1.up.weight'' \<in> set (owned demo_plan ! 1)"
proof -
  have "is_expert ''m.layers.0.mlp.experts.1.up.weight'' = Some (''m'', 0, 1)"
    "\<not> is_table ''m.layers.0.mlp.experts.1.up.weight''" by code_simp+
  moreover have "map_of (expert_stacks demo_tensors) ''m'' = Some [0..<2]" by code_simp
  moreover have "''m.layers.0.mlp.experts.1.up.weight'' \<in> fst ` set demo_tensors"
    by (simp add: demo_tensors_def)
  ultimately show ?thesis
    using shard_plan_ranges [OF demo_shardable demo_plan, of "''m''" 2 _ 0 1 1] by simp
qed

section \<open>The guard inputs of the twins\<close>

definition scalars :: "config \<Rightarrow> config" where
  "scalars cfg = filter (\<lambda>(k, v). \<not> startswith k ''_'' \<and> scalar v) (sort_key fst cfg)"

definition shapes :: "tensors \<Rightarrow> (string \<times> string \<times> int list) list" where
  "shapes ts = map (\<lambda>(n, t). (n, dtype t, shape t)) (sort_key fst ts)"

lemma sort_keys_scalar [simp]: "scalar v \<Longrightarrow> sort_keys v = v"
  by (cases v) auto

lemma sort_key_sorted: "sorted (map f xs) \<Longrightarrow> sort_key f xs = xs"
proof (induction xs)
  case (Cons x xs)
  then have "sort_key f xs = xs" "\<forall>y \<in> set xs. f x \<le> f y" by simp_all
  then show ?case by (simp only: sort_key_simps insort_is_Cons)
qed simp

lemma map_eq_inject:
  assumes "map f xs = map f ys" and "\<And>x y. f x = f y \<Longrightarrow> g x = g y"
  shows "map g xs = map g ys"
  using assms(1)
proof (induction xs arbitrary: ys)
  case (Cons x xs)
  then obtain y zs where ys: "ys = y # zs" "f x = f y" "map f xs = map f zs"
    by (auto simp: Cons_eq_map_conv)
  show ?case using Cons.IH [OF ys(3)] assms(2) [OF ys(2)] by (simp add: ys(1))
qed simp

lemma sorted_payload:
  "sort_keys (guard_payload cfg ts sched tp) =
     JObj [(''config'', JObj (scalars cfg)),
           (''schedule'', JObj (sort_key fst (map (\<lambda>(k, v). (k, JStr (kind_name v))) sched))),
           (''tensors'', JList (map (\<lambda>(n, t).
               JList [JStr n, JStr (dtype t), JList (map JInt (shape t))]) (sort_key fst ts))),
           (''tp'', JInt tp)]"
proof -
  have "map (\<lambda>(k, v). (k, sort_keys v)) (scalars cfg) = map (\<lambda>x. x) (scalars cfg)"
    by (rule map_cong) (auto simp: scalars_def)
  moreover have "sorted (map fst (scalars cfg))"
    by (simp add: scalars_def filter_sort)
  ultimately have c: "sort_keys (JObj (scalars cfg)) = JObj (scalars cfg)"
    by (simp add: sort_key_sorted)
  have s: "sort_keys (JObj (map (\<lambda>(k, v). (k, JStr (kind_name v))) sched)) =
      JObj (sort_key fst (map (\<lambda>(k, v). (k, JStr (kind_name v))) sched))"
    by (simp add: o_def case_prod_unfold)
  have t: "sort_keys (JList (map (\<lambda>(n, t). JList [JStr n, JStr (dtype t), JList (map JInt (shape t))]) xs)) =
      JList (map (\<lambda>(n, t). JList [JStr n, JStr (dtype t), JList (map JInt (shape t))]) xs)"
    for xs :: tensors
    by (auto simp: o_def)
  have le: "''config'' \<le> ''schedule''" "''schedule'' \<le> ''tensors''" "''tensors'' \<le> ''tp''"
    "''config'' \<le> ''tensors''" "\<not> ''tp'' \<le> ''config''" "\<not> ''tp'' \<le> ''tensors''"
    "\<not> ''tp'' \<le> ''schedule''" "\<not> ''tensors'' \<le> ''schedule''" "\<not> ''config'' \<le> ([] :: string)"
    by code_simp+
  have perm: "sort_keys (JObj [(''tp'', w), (''config'', x), (''tensors'', y), (''schedule'', z)]) =
      JObj [(''config'', sort_keys x), (''schedule'', sort_keys z), (''tensors'', sort_keys y),
            (''tp'', sort_keys w)]" for w x y z
    by (simp add: le del: Cons_le_Cons)
  show ?thesis
    unfolding guard_payload_def scalars_def [symmetric] perm c s t by simp
qed

text \<open>
  If the digests of the two twins are equal and the digest does not collide on their two
  payloads, the twins agree on the split factor, on every scalar of the config, on the name, type
  and shape of every tensor, and on the schedule.
\<close>

theorem equal_digests_agree:
  assumes "guard_inputs_digest dumps sha256 cfg ts sched tp = guard_inputs_digest dumps sha256 cfg' ts' sched' tp'"
    and "\<And>x y. x = sort_keys (guard_payload cfg ts sched tp) \<Longrightarrow>
      y = sort_keys (guard_payload cfg' ts' sched' tp') \<Longrightarrow> sha256 (dumps x) = sha256 (dumps y) \<Longrightarrow> x = y"
  shows "tp = tp' \<and> scalars cfg = scalars cfg' \<and> shapes ts = shapes ts' \<and> mset sched = mset sched'"
proof -
  have eq: "sort_keys (guard_payload cfg ts sched tp) = sort_keys (guard_payload cfg' ts' sched' tp')"
    using assms by (simp add: guard_inputs_digest_def)
  note eq' = eq [unfolded sorted_payload]
  define f where "f = (\<lambda>(n, t :: tensor). JList [JStr n, JStr (dtype t), JList (map JInt (shape t))])"
  define h where "h = (\<lambda>(k :: string, v). (k, JStr (kind_name v)))"
  have "map f (sort_key fst ts) = map f (sort_key fst ts')" using eq' by (simp add: f_def)
  then have shapes: "shapes ts = shapes ts'"
    unfolding shapes_def
  proof (rule map_eq_inject)
    have "inj JInt" by (simp add: inj_def)
    then show "(case x of (n, t) \<Rightarrow> (n, dtype t, shape t)) = (case y of (n, t) \<Rightarrow> (n, dtype t, shape t))"
      if "f x = f y" for x y
      using that by (cases x; cases y) (simp add: f_def inj_map_eq_map)
  qed
  have "sort_key fst (map h sched) = sort_key fst (map h sched')" using eq' by (simp add: h_def)
  then have "mset (map h sched) = mset (map h sched')" by (metis mset_sort)
  then have "image_mset h (mset sched) = image_mset h (mset sched')" by simp
  moreover have "inj h" by (auto simp: inj_def h_def kind_name_def split: kind.splits)
  ultimately have "mset sched = mset sched'" by (meson multiset.inj_map injD)
  then show ?thesis using eq' shapes by simp
qed

theorem equal_digests_agree_witness:
  "scalars [(''b'', JInt 2), (''a'', JInt 1)] = scalars [(''a'', JInt 1), (''b'', JInt 2), (''c'', JList [])]"
proof -
  have eq: "sort_keys (guard_payload [(''b'', JInt 2), (''a'', JInt 1)] demo_tensors [] 2) =
      sort_keys (guard_payload [(''a'', JInt 1), (''b'', JInt 2), (''c'', JList [])] demo_tensors [] 2)"
    by code_simp
  show ?thesis
    using equal_digests_agree [of "\<lambda>_. []" id "[(''b'', JInt 2), (''a'', JInt 1)]" demo_tensors "[]" 2
        "[(''a'', JInt 1), (''b'', JInt 2), (''c'', JList [])]" demo_tensors "[]" 2] eq
    by (simp add: guard_inputs_digest_def)
qed

end
