(* ===== verification/Tp2Guards.thy ===== *)
theory Tp2Guards
  imports Checkpoint
begin

text \<open>
  The twelve assertions of \<open>host/fn-tp2-guards.py\<close> over a config and the tensors of a checkpoint,
  one definition each, in the order \<open>run_assertions\<close> evaluates them, and \<open>main\<close> with its exit
  status. A check is its name and whether it holds; the \<open>detail\<close> dictionaries of the report are
  left out, apart from the numbers that the summary repeats. The order in which Python iterates
  the set of stack names (which breaks a tie for the main stack) is the argument \<open>iter\<close>.
\<close>

type_synonym check = "string \<times> bool"

text \<open>\<open>a % b\<close> and \<open>a // b\<close> round towards minus infinity and raise on zero.\<close>

definition py_mod :: "int \<Rightarrow> int \<Rightarrow> int res" where
  "py_mod a b = (if b = 0 then raised ZeroDivisionError else returned (a mod b))"

definition py_div :: "int \<Rightarrow> int \<Rightarrow> int res" where
  "py_div a b = (if b = 0 then raised ZeroDivisionError else returned (a div b))"

definition fp8 :: "string \<Rightarrow> bool" where
  "fp8 dt \<longleftrightarrow> dt = ''F8_E4M3'' \<or> dt = ''F8_E5M2''"

definition COLUMN_PARALLEL :: "string list" where
  "COLUMN_PARALLEL = [''q_proj'', ''k_proj'', ''v_proj'', ''gate_proj'', ''up_proj'',
     ''in_proj_qkv'', ''in_proj_a'', ''in_proj_b'', ''in_proj_z'', ''index_qk_proj'']"

definition ROW_PARALLEL :: "string list" where
  "ROW_PARALLEL = [''o_proj'', ''down_proj'', ''out_proj'']"

section \<open>The scalars of the config\<close>

record split =
  n_routed :: int
  top_k :: int
  n_heads :: int
  n_kv :: int
  gdn_k :: int
  gdn_v :: int
  idx_heads :: int
  idx_kv :: int
  moe_inter :: int
  shared_inter :: int

definition read_split :: "config \<Rightarrow> split res" where
  "read_split cfg =
     res_bind (require_int cfg [''num_experts'', ''n_routed_experts'', ''num_local_experts'']) (\<lambda>a.
     res_bind (require_int cfg [''num_experts_per_tok'', ''top_k'']) (\<lambda>b.
     res_bind (require_int cfg [''num_attention_heads'']) (\<lambda>c.
     res_bind (require_int cfg [''num_key_value_heads'']) (\<lambda>d.
     res_bind (require_int cfg [''linear_num_key_heads'']) (\<lambda>e.
     res_bind (require_int cfg [''linear_num_value_heads'']) (\<lambda>f.
     res_bind (require_int cfg [''indexer_n_heads'']) (\<lambda>g.
     res_bind (require_int cfg [''indexer_kv_heads'']) (\<lambda>h.
     res_bind (require_int cfg [''moe_intermediate_size'']) (\<lambda>i.
     res_bind (require_int cfg [''shared_expert_intermediate_size'']) (\<lambda>j.
       returned \<lparr>n_routed = a, top_k = b, n_heads = c, n_kv = d, gdn_k = e, gdn_v = f,
                 idx_heads = g, idx_kv = h, moe_inter = i, shared_inter = j\<rparr>))))))))))"

section \<open>A1 to A5\<close>

definition assert_A1 :: "split \<Rightarrow> int \<Rightarrow> bool res" where
  "assert_A1 sp tp = res_bind (py_mod (n_routed sp) tp) (\<lambda>m. returned (m = 0))"

definition moe_layers :: "tensors \<Rightarrow> (string \<times> nat) list" where
  "moe_layers ts =
     remdups (List.map_filter (\<lambda>(n, t). map_option (\<lambda>(s, l, e). (s, l)) (is_expert n)) ts)"

definition shared_layers :: "tensors \<Rightarrow> (string \<times> nat) list" where
  "shared_layers ts =
     remdups (List.map_filter (\<lambda>(n, t).
       if contains_str n ''.mlp.shared_expert.''
       then map_option (\<lambda>(s, l, r). (s, l)) (layer_match n) else None) ts)"

definition missing_shared :: "tensors \<Rightarrow> (string \<times> nat) list" where
  "missing_shared ts = sort (filter (\<lambda>k. k \<notin> set (shared_layers ts)) (moe_layers ts))"

text \<open>Whether a K-split of the shared expert would land on a block edge.\<close>

definition split_would_align :: "json option \<Rightarrow> split \<Rightarrow> int \<Rightarrow> bool res" where
  "split_would_align block sp tp =
     (case block of
        Some b \<Rightarrow>
          if truthy b then
            res_bind (py_mod (shared_inter sp) tp) (\<lambda>m.
              if m = 0 then
                res_bind (py_item b 0) (\<lambda>b0. res_bind (py_int b0) (\<lambda>k.
                  res_bind (py_mod (shared_inter sp div tp) k) (\<lambda>r. returned (r = 0))))
              else returned False)
          else returned False
      | None \<Rightarrow> returned False)"

definition assert_A2 :: "json option \<Rightarrow> tensors \<Rightarrow> split \<Rightarrow> int \<Rightarrow> bool res" where
  "assert_A2 block ts sp tp =
     res_bind (split_would_align block sp tp) (\<lambda>aligned.
       returned (moe_layers ts \<noteq> [] \<and> missing_shared ts = [] \<and> \<not> aligned))"

definition assert_A3 :: "config \<Rightarrow> split \<Rightarrow> int \<Rightarrow> bool res" where
  "assert_A3 cfg sp tp =
     res_bind (require_int cfg [''head_dim'']) (\<lambda>_.
     res_bind (py_mod (n_heads sp) tp) (\<lambda>m. returned (m = 0 \<and> 0 < n_heads sp div tp)))"

text \<open>
  Short-circuit conjunction of results: the second is only evaluated when the first is true.
\<close>

definition and_then :: "bool res \<Rightarrow> bool res \<Rightarrow> bool res" where
  "and_then a b = res_bind a (\<lambda>x. if x then b else returned False)"

definition divides :: "int \<Rightarrow> int \<Rightarrow> bool res" where
  "divides b a = res_bind (py_mod a b) (\<lambda>m. returned (m = 0))"

definition gqa_ok :: "int \<Rightarrow> int \<Rightarrow> int \<Rightarrow> bool res" where
  "gqa_ok heads kv tp =
     and_then (divides tp kv) (and_then (divides kv heads)
       (res_bind (py_div heads tp) (\<lambda>a. res_bind (py_div kv tp) (\<lambda>b. divides b a))))"

definition fused_observed :: "tensors \<Rightarrow> int list" where
  "fused_observed ts =
     sort (remdups (map (\<lambda>(n, t). hd (shape t))
       (filter (\<lambda>(n, t). endswith n ''indexer.index_qk_proj.weight'' \<and> shape t \<noteq> []) ts)))"

definition assert_A4 :: "config \<Rightarrow> tensors \<Rightarrow> split \<Rightarrow> int \<Rightarrow> bool res" where
  "assert_A4 cfg ts sp tp =
     res_bind (require_int cfg [''indexer_head_dim'']) (\<lambda>idx_dim.
     res_bind (gqa_ok (n_heads sp) (n_kv sp) tp) (\<lambda>gqa.
     let expected = (idx_heads sp + idx_kv sp) * idx_dim;
         matches = (fused_observed ts = [expected])
     in res_bind (divides tp (idx_heads sp * idx_dim)) (\<lambda>component_ok.
        res_bind (divides tp (idx_kv sp)) (\<lambda>_.
        and_then (returned gqa) (and_then (divides tp (idx_heads sp))
          (returned (matches \<and> component_ok)))))))"

definition assert_A5 :: "split \<Rightarrow> int \<Rightarrow> bool res" where
  "assert_A5 sp tp =
     and_then (divides tp (gdn_k sp)) (and_then (divides tp (gdn_v sp))
       (and_then (divides (gdn_k sp) (gdn_v sp))
         (res_bind (py_div (gdn_v sp) tp) (\<lambda>a. res_bind (py_div (gdn_k sp) tp) (\<lambda>b. divides b a)))))"

section \<open>A6: the block grid\<close>

definition block_dims :: "json option \<Rightarrow> (int \<times> int) res" where
  "block_dims block =
     (case block of None \<Rightarrow> raised GuardFailure
      | Some b \<Rightarrow>
          if \<not> truthy b then raised GuardFailure
          else res_bind (py_len b) (\<lambda>n.
            if n \<noteq> 2 then raised GuardFailure
            else res_bind (py_item b 0) (\<lambda>b0. res_bind (py_int b0) (\<lambda>block_out.
                 res_bind (py_item b 1) (\<lambda>b1. res_bind (py_int b1) (\<lambda>block_in.
                   returned (block_out, block_in)))))))"

text \<open>\<open>-(-a // b)\<close>, the number of blocks that cover \<open>a\<close>.\<close>

definition ceil_div :: "int \<Rightarrow> int \<Rightarrow> int res" where
  "ceil_div a b = res_bind (py_div (- a) b) (\<lambda>q. returned (- q))"

text \<open>The scale grid of one tensor: \<open>None\<close> when there is nothing to check.\<close>

definition grid_check :: "tensors \<Rightarrow> int \<times> int \<Rightarrow> string \<Rightarrow> tensor \<Rightarrow> bool option res" where
  "grid_check ts blk name t =
     (if \<not> fp8 (dtype t) then returned None
      else case shape t of [d0, d1] \<Rightarrow>
          (case map_of ts (replace_str name ''.weight'' ''.weight_scale_inv'') of
             None \<Rightarrow> returned None
           | Some scale \<Rightarrow>
               res_bind (ceil_div d0 (fst blk)) (\<lambda>a. res_bind (ceil_div d1 (snd blk)) (\<lambda>b.
                 returned (Some (shape scale = [a, b])))))
        | _ \<Rightarrow> returned None)"

definition leaf_name :: "string \<Rightarrow> string" where
  "leaf_name name =
     (let base = (case cut_last (CHR ''.'') name of None \<Rightarrow> name | Some (b, _) \<Rightarrow> b)
      in case cut_last (CHR ''.'') base of None \<Rightarrow> base | Some (_, l) \<Rightarrow> l)"

text \<open>The dimension of a tensor that is sliced across the ranks and its block size.\<close>

definition sliced_dim :: "int \<times> int \<Rightarrow> string \<Rightarrow> tensor \<Rightarrow> (int \<times> int) option" where
  "sliced_dim blk name t =
     (if length (shape t) < 2 \<or> is_table name \<or> is_expert name \<noteq> None then None
      else if leaf_name name \<in> set COLUMN_PARALLEL then Some (hd (shape t), fst blk)
      else if leaf_name name \<in> set ROW_PARALLEL then Some (last (shape t), snd blk)
      else None)"

text \<open>Whether the slices of one tensor are sound: \<open>None\<close> when it is not sliced.\<close>

definition slice_check :: "int \<times> int \<Rightarrow> int \<Rightarrow> string \<Rightarrow> tensor \<Rightarrow> bool option res" where
  "slice_check blk tp name t =
     (case sliced_dim blk name t of None \<Rightarrow> returned None
      | Some (d, b) \<Rightarrow>
          res_bind (py_mod d tp) (\<lambda>m.
            if m \<noteq> 0 then returned (Some False)
            else if fp8 (dtype t)
                 then res_bind (py_mod (d div tp) b) (\<lambda>r. returned (Some (r = 0)))
                 else returned (Some True)))"

text \<open>Every verdict over the sorted names; a check that examined nothing proves nothing.\<close>

definition assert_A6 :: "json option \<Rightarrow> tensors \<Rightarrow> split \<Rightarrow> int \<Rightarrow> bool res" where
  "assert_A6 block ts sp tp =
     res_bind (block_dims block) (\<lambda>blk.
     res_bind (res_seq (map (\<lambda>(n, t). grid_check ts blk n t) (sort_key fst ts))) (\<lambda>grid.
     res_bind (res_seq (map (\<lambda>(n, t). slice_check blk tp n t) (sort_key fst ts))) (\<lambda>slices.
     res_bind (py_mod (moe_inter sp) tp) (\<lambda>m.
     res_bind (if m = 0 then divides (fst blk) (moe_inter sp div tp) else returned False) (\<lambda>_.
       returned (Some False \<notin> set slices \<and> Some False \<notin> set grid \<and>
                 list_ex (\<lambda>g. g \<noteq> None) grid \<and> list_ex (\<lambda>v. v \<noteq> None) slices))))))"

section \<open>A7: the schedule\<close>

definition stack_of_key :: "string \<Rightarrow> string" where
  "stack_of_key k = (case cut_last (CHR ''.'') k of None \<Rightarrow> k | Some (s, _) \<Rightarrow> s)"

definition stack_layers :: "(string \<times> kind) list \<Rightarrow> string \<Rightarrow> nat" where
  "stack_layers sched s = length (filter (\<lambda>(k, _). stack_of_key k = s) sched)"

text \<open>\<open>max(xs, key=f)\<close>: the first of the largest.\<close>

fun max_by :: "('a \<Rightarrow> nat) \<Rightarrow> 'a list \<Rightarrow> 'a res" where
  "max_by f [] = raised ValueError"
| "max_by f [x] = returned x"
| "max_by f (x # y # ys) = max_by f ((if f x < f y then y else x) # ys)"

definition derived_kinds :: "(string list \<Rightarrow> string list) \<Rightarrow> (string \<times> kind) list \<Rightarrow> string list res" where
  "derived_kinds iter sched =
     res_bind (max_by (stack_layers sched)
                 (iter (remdups (map (\<lambda>(k, _). stack_of_key k) sched)))) (\<lambda>main_stack.
       res_seq (map (\<lambda>i. case map_of sched (layer_key (main_stack, i)) of
                           None \<Rightarrow> raised KeyError | Some k \<Rightarrow> returned (kind_name k))
                 [0..<stack_layers sched main_stack]))"

text \<open>The index formula, when the config carries an interval.\<close>

definition formula_kinds :: "json option \<Rightarrow> nat \<Rightarrow> string list option res" where
  "formula_kinds interval n =
     (case interval of
        Some v \<Rightarrow>
          if truthy v then
            res_bind (res_seq (map (\<lambda>i. res_bind (py_int v) (\<lambda>k. res_bind (py_mod (int i + 1) k) (\<lambda>m.
                returned (if m = 0 then ''full_attention'' else ''linear_attention'')))) [0..<n]))
              (\<lambda>ks. returned (Some ks))
          else returned None
      | None \<Rightarrow> returned None)"

definition declared_matches :: "json option \<Rightarrow> string list \<Rightarrow> bool res" where
  "declared_matches declared derived =
     (case declared of
        Some d \<Rightarrow> if truthy d
                  then res_bind (py_list d) (\<lambda>xs. returned (list_all2 py_eq (map JStr derived) xs))
                  else returned True
      | None \<Rightarrow> returned True)"

definition assert_A7 ::
  "(string list \<Rightarrow> string list) \<Rightarrow> config \<Rightarrow> (string \<times> kind) list \<Rightarrow> bool res" where
  "assert_A7 iter cfg sched =
     res_bind (derived_kinds iter sched) (\<lambda>derived.
     res_bind (formula_kinds (map_of cfg ''full_attention_interval'') (length derived)) (\<lambda>formula.
     res_bind (declared_matches (map_of cfg ''layer_types'') derived) (\<lambda>declared_ok.
       returned (declared_ok \<and> (formula = None \<or> formula = Some derived) \<and>
                 ''full_attention'' \<in> set derived \<and> ''linear_attention'' \<in> set derived))))"

section \<open>A8 and the sharding block\<close>

definition assert_A8 :: "string option \<Rightarrow> string \<Rightarrow> bool" where
  "assert_A8 peer_digest local_digest = (peer_digest = Some local_digest)"

text \<open>\<open>--tensor-parallel-size\s+(\d+)\<close>, searched from the left.\<close>

definition tp_at :: "string \<Rightarrow> nat option" where
  "tp_at s =
     Option.bind (after_prefix ''--tensor-parallel-size'' s) (\<lambda>r.
       let sp = takeWhile py_space r; ds = takeWhile py_digit (dropWhile py_space r)
       in if sp \<noteq> [] \<and> ds \<noteq> [] then Some (int_of_digits ds) else None)"

fun search_tp :: "string \<Rightarrow> nat option" where
  "search_tp [] = None"
| "search_tp (c # cs) = (case tp_at (c # cs) of Some n \<Rightarrow> Some n | None \<Rightarrow> search_tp cs)"

definition selection_flags :: "string \<Rightarrow> string list" where
  "selection_flags argv_text =
     filter (contains_str argv_text) [''--enable-expert-parallel'', ''--enable-eplb'']"

definition assert_S1 :: "string list \<Rightarrow> int \<Rightarrow> bool" where
  "assert_S1 serve_argv tp =
     (let argv_text = join '' '' serve_argv
      in selection_flags argv_text \<noteq> [] \<and>
         (case search_tp argv_text of None \<Rightarrow> False | Some n \<Rightarrow> int n = tp))"

text \<open>How many tensors of a stack each rank owns.\<close>

definition tensors_per_rank :: "shard_plan \<Rightarrow> int \<Rightarrow> string \<Rightarrow> nat list" where
  "tensors_per_rank plan tp s =
     map (\<lambda>r. length (filter (\<lambda>n. map_option fst (is_expert n) = Some s) (owned plan ! r)))
       [0..<nat tp]"

definition assert_S2 :: "(string \<times> nat list) list \<Rightarrow> shard_plan \<Rightarrow> int \<Rightarrow> bool" where
  "assert_S2 stacks plan tp \<longleftrightarrow>
     2 \<le> length stacks \<and>
     list_all (\<lambda>(s, ids).
       list_all (\<lambda>c. 0 < c) (tensors_per_rank plan tp s) \<and>
       length (remdups (tensors_per_rank plan tp s)) = 1) stacks"

definition assert_S3 :: "shard_plan \<Rightarrow> int \<Rightarrow> string list \<Rightarrow> bool res" where
  "assert_S3 plan tp digests =
     (if owned plan = [] then raised IndexError
      else let union = remdups (concat (owned plan));
               overlap = filter (\<lambda>n. list_all (\<lambda>o'. n \<in> set o') (tl (owned plan)))
                           (remdups (hd (owned plan)))
           in returned (int (length (remdups digests)) = tp \<and> overlap = [] \<and>
                        length union = sum_list (map length (owned plan))))"

definition GIB :: int where
  "GIB = 1073741824"

text \<open>\<open>round(x, 3)\<close>: the nearest double to the nearest multiple of a thousandth.\<close>

fun round3 :: "pyfloat \<Rightarrow> pyfloat" where
  "round3 (Fin x) = fl64 (of_int (round_half_even (x * 1000)) / 1000)"
| "round3 x = x"

definition bytes_of :: "tensors \<Rightarrow> string list \<Rightarrow> int" where
  "bytes_of ts names =
     sum_list (map (\<lambda>n. case map_of ts n of None \<Rightarrow> 0 | Some t \<Rightarrow> nbytes t) names)"

definition per_rank_bytes :: "tensors \<Rightarrow> shard_plan \<Rightarrow> int \<Rightarrow> int" where
  "per_rank_bytes ts plan tp =
     bytes_of ts (concat (owned plan)) div tp + bytes_of ts (replicated plan)"

definition predicted_gib :: "tensors \<Rightarrow> shard_plan \<Rightarrow> int \<Rightarrow> int \<Rightarrow> pyfloat res" where
  "predicted_gib ts plan tp kv_bytes =
     res_bind (int_div (per_rank_bytes ts plan tp + kv_bytes) GIB) (\<lambda>x. returned (round3 x))"

definition assert_S4 :: "pyfloat \<Rightarrow> pyfloat \<Rightarrow> bool" where
  "assert_S4 predicted bound_gib = fle predicted bound_gib"

section \<open>The run\<close>

record summary =
  sum_digest :: string
  sum_shard_digests :: "string list"
  sum_predicted :: pyfloat
  sum_routed :: int
  sum_top_k :: int

definition run_assertions ::
  "(json \<Rightarrow> string) \<Rightarrow> (string \<Rightarrow> string) \<Rightarrow> (string list \<Rightarrow> string list) \<Rightarrow>
   config \<Rightarrow> tensors \<Rightarrow> int \<Rightarrow> string list \<Rightarrow> string option \<Rightarrow> pyfloat \<Rightarrow> int \<Rightarrow> (check list \<times> summary) res"
where
  "run_assertions dumps sha256 iter cfg ts tp serve_argv peer_digest bound_gib kv_bytes =
     res_bind (case map_of cfg ''_quantization_config'' of None \<Rightarrow> raised KeyError
               | Some q \<Rightarrow> dget q ''weight_block_size'') (\<lambda>block.
     let stacks = expert_stacks ts in
     res_bind (schedule_from_tensor_presence ts) (\<lambda>sched.
     res_bind (read_split cfg) (\<lambda>sp.
     res_bind (assert_A1 sp tp) (\<lambda>a1.
     res_bind (assert_A2 block ts sp tp) (\<lambda>a2.
     res_bind (assert_A3 cfg sp tp) (\<lambda>a3.
     res_bind (assert_A4 cfg ts sp tp) (\<lambda>a4.
     res_bind (assert_A5 sp tp) (\<lambda>a5.
     res_bind (assert_A6 block ts sp tp) (\<lambda>a6.
     res_bind (assert_A7 iter cfg sched) (\<lambda>a7.
     let local_digest = guard_inputs_digest dumps sha256 cfg ts sched tp;
         a8 = assert_A8 peer_digest local_digest in
     res_bind (make_shard_plan ts stacks tp) (\<lambda>plan.
     let s1 = assert_S1 serve_argv tp; s2 = assert_S2 stacks plan tp in
     res_bind (res_seq (map (\<lambda>o'. shard_digest sha256 o' ts) (owned plan))) (\<lambda>digests.
     res_bind (assert_S3 plan tp digests) (\<lambda>s3.
     res_bind (predicted_gib ts plan tp kv_bytes) (\<lambda>predicted.
       returned
         ([(''A1-moe-routed-expert-parity'', a1), (''A2-moe-shared-expert-policy'', a2),
           (''A3-qsa-head-parity'', a3), (''A4-qsa-gqa-group-integrity'', a4),
           (''A5-gdn-head-parity'', a5), (''A6-fp8-block-alignment'', a6),
           (''A7-gate-schedule-from-tensors'', a7), (''A8-rank-derivation-parity'', a8),
           (''S1-selection-time-sharding'', s1), (''S2-both-moe-paths-sharded'', s2),
           (''S3-distinct-shard-checksums'', s3),
           (''S4-predicted-rank-residency'', assert_S4 predicted bound_gib)],
          \<lparr>sum_digest = local_digest, sum_shard_digests = digests, sum_predicted = predicted,
            sum_routed = n_routed sp, sum_top_k = top_k sp\<rparr>)))))))))))))))"

text \<open>
  The answer of the twin: \<open>None\<close> when \<open>ssh\<close> could not be run or timed out, otherwise its exit
  status and output, of which the last line counts.
\<close>

definition peer_digest_over_ssh :: "(int \<times> string) option \<Rightarrow> string option" where
  "peer_digest_over_ssh proc =
     (case proc of None \<Rightarrow> None
      | Some (returncode, stdout) \<Rightarrow>
          if returncode \<noteq> 0 then None
          else let out = splitlines (strip stdout)
               in if out = [] then None else Some (strip (last out)))"

record guard_args =
  arg_tp :: int
  arg_serve_argv :: string
  arg_peer :: string
  arg_no_peer :: bool
  arg_bound_gib :: pyfloat
  arg_kv_bytes :: int
  arg_digest_only :: bool

text \<open>What a run leaves: the printed digest of \<open>--digest-only\<close>, or the report.\<close>

datatype guard_output = Digest string | Report "check list" summary

definition guards_main ::
  "(json \<Rightarrow> string) \<Rightarrow> (string \<Rightarrow> string) \<Rightarrow> (string list \<Rightarrow> string list) \<Rightarrow> (string \<Rightarrow> (int \<times> string) option) \<Rightarrow>
   config res \<Rightarrow> tensors res \<Rightarrow> guard_args \<Rightarrow> (int \<times> guard_output) res"
where
  "guards_main dumps sha256 iter ssh config headers args =
     res_bind config (\<lambda>cfg. res_bind headers (\<lambda>ts.
       if arg_digest_only args then
         res_bind (schedule_from_tensor_presence ts) (\<lambda>sched.
           returned (0, Digest (guard_inputs_digest dumps sha256 cfg ts sched (arg_tp args))))
       else
         let peer = (if \<not> arg_no_peer args \<and> arg_peer args \<noteq> []
                     then peer_digest_over_ssh (ssh (arg_peer args)) else None)
         in res_bind (run_assertions dumps sha256 iter cfg ts (arg_tp args)
              (split_ws (arg_serve_argv args)) peer (arg_bound_gib args) (arg_kv_bytes args))
            (\<lambda>(results, summary).
               let failed = filter (\<lambda>(i, ok). \<not> ok) results
               in returned (if failed \<noteq> [] then 1 else 0, Report results summary))))"

text \<open>\<open>__main__\<close>: a guard failure exits 1, and so does any other exception.\<close>

definition guards_status :: "(int \<times> guard_output) res \<Rightarrow> int" where
  "guards_status r = (case r of Inl _ \<Rightarrow> 1 | Inr (status, _) \<Rightarrow> status)"

section \<open>What a check means\<close>

lemma and_then_True [simp]: "and_then a b = Inr True \<longleftrightarrow> a = Inr True \<and> b = Inr True"
  by (cases a) (auto simp: and_then_def)

lemma divides_True [simp]: "divides b a = Inr True \<longleftrightarrow> b \<noteq> 0 \<and> a mod b = 0"
  by (auto simp: divides_def py_mod_def)

lemma py_div_Inr [simp]: "py_div a b = Inr q \<longleftrightarrow> b \<noteq> 0 \<and> q = a div b"
  by (auto simp: py_div_def)

lemma py_mod_Inr [simp]: "py_mod a b = Inr q \<longleftrightarrow> b \<noteq> 0 \<and> q = a mod b"
  by (auto simp: py_mod_def)

lemma gqa_ok_iff:
  assumes "0 < tp" "0 < kv" "0 < heads"
  shows "gqa_ok heads kv tp = returned True \<longleftrightarrow> kv mod tp = 0 \<and> heads mod kv = 0"
proof
  assume "kv mod tp = 0 \<and> heads mod kv = 0"
  then obtain m g where m: "kv = tp * m" and g: "heads = kv * g" by (auto elim!: dvdE simp: mod_0_imp_dvd)
  then have "0 < m" using assms zero_less_mult_pos by auto
  moreover have "heads div tp = m * g" "kv div tp = m" using assms(1) by (simp_all add: m g mult.assoc)
  ultimately show "gqa_ok heads kv tp = returned True"
    using assms \<open>kv mod tp = 0 \<and> heads mod kv = 0\<close> by (auto simp: gqa_ok_def res_bind_Inr_iff)
qed (simp add: gqa_ok_def)

text \<open>
  When the group check passes, no group straddles a rank boundary: the rank of every query head
  (ranks take consecutive heads) is the rank of the key/value head it attends with.
\<close>

theorem gqa_no_straddle:
  assumes "gqa_ok heads kv tp = returned True" "0 < tp" "0 < kv" "0 \<le> h" "h < heads"
  shows "h div (heads div tp) = (h div (heads div kv)) div (kv div tp)"
proof -
  have "kv mod tp = 0 \<and> heads mod kv = 0" using gqa_ok_iff assms by auto
  then obtain m g where m: "kv = tp * m" and g: "heads = kv * g" by (auto elim!: dvdE simp: mod_0_imp_dvd)
  have "0 < m" "0 < g"
    using assms(2-5) zero_less_mult_pos [of tp m] zero_less_mult_pos [of kv g] by (auto simp: m g)
  then have "heads div tp = g * m" "heads div kv = g" "kv div tp = m"
    using assms(2,3) by (simp_all add: m g ac_simps)
  then show ?thesis using \<open>0 < m\<close> by (simp add: zdiv_zmult2_eq)
qed

theorem gqa_no_straddle_witness: "(5 :: int) div (16 div 2) = (5 div (16 div 4)) div (4 div 2)"
proof (rule gqa_no_straddle)
  show "gqa_ok 16 4 2 = returned True" by code_simp
qed simp_all

lemma in_grid_check:
  assumes "assert_A6 block ts sp tp = returned True" "block_dims block = returned blk" "(n, t) \<in> set ts"
  shows "grid_check ts blk n t = returned None \<or> grid_check ts blk n t = returned (Some True)"
    and "slice_check blk tp n t = returned None \<or> slice_check blk tp n t = returned (Some True)"
proof -
  obtain grid slices where
    g: "res_seq (map (\<lambda>(n, t). grid_check ts blk n t) (sort_key fst ts)) = Inr grid" and
    s: "res_seq (map (\<lambda>(n, t). slice_check blk tp n t) (sort_key fst ts)) = Inr slices" and
    ok: "Some False \<notin> set grid" "Some False \<notin> set slices"
    using assms(1,2) unfolding assert_A6_def by (auto simp: res_bind_Inr_iff)
  have "grid_check ts blk n t \<in> set (map Inr grid)"
    unfolding g [unfolded res_seq_Inr, symmetric] using assms(3) by force
  then show "grid_check ts blk n t = returned None \<or> grid_check ts blk n t = returned (Some True)"
    using ok(1) by (auto simp: image_iff) (metis (full_types) not_None_eq)
  have "slice_check blk tp n t \<in> set (map Inr slices)"
    unfolding s [unfolded res_seq_Inr, symmetric] using assms(3) by force
  then show "slice_check blk tp n t = returned None \<or> slice_check blk tp n t = returned (Some True)"
    using ok(2) by (auto simp: image_iff) (metis (full_types) not_None_eq)
qed

text \<open>
  When the alignment check passes, every sliced tensor splits evenly and every slice boundary
  of an FP8 tensor is a multiple of its block size.
\<close>

theorem slices_on_block_edges:
  assumes "assert_A6 block ts sp tp = returned True" "block_dims block = returned blk"
    and "(n, t) \<in> set ts" "sliced_dim blk n t = Some (d, b)"
  shows "d mod tp = 0 \<and> (fp8 (dtype t) \<longrightarrow> (r * (d div tp)) mod b = 0)"
proof -
  have "slice_check blk tp n t = returned (Some True)"
    using in_grid_check(2) [OF assms(1-3)] assms(4)
    by (auto simp: slice_check_def res_bind_Inr_iff split: if_splits)
  then have "d mod tp = 0" "fp8 (dtype t) \<longrightarrow> (d div tp) mod b = 0"
    using assms(4) by (auto simp: slice_check_def res_bind_Inr_iff split: if_splits)
  then show ?thesis by (metis dvd_imp_mod_0 dvd_mult mod_0_imp_dvd)
qed

text \<open>
  When the alignment check passes, the declared block size is the grid of the scales: a
  two-dimensional FP8 weight that has a scale tensor has one scale per started block.
\<close>

theorem scales_match_grid:
  assumes "assert_A6 block ts sp tp = returned True" "block_dims block = returned blk"
    and "(n, t) \<in> set ts" "fp8 (dtype t)" "shape t = [d0, d1]"
    and "map_of ts (replace_str n ''.weight'' ''.weight_scale_inv'') = Some scale"
  shows "shape scale = [- (- d0 div fst blk), - (- d1 div snd blk)]"
  using in_grid_check(1) [OF assms(1-3)] assms(4-6)
  by (auto simp: grid_check_def ceil_div_def res_bind_Inr_iff)

section \<open>A passing run\<close>

lemma run_assertions_pass:
  assumes "run_assertions dumps sha256 iter cfg ts tp argv peer bound kv = returned (results, summ)"
    and "list_all snd results"
  shows "\<exists>block sched sp plan digests predicted.
    schedule_from_tensor_presence ts = returned sched \<and> read_split cfg = returned sp \<and>
    assert_A1 sp tp = returned True \<and> assert_A2 block ts sp tp = returned True \<and>
    assert_A3 cfg sp tp = returned True \<and> assert_A4 cfg ts sp tp = returned True \<and>
    assert_A5 sp tp = returned True \<and> assert_A6 block ts sp tp = returned True \<and>
    assert_A7 iter cfg sched = returned True \<and>
    peer = Some (guard_inputs_digest dumps sha256 cfg ts sched tp) \<and>
    make_shard_plan ts (expert_stacks ts) tp = returned plan \<and> assert_S1 argv tp \<and>
    assert_S2 (expert_stacks ts) plan tp \<and> assert_S3 plan tp digests = returned True \<and>
    predicted_gib ts plan tp kv = returned predicted \<and> fle predicted bound"
proof -
  from assms(1) obtain block sched sp a1 a2 a3 a4 a5 a6 a7 plan digests s3 predicted where
    r: "schedule_from_tensor_presence ts = Inr sched" "read_split cfg = Inr sp"
      "assert_A1 sp tp = Inr a1" "assert_A2 block ts sp tp = Inr a2" "assert_A3 cfg sp tp = Inr a3"
      "assert_A4 cfg ts sp tp = Inr a4" "assert_A5 sp tp = Inr a5" "assert_A6 block ts sp tp = Inr a6"
      "assert_A7 iter cfg sched = Inr a7" "make_shard_plan ts (expert_stacks ts) tp = Inr plan"
      "assert_S3 plan tp digests = Inr s3" "predicted_gib ts plan tp kv = Inr predicted"
    and results: "results =
      [(''A1-moe-routed-expert-parity'', a1), (''A2-moe-shared-expert-policy'', a2),
       (''A3-qsa-head-parity'', a3), (''A4-qsa-gqa-group-integrity'', a4),
       (''A5-gdn-head-parity'', a5), (''A6-fp8-block-alignment'', a6),
       (''A7-gate-schedule-from-tensors'', a7),
       (''A8-rank-derivation-parity'', assert_A8 peer (guard_inputs_digest dumps sha256 cfg ts sched tp)),
       (''S1-selection-time-sharding'', assert_S1 argv tp),
       (''S2-both-moe-paths-sharded'', assert_S2 (expert_stacks ts) plan tp),
       (''S3-distinct-shard-checksums'', s3),
       (''S4-predicted-rank-residency'', assert_S4 predicted bound)]"
    by (auto simp: run_assertions_def res_bind_Inr_iff Let_def)
  have t: "a1 = True" "a2 = True" "a3 = True" "a4 = True" "a5 = True" "a6 = True" "a7 = True" "s3 = True"
    and u: "assert_S1 argv tp" "assert_S2 (expert_stacks ts) plan tp"
    "assert_S4 predicted bound" "assert_A8 peer (guard_inputs_digest dumps sha256 cfg ts sched tp)"
    using assms(2) by (simp_all add: results)
  then show ?thesis
    using r [unfolded t] u unfolding assert_A8_def assert_S4_def by blast
qed

lemma guards_status_zero:
  "guards_status (guards_main dumps sha256 iter ssh config headers args) = 0 \<Longrightarrow> \<not> arg_digest_only args \<Longrightarrow>
   \<exists>cfg ts results summ. config = returned cfg \<and> headers = returned ts \<and> list_all snd results \<and>
     run_assertions dumps sha256 iter cfg ts (arg_tp args) (split_ws (arg_serve_argv args))
       (if \<not> arg_no_peer args \<and> arg_peer args \<noteq> []
        then peer_digest_over_ssh (ssh (arg_peer args)) else None)
       (arg_bound_gib args) (arg_kv_bytes args) = returned (results, summ)"
  by (auto simp: guards_status_def guards_main_def res_bind_Inr_iff Let_def filter_empty_conv
      list_all_iff split: sum.splits if_splits prod.splits)

lemma length_remdups_eq: "length (remdups xs) = length xs \<longleftrightarrow> distinct xs"
  using distinct_remdups_id [of xs] by (metis distinct_remdups length_remdups_eq)

lemma one_value: "length (remdups xs) = 1 \<Longrightarrow> \<exists>c. xs = replicate (length xs) c"
proof -
  assume "length (remdups xs) = 1"
  then obtain c where "remdups xs = [c]" by (auto simp: length_Suc_conv)
  then have "set xs = {c}" by (metis empty_set list.simps(15) set_remdups)
  then show ?thesis by (metis replicate_length_same singletonD)
qed

lemma place_tensors_owned_nil:
  "place_tensors stacks tp ns plan = returned plan' \<Longrightarrow> owned plan = [] \<Longrightarrow> owned plan' = []"
  by (induction stacks tp ns plan rule: place_tensors.induct)
    (auto simp: place_tensor_def append_at_def res_bind_Inr_iff Let_def
      split: if_splits option.splits prod.splits)

text \<open>What each of the checks establishes once it is true.\<close>

lemma S3_disjoint: "assert_S3 plan tp digests = returned True \<Longrightarrow> distinct (concat (owned plan))"
  by (auto simp: assert_S3_def Let_def length_concat [symmetric] length_remdups_eq split: if_splits)

lemma S3_ranks:
  assumes "assert_S3 plan tp digests = returned True" and "make_shard_plan ts (expert_stacks ts) tp = returned plan"
  shows "0 < tp"
proof (rule ccontr)
  assume "\<not> 0 < tp"
  then have "owned plan = []"
    using assms(2) place_tensors_owned_nil by (fastforce simp: make_shard_plan_def res_bind_Inr_iff)
  with assms(1) show False by (auto simp: assert_S3_def Let_def split: if_splits)
qed

lemma S2_even:
  assumes "assert_S2 stacks plan tp" and s: "s \<in> fst ` set stacks" and tp: "0 < tp"
  shows "\<exists>c>0. tensors_per_rank plan tp s = replicate (nat tp) c"
proof -
  obtain ids where "(s, ids) \<in> set stacks" using s by auto
  then have pos: "list_all (\<lambda>c. 0 < c) (tensors_per_rank plan tp s)"
    and one: "length (remdups (tensors_per_rank plan tp s)) = 1"
    using assms(1) by (auto simp: assert_S2_def list_all_iff)
  have len: "length (tensors_per_rank plan tp s) = nat tp" by (simp add: tensors_per_rank_def)
  obtain c where c: "tensors_per_rank plan tp s = replicate (nat tp) c"
    using one_value [OF one] len by auto
  with pos tp have "0 < c" by (auto simp: list_all_iff)
  with c show ?thesis by blast
qed

lemma A2_shared:
  assumes "assert_A2 block ts sp tp = returned True"
  shows "set (moe_layers ts) \<subseteq> set (shared_layers ts)"
proof -
  have "missing_shared ts = []" using assms by (auto simp: assert_A2_def res_bind_Inr_iff)
  then have "filter (\<lambda>k. k \<notin> set (shared_layers ts)) (moe_layers ts) = []"
    by (metis missing_shared_def set_empty set_sort)
  then show ?thesis by (auto simp: filter_empty_conv)
qed

text \<open>
  C2: The gate exits 0 (outside \<open>--digest-only\<close>) only for a split that is sound: the config and
  the headers were read, the twin answered with exactly the local digest, the split factor is
  positive and divides the routed experts, every MoE layer carries its shared expert, there are at
  least two MoE stacks and each spreads the same positive number of tensors over every rank, no
  tensor is owned twice, the serve argv asks for this factor with a selection-time flag, and the
  predicted residency is within the bound.
\<close>

theorem guards_pass_sound:
  assumes "guards_status (guards_main dumps sha256 iter ssh config headers args) = 0"
    and "\<not> arg_digest_only args"
  shows "\<exists>cfg ts sched sp plan predicted.
    config = returned cfg \<and> headers = returned ts \<and>
    schedule_from_tensor_presence ts = returned sched \<and> read_split cfg = returned sp \<and>
    make_shard_plan ts (expert_stacks ts) (arg_tp args) = returned plan \<and>
    0 < arg_tp args \<and> n_routed sp mod arg_tp args = 0 \<and>
    \<not> arg_no_peer args \<and>
    peer_digest_over_ssh (ssh (arg_peer args)) =
      Some (guard_inputs_digest dumps sha256 cfg ts sched (arg_tp args)) \<and>
    set (moe_layers ts) \<subseteq> set (shared_layers ts) \<and>
    2 \<le> length (expert_stacks ts) \<and>
    (\<forall>s \<in> fst ` set (expert_stacks ts).
       \<exists>c>0. tensors_per_rank plan (arg_tp args) s = replicate (nat (arg_tp args)) c) \<and>
    distinct (concat (owned plan)) \<and>
    search_tp (join '' '' (split_ws (arg_serve_argv args))) = Some (nat (arg_tp args)) \<and>
    selection_flags (join '' '' (split_ws (arg_serve_argv args))) \<noteq> [] \<and>
    predicted_gib ts plan (arg_tp args) (arg_kv_bytes args) = returned predicted \<and>
    fle predicted (arg_bound_gib args)"
proof -
  define tp where "tp = arg_tp args"
  define argv where "argv = split_ws (arg_serve_argv args)"
  obtain cfg ts results summ where io: "config = returned cfg" "headers = returned ts"
    and run: "list_all snd results" "run_assertions dumps sha256 iter cfg ts tp argv
       (if \<not> arg_no_peer args \<and> arg_peer args \<noteq> []
        then peer_digest_over_ssh (ssh (arg_peer args)) else None)
       (arg_bound_gib args) (arg_kv_bytes args) = returned (results, summ)"
    using guards_status_zero [OF assms] unfolding tp_def argv_def by blast
  from run_assertions_pass [OF run(2,1)] obtain block sched sp plan digests predicted where
    p: "schedule_from_tensor_presence ts = returned sched" "read_split cfg = returned sp"
      "assert_A1 sp tp = returned True" "assert_A2 block ts sp tp = returned True"
      "make_shard_plan ts (expert_stacks ts) tp = returned plan" "assert_S1 argv tp"
      "assert_S2 (expert_stacks ts) plan tp" "assert_S3 plan tp digests = returned True"
      "predicted_gib ts plan tp (arg_kv_bytes args) = returned predicted" "fle predicted (arg_bound_gib args)"
    and peer: "(if \<not> arg_no_peer args \<and> arg_peer args \<noteq> []
        then peer_digest_over_ssh (ssh (arg_peer args)) else None) =
        Some (guard_inputs_digest dumps sha256 cfg ts sched tp)"
    by blast
  note tp = S3_ranks [OF p(8,5)]
  have "distinct (concat (owned plan))" by (rule S3_disjoint [OF p(8)])
  moreover have "\<exists>c>0. tensors_per_rank plan tp s = replicate (nat tp) c"
    if "s \<in> fst ` set (expert_stacks ts)" for s
    by (rule S2_even [OF p(7) that tp])
  moreover have "n_routed sp mod tp = 0" using p(3) by (auto simp: assert_A1_def res_bind_Inr_iff)
  moreover have "set (moe_layers ts) \<subseteq> set (shared_layers ts)" by (rule A2_shared [OF p(4)])
  moreover have "2 \<le> length (expert_stacks ts)" using p(7) by (simp add: assert_S2_def)
  moreover have "search_tp (join '' '' argv) = Some (nat tp)" "selection_flags (join '' '' argv) \<noteq> []"
    using p(6) by (auto simp: assert_S1_def Let_def split: option.splits)
  moreover have "\<not> arg_no_peer args" "peer_digest_over_ssh (ssh (arg_peer args)) =
      Some (guard_inputs_digest dumps sha256 cfg ts sched tp)"
    using peer by (auto split: if_splits)
  ultimately show ?thesis
    unfolding tp_def [symmetric] argv_def [symmetric]
    by (rule_tac exI [of _ cfg], rule_tac exI [of _ ts], rule_tac exI [of _ sched],
        rule_tac exI [of _ sp], rule_tac exI [of _ plan], rule_tac exI [of _ predicted])
      (intro conjI ballI, use io p(1,2,5,9,10) tp in simp_all)
qed

section \<open>The schedule and the formula\<close>

lemma max_by_in: "max_by f xs = returned x \<Longrightarrow> x \<in> set xs"
  by (induction f xs rule: max_by.induct) (auto split: if_splits)

lemma formula_kinds_int:
  assumes "k \<noteq> 0"
  shows "formula_kinds (Some (JInt k)) n =
    Inr (Some (map (\<lambda>i. if (int i + 1) mod k = 0 then ''full_attention'' else ''linear_attention'') [0..<n]))"
proof -
  have "res_seq (map (\<lambda>i. Inr (g i) :: string res) xs) = Inr (map g xs)" for g and xs :: "nat list"
    by (simp add: res_seq_Inr)
  then show ?thesis using assms by (simp add: formula_kinds_def py_mod_def)
qed

text \<open>
  When the schedule check passes against an integer interval, the tensors of the main stack
  follow the index formula: layer \<open>i\<close> carries full attention when the interval divides \<open>i + 1\<close>
  and linear attention otherwise.
\<close>

theorem schedule_follows_formula:
  assumes "schedule_from_tensor_presence ts = returned sched"
    and "assert_A7 iter cfg sched = returned True"
    and "map_of cfg ''full_attention_interval'' = Some (JInt k)" "k \<noteq> 0"
    and "\<And>xs. set (iter xs) = set xs"
  shows "\<exists>main \<in> set (map (\<lambda>(key, _). stack_of_key key) sched). \<forall>i < stack_layers sched main.
    carries ts (main, i) (if (int i + 1) mod k = 0 then Full_attention else Linear_attention)"
proof -
  obtain derived where d: "derived_kinds iter sched = Inr derived"
    and f: "formula_kinds (Some (JInt k)) (length derived) = Inr (Some derived) \<or>
            formula_kinds (Some (JInt k)) (length derived) = Inr None"
    using assms(2,3) by (auto simp: assert_A7_def res_bind_Inr_iff)
  obtain main where m: "max_by (stack_layers sched)
      (iter (remdups (map (\<lambda>(k, _). stack_of_key k) sched))) = Inr main"
    and r: "res_seq (map (\<lambda>i. case map_of sched (layer_key (main, i)) of
        None \<Rightarrow> raised KeyError | Some k \<Rightarrow> returned (kind_name k)) [0..<stack_layers sched main]) = Inr derived"
    using d by (auto simp: derived_kinds_def res_bind_Inr_iff)
  have r': "map (\<lambda>i. case map_of sched (layer_key (main, i)) of
      None \<Rightarrow> raised KeyError | Some k \<Rightarrow> returned (kind_name k)) [0..<stack_layers sched main] =
      map Inr derived"
    using r by (simp add: res_seq_Inr)
  have len: "length derived = stack_layers sched main" using arg_cong [OF r', of length] by simp
  have f': "derived = map (\<lambda>i. if (int i + 1) mod k = 0 then ''full_attention'' else ''linear_attention'')
      [0..<length derived]"
    using f formula_kinds_int [OF assms(4)] by auto
  have "carries ts (main, i) (if (int i + 1) mod k = 0 then Full_attention else Linear_attention)"
    if i: "i < stack_layers sched main" for i
  proof -
    have "(case map_of sched (layer_key (main, i)) of
        None \<Rightarrow> raised KeyError | Some k \<Rightarrow> returned (kind_name k)) = Inr (derived ! i)"
      using arg_cong [OF r', of "\<lambda>l. l ! i"] i len by simp
    then obtain kd where kd: "map_of sched (layer_key (main, i)) = Some kd" "derived ! i = kind_name kd"
      by (auto split: option.splits)
    have "derived ! i = (if (int i + 1) mod k = 0 then ''full_attention'' else ''linear_attention'')"
      using i len by (subst f') simp
    then have "kd = (if (int i + 1) mod k = 0 then Full_attention else Linear_attention)"
      using kd(2) by (cases kd) (auto simp: kind_name_def split: if_splits)
    moreover have "carries ts (main, i) kd"
      using schedule_lookup [OF assms(1)] kd(1) by blast
    ultimately show ?thesis by simp
  qed
  moreover have "main \<in> set (map (\<lambda>(key, _). stack_of_key key) sched)"
    using max_by_in [OF m] assms(5) by auto
  ultimately show ?thesis by blast
qed

section \<open>Residency\<close>

lemma sum_list_replicate: "sum_list (replicate n (x :: int)) = int n * x"
  by (induction n) (auto simp: algebra_simps)

text \<open>
  When every rank owns the same number of expert bytes, the prediction's weights are exactly
  what each rank holds: its own experts and everything that is replicated.
\<close>

theorem residency_exact_when_even:
  assumes "0 < tp" "length (owned plan) = nat tp"
    and "\<And>o'. o' \<in> set (owned plan) \<Longrightarrow> bytes_of ts o' = b"
    and "r < nat tp"
  shows "per_rank_bytes ts plan tp = bytes_of ts (owned plan ! r) + bytes_of ts (replicated plan)"
proof -
  have "bytes_of ts (concat os) = sum_list (map (bytes_of ts) os)" for os
    by (induction os) (auto simp: bytes_of_def)
  moreover have "map (bytes_of ts) (owned plan) = replicate (nat tp) b"
    using assms(2,3) by (intro nth_equalityI) auto
  ultimately have "bytes_of ts (concat (owned plan)) = tp * b"
    using assms(1) by (simp add: sum_list_replicate)
  moreover have "bytes_of ts (owned plan ! r) = b" using assms(2-4) by simp
  ultimately show ?thesis using assms(1) by (simp add: per_rank_bytes_def)
qed

theorem residency_exact_when_even_witness:
  "per_rank_bytes demo_tensors demo_plan 2 =
     bytes_of demo_tensors (owned demo_plan ! 1) + bytes_of demo_tensors (replicated demo_plan)"
proof (rule residency_exact_when_even)
  show "bytes_of demo_tensors o' = 2" if "o' \<in> set (owned demo_plan)" for o'
    using that by (auto simp: demo_plan_def bytes_of_def demo_tensors_def demo_tensor_def)
qed (simp_all add: demo_plan_def)

lemma append_at_length: "append_at xs i x = returned ys \<Longrightarrow> length ys = length xs"
  by (auto simp: append_at_def Let_def split: if_splits)

lemma place_tensors_length:
  "place_tensors stacks tp ns plan = returned plan' \<Longrightarrow> length (owned plan') = length (owned plan)"
proof (induction ns arbitrary: plan)
  case (Cons n ns)
  then obtain plan1 where "place_tensor stacks tp n plan = returned plan1" "place_tensors stacks tp ns plan1 = returned plan'"
    by (auto simp: res_bind_Inr_iff)
  then show ?case using Cons.IH [of plan1]
    by (auto simp: place_tensor_def res_bind_Inr_iff Let_def append_at_length split: if_splits option.splits prod.splits)
qed simp

lemma shard_plan_length: "make_shard_plan ts stacks tp = returned plan \<Longrightarrow> length (owned plan) = nat tp"
  using place_tensors_length by (fastforce simp: make_shard_plan_def res_bind_Inr_iff)

text \<open>What rank \<open>r\<close> holds of the weights: the experts it owns and everything that is replicated.\<close>

definition held_bytes :: "tensors \<Rightarrow> shard_plan \<Rightarrow> nat \<Rightarrow> int" where
  "held_bytes ts plan r = bytes_of ts (owned plan ! r) + bytes_of ts (replicated plan)"

lemma bytes_of_concat: "bytes_of ts (concat os) = sum_list (map (bytes_of ts) os)"
  by (induction os) (auto simp: bytes_of_def)

lemma sum_below_max:
  fixes xs :: "int list"
  assumes "\<forall>x \<in> set xs. x \<le> m" "y \<in> set xs" "y < m"
  shows "sum_list xs < int (length xs) * m"
  using assms
proof (induction xs)
  case (Cons x xs)
  have le: "sum_list xs \<le> int (length xs) * m" if "\<forall>x \<in> set xs. x \<le> m" for xs
    using that by (induction xs) (auto simp: algebra_simps)
  show ?case
  proof (cases "y \<in> set xs")
    case True
    then show ?thesis using Cons by (simp add: algebra_simps add_le_less_mono)
  next
    case False
    then show ?thesis using Cons.prems le [of xs] by (simp add: algebra_simps add_less_le_mono)
  qed
qed simp

text \<open>
  C40: The predicted weights of a rank are an average, rounded down: of the plan that the guard makes, some
  rank holds more than is predicted exactly when the ranks own different amounts of expert bytes. The
  sharding check S2 compares counts of tensors, so it does not exclude that: the guard may let a
  checkpoint pass whose heavier rank exceeds what it predicted.
\<close>

theorem residency_underpredicts_iff:
  assumes "make_shard_plan ts stacks tp = returned plan" and "0 < tp"
  shows "(\<exists>r < nat tp. per_rank_bytes ts plan tp < held_bytes ts plan r) \<longleftrightarrow>
    (\<exists>r < nat tp. \<exists>q < nat tp. bytes_of ts (owned plan ! r) \<noteq> bytes_of ts (owned plan ! q))"
proof
  let ?xs = "map (bytes_of ts) (owned plan)"
  have len: "length (owned plan) = nat tp" by (rule shard_plan_length [OF assms(1)])
  assume "\<exists>r < nat tp. \<exists>q < nat tp. bytes_of ts (owned plan ! r) \<noteq> bytes_of ts (owned plan ! q)"
  then obtain r q where rq: "r < nat tp" "q < nat tp" "?xs ! r \<noteq> ?xs ! q" using len by auto
  have ne: "set ?xs \<noteq> {}" using rq(1) len by auto
  define m where "m = Max (set ?xs)"
  have max: "\<forall>x \<in> set ?xs. x \<le> m" by (simp add: m_def)
  have "?xs ! r \<in> set ?xs" "?xs ! q \<in> set ?xs" by (rule nth_mem, use rq len in simp)+
  then obtain y where y: "y \<in> set ?xs" "y < m" using max rq(3) by (metis order_le_imp_less_or_eq)
  have "sum_list ?xs < tp * m" using sum_below_max [OF max y] len assms(2) by simp
  moreover have "tp * (sum_list ?xs div tp) \<le> sum_list ?xs"
    using assms(2) by (simp flip: minus_mod_eq_mult_div)
  ultimately have "tp * (sum_list ?xs div tp) < tp * m" by linarith
  then have "sum_list ?xs div tp < m" using assms(2) by (simp only: mult_less_cancel_left_pos)
  moreover have "m \<in> set ?xs" unfolding m_def by (rule Max_in) (use ne in simp_all)
  then obtain j where "j < nat tp" "bytes_of ts (owned plan ! j) = m" using len by (auto simp: in_set_conv_nth)
  ultimately show "\<exists>r < nat tp. per_rank_bytes ts plan tp < held_bytes ts plan r"
    by (auto simp: per_rank_bytes_def held_bytes_def bytes_of_concat)
next
  assume "\<exists>r < nat tp. per_rank_bytes ts plan tp < held_bytes ts plan r"
  then obtain r where r: "r < nat tp" "per_rank_bytes ts plan tp < held_bytes ts plan r" by blast
  show "\<exists>r < nat tp. \<exists>q < nat tp. bytes_of ts (owned plan ! r) \<noteq> bytes_of ts (owned plan ! q)"
  proof (rule ccontr)
    assume "\<not> ?thesis"
    then have "bytes_of ts o' = bytes_of ts (owned plan ! r)" if "o' \<in> set (owned plan)" for o'
      using that r(1) shard_plan_length [OF assms(1)] by (metis in_set_conv_nth)
    from residency_exact_when_even [OF assms(2) shard_plan_length [OF assms(1)] this r(1)] r(2)
    show False by (simp add: held_bytes_def)
  qed
qed

text \<open>
  Two stacks whose second expert is larger than the first: the counts per rank agree, so the
  sharding check passes, but the average is less than what rank 1 holds.
\<close>

definition uneven_tensors :: tensors where
  "uneven_tensors =
     [(''m.layers.0.mlp.experts.0.up.weight'', demo_tensor 1),
      (''m.layers.0.mlp.experts.1.up.weight'', demo_tensor 9),
      (''t.layers.0.mlp.experts.0.up.weight'', demo_tensor 1),
      (''t.layers.0.mlp.experts.1.up.weight'', demo_tensor 9)]"

definition uneven_plan :: shard_plan where
  "uneven_plan =
     \<lparr>owned = [[''m.layers.0.mlp.experts.0.up.weight'', ''t.layers.0.mlp.experts.0.up.weight''],
               [''m.layers.0.mlp.experts.1.up.weight'', ''t.layers.0.mlp.experts.1.up.weight'']],
      replicated = [], table = [], experts_per_rank = 1\<rparr>"

theorem residency_underpredicts_iff_witness:
  "assert_S2 (expert_stacks uneven_tensors) uneven_plan 2 \<and>
   (\<exists>r < nat 2. per_rank_bytes uneven_tensors uneven_plan 2 < held_bytes uneven_tensors uneven_plan r)"
proof
  show "assert_S2 (expert_stacks uneven_tensors) uneven_plan 2" by code_simp
  have plan: "make_shard_plan uneven_tensors (expert_stacks uneven_tensors) 2 = returned uneven_plan" by code_simp
  have differ: "bytes_of uneven_tensors (owned uneven_plan ! 0) \<noteq> bytes_of uneven_tensors (owned uneven_plan ! 1)" by code_simp
  show "\<exists>r < nat 2. per_rank_bytes uneven_tensors uneven_plan 2 < held_bytes uneven_tensors uneven_plan r"
    unfolding residency_underpredicts_iff [OF plan zero_less_numeral]
    by (rule exI [of _ 0], rule conjI, simp, rule exI [of _ 1], rule conjI, simp, rule differ)
qed

section \<open>A checkpoint that passes\<close>

definition weight :: "string \<Rightarrow> int list \<Rightarrow> tensor" where
  "weight dt dims = \<lparr>nbytes = 4, dtype = dt, shape = dims\<rparr>"

definition pass_tensors :: tensors where
  "pass_tensors =
     [(''m.layers.0.linear_attn.out_proj.weight'', weight ''F8_E4M3'' [8, 8]),
      (''m.layers.0.linear_attn.out_proj.weight_scale_inv'', weight ''F32'' [2, 2]),
      (''m.layers.1.self_attn.indexer.index_qk_proj.weight'', weight ''BF16'' [12, 4]),
      (''m.layers.0.mlp.experts.0.up.weight'', weight ''BF16'' [6, 4]),
      (''m.layers.0.mlp.experts.1.up.weight'', weight ''BF16'' [6, 4]),
      (''m.layers.0.mlp.shared_expert.up_proj.weight'', weight ''BF16'' [6, 4]),
      (''t.layers.0.mlp.experts.0.up.weight'', weight ''BF16'' [6, 4]),
      (''t.layers.0.mlp.experts.1.up.weight'', weight ''BF16'' [6, 4]),
      (''t.layers.0.mlp.shared_expert.up_proj.weight'', weight ''BF16'' [6, 4])]"

definition pass_config :: config where
  "pass_config =
     [(''num_experts'', JInt 2), (''num_experts_per_tok'', JInt 1),
      (''num_attention_heads'', JInt 4), (''num_key_value_heads'', JInt 2),
      (''linear_num_key_heads'', JInt 2), (''linear_num_value_heads'', JInt 4),
      (''indexer_n_heads'', JInt 2), (''indexer_kv_heads'', JInt 1), (''indexer_head_dim'', JInt 4),
      (''head_dim'', JInt 4), (''moe_intermediate_size'', JInt 6),
      (''shared_expert_intermediate_size'', JInt 6), (''full_attention_interval'', JInt 2),
      (''_quantization_config'', JObj [(''weight_block_size'', JList [JInt 4, JInt 4])])]"

definition pass_args :: guard_args where
  "pass_args =
     \<lparr>arg_tp = 2, arg_serve_argv = ''serve --enable-expert-parallel --tensor-parallel-size 2'',
      arg_peer = ''twin'', arg_no_peer = False, arg_bound_gib = Fin 80, arg_kv_bytes = 0,
      arg_digest_only = False\<rparr>"

definition pass_split :: split where
  "pass_split = \<lparr>n_routed = 2, top_k = 1, n_heads = 4, n_kv = 2, gdn_k = 2, gdn_v = 4,
     idx_heads = 2, idx_kv = 1, moe_inter = 6, shared_inter = 6\<rparr>"

definition pass_block :: "json option" where
  "pass_block = Some (JList [JInt 4, JInt 4])"

definition pass_plan :: shard_plan where
  "pass_plan =
     \<lparr>owned = [[''m.layers.0.mlp.experts.0.up.weight'', ''t.layers.0.mlp.experts.0.up.weight''],
               [''m.layers.0.mlp.experts.1.up.weight'', ''t.layers.0.mlp.experts.1.up.weight'']],
      replicated =
        [''m.layers.0.linear_attn.out_proj.weight'', ''m.layers.0.linear_attn.out_proj.weight_scale_inv'',
         ''m.layers.0.mlp.shared_expert.up_proj.weight'',
         ''m.layers.1.self_attn.indexer.index_qk_proj.weight'',
         ''t.layers.0.mlp.shared_expert.up_proj.weight''],
      table = [], experts_per_rank = 1\<rparr>"

definition pass_schedule :: "(string \<times> kind) list" where
  "pass_schedule = [(''m.0'', Linear_attention), (''m.1'', Full_attention)]"

lemma pass_split: "read_split pass_config = returned pass_split"
  by code_simp

lemma pass_schedule: "schedule_from_tensor_presence pass_tensors = returned pass_schedule"
  by code_simp

definition pass_stacks :: "(string \<times> nat list) list" where
  "pass_stacks = [(''m'', [0, 1]), (''t'', [0, 1])]"

lemma pass_stacks: "expert_stacks pass_tensors = pass_stacks"
  by code_simp

lemma pass_plan: "make_shard_plan pass_tensors pass_stacks 2 = returned pass_plan"
  by code_simp

lemma pass_block: "(case map_of pass_config ''_quantization_config'' of None \<Rightarrow> raised KeyError
    | Some q \<Rightarrow> dget q ''weight_block_size'') = returned pass_block"
  by code_simp

lemma pass_checks:
  "assert_A1 pass_split 2 = returned True"
  "assert_A2 pass_block pass_tensors pass_split 2 = returned True"
  "assert_A3 pass_config pass_split 2 = returned True"
  "assert_A4 pass_config pass_tensors pass_split 2 = returned True"
  "assert_A5 pass_split 2 = returned True"
  "assert_A6 pass_block pass_tensors pass_split 2 = returned True"
  "assert_A7 id pass_config pass_schedule = returned True"
  by code_simp+

lemma pass_sharding:
  "assert_S1 (split_ws ''serve --enable-expert-parallel --tensor-parallel-size 2'') 2"
  "assert_S2 pass_stacks pass_plan 2"
  "predicted_gib pass_tensors pass_plan 2 0 = returned (Fin 0)"
  by code_simp+

lemma pass_digests:
  "res_seq (map (\<lambda>o'. shard_digest (drop 24) o' pass_tensors) (owned pass_plan)) = returned
     (map (\<lambda>o'. drop 24 (concat (map (\<lambda>n. digest_line n (weight ''BF16'' [6, 4])) o'))) (owned pass_plan))"
  by (simp add: shard_digest_def pass_plan_def pass_tensors_def)

lemma pass_S3:
  "assert_S3 pass_plan 2
     (map (\<lambda>o'. drop 24 (concat (map (\<lambda>n. digest_line n (weight ''BF16'' [6, 4])) o'))) (owned pass_plan))
   = returned True"
  by code_simp

lemma pass_peer: "peer_digest_over_ssh (Some (0, ''d'')) = Some ''d''"
  by code_simp

lemma pass_status:
  "guards_status (guards_main (\<lambda>_. replicate 24 (CHR ''x'') @ ''d'') (drop 24) id (\<lambda>_. Some (0, ''d''))
     (returned pass_config) (returned pass_tensors) pass_args) = 0"
  by (simp add: guards_status_def guards_main_def run_assertions_def pass_args_def pass_block pass_split
      pass_schedule pass_stacks pass_plan pass_checks pass_sharding pass_digests pass_S3 pass_peer
      guard_inputs_digest_def assert_A8_def assert_S4_def fle_def Let_def)

theorem guards_pass_sound_witness:
  "search_tp (join '' '' (split_ws (arg_serve_argv pass_args))) = Some 2"
proof -
  have "\<not> arg_digest_only pass_args" by (simp add: pass_args_def)
  from guards_pass_sound [OF pass_status this] show ?thesis by (auto simp: pass_args_def)
qed

theorem slices_on_block_edges_witness: "(8 :: int) mod 2 = 0 \<and> (1 * (8 div 2)) mod 4 = (0 :: int)"
proof -
  have "block_dims pass_block = returned (4, 4)"
    "(''m.layers.0.linear_attn.out_proj.weight'', weight ''F8_E4M3'' [8, 8]) \<in> set pass_tensors"
    "sliced_dim (4, 4) ''m.layers.0.linear_attn.out_proj.weight'' (weight ''F8_E4M3'' [8, 8]) = Some (8, 4)"
    "fp8 (dtype (weight ''F8_E4M3'' [8, 8]))"
    by code_simp+
  with slices_on_block_edges [OF pass_checks(6) this(1-3), of 1] show ?thesis by simp
qed

theorem scales_match_grid_witness:
  "shape (weight ''F32'' [2, 2]) = [- (- 8 div 4), - (- 8 div 4)]"
proof -
  have "block_dims pass_block = returned (4, 4)"
    "(''m.layers.0.linear_attn.out_proj.weight'', weight ''F8_E4M3'' [8, 8]) \<in> set pass_tensors"
    "fp8 (dtype (weight ''F8_E4M3'' [8, 8]))" "shape (weight ''F8_E4M3'' [8, 8]) = [8, 8]"
    "map_of pass_tensors (replace_str ''m.layers.0.linear_attn.out_proj.weight'' ''.weight'' ''.weight_scale_inv'')
       = Some (weight ''F32'' [2, 2])"
    by code_simp+
  from scales_match_grid [OF pass_checks(6) this] show ?thesis by simp
qed

theorem schedule_follows_formula_witness: "\<exists>main. carries pass_tensors (main, 0) Linear_attention"
proof -
  have "map_of pass_config ''full_attention_interval'' = Some (JInt 2)" by code_simp
  from schedule_follows_formula [OF pass_schedule pass_checks(7) this] obtain main where
    main: "main \<in> set (map (\<lambda>(key, _). stack_of_key key) pass_schedule)"
    and c: "\<forall>i < stack_layers pass_schedule main. carries pass_tensors (main, i)
      (if (int i + 1) mod 2 = 0 then Full_attention else Linear_attention)"
    by auto
  have "stack_of_key ''m.0'' = ''m''" "stack_of_key ''m.1'' = ''m''" by code_simp+
  then have "0 < stack_layers pass_schedule main"
    using main by (auto simp: pass_schedule_def stack_layers_def)
  from c [rule_format, OF this] show ?thesis by auto
qed

end
