(* ===== verification/GuardReport.thy ===== *)
theory GuardReport
  imports Tp2Guards
begin

text \<open>
  The report of \<open>host/fn-tp2-guards.py\<close>: the detail that every check records beside its verdict, the
  run of the checks with their details, and the report that \<open>main\<close> writes with its exit status. The
  fixed sentences of the report are an argument, \<open>prose\<close>, by the name of the check and of the field.
\<close>

type_synonym detailed = "string \<times> bool \<times> json"

section \<open>The details\<close>

definition ints :: "int list \<Rightarrow> json" where "ints xs = JList (map JInt xs)"
definition nats :: "nat list \<Rightarrow> json" where "nats xs = JList (map (\<lambda>n. JInt (int n)) xs)"
definition strs :: "string list \<Rightarrow> json" where "strs xs = JList (map JStr xs)"

text \<open>\<open>a // b if a % b == 0 else None\<close>\<close>

definition share :: "int \<Rightarrow> int \<Rightarrow> json" where
  "share a b = (if a mod b = 0 then JInt (a div b) else JNull)"

definition ratio_or_null :: "int \<Rightarrow> int \<Rightarrow> json" where
  "ratio_or_null a b = (if b = 0 then JNull else JInt (a div b))"

definition detail_A1 :: "(string \<Rightarrow> json) \<Rightarrow> (string \<times> nat list) list \<Rightarrow> split \<Rightarrow> int \<Rightarrow> json" where
  "detail_A1 prose stacks sp tp =
     JObj [(''routed_experts'', JInt (n_routed sp)), (''tp'', JInt tp), (''per_rank'', share (n_routed sp) tp),
           (''stacks'', JObj (map (\<lambda>(s, ids). (s, JInt (int (length ids)))) stacks)), (''note'', prose ''A1'')]"

definition detail_A2 :: "(string \<Rightarrow> json) \<Rightarrow> json option \<Rightarrow> tensors \<Rightarrow> split \<Rightarrow> int \<Rightarrow> json res" where
  "detail_A2 prose block ts sp tp =
     res_bind (split_would_align block sp tp) (\<lambda>aligned.
       returned (JObj
         [(''shared_experts_per_layer'', JInt 1), (''moe_layers'', JInt (int (length (moe_layers ts)))),
          (''layers_carrying_a_shared_expert'',
             JInt (int (length (filter (\<lambda>k. k \<in> set (moe_layers ts)) (shared_layers ts))))),
          (''moe_layers_missing_their_shared_expert'',
             JList (map (\<lambda>(s, l). JList [JStr s, JInt (int l)]) (take 8 (missing_shared ts)))),
          (''intermediate'', JInt (shared_inter sp)), (''tp'', JInt tp),
          (''k_split_would_be_block_aligned'', JBool aligned), (''policy'', prose ''A2.policy''), (''note'', prose ''A2'')]))"

definition detail_A3 :: "config \<Rightarrow> split \<Rightarrow> int \<Rightarrow> json res" where
  "detail_A3 cfg sp tp =
     res_bind (require_int cfg [''head_dim'']) (\<lambda>head_dim.
       returned (JObj [(''num_attention_heads'', JInt (n_heads sp)), (''tp'', JInt tp),
         (''heads_per_rank'', share (n_heads sp) tp), (''head_dim'', JInt head_dim)]))"

definition detail_A4 :: "(string \<Rightarrow> json) \<Rightarrow> config \<Rightarrow> tensors \<Rightarrow> split \<Rightarrow> int \<Rightarrow> json res" where
  "detail_A4 prose cfg ts sp tp =
     res_bind (require_int cfg [''indexer_head_dim'']) (\<lambda>idx_dim.
     let expected = (idx_heads sp + idx_kv sp) * idx_dim
     in res_bind (int_div expected tp) (\<lambda>naive.
       returned (JObj
         [(''num_key_value_heads'', JInt (n_kv sp)), (''kv_heads_per_rank'', share (n_kv sp) tp),
          (''queries_per_kv_head'', ratio_or_null (n_heads sp) (n_kv sp)),
          (''indexer_n_heads'', JInt (idx_heads sp)), (''indexer_kv_heads'', JInt (idx_kv sp)),
          (''indexer_head_dim'', JInt idx_dim),
          (''indexer_kv_policy'',
             JStr (if idx_kv sp mod tp \<noteq> 0 then ''replicated (odd, unsplittable)'' else ''range-split'')),
          (''fused_index_qk_dim'', ints (fused_observed ts)), (''fused_index_qk_dim_expected'', JInt expected),
          (''fused_split_must_be_component_wise'', JBool (idx_kv sp mod tp \<noteq> 0)),
          (''fused_per_rank_width'', JInt ((idx_heads sp * idx_dim) div tp + idx_kv sp * idx_dim)),
          (''naive_even_slice_width'', JFloat naive), (''note'', prose ''A4'')])))"

definition detail_A5 :: "split \<Rightarrow> (string \<times> kind) list \<Rightarrow> int \<Rightarrow> json" where
  "detail_A5 sp sched tp =
     JObj [(''linear_num_key_heads'', JInt (gdn_k sp)), (''linear_num_value_heads'', JInt (gdn_v sp)),
           (''key_heads_per_rank'', share (gdn_k sp) tp), (''value_heads_per_rank'', share (gdn_v sp) tp),
           (''values_per_key_head'', ratio_or_null (gdn_v sp) (gdn_k sp)),
           (''gdn_layers'', JInt (int (length (filter (\<lambda>(_, k). k = Linear_attention) sched))))]"

text \<open>The entries of A6: a scale off the declared grid, and a slice off a block edge.\<close>

definition grid_entry :: "tensors \<Rightarrow> int \<times> int \<Rightarrow> string \<Rightarrow> tensor \<Rightarrow> json" where
  "grid_entry ts blk name t =
     JObj [(''tensor'', JStr name), (''weight_shape'', ints (shape t)),
           (''scale_shape'', ints (case map_of ts (replace_str name ''.weight'' ''.weight_scale_inv'') of
              None \<Rightarrow> [] | Some scale \<Rightarrow> shape scale)),
           (''expected_scale_shape'',
              ints (map (\<lambda>(d, b). - (- d div b)) (zip (shape t) [fst blk, snd blk])))]"

definition slice_entry :: "int \<times> int \<Rightarrow> int \<Rightarrow> string \<Rightarrow> tensor \<Rightarrow> json res" where
  "slice_entry blk tp name t =
     (case sliced_dim blk name t of
        None \<Rightarrow> returned JNull
      | Some (d, b) \<Rightarrow>
          res_bind (int_div d tp) (\<lambda>q.
            returned (JObj
              [(''tensor'', JStr name),
               (''axis'', JInt (if leaf_name name \<in> set COLUMN_PARALLEL then 0 else int (length (shape t)) - 1)),
               (''dim'', JInt d), (''dtype'', JStr (dtype t)), (''per_rank'', JFloat q), (''block'', JInt b)])))"

definition bad :: "tensors \<Rightarrow> bool option list \<Rightarrow> tensors" where
  "bad ts verdicts = map fst (filter (\<lambda>(_, v). v = Some False) (zip ts verdicts))"

definition checked :: "bool option list \<Rightarrow> nat" where
  "checked verdicts = length (filter (\<lambda>v. v \<noteq> None) verdicts)"

definition detail_A6 :: "(string \<Rightarrow> json) \<Rightarrow> json option \<Rightarrow> tensors \<Rightarrow> split \<Rightarrow> int \<Rightarrow> json res" where
  "detail_A6 prose block ts sp tp =
     res_bind (block_dims block) (\<lambda>blk.
     res_bind (res_seq (map (\<lambda>(n, t). grid_check ts blk n t) (sort_key fst ts))) (\<lambda>grid.
     res_bind (res_seq (map (\<lambda>(n, t). slice_check blk tp n t) (sort_key fst ts))) (\<lambda>slices.
     res_bind (res_seq (map (\<lambda>(n, t). slice_entry blk tp n t) (bad (sort_key fst ts) slices))) (\<lambda>misaligned.
       returned (JObj
         [(''weight_block_size'', ints [fst blk, snd blk]),
          (''block_grid_corroborated_on_tensors'', JInt (int (checked grid))),
          (''block_grid_mismatches'',
             JList (take 8 (map (\<lambda>(n, t). grid_entry ts blk n t) (bad (sort_key fst ts) grid)))),
          (''sliced_tensors_checked'', JInt (int (checked slices))),
          (''misaligned'', JList (take 8 misaligned)), (''misaligned_total'', JInt (int (length misaligned))),
          (''routed_expert_intermediate'', JInt (moe_inter sp)),
          (''tensor_parallel_moe_would_align'',
             JBool (moe_inter sp mod tp = 0 \<and> (moe_inter sp div tp) mod fst blk = 0)),
          (''note'', prose ''A6'')])))))"

definition kind_counts :: "string list \<Rightarrow> json" where
  "kind_counts derived =
     JObj [(''full_attention'', JInt (int (count_list derived ''full_attention''))),
           (''linear_attention'', JInt (int (count_list derived ''linear_attention'')))]"

definition detail_A7 :: "(string \<Rightarrow> json) \<Rightarrow> (string list \<Rightarrow> string list) \<Rightarrow> config \<Rightarrow> (string \<times> kind) list \<Rightarrow> json res" where
  "detail_A7 prose iter cfg sched =
     res_bind (derived_kinds iter sched) (\<lambda>derived.
     res_bind (formula_kinds (map_of cfg ''full_attention_interval'') (length derived)) (\<lambda>formula.
     res_bind (declared_matches (map_of cfg ''layer_types'') derived) (\<lambda>declared_ok.
       returned (JObj
         [(''source'', prose ''A7.source''), (''counts'', kind_counts derived), (''layers'', JInt (int (length derived))),
          (''matches_declared_layer_types'', JBool declared_ok),
          (''matches_index_formula'', (case formula of None \<Rightarrow> JNull | Some f \<Rightarrow> JBool (f = derived))),
          (''full_attention_interval'', (case map_of cfg ''full_attention_interval'' of None \<Rightarrow> JNull | Some v \<Rightarrow> v)),
          (''note'', prose ''A7'')]))))"

definition detail_A8 :: "(string \<Rightarrow> json) \<Rightarrow> string option \<Rightarrow> string \<Rightarrow> json" where
  "detail_A8 prose peer_digest local_digest =
     JObj [(''local'', JStr local_digest), (''peer'', (case peer_digest of None \<Rightarrow> JNull | Some d \<Rightarrow> JStr d)),
           (''note'', prose (if peer_digest = None then ''A8.silent'' else ''A8''))]"

definition detail_S1 :: "(string \<Rightarrow> json) \<Rightarrow> string list \<Rightarrow> json" where
  "detail_S1 prose serve_argv =
     JObj [(''serve_flags'', strs (selection_flags (join '' '' serve_argv))),
           (''tensor_parallel_size_in_argv'',
              (case search_tp (join '' '' serve_argv) of None \<Rightarrow> JNull | Some n \<Rightarrow> JInt (int n))),
           (''note'', prose ''S1'')]"

definition detail_S2 :: "(string \<Rightarrow> json) \<Rightarrow> (string \<times> nat list) list \<Rightarrow> shard_plan \<Rightarrow> int \<Rightarrow> json" where
  "detail_S2 prose stacks plan tp =
     JObj [(''stacks'', JObj (map (\<lambda>(s, ids).
              (s, JObj [(''experts'', JInt (int (length ids))), (''tensors_per_rank'', nats (tensors_per_rank plan tp s))])) stacks)),
           (''note'', prose ''S2'')]"

definition detail_S3 :: "(string \<Rightarrow> json) \<Rightarrow> shard_plan \<Rightarrow> string list \<Rightarrow> json" where
  "detail_S3 prose plan digests =
     JObj [(''per_rank_sha256'', strs digests),
           (''overlap_tensors'', JInt (int (length
              (filter (\<lambda>n. list_all (\<lambda>o'. n \<in> set o') (tl (owned plan))) (remdups (hd (owned plan))))))),
           (''experts_per_rank'', JInt (experts_per_rank plan)), (''note'', prose ''S3'')]"

definition gib3 :: "int \<Rightarrow> json res" where
  "gib3 n = res_bind (int_div n GIB) (\<lambda>x. returned (JFloat (round3 x)))"

definition detail_S4 :: "(string \<Rightarrow> json) \<Rightarrow> tensors \<Rightarrow> shard_plan \<Rightarrow> int \<Rightarrow> pyfloat \<Rightarrow> int \<Rightarrow> pyfloat \<Rightarrow> json res" where
  "detail_S4 prose ts plan tp bound_gib kv_bytes predicted =
     res_bind (gib3 (per_rank_bytes ts plan tp)) (\<lambda>weights.
     res_bind (gib3 kv_bytes) (\<lambda>kv.
     res_bind (gib3 (bytes_of ts (table plan))) (\<lambda>tab.
     res_bind (gib3 (sum_list (map (\<lambda>(_, t). nbytes t) ts))) (\<lambda>all.
       returned (JObj
         [(''weights_gib_per_rank'', weights), (''kv_pool_gib'', kv), (''predicted_gib_per_rank'', JFloat predicted),
          (''bound_gib'', JFloat bound_gib), (''headroom_gib'', JFloat (round3 (fsub bound_gib predicted))),
          (''table_gib_host_page_cache'', tab), (''checkpoint_gib_total'', all), (''note'', prose ''S4'')])))))"

section \<open>The run with its details\<close>

text \<open>\<open>check\<close>: the verdict is evaluated before the detail.\<close>

definition check_with :: "string \<Rightarrow> bool res \<Rightarrow> json res \<Rightarrow> detailed res" where
  "check_with ident ok detail = res_bind ok (\<lambda>b. res_bind detail (\<lambda>d. returned (ident, b, d)))"

definition run_detailed ::
  "(json \<Rightarrow> string) \<Rightarrow> (string \<Rightarrow> string) \<Rightarrow> (string list \<Rightarrow> string list) \<Rightarrow> (string \<Rightarrow> json) \<Rightarrow>
   config \<Rightarrow> tensors \<Rightarrow> int \<Rightarrow> string list \<Rightarrow> string option \<Rightarrow> pyfloat \<Rightarrow> int \<Rightarrow> (detailed list \<times> json) res"
where
  "run_detailed dumps sha256 iter prose cfg ts tp serve_argv peer_digest bound_gib kv_bytes =
     res_bind (case map_of cfg ''_quantization_config'' of None \<Rightarrow> raised KeyError
               | Some q \<Rightarrow> dget q ''weight_block_size'') (\<lambda>block.
     let stacks = expert_stacks ts in
     res_bind (schedule_from_tensor_presence ts) (\<lambda>sched.
     res_bind (read_split cfg) (\<lambda>sp.
     res_bind (check_with ''A1-moe-routed-expert-parity'' (assert_A1 sp tp) (returned (detail_A1 prose stacks sp tp))) (\<lambda>a1.
     res_bind (check_with ''A2-moe-shared-expert-policy'' (assert_A2 block ts sp tp) (detail_A2 prose block ts sp tp)) (\<lambda>a2.
     res_bind (check_with ''A3-qsa-head-parity'' (assert_A3 cfg sp tp) (detail_A3 cfg sp tp)) (\<lambda>a3.
     res_bind (check_with ''A4-qsa-gqa-group-integrity'' (assert_A4 cfg ts sp tp) (detail_A4 prose cfg ts sp tp)) (\<lambda>a4.
     res_bind (check_with ''A5-gdn-head-parity'' (assert_A5 sp tp) (returned (detail_A5 sp sched tp))) (\<lambda>a5.
     res_bind (check_with ''A6-fp8-block-alignment'' (assert_A6 block ts sp tp) (detail_A6 prose block ts sp tp)) (\<lambda>a6.
     res_bind (check_with ''A7-gate-schedule-from-tensors'' (assert_A7 iter cfg sched) (detail_A7 prose iter cfg sched)) (\<lambda>a7.
     let local_digest = guard_inputs_digest dumps sha256 cfg ts sched tp in
     res_bind (make_shard_plan ts stacks tp) (\<lambda>plan.
     res_bind (res_seq (map (\<lambda>o'. shard_digest sha256 o' ts) (owned plan))) (\<lambda>digests.
     res_bind (check_with ''S3-distinct-shard-checksums'' (assert_S3 plan tp digests)
       (returned (detail_S3 prose plan digests))) (\<lambda>s3.
     res_bind (predicted_gib ts plan tp kv_bytes) (\<lambda>predicted.
     res_bind (check_with ''S4-predicted-rank-residency'' (returned (assert_S4 predicted bound_gib))
       (detail_S4 prose ts plan tp bound_gib kv_bytes predicted)) (\<lambda>s4.
     res_bind (derived_kinds iter sched) (\<lambda>derived.
       returned
         ([a1, a2, a3, a4, a5, a6, a7,
           (''A8-rank-derivation-parity'', assert_A8 peer_digest local_digest, detail_A8 prose peer_digest local_digest),
           (''S1-selection-time-sharding'', assert_S1 serve_argv tp, detail_S1 prose serve_argv),
           (''S2-both-moe-paths-sharded'', assert_S2 stacks plan tp, detail_S2 prose stacks plan tp), s3, s4],
          JObj [(''schedule_counts'', kind_counts derived), (''digest'', JStr local_digest),
                (''shard_digests'', strs digests), (''predicted_gib_per_rank'', JFloat predicted),
                (''routed_experts'', JInt (n_routed sp)), (''top_k'', JInt (top_k sp))])))))))))))))))))"

section \<open>The report\<close>

definition detailed_json :: "detailed \<Rightarrow> json" where
  "detailed_json r = JObj [(''id'', JStr (fst r)), (''ok'', JBool (fst (snd r))), (''detail'', snd (snd r))]"

definition failures :: "detailed list \<Rightarrow> string list" where
  "failures results = map fst (filter (\<lambda>r. \<not> fst (snd r)) results)"

definition report_json :: "int \<Rightarrow> string \<Rightarrow> detailed list \<Rightarrow> json \<Rightarrow> json" where
  "report_json tp model_dir results summ =
     JObj [(''step'', JStr ''tp2-guards''), (''status'', JStr (if failures results = [] then ''pass'' else ''fail'')),
           (''tp'', JInt tp), (''model_dir'', JStr model_dir),
           (''assertions'', JList (map detailed_json results)), (''summary'', summ)]"

text \<open>
  What \<open>main\<close> leaves outside \<open>--digest-only\<close>: the exit status, the text of the report file (\<open>None\<close>
  when it cannot be written, which is only a message), and the failed checks, which it prints.
\<close>

definition guards_report ::
  "(json \<Rightarrow> string) \<Rightarrow> (string \<Rightarrow> string) \<Rightarrow> (string list \<Rightarrow> string list) \<Rightarrow> (string \<Rightarrow> json) \<Rightarrow> (json \<Rightarrow> string) \<Rightarrow>
   (string \<Rightarrow> (int \<times> string) option) \<Rightarrow> bool \<Rightarrow> string \<Rightarrow> config res \<Rightarrow> tensors res \<Rightarrow> guard_args \<Rightarrow>
   (int \<times> string option \<times> string list) res"
where
  "guards_report dumps sha256 iter prose dump_indented ssh writable model_dir config headers args =
     res_bind config (\<lambda>cfg. res_bind headers (\<lambda>ts.
       let peer = (if \<not> arg_no_peer args \<and> arg_peer args \<noteq> []
                   then peer_digest_over_ssh (ssh (arg_peer args)) else None)
       in res_bind (run_detailed dumps sha256 iter prose cfg ts (arg_tp args)
              (split_ws (arg_serve_argv args)) peer (arg_bound_gib args) (arg_kv_bytes args))
            (\<lambda>(results, summ).
               returned
                 (if failures results \<noteq> [] then 1 else 0,
                  if writable then Some (dump_indented (sort_keys (report_json (arg_tp args) model_dir results summ))) else None,
                  failures results))))"

section \<open>The report and the verdicts\<close>

lemma check_with_Inr [simp]:
  "check_with ident ok detail = returned r \<longleftrightarrow> (\<exists>b d. ok = returned b \<and> detail = returned d \<and> r = (ident, b, d))"
  by (auto simp: check_with_def res_simps)

definition verdicts :: "detailed list \<Rightarrow> check list" where
  "verdicts results = map (\<lambda>(i, b, d). (i, b)) results"

lemma failures_verdicts: "failures results = map fst (filter (\<lambda>(i, ok). \<not> ok) (verdicts results))"
  by (induction results) (auto simp: failures_def verdicts_def)

text \<open>The run with details gives the checks of the run without them.\<close>

lemma run_detailed_checks:
  assumes "run_detailed dumps sha256 iter prose cfg ts tp argv peer bound kv = returned (results, summ)"
  shows "\<exists>s. run_assertions dumps sha256 iter cfg ts tp argv peer bound kv = returned (verdicts results, s)"
  using assms by (auto simp: run_detailed_def run_assertions_def res_bind_Inr_iff Let_def verdicts_def)

lemma failures_Nil: "failures results = [] \<longleftrightarrow> list_all snd (verdicts results)"
  by (auto simp: failures_def verdicts_def list_all_iff filter_empty_conv)


section \<open>A detail explains its verdict\<close>

lemma bad_Nil: "length vs = length ts \<Longrightarrow> bad ts vs = [] \<longleftrightarrow> Some False \<notin> set vs"
proof -
  have "bad ts vs = [] \<longleftrightarrow> (\<forall>p \<in> set (zip ts vs). snd p \<noteq> Some False)"
    by (auto simp: bad_def filter_empty_conv)
  moreover assume "length vs = length ts"
  then have "set vs = snd ` set (zip ts vs)" by (metis map_snd_zip set_map)
  ultimately show ?thesis by force
qed

lemma checked_pos: "0 < checked vs \<longleftrightarrow> list_ex (\<lambda>v. v \<noteq> None) vs"
  by (auto simp: checked_def list_ex_iff filter_empty_conv)

definition int_field :: "json \<Rightarrow> string \<Rightarrow> int" where
  "int_field d k = (case dget d k of Inr (Some (JInt n)) \<Rightarrow> n | _ \<Rightarrow> 0)"

definition list_field :: "json \<Rightarrow> string \<Rightarrow> json list" where
  "list_field d k = (case dget d k of Inr (Some (JList xs)) \<Rightarrow> xs | _ \<Rightarrow> [])"

text \<open>
  The detail of A6 explains its verdict: the check holds exactly when the report counts no misaligned
  slice, lists no scale off the grid, and says that it examined at least one of each; every listed
  mismatch and the total of the misaligned are of tensors of the checkpoint.
\<close>

theorem A6_detail_explains:
  assumes "assert_A6 block ts sp tp = returned ok" and "detail_A6 prose block ts sp tp = returned d"
  shows "(ok \<longleftrightarrow> int_field d ''misaligned_total'' = 0 \<and> list_field d ''block_grid_mismatches'' = [] \<and>
      0 < int_field d ''block_grid_corroborated_on_tensors'' \<and> 0 < int_field d ''sliced_tensors_checked'') \<and>
    int (length (list_field d ''misaligned'')) = min 8 (int_field d ''misaligned_total'')"
proof -
  let ?ts = "sort_key fst ts"
  obtain blk grid slices misaligned where
    blk: "block_dims block = returned blk"
    and grid: "res_seq (map (\<lambda>(n, t). grid_check ts blk n t) ?ts) = returned grid"
    and slices: "res_seq (map (\<lambda>(n, t). slice_check blk tp n t) ?ts) = returned slices"
    and mis: "res_seq (map (\<lambda>(n, t). slice_entry blk tp n t) (bad ?ts slices)) = returned misaligned"
    and d: "d = JObj
         [(''weight_block_size'', ints [fst blk, snd blk]),
          (''block_grid_corroborated_on_tensors'', JInt (int (checked grid))),
          (''block_grid_mismatches'', JList (take 8 (map (\<lambda>(n, t). grid_entry ts blk n t) (bad ?ts grid)))),
          (''sliced_tensors_checked'', JInt (int (checked slices))),
          (''misaligned'', JList (take 8 misaligned)), (''misaligned_total'', JInt (int (length misaligned))),
          (''routed_expert_intermediate'', JInt (moe_inter sp)),
          (''tensor_parallel_moe_would_align'',
             JBool (moe_inter sp mod tp = 0 \<and> (moe_inter sp div tp) mod fst blk = 0)),
          (''note'', prose ''A6'')]"
    using assms(2) by (auto simp: detail_A6_def res_bind_Inr_iff)
  have ok: "ok \<longleftrightarrow> Some False \<notin> set slices \<and> Some False \<notin> set grid \<and>
      list_ex (\<lambda>g. g \<noteq> None) grid \<and> list_ex (\<lambda>v. v \<noteq> None) slices"
    using assms(1) by (auto simp: assert_A6_def res_bind_Inr_iff blk grid slices)
  have len: "length grid = length ?ts" "length slices = length ?ts"
    using grid slices by (metis res_seq_Inr length_map)+
  have "length misaligned = length (bad ?ts slices)" using mis by (metis res_seq_Inr length_map)
  then show ?thesis
    using bad_Nil [OF len(1)] bad_Nil [OF len(2)]
    by (auto simp: d ok dget_def int_field_def list_field_def checked_pos)
qed

section \<open>Witnesses\<close>

lemma demo_details:
  "\<exists>d. detail_A2 prose pass_block pass_tensors pass_split 2 = returned d"
  "\<exists>d. detail_A3 pass_config pass_split 2 = returned d"
  "\<exists>d. detail_A4 prose pass_config pass_tensors pass_split 2 = returned d"
  "\<exists>d. detail_A6 prose pass_block pass_tensors pass_split 2 = returned d"
  "\<exists>d. detail_A7 prose id pass_config pass_schedule = returned d"
  "\<exists>d. detail_S4 prose pass_tensors pass_plan 2 (Fin 80) 0 (Fin 0) = returned d"
proof -
  have ok: "(case r of Inl _ \<Rightarrow> False | Inr _ \<Rightarrow> True) \<Longrightarrow> \<exists>d. r = returned d" for r :: "json res"
    by (cases r) simp_all
  show "\<exists>d. detail_A2 prose pass_block pass_tensors pass_split 2 = returned d" by (rule ok) code_simp
  show "\<exists>d. detail_A3 pass_config pass_split 2 = returned d" by (rule ok) code_simp
  show "\<exists>d. detail_A4 prose pass_config pass_tensors pass_split 2 = returned d" by (rule ok) code_simp
  show "\<exists>d. detail_A6 prose pass_block pass_tensors pass_split 2 = returned d" by (rule ok) code_simp
  show "\<exists>d. detail_A7 prose id pass_config pass_schedule = returned d" by (rule ok) code_simp
  show "\<exists>d. detail_S4 prose pass_tensors pass_plan 2 (Fin 80) 0 (Fin 0) = returned d" by (rule ok) code_simp
qed

lemma demo_derived: "\<exists>ks. derived_kinds id pass_schedule = returned ks"
proof -
  have "case derived_kinds id pass_schedule of Inl _ \<Rightarrow> False | Inr _ \<Rightarrow> True" by code_simp
  then show ?thesis by (cases "derived_kinds id pass_schedule") simp_all
qed

lemma demo_report:
  "\<exists>t. guards_report (\<lambda>_. replicate 24 (CHR ''x'') @ ''d'') (drop 24) id prose dump_indented (\<lambda>_. Some (0, ''d'')) True dir
     (returned pass_config) (returned pass_tensors) pass_args = returned (0, t, [])"
  using demo_details(1) [of prose] demo_details(2) demo_details(3-6) [of prose] demo_derived
  by (auto simp: guards_report_def run_detailed_def check_with_def pass_args_def pass_block pass_split
      pass_schedule pass_stacks pass_plan pass_checks pass_sharding pass_digests pass_S3 pass_peer
      guard_inputs_digest_def assert_A8_def assert_S4_def fle_def Let_def failures_def)


theorem A6_detail_explains_witness:
  "\<exists>d. detail_A6 (\<lambda>_. JNull) pass_block pass_tensors pass_split 2 = returned d \<and> int_field d ''misaligned_total'' = 0"
proof -
  obtain d where d: "detail_A6 (\<lambda>_. JNull) pass_block pass_tensors pass_split 2 = returned d"
    using demo_details(4) by blast
  show ?thesis using A6_detail_explains [OF pass_checks(6) d] d by blast
qed

end
