(* ===== verification/TwinGate.thy ===== *)
theory TwinGate
  imports Tp2Guards
begin

text \<open>
  The gate of \<open>host/fn-tp2-guards.py\<close> on both twins. The coordinator asks the twin over \<open>ssh\<close> to run
  the same file with \<open>--digest-only\<close> on its own copy of the checkpoint, and A8 compares what that
  run prints with the local digest. Here the answer of the twin is the modelled run on its files, so
  the theorems say what the comparison of the two runs establishes, and what it does not see.
\<close>

definition digest_args :: "int \<Rightarrow> guard_args" where
  "digest_args tp =
     \<lparr>arg_tp = tp, arg_serve_argv = [], arg_peer = [], arg_no_peer = False, arg_bound_gib = Fin 80,
      arg_kv_bytes = 12884901888, arg_digest_only = True\<rparr>"

text \<open>Exit status and output of the twin's run.\<close>

definition twin_answer ::
  "(json \<Rightarrow> string) \<Rightarrow> (string \<Rightarrow> string) \<Rightarrow> (string list \<Rightarrow> string list) \<Rightarrow> config res \<Rightarrow> tensors res \<Rightarrow> int \<Rightarrow>
   (int \<times> string) option"
where
  "twin_answer dumps sha256 iter config headers tp =
     Some (case guards_main dumps sha256 iter (\<lambda>_. None) config headers (digest_args tp) of
             Inr (status, Digest d) \<Rightarrow> (status, d @ [newline])
           | Inr (status, Report _ _) \<Rightarrow> (status, [])
           | Inl _ \<Rightarrow> (1, []))"

section \<open>What the coordinator reads\<close>

text \<open>A digest as \<open>hexdigest\<close> prints it.\<close>

definition hex_digest :: "string \<Rightarrow> bool" where
  "hex_digest s \<longleftrightarrow> s \<noteq> [] \<and> list_all (\<lambda>c. c \<in> set ''0123456789abcdef'') s"

lemma hex_char: "c \<in> set ''0123456789abcdef'' \<Longrightarrow> \<not> py_space c \<and> \<not> line_break c"
proof -
  have "list_all (\<lambda>c. \<not> py_space c \<and> \<not> line_break c) ''0123456789abcdef''" by code_simp
  then show "c \<in> set ''0123456789abcdef'' \<Longrightarrow> \<not> py_space c \<and> \<not> line_break c"
    unfolding list_all_iff by blast
qed

lemma hex_lines: "hex_digest d \<Longrightarrow> splitlines d = [d]"
proof -
  have "lines_from acc s = [rev acc @ s]" if "list_all (\<lambda>c. c \<in> set ''0123456789abcdef'') s" "acc \<noteq> [] \<or> s \<noteq> []" for acc s
    using that
  proof (induction s arbitrary: acc)
    case (Cons c s)
    then show ?case using Cons.IH [of "c # acc"] hex_char [of c] by simp
  qed simp
  then show "hex_digest d \<Longrightarrow> splitlines d = [d]" by (simp add: splitlines_def hex_digest_def)
qed

lemma strip_newline: "\<forall>c \<in> set d. \<not> py_space c \<Longrightarrow> strip (d @ [newline]) = d"
proof -
  assume d: "\<forall>c \<in> set d. \<not> py_space c"
  have nl: "py_space newline" by code_simp
  show ?thesis
  proof (cases d)
    case (Cons c s)
    have "dropWhile py_space (rev d) = rev d" using d by (cases "rev d") (auto simp: dropWhile_eq_self_iff)
    then show ?thesis using d nl by (simp add: strip_def Cons)
  qed (simp add: strip_def nl)
qed

lemma read_digest:
  assumes "hex_digest d"
  shows "peer_digest_over_ssh (Some (0, d @ [newline])) = Some d"
proof -
  have "\<forall>c \<in> set d. \<not> py_space c" using assms hex_char by (auto simp: hex_digest_def list_all_iff)
  then show ?thesis using hex_lines [OF assms] by (simp add: peer_digest_over_ssh_def strip_newline strip_no_space)
qed

lemma read_nothing: "peer_digest_over_ssh (Some (0, [])) = None"
  by code_simp

lemma twin_reads:
  assumes "peer_digest_over_ssh (twin_answer dumps sha256 iter config headers tp) = Some d"
    and "\<And>x. hex_digest (sha256 x)"
  shows "\<exists>cfg ts sched. config = returned cfg \<and> headers = returned ts \<and>
    schedule_from_tensor_presence ts = returned sched \<and> d = guard_inputs_digest dumps sha256 cfg ts sched tp"
proof -
  let ?run = "guards_main dumps sha256 iter (\<lambda>_. None) config headers (digest_args tp)"
  have one: "peer_digest_over_ssh (Some (1, s)) = None" for s by (simp add: peer_digest_over_ssh_def)
  show ?thesis
  proof (cases ?run)
    case (Inl e)
    then show ?thesis using assms(1) one by (simp add: twin_answer_def)
  next
    case (Inr r)
    then obtain cfg ts sched where io: "config = returned cfg" "headers = returned ts"
        "schedule_from_tensor_presence ts = returned sched"
        and r: "r = (0, Digest (guard_inputs_digest dumps sha256 cfg ts sched tp))"
      by (auto simp: guards_main_def digest_args_def res_simps)
    have "hex_digest (guard_inputs_digest dumps sha256 cfg ts sched tp)"
      using assms(2) by (simp add: guard_inputs_digest_def)
    then show ?thesis using assms(1) Inr io by (auto simp: twin_answer_def r read_digest)
  qed
qed

section \<open>What a passing gate says of the twin\<close>

text \<open>
  SHA-256 and \<open>json.dumps\<close> are arguments; that they tell the inputs of two digests apart is what the
  code relies on them for. Here it is asked of the two payloads that are compared, and of no others.
\<close>

definition payloads_told_apart ::
  "(json \<Rightarrow> string) \<Rightarrow> (string \<Rightarrow> string) \<Rightarrow> config res \<Rightarrow> tensors res \<Rightarrow> config res \<Rightarrow> tensors res \<Rightarrow> int \<Rightarrow> bool"
where
  "payloads_told_apart dumps sha256 config headers config' headers' tp \<longleftrightarrow>
     (\<forall>cfg ts sched cfg' ts' sched'.
        config = returned cfg \<longrightarrow> headers = returned ts \<longrightarrow> schedule_from_tensor_presence ts = returned sched \<longrightarrow>
        config' = returned cfg' \<longrightarrow> headers' = returned ts' \<longrightarrow> schedule_from_tensor_presence ts' = returned sched' \<longrightarrow>
        sort_keys (guard_payload cfg ts sched tp) \<noteq> sort_keys (guard_payload cfg' ts' sched' tp) \<longrightarrow>
        sha256 (dumps (sort_keys (guard_payload cfg ts sched tp))) \<noteq>
          sha256 (dumps (sort_keys (guard_payload cfg' ts' sched' tp))))"

text \<open>
  C3: When the gate passes and the twin's answer is the run of the same file on its own checkpoint,
  both copies have the same scalar configuration and the same names, types and shapes of tensors, so
  they derive the same schedule, provided the digest tells the two payloads apart if they differ.
\<close>

theorem twins_derive_alike:
  assumes "guards_status (guards_main dumps sha256 iter
      (\<lambda>_. twin_answer dumps sha256 iter config' headers' (arg_tp args)) config headers args) = 0"
    and "\<not> arg_digest_only args" and "\<And>x. hex_digest (sha256 x)"
    and "payloads_told_apart dumps sha256 config headers config' headers' (arg_tp args)"
  shows "\<exists>cfg ts sched cfg' ts' sched'. config = returned cfg \<and> headers = returned ts \<and>
    config' = returned cfg' \<and> headers' = returned ts' \<and>
    schedule_from_tensor_presence ts = returned sched \<and> schedule_from_tensor_presence ts' = returned sched' \<and>
    scalars cfg = scalars cfg' \<and> shapes ts = shapes ts' \<and> mset sched = mset sched'"
proof -
  let ?twin = "twin_answer dumps sha256 iter config' headers' (arg_tp args)"
  obtain cfg ts results summ where io: "config = returned cfg" "headers = returned ts" "list_all snd results"
    and run: "run_assertions dumps sha256 iter cfg ts (arg_tp args) (split_ws (arg_serve_argv args))
       (if \<not> arg_no_peer args \<and> arg_peer args \<noteq> [] then peer_digest_over_ssh ?twin else None)
       (arg_bound_gib args) (arg_kv_bytes args) = returned (results, summ)"
    using guards_status_zero [OF assms(1,2)] by blast
  obtain sched where sched: "schedule_from_tensor_presence ts = returned sched"
    and "(if \<not> arg_no_peer args \<and> arg_peer args \<noteq> [] then peer_digest_over_ssh ?twin else None) =
      Some (guard_inputs_digest dumps sha256 cfg ts sched (arg_tp args))"
    using run_assertions_pass [OF run io(3)] by blast
  then have peer: "peer_digest_over_ssh ?twin = Some (guard_inputs_digest dumps sha256 cfg ts sched (arg_tp args))"
    by (auto split: if_splits)
  from twin_reads [OF this assms(3)] obtain cfg' ts' sched' where io': "config' = returned cfg'" "headers' = returned ts'"
    and sched': "schedule_from_tensor_presence ts' = returned sched'"
    and eq: "guard_inputs_digest dumps sha256 cfg ts sched (arg_tp args) =
      guard_inputs_digest dumps sha256 cfg' ts' sched' (arg_tp args)"
    by blast
  have "sort_keys (guard_payload cfg ts sched (arg_tp args)) = sort_keys (guard_payload cfg' ts' sched' (arg_tp args))"
    using assms(4) io io' sched sched' eq unfolding payloads_told_apart_def guard_inputs_digest_def by blast
  then have "scalars cfg = scalars cfg' \<and> shapes ts = shapes ts' \<and> mset sched = mset sched'"
    using equal_digests_agree [OF eq] by blast
  then show ?thesis using io io' sched sched' by blast
qed

section \<open>What the digest does not cover\<close>

text \<open>
  The digest is documented to cover everything the other assertions read. It leaves out the block
  size of the quantisation, which A2 and A6 depend on.
\<close>

lemma scalars_private: "startswith k ''_'' \<Longrightarrow> scalars (dput cfg k v) = scalars cfg"
proof -
  assume k: "startswith k ''_''"
  have "filter (\<lambda>(k, v). \<not> startswith k ''_'' \<and> scalar v) (dput cfg k v) =
      filter (\<lambda>(k, v). \<not> startswith k ''_'' \<and> scalar v) cfg"
    using k by (induction cfg k v rule: dput.induct) auto
  then show ?thesis by (simp add: scalars_def filter_sort)
qed

lemma digest_private:
  "startswith k ''_'' \<Longrightarrow>
   guard_inputs_digest dumps sha256 (dput cfg k v) ts sched tp = guard_inputs_digest dumps sha256 cfg ts sched tp"
  by (simp add: guard_inputs_digest_def sorted_payload scalars_private)

lemma twin_private:
  "startswith k ''_'' \<Longrightarrow>
   twin_answer dumps sha256 iter (returned (dput cfg k v)) headers tp = twin_answer dumps sha256 iter (returned cfg) headers tp"
  by (simp add: twin_answer_def guards_main_def digest_args_def digest_private)

text \<open>A quantisation block of another block size, which the tensors contradict.\<close>

definition other_block :: json where
  "other_block = JObj [(''weight_block_size'', JList [JInt 3, JInt 3])]"

lemma other_checks:
  "(case map_of (dput pass_config ''_quantization_config'' other_block) ''_quantization_config'' of None \<Rightarrow> raised KeyError
    | Some q \<Rightarrow> dget q ''weight_block_size'') = returned (Some (JList [JInt 3, JInt 3]))"
  "read_split (dput pass_config ''_quantization_config'' other_block) = returned pass_split"
  "assert_A6 (Some (JList [JInt 3, JInt 3])) pass_tensors pass_split 2 = returned False"
  by code_simp+

lemma other_status:
  "guards_status (guards_main dumps sha256 iter ssh
     (returned (dput pass_config ''_quantization_config'' other_block)) (returned pass_tensors) pass_args) \<noteq> 0"
proof
  assume zero: "guards_status (guards_main dumps sha256 iter ssh
     (returned (dput pass_config ''_quantization_config'' other_block)) (returned pass_tensors) pass_args) = 0"
  have "\<not> arg_digest_only pass_args" "arg_tp pass_args = 2" by (simp_all add: pass_args_def)
  then obtain peer bound kv argv results summ where "list_all snd results"
    "run_assertions dumps sha256 iter (dput pass_config ''_quantization_config'' other_block) pass_tensors 2 argv
       peer bound kv = returned (results, summ)"
    using guards_status_zero [OF zero] by auto
  then show False
    by (auto simp: run_assertions_def other_checks pass_schedule pass_stacks res_simps Let_def)
qed

text \<open>
  The twin's block size is never compared: whatever its quantisation block says, its answer is the
  same, and the gate can pass on the coordinator while the twin's own copy fails the gate.
\<close>

theorem twin_block_size_unseen:
  "twin_answer dumps sha256 iter (returned (dput cfg ''_quantization_config'' q)) headers tp =
     twin_answer dumps sha256 iter (returned cfg) headers tp \<and>
   (\<exists>dumps sha256 q.
      guards_status (guards_main dumps sha256 id
        (\<lambda>_. twin_answer dumps sha256 id (returned (dput pass_config ''_quantization_config'' q)) (returned pass_tensors) 2)
        (returned pass_config) (returned pass_tensors) pass_args) = 0 \<and>
      (\<forall>ssh. guards_status (guards_main dumps sha256 id ssh
        (returned (dput pass_config ''_quantization_config'' q)) (returned pass_tensors) pass_args) \<noteq> 0))"
proof -
  let ?dumps = "\<lambda>_ :: json. replicate 24 (CHR ''x'') @ ''d''" and ?sha = "drop 24 :: string \<Rightarrow> string"
  have us: "startswith ''_quantization_config'' ''_''" by code_simp
  have answer: "twin_answer ?dumps ?sha id (returned pass_config) (returned pass_tensors) 2 = Some (0, ''d'' @ [newline])"
    by (simp add: twin_answer_def guards_main_def digest_args_def pass_schedule guard_inputs_digest_def)
  have peer: "peer_digest_over_ssh (Some (0, ''d'' @ [newline])) = Some ''d''"
    by (rule read_digest) (simp add: hex_digest_def)
  have "guards_main ?dumps ?sha id (\<lambda>_. Some (0, ''d'' @ [newline])) (returned pass_config) (returned pass_tensors) pass_args =
      guards_main ?dumps ?sha id (\<lambda>_. Some (0, ''d'')) (returned pass_config) (returned pass_tensors) pass_args"
    by (simp only: guards_main_def peer pass_peer)
  then have "guards_status (guards_main ?dumps ?sha id (\<lambda>_. Some (0, ''d'' @ [newline]))
     (returned pass_config) (returned pass_tensors) pass_args) = 0"
    using pass_status by simp
  then show ?thesis
    using twin_private [OF us] other_status answer by (intro conjI exI [of _ ?dumps] exI [of _ ?sha] exI [of _ other_block]) simp_all
qed

section \<open>Witnesses\<close>

text \<open>
  An encoder and a digest that tell the payload of the demonstration checkpoint from every other; the
  twin's copy has a quantisation block of its own, which the digest leaves out.
\<close>

definition demo_sha :: "string \<Rightarrow> string" where
  "demo_sha s = (if contains_str s ''experts.0'' then ''a'' else ''b'')"

abbreviation demo_payload :: json where
  "demo_payload \<equiv> sort_keys (guard_payload pass_config pass_tensors pass_schedule 2)"

definition demo_dumps :: "json \<Rightarrow> string" where
  "demo_dumps x = (if x = demo_payload then ''experts.0'' else [])"

abbreviation demo_twin :: config where
  "demo_twin \<equiv> dput pass_config ''_quantization_config'' other_block"

lemma demo_digest: "demo_sha (demo_dumps x) = (if x = demo_payload then ''a'' else ''b'')"
proof -
  have "contains_str ''experts.0'' ''experts.0''" "\<not> contains_str [] ''experts.0''" by code_simp+
  then show ?thesis by (simp add: demo_sha_def demo_dumps_def)
qed

lemma demo_gate:
  "guards_status (guards_main demo_dumps demo_sha id
     (\<lambda>_. twin_answer demo_dumps demo_sha id (returned demo_twin) (returned pass_tensors) (arg_tp pass_args))
     (returned pass_config) (returned pass_tensors) pass_args) = 0"
proof -
  have digest: "guard_inputs_digest demo_dumps demo_sha pass_config pass_tensors pass_schedule 2 = ''a''"
    by (simp add: guard_inputs_digest_def demo_digest)
  have us: "startswith ''_quantization_config'' ''_''" by code_simp
  have "twin_answer demo_dumps demo_sha id (returned pass_config) (returned pass_tensors) 2 = Some (0, ''a'' @ [newline])"
    using digest by (simp add: twin_answer_def guards_main_def digest_args_def pass_schedule)
  then have twin: "twin_answer demo_dumps demo_sha id (returned demo_twin) (returned pass_tensors) 2 = Some (0, ''a'' @ [newline])"
    by (simp add: twin_private [OF us])
  have peer: "peer_digest_over_ssh (Some (0, ''a'' @ [newline])) = Some ''a''"
    by (rule read_digest) (simp add: hex_digest_def)
  have shards: "res_seq (map (\<lambda>o'. shard_digest demo_sha o' pass_tensors) (owned pass_plan)) = returned [''a'', ''b'']"
    "assert_S3 pass_plan 2 [''a'', ''b''] = returned True"
    by code_simp+
  show ?thesis using digest twin peer shards
    by (simp add: guards_status_def guards_main_def run_assertions_def pass_args_def pass_block pass_split
        pass_schedule pass_stacks pass_plan pass_checks pass_sharding assert_A8_def assert_S4_def fle_def Let_def)
qed

lemma demo_told_apart:
  "payloads_told_apart demo_dumps demo_sha (returned pass_config) (returned pass_tensors) config' headers' 2"
  unfolding payloads_told_apart_def by (simp add: demo_digest pass_schedule)

theorem twins_derive_alike_witness:
  "scalars pass_config = scalars demo_twin \<and> pass_config \<noteq> demo_twin"
proof -
  have "\<not> arg_digest_only pass_args" "arg_tp pass_args = 2" by (simp_all add: pass_args_def)
  moreover have "hex_digest (demo_sha x)" for x by (simp add: hex_digest_def demo_sha_def)
  ultimately have "scalars pass_config = scalars demo_twin"
    using twins_derive_alike [OF demo_gate] demo_told_apart by auto
  moreover have "pass_config \<noteq> demo_twin" by code_simp
  ultimately show ?thesis by blast
qed

end
