(* ===== verification/ShellWords.thy ===== *)
theory ShellWords
  imports PyText
begin

text \<open>
  Words on a shell's command line: \<open>shlex.quote\<close>, by which the programs put a value into a remote
  command, and a reader of the fragment of the shell's quoting rules that such commands use. The
  shell itself is not part of the program: what the properties need of it is the hypothesis
  \<open>reads_quoted\<close>, and the reader is an instance of it.
\<close>

section \<open>Quoting\<close>

definition word_char :: "char \<Rightarrow> bool" where
  "word_char c \<longleftrightarrow>
     (let n = (of_char c :: nat)
      in (48 \<le> n \<and> n \<le> 57) \<or> (65 \<le> n \<and> n \<le> 90) \<or> (97 \<le> n \<and> n \<le> 122) \<or> n = 95)"

text \<open>The characters that \<open>shlex.quote\<close> leaves alone: \<open>[\w@%+=:,./-]\<close> of ASCII.\<close>

definition shell_safe :: "char \<Rightarrow> bool" where
  "shell_safe c \<longleftrightarrow> word_char c \<or> c \<in> set ''@%+=:,./-''"

definition quotation :: char where
  "quotation = CHR 0x22"

text \<open>A closed quotation, the apostrophe inside double quotes, and the quotation opened again.\<close>

definition escaped_apostrophe :: string where
  "escaped_apostrophe = [apostrophe, quotation, apostrophe, quotation, apostrophe]"

definition shlex_quote :: "string \<Rightarrow> string" where
  "shlex_quote s =
     (if s = [] then [apostrophe, apostrophe]
      else if list_all shell_safe s then s
      else [apostrophe] @ replace_str s [apostrophe] escaped_apostrophe @ [apostrophe])"

section \<open>Reading words\<close>

datatype quoting = Plain | Single | Double

text \<open>The word so far, if one was begun, is kept in reverse.\<close>

fun words_of :: "quoting \<Rightarrow> string option \<Rightarrow> string \<Rightarrow> string list option" where
  "words_of Plain w [] = Some (case w of None \<Rightarrow> [] | Some r \<Rightarrow> [rev r])"
| "words_of q w [] = None"
| "words_of Plain w (c # cs) =
     (if c = CHR '' ''
      then (case w of None \<Rightarrow> words_of Plain None cs
            | Some r \<Rightarrow> map_option (\<lambda>ws. rev r # ws) (words_of Plain None cs))
      else if c = apostrophe then words_of Single (Some (case w of None \<Rightarrow> [] | Some r \<Rightarrow> r)) cs
      else if c = quotation then words_of Double (Some (case w of None \<Rightarrow> [] | Some r \<Rightarrow> r)) cs
      else if shell_safe c then words_of Plain (Some (c # (case w of None \<Rightarrow> [] | Some r \<Rightarrow> r))) cs
      else None)"
| "words_of Single w (c # cs) =
     (if c = apostrophe then words_of Plain w cs
      else words_of Single (Some (c # (case w of None \<Rightarrow> [] | Some r \<Rightarrow> r))) cs)"
| "words_of Double w (c # cs) =
     (if c = quotation then words_of Plain w cs
      else if c \<in> set [CHR 0x5C, CHR 0x24, CHR 0x60] then None
      else words_of Double (Some (c # (case w of None \<Rightarrow> [] | Some r \<Rightarrow> r))) cs)"

definition shell_words :: "string \<Rightarrow> string list option" where
  "shell_words s = words_of Plain None s"

text \<open>What the programs rely on: a shell reads quoted words back as they were.\<close>

definition reads_quoted :: "(string \<Rightarrow> string list option) \<Rightarrow> bool" where
  "reads_quoted sh \<longleftrightarrow> (\<forall>ws. ws \<noteq> [] \<longrightarrow> sh (join '' '' (map shlex_quote ws)) = Some ws)"

text \<open>
  The command that a remote shell reads when \<open>ssh\<close> gets several words behind the host: it joins them
  with spaces and quotes nothing. Its own five words (two options with a value each) and the host come first.
\<close>

definition remote_command :: "string list \<Rightarrow> string" where
  "remote_command argv = join '' '' (drop 6 argv)"

lemma plain_words_read:
  "reads_quoted sh \<Longrightarrow> ws \<noteq> [] \<Longrightarrow> list_all (\<lambda>w. w \<noteq> [] \<and> list_all shell_safe w) ws \<Longrightarrow>
   sh (join '' '' ws) = Some ws"
proof -
  assume "list_all (\<lambda>w. w \<noteq> [] \<and> list_all shell_safe w) ws"
  then have "map shlex_quote ws = ws" by (induction ws) (auto simp: shlex_quote_def)
  then show "reads_quoted sh \<Longrightarrow> ws \<noteq> [] \<Longrightarrow> sh (join '' '' ws) = Some ws" by (metis reads_quoted_def)
qed

section \<open>The reader is an instance\<close>

definition so_far :: "string option \<Rightarrow> string" where
  "so_far w = (case w of None \<Rightarrow> [] | Some r \<Rightarrow> r)"

lemma so_far_simps [simp]: "so_far (Some r) = r" "so_far None = []"
  by (simp_all add: so_far_def)

lemma shell_safe_chars: "shell_safe c \<Longrightarrow> c \<noteq> CHR '' '' \<and> c \<noteq> apostrophe \<and> c \<noteq> quotation"
proof -
  have "\<not> shell_safe (CHR '' '')" "\<not> shell_safe apostrophe" "\<not> shell_safe quotation" by code_simp+
  then show "shell_safe c \<Longrightarrow> c \<noteq> CHR '' '' \<and> c \<noteq> apostrophe \<and> c \<noteq> quotation" by blast
qed

lemma words_of_safe:
  "list_all shell_safe s \<Longrightarrow> s \<noteq> [] \<Longrightarrow>
   words_of Plain w (s @ rest) = words_of Plain (Some (rev s @ so_far w)) rest"
proof (induction s arbitrary: w)
  case (Cons c s)
  have step: "words_of Plain w (c # t) = words_of Plain (Some (c # so_far w)) t" for t
    using shell_safe_chars [of c] Cons.prems by (simp add: so_far_def)
  show ?case using Cons by (cases "s = []") (simp_all add: step del: words_of.simps)
qed simp

text \<open>\<open>replace\<close> of one character.\<close>

lemma replace_char:
  "replace_str s [a] q = concat (map (\<lambda>c. if c = a then q else [c]) s)"
  unfolding replace_str_def by (induction s) (simp_all add: startswith_def)

lemma words_of_single:
  "words_of Single (Some r) (concat (map (\<lambda>c. if c = apostrophe then escaped_apostrophe else [c]) s) @ apostrophe # rest)
   = words_of Plain (Some (rev s @ r)) rest"
proof (induction s arbitrary: r)
  case Nil
  show ?case by simp
next
  case (Cons c s)
  have "words_of Single (Some r) (escaped_apostrophe @ t) = words_of Single (Some (apostrophe # r)) t" for t
    by (simp add: escaped_apostrophe_def apostrophe_def quotation_def)
  then show ?case using Cons [of "c # r"] by (cases "c = apostrophe") simp_all
qed

lemma words_of_quoted:
  "words_of Plain None (shlex_quote s @ rest) = words_of Plain (Some (rev s)) rest"
proof -
  have open': "words_of Plain None (apostrophe # t) = words_of Single (Some []) t" for t
    by (simp add: apostrophe_def)
  show ?thesis
  proof (cases "s = [] \<or> list_all shell_safe s")
    case True
    then show ?thesis using words_of_safe [of s None rest]
      by (auto simp: shlex_quote_def apostrophe_def)
  next
    case False
    then show ?thesis
      using words_of_single [of "[]" s rest]
      by (auto simp: shlex_quote_def replace_char open' simp del: words_of.simps)
  qed
qed

lemma words_of_join:
  "ws \<noteq> [] \<Longrightarrow> words_of Plain None (join '' '' (map shlex_quote ws)) = Some ws"
proof (induction ws)
  case (Cons w ws)
  show ?case
  proof (cases ws)
    case Nil
    then show ?thesis using words_of_quoted [of w "[]"] by simp
  next
    case (Cons v vs)
    then show ?thesis using Cons.IH words_of_quoted [of w] by simp
  qed
qed simp

lemma shell_words_reads_quoted: "reads_quoted shell_words"
  by (simp add: reads_quoted_def shell_words_def words_of_join)

end
