(* ===== verification/GuardCommand.thy ===== *)
theory GuardCommand
  imports TwinGate ArgParse ShellWords
begin

text \<open>
  The command line of \<open>host/fn-tp2-guards.py\<close>: the parser with the defaults it takes from the
  environment, a whole process, and the command by which the coordinator runs the same file on its
  twin. \<open>ssh\<close> joins its arguments with spaces and the shell of the twin splits them again, so what
  the twin runs depends on the words of the checkpoint's path.
\<close>

section \<open>The parser\<close>

definition default_report :: "environ \<Rightarrow> string \<Rightarrow> string" where
  "default_report env home =
     env_get env ''FN_GUARD_REPORT''
       (os_join (env_get env ''FN_STATE_DIR'' (home @ ''/.local/state/flashnext'')) ''tp2-guards.json'')"

definition guard_parser :: "environ \<Rightarrow> string \<Rightarrow> arg_spec list res" where
  "guard_parser env home =
     res_bind (env_int env ''FN_TP_SIZE'' ''2'') (\<lambda>tp.
     res_bind (env_float env ''FN_RESIDENCY_BOUND_GIB'' ''80'') (\<lambda>bound.
     res_bind (env_int env ''FN_KV_CACHE_BYTES'' ''12884901888'') (\<lambda>kv.
       returned
         [option_of ''--tp'' Int_arg (Int_value tp),
          option_of ''--model-dir'' Text_arg
            (Text_value (env_get env ''FN_MODEL_DIR'' ''/var/lib/local-models/flashnext-fp8'')),
          option_of ''--serve-argv'' Text_arg (Text_value (env_get env ''FN_SERVE_ARGV'' [])),
          option_of ''--peer'' Text_arg (Text_value (env_get env ''FN_WORKER_HOST'' [])),
          flag_of ''--no-peer'',
          option_of ''--bound-gib'' Float_arg (Float_value bound),
          option_of ''--kv-bytes'' Int_arg (Int_value kv),
          option_of ''--report'' Text_arg (Text_value (default_report env home)),
          flag_of ''--digest-only''])))"

definition guard_args_of :: "namespace \<Rightarrow> guard_args" where
  "guard_args_of ns =
     \<lparr>arg_tp = int_arg ns ''--tp'', arg_serve_argv = text_arg ns ''--serve-argv'',
      arg_peer = text_arg ns ''--peer'', arg_no_peer = flag_arg ns ''--no-peer'',
      arg_bound_gib = float_arg ns ''--bound-gib'', arg_kv_bytes = int_arg ns ''--kv-bytes'',
      arg_digest_only = flag_arg ns ''--digest-only''\<rparr>"

text \<open>The status of an early exit, or the arguments, the checkpoint and the report path.\<close>

definition guard_invocation :: "environ \<Rightarrow> string \<Rightarrow> string list \<Rightarrow> (int + guard_args \<times> string \<times> string) res" where
  "guard_invocation env home argv =
     res_bind (guard_parser env home) (\<lambda>specs.
       returned (case parse_args specs argv of
           Parser_exit n \<Rightarrow> Inl n
         | Parsed ns \<Rightarrow> Inr (guard_args_of ns, text_arg ns ''--model-dir'', text_arg ns ''--report'')))"

text \<open>Status and standard output of a process; \<open>config\<close> and \<open>headers\<close> read a checkpoint's directory.\<close>

definition guard_process ::
  "(json \<Rightarrow> string) \<Rightarrow> (string \<Rightarrow> string) \<Rightarrow> (string list \<Rightarrow> string list) \<Rightarrow> (string \<Rightarrow> (int \<times> string) option) \<Rightarrow>
   (string \<Rightarrow> config res) \<Rightarrow> (string \<Rightarrow> tensors res) \<Rightarrow> string \<Rightarrow> environ \<Rightarrow> string \<Rightarrow> string list \<Rightarrow> int \<times> string"
where
  "guard_process dumps sha256 iter ssh config headers help_text env home argv =
     (case guard_invocation env home argv of
        Inl _ \<Rightarrow> (1, [])
      | Inr (Inl n) \<Rightarrow> (n, if n = 0 then help_text else [])
      | Inr (Inr (args, model_dir, _)) \<Rightarrow>
          (case guards_main dumps sha256 iter ssh (config model_dir) (headers model_dir) args of
             Inl _ \<Rightarrow> (1, [])
           | Inr (status, Digest d) \<Rightarrow> (status, d @ [newline])
           | Inr (status, Report _ _) \<Rightarrow> (status, [])))"

section \<open>What the twin is asked\<close>

definition digest_words :: "string \<Rightarrow> int \<Rightarrow> string list" where
  "digest_words model_dir tp =
     [''python3'', ''-'', ''--digest-only'', ''--model-dir'', model_dir, ''--tp'', str_int tp]"

definition digest_argv :: "string \<Rightarrow> string \<Rightarrow> int \<Rightarrow> string list" where
  "digest_argv host model_dir tp =
     [''ssh'', ''-o'', ''BatchMode=yes'', ''-o'', ''ConnectTimeout=10'', host] @ digest_words model_dir tp"

definition digest_line :: "string \<Rightarrow> int \<Rightarrow> written list" where
  "digest_line model_dir tp =
     [Bare ''--digest-only'', With_value ''--model-dir'' model_dir, With_value ''--tp'' (str_int tp)]"

lemma digest_words_line: "digest_words model_dir tp = [''python3'', ''-''] @ command_line (digest_line model_dir tp)"
  by (simp add: digest_words_def digest_line_def command_line_def)

lemma guard_long_names: "guard_parser env home = returned specs \<Longrightarrow> long_names specs"
  by (auto simp: guard_parser_def res_bind_Inr_iff long_names_def option_of_def flag_of_def help_name_def startswith_def)

lemma guard_specs:
  assumes "guard_parser env home = returned specs"
  shows "find_spec specs ''--digest-only'' = Some (flag_of ''--digest-only'')"
    "\<exists>d. find_spec specs ''--model-dir'' = Some (option_of ''--model-dir'' Text_arg d)"
    "\<exists>d. find_spec specs ''--tp'' = Some (option_of ''--tp'' Int_arg d)"
    "\<forall>s \<in> set specs. \<not> arg_required s"
  using assms by (auto simp: guard_parser_def res_bind_Inr_iff option_of_def flag_of_def)

lemma guard_names: "guard_parser env home = returned specs \<Longrightarrow> \<forall>m \<in> set (help_name # map arg_name specs). startswith m ''--''"
  using guard_long_names by (auto simp: long_names_def help_name_def startswith_def)

text \<open>
  A path that the joined command carries unharmed: not empty, no dash in front, and only characters
  that a shell leaves alone.
\<close>

definition plain_path :: "string \<Rightarrow> bool" where
  "plain_path p \<longleftrightarrow> p \<noteq> [] \<and> hd p \<noteq> CHR ''-'' \<and> list_all shell_safe p"

lemma shell_safe_int: "list_all shell_safe (str_int n)"
proof -
  have "py_digit c \<Longrightarrow> shell_safe c" for c
    by (auto simp: py_digit_def shell_safe_def word_char_def Let_def)
  then have "list_all shell_safe (str_nat k)" for k
    using str_nat_digits [of k] by (auto simp: list_all_iff)
  moreover have "shell_safe (CHR ''-'')" by code_simp
  ultimately show ?thesis by (simp add: str_int_def)
qed

lemma str_int_nonempty: "str_int n \<noteq> []"
  by (simp add: str_int_def)

lemma quoted_digest_words:
  assumes "plain_path model_dir"
  shows "map shlex_quote (digest_words model_dir tp) = digest_words model_dir tp"
proof -
  have "shlex_quote ''python3'' = ''python3''" "shlex_quote ''-'' = ''-''"
    "shlex_quote ''--digest-only'' = ''--digest-only''" "shlex_quote ''--model-dir'' = ''--model-dir''"
    "shlex_quote ''--tp'' = ''--tp''"
    by code_simp+
  moreover have "shlex_quote model_dir = model_dir"
    using assms by (simp add: plain_path_def shlex_quote_def)
  moreover have "shlex_quote (str_int tp) = str_int tp"
    using shell_safe_int [of tp] str_int_nonempty [of tp] by (simp add: shlex_quote_def)
  ultimately show ?thesis by (simp add: digest_words_def)
qed

lemma digest_line_read:
  assumes "guard_parser env home = returned specs" "plain_path model_dir"
  shows "\<exists>ns. parse_args specs (command_line (digest_line model_dir tp)) = Parsed ns \<and>
    text_arg ns ''--model-dir'' = model_dir \<and> int_arg ns ''--tp'' = tp \<and> flag_arg ns ''--digest-only''"
proof -
  note specs = guard_specs [OF assms(1)]
  obtain d1 d2 where "find_spec specs ''--model-dir'' = Some (option_of ''--model-dir'' Text_arg d1)"
    "find_spec specs ''--tp'' = Some (option_of ''--tp'' Int_arg d2)"
    using specs(2,3) by blast
  note s = this specs(1)
  have "list_all (well_written specs) (digest_line model_dir tp)"
    using int_can_be_value [OF guard_names [OF assms(1)], of tp] assms(2)
    by (simp add: digest_line_def s option_of_def flag_of_def convert_arg_def plain_path_def)
  from parse_command_line [OF guard_long_names [OF assms(1)] this] show ?thesis
    using specs(4) by (simp add: digest_line_def s option_of_def convert_arg_def arg_readers)
qed

lemma digest_run: "arg_digest_only args \<Longrightarrow> arg_tp args = tp \<Longrightarrow>
  guards_main dumps sha256 iter ssh config headers args =
  guards_main dumps sha256 iter (\<lambda>_. None) config headers (digest_args tp)"
  by (simp add: guards_main_def digest_args_def cong: res_bind_cong)

text \<open>
  C13: What the coordinator asks of the twin is what the gate assumes: on a twin whose environment the parser
  accepts, the command over ssh runs the digest of the same checkpoint path for the same number of
  ranks, whatever the twin's own defaults are, and answers as \<open>twin_answer\<close> says.
\<close>

theorem twin_is_asked_the_same:
  assumes "reads_quoted sh" and "guard_parser env home = returned specs" and "plain_path model_dir"
  shows "\<exists>args. sh (remote_command (digest_argv host model_dir tp)) = Some ([''python3'', ''-''] @ args) \<and>
    twin_answer dumps sha256 iter (config model_dir) (headers model_dir) tp =
      Some (guard_process dumps sha256 iter ssh config headers help_text env home args)"
proof -
  let ?args = "command_line (digest_line model_dir tp)"
  have "sh (join '' '' (map shlex_quote (digest_words model_dir tp))) = Some (digest_words model_dir tp)"
    using assms(1) by (simp add: reads_quoted_def digest_words_def del: list.map)
  then have "sh (remote_command (digest_argv host model_dir tp)) = Some ([''python3'', ''-''] @ ?args)"
    using quoted_digest_words [OF assms(3)]
    by (simp add: remote_command_def digest_argv_def digest_words_line del: join.simps)
  moreover obtain ns where ns: "parse_args specs ?args = Parsed ns" "text_arg ns ''--model-dir'' = model_dir"
    "int_arg ns ''--tp'' = tp" "flag_arg ns ''--digest-only''"
    using digest_line_read [OF assms(2,3)] by blast
  then have "guard_process dumps sha256 iter ssh config headers help_text env home ?args =
    (case guards_main dumps sha256 iter ssh (config model_dir) (headers model_dir) (guard_args_of ns) of
       Inl _ \<Rightarrow> (1, []) | Inr (status, Digest d) \<Rightarrow> (status, d @ [newline])
     | Inr (status, Report _ _) \<Rightarrow> (status, []))"
    by (simp add: guard_process_def guard_invocation_def assms(2))
  moreover have "guards_main dumps sha256 iter ssh (config model_dir) (headers model_dir) (guard_args_of ns) =
      guards_main dumps sha256 iter (\<lambda>_. None) (config model_dir) (headers model_dir) (digest_args tp)"
    by (rule digest_run) (simp_all add: guard_args_of_def ns)
  ultimately show ?thesis by (intro exI [of _ ?args]) (simp add: twin_answer_def)
qed

theorem twin_is_asked_the_same_witness:
  "\<exists>args. shell_words (remote_command (digest_argv ''twin'' ''/models/m'' 2)) = Some ([''python3'', ''-''] @ args) \<and>
     twin_answer (\<lambda>_. []) id id (returned pass_config) (returned pass_tensors) 2 =
       Some (guard_process (\<lambda>_. []) id id (\<lambda>_. None) (\<lambda>_. returned pass_config) (\<lambda>_. returned pass_tensors) []
         (\<lambda>v. if v = ''FN_TP_SIZE'' then Some ''8'' else None) ''/root'' args)"
proof -
  obtain specs where "guard_parser (\<lambda>v. if v = ''FN_TP_SIZE'' then Some ''8'' else None) ''/root'' = returned specs"
  proof -
    have "parse_int ''8'' = Some 8" "parse_int ''12884901888'' = Some 12884901888" "parse_float ''80'' = Some (Fin 80)"
      by code_simp+
    then show ?thesis using that by (simp add: guard_parser_def env_int_def env_float_def env_get_def)
  qed
  moreover have "plain_path ''/models/m''" by code_simp
  ultimately show ?thesis
    using twin_is_asked_the_same [OF shell_words_reads_quoted, where config = "\<lambda>_. returned pass_config"
      and headers = "\<lambda>_. returned pass_tensors"] by blast
qed

text \<open>
  A path with a space is split: the twin's parser stops with a usage error, so the digest is missing
  and A8 refuses the pair.
\<close>

lemma path_with_space:
  "shell_words (remote_command (digest_argv ''twin'' ''/models/big one'' 2)) =
     Some [''python3'', ''-'', ''--digest-only'', ''--model-dir'', ''/models/big'', ''one'', ''--tp'', ''2'']"
  by code_simp

lemma path_with_space_refused:
  assumes "guard_parser env home = returned specs"
  shows "parse_args specs [''--digest-only'', ''--model-dir'', ''/models/big'', ''one'', ''--tp'', ''2''] = Parser_exit 2"
proof -
  define names where "names = [''--help'', ''--tp'', ''--model-dir'', ''--serve-argv'', ''--peer'', ''--no-peer'',
    ''--bound-gib'', ''--kv-bytes'', ''--report'', ''--digest-only'']"
  have names: "help_name # map arg_name specs = names"
    using assms by (auto simp: guard_parser_def res_bind_Inr_iff option_of_def flag_of_def names_def help_name_def)
  have words: "classify_all names [''--digest-only'', ''--model-dir'', ''/models/big'', ''one'', ''--tp'', ''2''] =
      [(Option_word ''--digest-only'' None, ''--digest-only''), (Option_word ''--model-dir'' None, ''--model-dir''),
       (Plain_word, ''/models/big''), (Plain_word, ''one''), (Option_word ''--tp'' None, ''--tp''), (Plain_word, ''2'')]"
    unfolding names_def by code_simp
  have two: "parse_int ''2'' = Some 2" by code_simp
  obtain d1 d2 where "find_spec specs ''--model-dir'' = Some (option_of ''--model-dir'' Text_arg d1)"
    "find_spec specs ''--tp'' = Some (option_of ''--tp'' Int_arg d2)"
    using guard_specs [OF assms] by blast
  note specs = this guard_specs(1) [OF assms]
  have "''--digest-only'' \<noteq> help_name" "''--model-dir'' \<noteq> help_name" "''--tp'' \<noteq> help_name"
    by (simp_all add: help_name_def)
  then show ?thesis
    unfolding parse_args_def names words using specs
    by (simp add: two option_of_def flag_of_def convert_arg_def)
qed

end
