(* ===== verification/CableResolve.thy ===== *)
theory CableResolve
  imports Checkpoint
begin

text \<open>
  The resolution chain of \<open>bench/usb4stream-bench.py\<close> on one node: the netdev of the chosen cable,
  its stream service, the configfs group and the device node; the wire peer and its
  reachability; and the guard that compares both ends before anything is opened. What the chain
  reads (sysfs, configfs, the output of \<open>ip\<close>, whether a ping answers) is the record \<open>node\<close>. A
  \<open>ResolveError\<close> has its message and its \<open>configfs\<close> flag, an \<open>OSError\<close> its number.
\<close>

section \<open>Exceptions and the node\<close>

datatype uexc =
    BenchTimeout
  | Resolve_error string bool
  | Errno int
  | No_errno

type_synonym 'a ures = "uexc + 'a"

record node =
  addr_show :: string
  neigh_show :: "string \<Rightarrow> string"
  ping_answers :: "string \<Rightarrow> string \<Rightarrow> bool"
  listing :: "string \<Rightarrow> int + string list"
  path_exists :: "string \<Rightarrow> bool"
  path_isdir :: "string \<Rightarrow> bool"
  content :: "string \<Rightarrow> string option"
  realpath :: "string \<Rightarrow> string"
  configfs_override :: "string option"

datatype cable = Cable_A | Cable_B

fun cable_label :: "cable \<Rightarrow> string" where
  "cable_label Cable_A = ''A''"
| "cable_label Cable_B = ''B''"

definition DEVICE_PREFIX :: string where
  "DEVICE_PREFIX = ''/dev/tbstream''"

definition CONFIGFS_ROOTS :: "node \<Rightarrow> string list" where
  "CONFIGFS_ROOTS e =
     (case configfs_override e of Some p \<Rightarrow> if p = [] then [] else [p] | None \<Rightarrow> [])
     @ [''/sys/kernel/config/thunderbolt/stream'', ''/sys/kernel/config/thunderbolt'',
        ''/sys/kernel/config/thunderbolt_stream'']"

section \<open>Paths\<close>

definition basename :: "string \<Rightarrow> string" where
  "basename p = (case cut_last (CHR ''/'') p of None \<Rightarrow> p | Some (_, b) \<Rightarrow> b)"

text \<open>The part up to the last slash, without its trailing slashes unless it has nothing else.\<close>

definition dirname :: "string \<Rightarrow> string" where
  "dirname p =
     (case cut_last (CHR ''/'') p of None \<Rightarrow> []
      | Some (a, _) \<Rightarrow>
          let h = rev (dropWhile (\<lambda>c. c = CHR ''/'') (rev a)) in if h = [] then a @ ''/'' else h)"

definition read_attr :: "node \<Rightarrow> string \<Rightarrow> string option" where
  "read_attr e p = map_option strip (content e p)"

section \<open>Addresses\<close>

definition octet :: "string \<Rightarrow> nat option" where
  "octet s =
     (if isdigit s \<and> length s \<le> 3 \<and> (length s = 1 \<or> hd s \<noteq> CHR ''0'') \<and> int_of_digits s \<le> 255
      then Some (int_of_digits s) else None)"

text \<open>\<open>ipaddress.ip_address\<close> of a dotted IPv4 address; the program only asks for IPv4 rows.\<close>

definition ip_address :: "string \<Rightarrow> nat list option" where
  "ip_address s =
     (let parts = map octet (split_on (CHR ''.'') s)
      in if length parts = 4 \<and> None \<notin> set parts then Some (map the parts) else None)"

text \<open>Whether an address lies in \<open>10.99.0.0/30\<close>.\<close>

definition in_rail_net :: "string \<Rightarrow> bool" where
  "in_rail_net s =
     (case ip_address s of Some [a, b, c, d] \<Rightarrow> a = 10 \<and> b = 99 \<and> c = 0 \<and> d < 4 | _ \<Rightarrow> False)"

definition addr_row :: "string \<Rightarrow> (string \<times> string) option" where
  "addr_row line =
     (let fields = split_ws line
      in if length fields < 4 \<or> fields ! 2 \<noteq> ''inet'' then None
         else let a = hd (split_on (CHR ''/'') (fields ! 3))
              in if ip_address a = None then None else Some (fields ! 1, a))"

definition ipv4_addr_lines :: "node \<Rightarrow> (string \<times> string) list" where
  "ipv4_addr_lines e = List.map_filter addr_row (splitlines (addr_show e))"

definition local_addresses :: "node \<Rightarrow> string set" where
  "local_addresses e = snd ` set (ipv4_addr_lines e)"

definition netdev_addresses :: "node \<Rightarrow> string \<Rightarrow> string list" where
  "netdev_addresses e dev = map snd (filter (\<lambda>(n, a). n = dev) (ipv4_addr_lines e))"

definition rail_netdev :: "node \<Rightarrow> (string \<times> string) ures" where
  "rail_netdev e =
     (case find (\<lambda>(d, a). in_rail_net a) (ipv4_addr_lines e) of
        None \<Rightarrow> raised (Resolve_error ''no netdev carries a 10.99.0.0/30 address'' False) | Some r \<Rightarrow> returned r)"

definition thunderbolt_netdevs :: "node \<Rightarrow> string list" where
  "thunderbolt_netdevs e =
     (case listing e ''/sys/class/net'' of Inl _ \<Rightarrow> []
      | Inr names \<Rightarrow> filter (\<lambda>n.
          let service = os_join (os_join ''/sys/class/net'' n) ''device''
          in path_exists e service \<and> read_attr e (os_join service ''key'') = Some ''network'')
          (sort names))"

definition net_attr :: "node \<Rightarrow> string \<Rightarrow> string \<Rightarrow> string option" where
  "net_attr e dev a = read_attr e (''/sys/class/net/'' @ dev @ ''/'' @ a)"

definition has_carrier :: "node \<Rightarrow> string \<Rightarrow> bool" where
  "has_carrier e dev = (net_attr e dev ''carrier'' = Some ''1'')"

definition hardware_address :: "node \<Rightarrow> string \<Rightarrow> string option" where
  "hardware_address e dev = net_attr e dev ''address''"

text \<open>The first \<open>domainN\<close> of a path and the component before it.\<close>

fun find_domain :: "string option \<Rightarrow> string list \<Rightarrow> string option \<times> string option" where
  "find_domain before [] = (None, None)"
| "find_domain before (p # ps) =
     (if startswith p ''domain'' \<and> isdigit (drop 6 p) then (Some p, before)
      else find_domain (Some p) ps)"

definition router_identity :: "node \<Rightarrow> string \<Rightarrow> string option \<times> string option" where
  "router_identity e path = find_domain None (split_on (CHR ''/'') (realpath e path))"

definition cable_netdev :: "node \<Rightarrow> cable \<Rightarrow> (string \<times> string) ures" where
  "cable_netdev e cable =
     res_bind (rail_netdev e) (\<lambda>(rail, rail_addr).
       case cable of Cable_A \<Rightarrow> returned (rail, rail_addr)
       | Cable_B \<Rightarrow>
           (case filter (\<lambda>d. d \<noteq> rail \<and> has_carrier e d) (thunderbolt_netdevs e) of
              [] \<Rightarrow> raised (Resolve_error (''cable '' @ cable_label cable @ '': no Thunderbolt netdev besides '' @ rail
                @ '' has a carrier, so there is no second cable to bench on this node'') False)
            | [other] \<Rightarrow>
                (case netdev_addresses e other of
                   [] \<Rightarrow> raised (Resolve_error (''cable '' @ cable_label cable @ '': '' @ other
                     @ '' carries no IPv4 address, so its wire peer cannot be established without opening the device'') False)
                 | a # _ \<Rightarrow> returned (other, a))
            | others \<Rightarrow> raised (Resolve_error (''cable '' @ cable_label cable @ '' is ambiguous: '' @ str_nat (length others)
                @ '' carriered Thunderbolt netdevs besides '' @ rail @ '' ('' @ join '', '' others
                @ ''); refusing to guess which cable was meant'') False)))"

definition rail_peer_address :: "string \<Rightarrow> string" where
  "rail_peer_address addr =
     (let octets = split_on (CHR ''.'') addr
      in join ''.'' (butlast octets @ [if last octets = ''1'' then ''2'' else ''1'']))"

section \<open>Neighbours\<close>

definition upper_char :: "char \<Rightarrow> bool" where
  "upper_char c \<longleftrightarrow> (let n = (of_char c :: nat) in 65 \<le> n \<and> n \<le> 90)"

definition lower_letter :: "char \<Rightarrow> bool" where
  "lower_letter c \<longleftrightarrow> (let n = (of_char c :: nat) in 97 \<le> n \<and> n \<le> 122)"

definition isupper :: "string \<Rightarrow> bool" where
  "isupper s \<longleftrightarrow> list_ex upper_char s \<and> \<not> list_ex lower_letter s"

text \<open>The value after the first occurrence of a key; \<open>IndexError\<close> when the key is last.\<close>

fun value_after :: "string \<Rightarrow> string list \<Rightarrow> string option ures" where
  "value_after k [] = returned None"
| "value_after k [x] = (if x = k then raised No_errno else returned None)"
| "value_after k (x # y # xs) = (if x = k then returned (Some y) else value_after k (y # xs))"

definition neighbour_row ::
  "string \<Rightarrow> (string \<times> string option \<times> string option) option ures" where
  "neighbour_row line =
     (case split_ws line of [] \<Rightarrow> returned None
      | f # fs \<Rightarrow>
          if ip_address f = None then returned None
          else res_bind (value_after ''lladdr'' (f # fs)) (\<lambda>ll.
            let l = last (f # fs) in returned (Some (f, ll, if isupper l then Some l else None))))"

definition neighbours :: "node \<Rightarrow> string \<Rightarrow> (string \<times> string option \<times> string option) list ures" where
  "neighbours e dev =
     res_bind (res_seq (map neighbour_row (splitlines (neigh_show e dev)))) (\<lambda>rows.
       returned (List.map_filter id rows))"

definition dead_state :: "string option \<Rightarrow> bool" where
  "dead_state s \<longleftrightarrow> s = Some ''FAILED'' \<or> s = Some ''INCOMPLETE''"

text \<open>A missing or empty text counts as absent.\<close>

definition given :: "string option \<Rightarrow> bool" where
  "given s \<longleftrightarrow> s \<noteq> None \<and> s \<noteq> Some []"

definition peer_address :: "node \<Rightarrow> string \<Rightarrow> string \<Rightarrow> cable \<Rightarrow> string option ures" where
  "peer_address e dev addr cable =
     (if cable = Cable_A \<and> in_rail_net addr then returned (Some (rail_peer_address addr))
      else res_bind (neighbours e dev) (\<lambda>rows.
        returned (map_option fst (find (\<lambda>(c, ll, st).
          c \<notin> local_addresses e \<and> given ll \<and> \<not> dead_state st) rows))))"

definition jstr :: "string option \<Rightarrow> json" where
  "jstr s = (case s of None \<Rightarrow> JNull | Some t \<Rightarrow> JStr t)"

text \<open>\<open>d.get(k)\<close>: a missing key reads as \<open>None\<close>.\<close>

definition get_key :: "(string \<times> json) list \<Rightarrow> string \<Rightarrow> json" where
  "get_key d k = (case map_of d k of None \<Rightarrow> JNull | Some v \<Rightarrow> v)"

text \<open>The report of the reachability check; its key \<open>reachable\<close> is the verdict.\<close>

definition peer_reachable :: "node \<Rightarrow> string \<Rightarrow> string option \<Rightarrow> string option \<Rightarrow> (string \<times> json) list ures" where
  "peer_reachable e dev peer own_hwaddr =
     (let base = [(''netdev'', JStr dev), (''peer'', jstr peer), (''reachable'', JBool False)];
          failed = (\<lambda>d msg. returned (d @ [(''error'', JStr msg)]))
      in if \<not> given peer then failed base (''no peer address could be established on '' @ dev)
         else let p = the peer in
           if p \<in> local_addresses e
           then failed base (''candidate peer '' @ p
                  @ '' is an address of THIS node; refusing a self-satisfying reachability check'')
           else
             let pong = ping_answers e dev p; base1 = base @ [(''ping'', JBool pong)]
             in res_bind (neighbours e dev) (\<lambda>rows.
                  case find (\<lambda>(a, ll, st). a = p) rows of
                    None \<Rightarrow> failed base1 (p @ '' has no neighbour entry on '' @ dev)
                  | Some (_, ll, st) \<Rightarrow>
                      let base2 = base1 @ [(''neigh_lladdr'', jstr ll), (''neigh_state'', jstr st)]
                      in if \<not> given ll then failed base2 (p @ '' resolved to no link-layer address on '' @ dev)
                         else if given own_hwaddr \<and> ll = own_hwaddr
                         then failed base2 (p @ '' resolves to this interface's OWN link-layer address '' @ the ll
                                @ ''; that is not a peer'')
                         else if dead_state st
                         then failed base2 (p @ '' neighbour state on '' @ dev @ '' is '' @ the st)
                         else if pong then returned (dput base2 ''reachable'' (JBool True))
                         else failed base2 (''ping to '' @ p @ '' bound to '' @ dev @ '' did not answer'')))"

definition peer_answers :: "node \<Rightarrow> string \<Rightarrow> string option \<Rightarrow> string option \<Rightarrow> bool ures" where
  "peer_answers e dev peer own_hwaddr =
     res_bind (peer_reachable e dev peer own_hwaddr) (\<lambda>d. returned (truthy (get_key d ''reachable'')))"

lemma peer_answers_iff:
  "peer_answers e dev peer own_hwaddr = returned True \<longleftrightarrow>
     (\<exists>d. peer_reachable e dev peer own_hwaddr = returned d \<and> truthy (get_key d ''reachable''))"
  by (auto simp: peer_answers_def res_bind_Inr_iff)

lemma peer_answers_verdict:
  "peer_answers e dev peer own_hwaddr =
     (if \<not> given peer then returned False
      else let p = the peer in
        if p \<in> local_addresses e then returned False
        else let pong = ping_answers e dev p
             in res_bind (neighbours e dev) (\<lambda>rows.
                  case find (\<lambda>(a, ll, st). a = p) rows of
                    None \<Rightarrow> returned False
                  | Some (_, ll, st) \<Rightarrow>
                      if \<not> given ll then returned False
                      else if given own_hwaddr \<and> ll = own_hwaddr then returned False
                      else if dead_state st then returned False
                      else returned pong))"
  unfolding peer_answers_def peer_reachable_def Let_def
  by (cases "neighbours e dev") (auto simp: get_key_def split: option.split)

section \<open>The chain\<close>

definition stream_service :: "node \<Rightarrow> string \<Rightarrow> (string \<times> string) ures" where
  "stream_service e rail =
     (let link = ''/sys/class/net/'' @ rail @ ''/device'' in
      if \<not> path_exists e link then raised (Resolve_error (link @ '' does not exist'') False)
      else let xdomain = dirname (realpath e link) in
        if \<not> path_isdir e xdomain
        then raised (Resolve_error (''parent xdomain '' @ xdomain @ '' is not a directory'') False)
        else (case listing e xdomain of Inl n \<Rightarrow> raised (Errno n)
              | Inr entries \<Rightarrow>
                  (case find (\<lambda>c. path_isdir e c \<and> read_attr e (os_join c ''key'') = Some ''stream'')
                          (map (os_join xdomain) (sort entries)) of
                     None \<Rightarrow> raised (Resolve_error (''no sibling service with key=stream under '' @ xdomain) False)
                   | Some c \<Rightarrow> returned (xdomain, c))))"

definition configfs_group :: "node \<Rightarrow> string \<Rightarrow> string \<Rightarrow> string ures" where
  "configfs_group e service_path function =
     (let name = basename service_path;
          tried = map (\<lambda>r. os_join (os_join r name) function) (CONFIGFS_ROOTS e)
      in case find (path_isdir e) tried of
           None \<Rightarrow> raised (Resolve_error (function @ '' configfs group absent for service '' @ name
             @ '' (looked under: '' @ join '', '' tried @ '')'') True)
         | Some g \<Rightarrow> returned g)"

record resolution =
  r_cable :: cable
  r_function :: string
  r_rail :: string
  r_rail_addr :: string
  r_hwaddr :: "string option"
  r_peer_addr :: "string option"
  r_xdomain :: string
  r_service :: string
  r_domain :: "string option"
  r_nhi :: "string option"
  r_group :: string
  r_index :: nat
  r_dev :: string
  r_in_hopid :: "string option"
  r_out_hopid :: "string option"
  r_ring_size :: "string option"
  r_throttling :: "string option"

definition resolve_stream_device :: "node \<Rightarrow> cable \<Rightarrow> string \<Rightarrow> resolution ures" where
  "resolve_stream_device e cable function =
     res_bind (cable_netdev e cable) (\<lambda>(rail, addr).
     res_bind (stream_service e rail) (\<lambda>(xdomain, service).
     res_bind (configfs_group e service function) (\<lambda>group.
       case read_attr e (os_join group ''index'') of
         None \<Rightarrow> raised (Resolve_error (group @ ''/index is unreadable or not an index'') True)
       | Some index \<Rightarrow>
           if \<not> isdigit index then raised (Resolve_error (group @ ''/index is unreadable or not an index'') True)
           else let (dom', nhi) = router_identity e service in
             res_bind (peer_address e rail addr cable) (\<lambda>peer.
               returned \<lparr>r_cable = cable, r_function = function, r_rail = rail, r_rail_addr = addr,
                 r_hwaddr = hardware_address e rail, r_peer_addr = peer, r_xdomain = xdomain,
                 r_service = service, r_domain = dom', r_nhi = nhi, r_group = group,
                 r_index = int_of_digits index, r_dev = DEVICE_PREFIX @ index,
                 r_in_hopid = read_attr e (os_join group ''in_hopid''),
                 r_out_hopid = read_attr e (os_join group ''out_hopid''),
                 r_ring_size = read_attr e (os_join group ''ring_size''),
                 r_throttling = read_attr e (os_join group ''throttling'')\<rparr>))))"

section \<open>The anti-wedge guard\<close>

text \<open>The dictionary that a resolution is, as the probe prints it.\<close>

definition resolution_dict :: "resolution \<Rightarrow> (string \<times> json) list" where
  "resolution_dict r =
     [(''cable'', JStr (cable_label (r_cable r))), (''function'', JStr (r_function r)),
      (''rail'', JStr (r_rail r)), (''rail_addr'', JStr (r_rail_addr r)),
      (''hwaddr'', jstr (r_hwaddr r)), (''peer_addr'', jstr (r_peer_addr r)),
      (''xdomain'', JStr (r_xdomain r)), (''service'', JStr (r_service r)),
      (''domain'', jstr (r_domain r)), (''nhi'', jstr (r_nhi r)),
      (''configfs_group'', JStr (r_group r)), (''index'', JInt (int (r_index r))),
      (''dev'', JStr (r_dev r)), (''in_hopid'', jstr (r_in_hopid r)),
      (''out_hopid'', jstr (r_out_hopid r)), (''ring_size'', jstr (r_ring_size r)),
      (''throttling'', jstr (r_throttling r))]"

datatype disagreement =
    Probe_failed
  | Label_mismatch
  | Interlock_unverifiable string string
  | Interlock_broken string string
  | Our_peer_is_not_theirs
  | Their_peer_is_not_ours

fun interlock :: "(string \<times> json) list \<Rightarrow> (string \<times> json) list \<Rightarrow> (string \<times> string) list \<Rightarrow> disagreement option" where
  "interlock local probe [] = None"
| "interlock local probe ((mk, tk) # ks) =
     (let mine = get_key local mk; theirs = get_key probe tk
      in if mine = JNull \<or> theirs = JNull then Some (Interlock_unverifiable mk tk)
         else if \<not> py_eq mine theirs then Some (Interlock_broken mk tk)
         else interlock local probe ks)"

definition cable_disagreement ::
  "(string \<times> json) list \<Rightarrow> (string \<times> json) list \<Rightarrow> disagreement option" where
  "cable_disagreement local probe =
     (if \<not> truthy (get_key probe ''ok'') then Some Probe_failed
      else if \<not> py_eq (get_key probe ''cable'') (get_key local ''cable'') then Some Label_mismatch
      else case interlock local probe [(''out_hopid'', ''in_hopid''), (''in_hopid'', ''out_hopid'')] of
          Some d \<Rightarrow> Some d
        | None \<Rightarrow>
            if truthy (get_key local ''peer_addr'') \<and> truthy (get_key probe ''rail_addr'') \<and>
               \<not> py_eq (get_key local ''peer_addr'') (get_key probe ''rail_addr'')
            then Some Our_peer_is_not_theirs
            else if truthy (get_key probe ''peer_addr'') \<and> truthy (get_key local ''rail_addr'') \<and>
               \<not> py_eq (get_key probe ''peer_addr'') (get_key local ''rail_addr'')
            then Some Their_peer_is_not_ours
            else None)"

text \<open>
  The text of a disagreement; \<open>show\<close> is \<open>str\<close> of a JSON value.
\<close>

fun disagreement_text :: "(json \<Rightarrow> string) \<Rightarrow> (string \<times> json) list \<Rightarrow> (string \<times> json) list \<Rightarrow> disagreement \<Rightarrow> string" where
  "disagreement_text show local probe Probe_failed = ''peer probe did not resolve a device''"
| "disagreement_text show local probe Label_mismatch =
     ''cable label mismatch: this node resolved cable '' @ show (get_key local ''cable'')
     @ '', the peer resolved cable '' @ show (get_key probe ''cable'')"
| "disagreement_text show local probe (Interlock_unverifiable mk tk) =
     ''hopid interlock unverifiable: local '' @ mk @ ''='' @ show (get_key local mk)
     @ '', peer '' @ tk @ ''='' @ show (get_key probe tk)"
| "disagreement_text show local probe (Interlock_broken mk tk) =
     ''hopid interlock broken: local '' @ mk @ ''='' @ show (get_key local mk)
     @ '' against peer '' @ tk @ ''='' @ show (get_key probe tk) 
     @ '' '' @ em_dash @ '' the two ends are not on the same path''"
| "disagreement_text show local probe Our_peer_is_not_theirs =
     ''wire peer mismatch: this node's peer is '' @ show (get_key local ''peer_addr'')
     @ '' but the probing node's netdev holds '' @ show (get_key probe ''rail_addr'')"
| "disagreement_text show local probe Their_peer_is_not_ours =
     ''wire peer mismatch: the peer's peer is '' @ show (get_key probe ''peer_addr'')
     @ '' but this node's netdev holds '' @ show (get_key local ''rail_addr'')"

section \<open>The probe\<close>

text \<open>What \<open>--role probe\<close> prints on a node, or the exception that escapes it.\<close>

definition run_probe :: "node \<Rightarrow> string \<Rightarrow> cable \<Rightarrow> string \<Rightarrow> (string \<times> json) list ures" where
  "run_probe e host cable function =
     (let base = [(''ok'', JBool False), (''host'', JStr host), (''cable'', JStr (cable_label cable)),
                  (''function'', JStr function)]
      in case resolve_stream_device e cable function of
           Inl (Resolve_error msg configfs) \<Rightarrow>
             returned (base @ [(''error'', JStr msg), (''configfs_missing'', JBool configfs)])
         | Inl x \<Rightarrow> raised x
         | Inr r \<Rightarrow>
             res_bind (peer_reachable e (r_rail r) (r_peer_addr r) (r_hwaddr r)) (\<lambda>reach.
               returned (dput (dput (fold (\<lambda>(k, v) d. dput d k v) (resolution_dict r) base)
                   ''peer_reachable'' (JObj reach)) ''ok'' (JBool True))))"

section \<open>What the chain promises\<close>

text \<open>
  The two labels never select the same netdev: cable A is the netdev with the rail address,
  cable B is the only other Thunderbolt netdev with a carrier.
\<close>

theorem cables_distinct:
  assumes "cable_netdev e Cable_A = returned (a, x)" and "cable_netdev e Cable_B = returned (b, y)"
  shows "in_rail_net x \<and> a \<noteq> b \<and> (b, y) \<in> set (ipv4_addr_lines e) \<and>
    (\<forall>d \<in> set (thunderbolt_netdevs e). d \<noteq> a \<and> has_carrier e d \<longleftrightarrow> d = b) \<and>
    b \<in> set (thunderbolt_netdevs e)"
proof -
  have rail: "rail_netdev e = returned (a, x)"
    using assms(1) by (auto simp: cable_netdev_def res_bind_Inr_iff)
  have "in_rail_net x"
    using rail by (auto simp: rail_netdev_def find_Some_iff split: option.splits)
  moreover have f: "filter (\<lambda>d. d \<noteq> a \<and> has_carrier e d) (thunderbolt_netdevs e) = [b]"
    and "\<exists>as. netdev_addresses e b = y # as"
    using assms(2) rail by (auto simp: cable_netdev_def split: list.splits)
  then have "y \<in> set (netdev_addresses e b)" by auto
  then have "(b, y) \<in> set (ipv4_addr_lines e)" by (auto simp: netdev_addresses_def)
  moreover have "b \<in> set (filter (\<lambda>d. d \<noteq> a \<and> has_carrier e d) (thunderbolt_netdevs e))" by (simp add: f)
  moreover have "d = b" if "d \<in> set (thunderbolt_netdevs e)" "d \<noteq> a" "has_carrier e d" for d
  proof -
    have "d \<in> set (filter (\<lambda>d. d \<noteq> a \<and> has_carrier e d) (thunderbolt_netdevs e))" using that by simp
    then show ?thesis by (simp add: f)
  qed
  ultimately show ?thesis by auto
qed

text \<open>
  When the reachability check passes, a different machine answered: the peer is no address of
  this node, a ping bound to the netdev came back, and the neighbour table of that netdev holds the
  peer with a link-layer address that is not the netdev's own and is not stale beyond use.
\<close>

theorem peer_is_another_machine:
  assumes "peer_answers e dev peer own_hwaddr = returned True"
  shows "\<exists>p rows ll st. peer = Some p \<and> p \<noteq> [] \<and> p \<notin> local_addresses e \<and> ping_answers e dev p \<and>
    neighbours e dev = returned rows \<and> (p, Some ll, st) \<in> set rows \<and> ll \<noteq> [] \<and>
    own_hwaddr \<noteq> Some ll \<and> \<not> dead_state st"
proof -
  from assms obtain p where p: "peer = Some p" "p \<noteq> []"
    by (cases peer) (auto simp: peer_answers_verdict given_def split: if_splits)
  have l: "p \<notin> local_addresses e"
    using assms p by (auto simp: peer_answers_verdict given_def Let_def split: if_splits)
  obtain rows where rows: "neighbours e dev = returned rows"
    using assms p l by (auto simp: peer_answers_verdict given_def Let_def res_bind_Inr_iff)
  then obtain a ll st where f: "find (\<lambda>(a, ll, st). a = p) rows = Some (a, ll, st)"
    using assms p l by (cases "find (\<lambda>(a, ll, st). a = p) rows")
      (auto simp: peer_answers_verdict given_def Let_def)
  then have in_rows: "(p, ll, st) \<in> set rows" by (auto simp: find_Some_iff in_set_conv_nth)
  have "given ll \<and> \<not> (given own_hwaddr \<and> ll = own_hwaddr) \<and> \<not> dead_state st \<and> ping_answers e dev p"
    using assms p l rows f by (auto simp: peer_answers_verdict given_def Let_def split: if_splits)
  then show ?thesis using p l rows in_rows by (auto simp: given_def)
qed

lemma py_eq_jstr: "py_eq (jstr a) (jstr b) \<longleftrightarrow> a = b"
  by (auto simp: jstr_def split: option.splits)

lemma jstr_JNull [simp]: "jstr a = JNull \<longleftrightarrow> a = None"
  by (auto simp: jstr_def split: option.splits)

lemma jstr_JStr [simp]: "jstr a = JStr s \<longleftrightarrow> a = Some s"
  by (auto simp: jstr_def split: option.splits)

lemma truthy_jstr [simp]: "truthy (jstr a) \<longleftrightarrow> given a"
  by (auto simp: jstr_def given_def split: option.splits)

lemma py_eq_jstr_JStr [simp]: "py_eq (jstr a) (JStr s) \<longleftrightarrow> a = Some s" "py_eq (JStr s) (jstr a) \<longleftrightarrow> a = Some s"
  by (auto simp: jstr_def split: option.splits)

lemma cable_label_inject [simp]: "cable_label c = cable_label d \<longleftrightarrow> c = d"
  by (cases c; cases d) auto

lemma resolution_keys [simp]:
  "get_key (resolution_dict r) ''cable'' = JStr (cable_label (r_cable r))"
  "get_key (resolution_dict r) ''in_hopid'' = jstr (r_in_hopid r)"
  "get_key (resolution_dict r) ''out_hopid'' = jstr (r_out_hopid r)"
  "get_key (resolution_dict r) ''rail_addr'' = JStr (r_rail_addr r)"
  "get_key (resolution_dict r) ''peer_addr'' = jstr (r_peer_addr r)"
  by (simp_all add: get_key_def resolution_dict_def)

definition probe_dict :: "string \<Rightarrow> string \<Rightarrow> resolution \<Rightarrow> (string \<times> json) list \<Rightarrow> (string \<times> json) list" where
  "probe_dict host function r reach =
     dput (dput (fold (\<lambda>(k, v) d. dput d k v) (resolution_dict r)
       [(''ok'', JBool False), (''host'', JStr host), (''cable'', JStr (cable_label (r_cable r))),
        (''function'', JStr function)])
       ''peer_reachable'' (JObj reach)) ''ok'' (JBool True)"

lemma probe_keys [simp]:
  "get_key (probe_dict host f r reach) ''ok'' = JBool True"
  "get_key (probe_dict host f r reach) ''cable'' = JStr (cable_label (r_cable r))"
  "get_key (probe_dict host f r reach) ''in_hopid'' = jstr (r_in_hopid r)"
  "get_key (probe_dict host f r reach) ''out_hopid'' = jstr (r_out_hopid r)"
  "get_key (probe_dict host f r reach) ''rail_addr'' = JStr (r_rail_addr r)"
  "get_key (probe_dict host f r reach) ''peer_addr'' = jstr (r_peer_addr r)"
  "get_key (probe_dict host f r reach) ''dev'' = JStr (r_dev r)"
  by (simp_all add: get_key_def probe_dict_def resolution_dict_def map_of_dput)

lemma resolve_cable: "resolve_stream_device e c f = returned r \<Longrightarrow> r_cable r = c"
  by (auto simp: resolve_stream_device_def res_bind_Inr_iff Let_def split_beta split: option.splits if_splits)

lemma resolve_dev: "resolve_stream_device e c f = returned r \<Longrightarrow> r_dev r \<noteq> []"
proof -
  assume r: "resolve_stream_device e c f = returned r"
  then obtain index where "r_dev r = DEVICE_PREFIX @ index"
    by (auto simp: resolve_stream_device_def res_bind_Inr_iff Let_def split_beta split: option.splits if_splits)
  then show "r_dev r \<noteq> []" by (simp add: DEVICE_PREFIX_def)
qed

lemma run_probe_cases:
  assumes "run_probe e host c f = returned probe"
  shows "(\<exists>x. resolve_stream_device e c f = raised x \<and> \<not> truthy (get_key probe ''ok'')) \<or>
    (\<exists>r reach. resolve_stream_device e c f = returned r \<and> probe = probe_dict host f r reach)"
proof (cases "resolve_stream_device e c f")
  case (Inl x)
  then show ?thesis
    using assms by (cases x) (auto simp: run_probe_def Let_def get_key_def)
next
  case (Inr r)
  then show ?thesis
    using assms resolve_cable [OF Inr]
    by (auto simp: run_probe_def Let_def probe_dict_def res_bind_Inr_iff)
qed

text \<open>
  C11: The anti-wedge guard accepts a probe of the other node exactly when that node resolved a
  device on the same cable, the hop ids interlock both ways, and neither end names a wire peer
  that is not the other's address.
\<close>

theorem guard_accepts_iff:
  assumes "run_probe e host c f = returned probe"
  shows "cable_disagreement (resolution_dict l) probe = None \<longleftrightarrow>
    (\<exists>r. resolve_stream_device e c f = returned r \<and> r_cable r = r_cable l \<and>
       r_out_hopid l \<noteq> None \<and> r_out_hopid l = r_in_hopid r \<and>
       r_in_hopid l \<noteq> None \<and> r_in_hopid l = r_out_hopid r \<and>
       (given (r_peer_addr l) \<and> r_rail_addr r \<noteq> [] \<longrightarrow> r_peer_addr l = Some (r_rail_addr r)) \<and>
       (given (r_peer_addr r) \<and> r_rail_addr l \<noteq> [] \<longrightarrow> r_peer_addr r = Some (r_rail_addr l)))"
  using run_probe_cases [OF assms]
proof (elim disjE exE conjE)
  fix x assume "resolve_stream_device e c f = raised x" "\<not> truthy (get_key probe ''ok'')"
  then show ?thesis by (simp add: cable_disagreement_def)
next
  fix r reach assume "resolve_stream_device e c f = returned r" and p: "probe = probe_dict host f r reach"
  then show ?thesis
    unfolding p by (auto simp: cable_disagreement_def py_eq_jstr Let_def split: if_splits)
qed

end
