(* ===== verification/ByteChannel.thy ===== *)
theory ByteChannel
  imports Main
begin

text \<open>
  Two programs that write to and read from each other over two byte channels, each channel holding
  at most \<open>cap\<close> bytes that are not yet read. A step is one system call that moves at least one
  byte: a write offers at most \<open>chunk\<close> bytes at a time and may be told that only a part was taken,
  a read takes what is there. A side that cannot move a byte blocks. The locale is the contract of
  a pair of programs that complete: no run of them gets stuck, and every run ends with both done and
  nothing left in the channels.
\<close>

section \<open>Programs\<close>

text \<open>One call of \<open>write_all\<close> or \<open>read_exact\<close>, with the bytes it still has to move.\<close>

datatype io_op = Write nat | Read nat

definition repeat_ops :: "nat \<Rightarrow> 'a list \<Rightarrow> 'a list" where
  "repeat_ops n ops = concat (replicate n ops)"

section \<open>The channels\<close>

text \<open>
  What is left of both programs, and the bytes in flight from the coordinator to the peer and
  back. A call that has moved all its bytes is gone.
\<close>

record wire =
  left_c :: "io_op list"
  left_p :: "io_op list"
  to_peer :: nat
  to_coord :: nat

definition rest_write :: "nat \<Rightarrow> io_op list \<Rightarrow> io_op list" where
  "rest_write n ops = (if n = 0 then ops else Write n # ops)"

definition rest_read :: "nat \<Rightarrow> io_op list \<Rightarrow> io_op list" where
  "rest_read n ops = (if n = 0 then ops else Read n # ops)"

text \<open>
  One system call. \<open>k\<close> is what the kernel takes or gives: at least a byte, at most what is
  offered (at most \<open>chunk\<close> at a time), what fits or what is there.
\<close>

inductive channel_step :: "nat \<Rightarrow> nat \<Rightarrow> wire \<Rightarrow> wire \<Rightarrow> bool" for chunk cap :: nat where
  coord_write:
    "left_c s = Write n # ops \<Longrightarrow> 0 < k \<Longrightarrow> k \<le> min n chunk \<Longrightarrow> to_peer s + k \<le> cap \<Longrightarrow>
     channel_step chunk cap s (s\<lparr>left_c := rest_write (n - k) ops, to_peer := to_peer s + k\<rparr>)"
| coord_read:
    "left_c s = Read n # ops \<Longrightarrow> 0 < k \<Longrightarrow> k \<le> n \<Longrightarrow> k \<le> to_coord s \<Longrightarrow>
     channel_step chunk cap s (s\<lparr>left_c := rest_read (n - k) ops, to_coord := to_coord s - k\<rparr>)"
| peer_write:
    "left_p s = Write n # ops \<Longrightarrow> 0 < k \<Longrightarrow> k \<le> min n chunk \<Longrightarrow> to_coord s + k \<le> cap \<Longrightarrow>
     channel_step chunk cap s (s\<lparr>left_p := rest_write (n - k) ops, to_coord := to_coord s + k\<rparr>)"
| peer_read:
    "left_p s = Read n # ops \<Longrightarrow> 0 < k \<Longrightarrow> k \<le> n \<Longrightarrow> k \<le> to_peer s \<Longrightarrow>
     channel_step chunk cap s (s\<lparr>left_p := rest_read (n - k) ops, to_peer := to_peer s - k\<rparr>)"

definition finished :: "wire \<Rightarrow> bool" where
  "finished s \<longleftrightarrow> left_c s = [] \<and> left_p s = []"

definition start_wire :: "io_op list \<Rightarrow> io_op list \<Rightarrow> wire" where
  "start_wire c p = \<lparr>left_c = c, left_p = p, to_peer = 0, to_coord = 0\<rparr>"

text \<open>Bytes still to be moved: every step moves some of them.\<close>

fun op_bytes :: "io_op \<Rightarrow> nat" where
  "op_bytes (Write n) = n"
| "op_bytes (Read n) = n"

definition bytes_left :: "wire \<Rightarrow> nat" where
  "bytes_left s = sum_list (map op_bytes (left_c s)) + sum_list (map op_bytes (left_p s))"

section \<open>Byte by byte\<close>

text \<open>
  The same programs cut into single bytes: \<open>True\<close> for a byte written, \<open>False\<close> for one read. The
  steps of single bytes commute, so all runs end alike.
\<close>

definition units :: "io_op list \<Rightarrow> bool list" where
  "units ops = concat (map (\<lambda>op. case op of Write n \<Rightarrow> replicate n True | Read n \<Rightarrow> replicate n False) ops)"

type_synonym bwire = "bool list \<times> bool list \<times> nat \<times> nat"

inductive byte_step :: "nat \<Rightarrow> bwire \<Rightarrow> bwire \<Rightarrow> bool" for cap :: nat where
  "a < cap \<Longrightarrow> byte_step cap (True # c, p, a, b) (c, p, Suc a, b)"
| "byte_step cap (False # c, p, a, Suc b) (c, p, a, b)"
| "b < cap \<Longrightarrow> byte_step cap (c, True # p, a, b) (c, p, a, Suc b)"
| "byte_step cap (c, False # p, Suc a, b) (c, p, a, b)"

inductive_cases byte_stepE: "byte_step cap (c, p, a, b) s"

abbreviation byte_steps :: "nat \<Rightarrow> bwire \<Rightarrow> bwire \<Rightarrow> bool" where
  "byte_steps cap \<equiv> (byte_step cap)\<^sup>*\<^sup>*"

definition bytes_of_wire :: "wire \<Rightarrow> bwire" where
  "bytes_of_wire s = (units (left_c s), units (left_p s), to_peer s, to_coord s)"

text \<open>Two different steps of one state lead to states with a common successor.\<close>

lemma byte_step_diamond:
  assumes "byte_step cap s t" "byte_step cap s u"
  shows "t = u \<or> (\<exists>v. byte_step cap t v \<and> byte_step cap u v)"
  using assms
  by (elim byte_step.cases; clarsimp; (meson byte_step.intros less_SucI Suc_less_eq Suc_lessD)?)

lemma byte_steps_to_normal:
  assumes "byte_steps cap s v" "\<And>w. \<not> byte_step cap v w" "byte_step cap s t"
  shows "byte_steps cap t v"
  using assms(1,3)
proof (induction arbitrary: t rule: converse_rtranclp_induct)
  case base
  then show ?case using assms(2) by blast
next
  case (step s u)
  from byte_step_diamond [OF step.hyps(1) step.prems] show ?case
  proof
    assume "u = t"
    then show ?thesis using step.hyps(2) by simp
  next
    assume "\<exists>w. byte_step cap u w \<and> byte_step cap t w"
    then obtain w where "byte_step cap u w" "byte_step cap t w" by blast
    then show ?thesis using step.IH by (meson converse_rtranclp_into_rtranclp)
  qed
qed

text \<open>Hence every run can still reach a normal form that one run reaches.\<close>

lemma byte_steps_confluent:
  assumes "byte_steps cap s t" "byte_steps cap s v" "\<And>w. \<not> byte_step cap v w"
  shows "byte_steps cap t v"
  using assms(1,2)
proof (induction rule: converse_rtranclp_induct)
  case (step s u)
  then show ?case using byte_steps_to_normal [OF step.prems assms(3) step.hyps(1)] by blast
qed simp

lemma units_simps [simp]:
  "units [] = []" "units (Write n # ops) = replicate n True @ units ops"
  "units (Read n # ops) = replicate n False @ units ops" "units (ops @ ops') = units ops @ units ops'"
  by (simp_all add: units_def)

lemma units_rest [simp]:
  "units (rest_write n ops) = replicate n True @ units ops"
  "units (rest_read n ops) = replicate n False @ units ops"
  by (simp_all add: rest_write_def rest_read_def)

lemma units_concat: "units (concat xss) = concat (map units xss)"
  by (induction xss) simp_all

lemma units_repeat: "units (repeat_ops k ops) = concat (replicate k (units ops))"
  by (simp add: repeat_ops_def units_concat)

lemma byte_steps_write_c:
  "a + k \<le> cap \<Longrightarrow> byte_steps cap (replicate k True @ c, p, a, b) (c, p, a + k, b)"
proof (induction k arbitrary: a)
  case (Suc k)
  then have "byte_step cap (replicate (Suc k) True @ c, p, a, b) (replicate k True @ c, p, Suc a, b)"
    by (simp add: byte_step.intros)
  moreover have "byte_steps cap (replicate k True @ c, p, Suc a, b) (c, p, Suc a + k, b)"
    using Suc.prems by (intro Suc.IH) simp
  ultimately show ?case by (simp add: converse_rtranclp_into_rtranclp)
qed simp

lemma byte_steps_write_p:
  "b + k \<le> cap \<Longrightarrow> byte_steps cap (c, replicate k True @ p, a, b) (c, p, a, b + k)"
proof (induction k arbitrary: b)
  case (Suc k)
  then have "byte_step cap (c, replicate (Suc k) True @ p, a, b) (c, replicate k True @ p, a, Suc b)"
    by (simp add: byte_step.intros)
  moreover have "byte_steps cap (c, replicate k True @ p, a, Suc b) (c, p, a, Suc b + k)"
    using Suc.prems by (intro Suc.IH) simp
  ultimately show ?case by (simp add: converse_rtranclp_into_rtranclp)
qed simp

lemma byte_steps_read_c:
  "byte_steps cap (replicate k False @ c, p, a, b + k) (c, p, a, b)"
proof (induction k)
  case (Suc k)
  have "byte_step cap (replicate (Suc k) False @ c, p, a, b + Suc k) (replicate k False @ c, p, a, b + k)"
    by (simp add: byte_step.intros)
  then show ?case using Suc by (simp add: converse_rtranclp_into_rtranclp)
qed simp

lemma byte_steps_read_p:
  "byte_steps cap (c, replicate k False @ p, a + k, b) (c, p, a, b)"
proof (induction k)
  case (Suc k)
  have "byte_step cap (c, replicate (Suc k) False @ p, a + Suc k, b) (c, replicate k False @ p, a + k, b)"
    by (simp add: byte_step.intros)
  then show ?case using Suc by (simp add: converse_rtranclp_into_rtranclp)
qed simp

text \<open>Every system call is a run of single bytes.\<close>

lemma io_step_bytes: "channel_step chunk cap s t \<Longrightarrow> byte_steps cap (bytes_of_wire s) (bytes_of_wire t)"
proof (induction rule: channel_step.induct)
  case (coord_write s n ops k)
  then have "units (left_c s) = replicate k True @ units (rest_write (n - k) ops)"
    by (simp flip: append_assoc replicate_add)
  then show ?case using coord_write by (simp add: bytes_of_wire_def byte_steps_write_c)
next
  case (coord_read s n ops k)
  then have "units (left_c s) = replicate k False @ units (rest_read (n - k) ops)"
    by (simp flip: append_assoc replicate_add)
  then show ?case
    using coord_read byte_steps_read_c [of cap k _ _ _ "to_coord s - k"] by (simp add: bytes_of_wire_def)
next
  case (peer_write s n ops k)
  then have "units (left_p s) = replicate k True @ units (rest_write (n - k) ops)"
    by (simp flip: append_assoc replicate_add)
  then show ?case using peer_write by (simp add: bytes_of_wire_def byte_steps_write_p)
next
  case (peer_read s n ops k)
  then have "units (left_p s) = replicate k False @ units (rest_read (n - k) ops)"
    by (simp flip: append_assoc replicate_add)
  then show ?case
    using peer_read byte_steps_read_p [of cap _ k _ "to_peer s - k"] by (simp add: bytes_of_wire_def)
qed

lemma io_steps_bytes:
  "(channel_step chunk cap)\<^sup>*\<^sup>* s t \<Longrightarrow> byte_steps cap (bytes_of_wire s) (bytes_of_wire t)"
  by (induction rule: rtranclp_induct) (auto dest: io_step_bytes)

lemma length_units: "length (units ops) = sum_list (map op_bytes ops)"
proof (induction ops)
  case (Cons op ops)
  then show ?case by (cases op) simp_all
qed simp

lemma bytes_rest [simp]:
  "sum_list (map op_bytes (rest_write n ops)) = n + sum_list (map op_bytes ops)"
  "sum_list (map op_bytes (rest_read n ops)) = n + sum_list (map op_bytes ops)"
  by (simp_all add: rest_write_def rest_read_def)

lemma io_step_less: "channel_step chunk cap s t \<Longrightarrow> bytes_left t < bytes_left s"
  by (induction rule: channel_step.induct) (auto simp: bytes_left_def)

text \<open>No call of the schedule moves zero bytes, and steps keep it so.\<close>

definition proper :: "wire \<Rightarrow> bool" where
  "proper s \<longleftrightarrow> list_all (\<lambda>op. 0 < op_bytes op) (left_c s) \<and> list_all (\<lambda>op. 0 < op_bytes op) (left_p s)"

lemma proper_step: "channel_step chunk cap s t \<Longrightarrow> proper s \<Longrightarrow> proper t"
  by (induction rule: channel_step.induct) (auto simp: proper_def rest_write_def rest_read_def)

lemma proper_steps: "(channel_step chunk cap)\<^sup>*\<^sup>* s t \<Longrightarrow> proper s \<Longrightarrow> proper t"
  by (induction rule: rtranclp_induct) (auto intro: proper_step)

lemma units_True: "units ops = True # bs \<Longrightarrow> list_all (\<lambda>op. 0 < op_bytes op) ops \<Longrightarrow>
    \<exists>n ops'. ops = Write n # ops' \<and> 0 < n \<and> bs = units (rest_write (n - 1) ops')"
proof (cases ops)
  case (Cons op ops')
  assume "units ops = True # bs" "list_all (\<lambda>op. 0 < op_bytes op) ops"
  then show ?thesis by (cases op; cases "op_bytes op") (auto simp: Cons)
qed simp

lemma units_False: "units ops = False # bs \<Longrightarrow> list_all (\<lambda>op. 0 < op_bytes op) ops \<Longrightarrow>
    \<exists>n ops'. ops = Read n # ops' \<and> 0 < n \<and> bs = units (rest_read (n - 1) ops')"
proof (cases ops)
  case (Cons op ops')
  assume "units ops = False # bs" "list_all (\<lambda>op. 0 < op_bytes op) ops"
  then show ?thesis by (cases op; cases "op_bytes op") (auto simp: Cons)
qed simp

text \<open>A byte that can move is a system call that can return.\<close>

lemma byte_step_io:
  assumes "byte_step cap (bytes_of_wire s) v" "proper s" "0 < chunk"
  shows "\<exists>t. channel_step chunk cap s t \<and> bytes_of_wire t = v"
proof -
  have chunk: "1 \<le> min n chunk" if "0 < n" for n
    using that assms(3) by simp
  obtain c p a b where w: "bytes_of_wire s = (c, p, a, b)" by (cases "bytes_of_wire s")
  have pc: "list_all (\<lambda>op. 0 < op_bytes op) (left_c s)" "list_all (\<lambda>op. 0 < op_bytes op) (left_p s)"
    using assms(2) by (simp_all add: proper_def)
  from assms(1)[unfolded w] consider
      (cw) bs where "c = True # bs" "a < cap" "v = (bs, p, Suc a, b)"
    | (cr) bs b' where "c = False # bs" "b = Suc b'" "v = (bs, p, a, b')"
    | (pw) bs where "p = True # bs" "b < cap" "v = (c, bs, a, Suc b)"
    | (pr) bs a' where "p = False # bs" "a = Suc a'" "v = (c, bs, a', b)"
    by (auto elim: byte_step.cases)
  then show ?thesis
  proof cases
    case cw
    then obtain n ops where "left_c s = Write n # ops" "0 < n" "bs = units (rest_write (n - 1) ops)"
      using w units_True [OF _ pc(1)] by (fastforce simp: bytes_of_wire_def)
    then show ?thesis
      using channel_step.coord_write [of s n ops 1 chunk cap] cw w chunk
      by (intro exI [of _ "s\<lparr>left_c := rest_write (n - 1) ops, to_peer := to_peer s + 1\<rparr>"])
        (auto simp: bytes_of_wire_def)
  next
    case cr
    then obtain n ops where "left_c s = Read n # ops" "0 < n" "bs = units (rest_read (n - 1) ops)"
      using w units_False [OF _ pc(1)] by (fastforce simp: bytes_of_wire_def)
    then show ?thesis
      using channel_step.coord_read [of s n ops 1 chunk cap] cr w
      by (intro exI [of _ "s\<lparr>left_c := rest_read (n - 1) ops, to_coord := to_coord s - 1\<rparr>"])
        (auto simp: bytes_of_wire_def)
  next
    case pw
    then obtain n ops where "left_p s = Write n # ops" "0 < n" "bs = units (rest_write (n - 1) ops)"
      using w units_True [OF _ pc(2)] by (fastforce simp: bytes_of_wire_def)
    then show ?thesis
      using channel_step.peer_write [of s n ops 1 chunk cap] pw w chunk
      by (intro exI [of _ "s\<lparr>left_p := rest_write (n - 1) ops, to_coord := to_coord s + 1\<rparr>"])
        (auto simp: bytes_of_wire_def)
  next
    case pr
    then obtain n ops where "left_p s = Read n # ops" "0 < n" "bs = units (rest_read (n - 1) ops)"
      using w units_False [OF _ pc(2)] by (fastforce simp: bytes_of_wire_def)
    then show ?thesis
      using channel_step.peer_read [of s n ops 1 chunk cap] pr w
      by (intro exI [of _ "s\<lparr>left_p := rest_read (n - 1) ops, to_peer := to_peer s - 1\<rparr>"])
        (auto simp: bytes_of_wire_def)
  qed
qed

lemma byte_steps_io:
  assumes "byte_steps cap (bytes_of_wire s) w" "proper s" "0 < chunk"
  shows "\<exists>t. (channel_step chunk cap)\<^sup>*\<^sup>* s t \<and> bytes_of_wire t = w"
  using assms(1)
proof (induction rule: rtranclp_induct)
  case (step v w)
  then obtain t where t: "(channel_step chunk cap)\<^sup>*\<^sup>* s t" "bytes_of_wire t = v" by blast
  then obtain u where "channel_step chunk cap t u" "bytes_of_wire u = w"
    using byte_step_io [of cap t w chunk] step.hyps(2) proper_steps [OF t(1) assms(2)] assms(3) by auto
  with t(1) show ?case by (metis rtranclp.rtrancl_into_rtrancl)
qed blast

section \<open>Programs that complete\<close>

text \<open>Two pieces of program that run to their end from empty channels and leave them empty.\<close>

definition completes :: "nat \<Rightarrow> bool list \<Rightarrow> bool list \<Rightarrow> bool" where
  "completes cap c p \<longleftrightarrow> (\<forall>c' p'. byte_steps cap (c @ c', p @ p', 0, 0) (c', p', 0, 0))"

named_theorems completes_intros \<open>pieces of program that complete\<close>

lemma completes_Nil [completes_intros]: "completes cap [] []"
  by (simp add: completes_def)

lemma completesD: "completes cap c p \<Longrightarrow> byte_steps cap (c @ c', p @ p', 0, 0) (c', p', 0, 0)"
  by (simp add: completes_def)

lemma completes_append [completes_intros]:
  assumes "completes cap c p" "completes cap d q"
  shows "completes cap (c @ d) (p @ q)"
  unfolding completes_def
proof (intro allI)
  fix c' p'
  have "byte_steps cap (c @ d @ c', p @ q @ p', 0, 0) (d @ c', q @ p', 0, 0)"
    by (rule completesD [OF assms(1)])
  also have "byte_steps cap (d @ c', q @ p', 0, 0) (c', p', 0, 0)"
    by (rule completesD [OF assms(2)])
  finally show "byte_steps cap ((c @ d) @ c', (p @ q) @ p', 0, 0) (c', p', 0, 0)" by simp
qed

lemma completes_one_byte:
  assumes "0 < cap"
  shows "completes cap [True] [False]" "completes cap [False] [True]"
proof -
  have "byte_steps cap (True # c, False # p, 0, 0) (c, p, 0, 0)" for c p
    using byte_steps_write_c [of 0 1 cap c "False # p" 0] byte_steps_read_p [of cap c 1 p 0 0] assms
    by simp
  then show "completes cap [True] [False]" by (simp add: completes_def)
  have "byte_steps cap (False # c, True # p, 0, 0) (c, p, 0, 0)" for c p
    using byte_steps_write_p [of 0 1 cap "False # c" p 0] byte_steps_read_c [of cap 1 c p 0 0] assms
    by simp
  then show "completes cap [False] [True]" by (simp add: completes_def)
qed

lemma completes_down [completes_intros]:
  "0 < cap \<Longrightarrow> completes cap (replicate n True) (replicate n False)"
proof (induction n)
  case (Suc n)
  then show ?case using completes_append [OF completes_one_byte(1)] by fastforce
qed (simp add: completes_Nil)

lemma completes_up [completes_intros]:
  "0 < cap \<Longrightarrow> completes cap (replicate n False) (replicate n True)"
proof (induction n)
  case (Suc n)
  then show ?case using completes_append [OF completes_one_byte(2)] by fastforce
qed (simp add: completes_Nil)

text \<open>The simultaneous exchange needs room for the whole message in both directions.\<close>

lemma completes_exchange [completes_intros]:
  assumes "n \<le> cap"
  shows "completes cap (replicate n True @ replicate n False) (replicate n True @ replicate n False)"
  unfolding completes_def
proof (intro allI)
  fix c p
  let ?r = "replicate n False"
  have "byte_steps cap (replicate n True @ ?r @ c, replicate n True @ ?r @ p, 0, 0)
      (?r @ c, replicate n True @ ?r @ p, n, 0)"
    using byte_steps_write_c [of 0 n cap] assms by simp
  also have "byte_steps cap (?r @ c, replicate n True @ ?r @ p, n, 0) (?r @ c, ?r @ p, n, n)"
    using byte_steps_write_p [of 0 n cap] assms by simp
  also have "byte_steps cap (?r @ c, ?r @ p, n, n) (c, ?r @ p, n, 0)"
    using byte_steps_read_c [of cap n c _ n 0] by simp
  also have "byte_steps cap (c, ?r @ p, n, 0) (c, p, 0, 0)"
    using byte_steps_read_p [of cap c n p 0 0] by simp
  finally show "byte_steps cap ((replicate n True @ ?r) @ c, (replicate n True @ ?r) @ p, 0, 0) (c, p, 0, 0)"
    by simp
qed

lemma completes_repeat [completes_intros]:
  "completes cap c p \<Longrightarrow> completes cap (concat (replicate k c)) (concat (replicate k p))"
  by (induction k) (auto intro: completes_intros)

lemma completes_map [completes_intros]:
  "(\<And>x. x \<in> set xs \<Longrightarrow> completes cap (f x) (g x)) \<Longrightarrow> completes cap (concat (map f xs)) (concat (map g xs))"
  by (induction xs) (auto intro: completes_intros)

lemma concat_replicate_replicate: "concat (replicate k (replicate c x)) = replicate (k * c) x"
  by (induction k) (simp_all add: replicate_add)

lemma units_map: "units (concat (map f xs)) = concat (map (\<lambda>x. units (f x)) xs)"
  by (induction xs) simp_all

lemma no_step_end: "\<not> byte_step cap ([], [], 0, 0) w"
  by (auto elim: byte_step.cases)

lemma proper_finished:
  "proper s \<Longrightarrow> bytes_of_wire s = ([], [], a, b) \<Longrightarrow> finished s"
proof -
  assume p: "proper s" and e: "bytes_of_wire s = ([], [], a, b)"
  have "ops = []" if "list_all (\<lambda>op. 0 < op_bytes op) ops" "units ops = []" for ops
    using that by (cases ops; cases "hd ops") auto
  then show "finished s" using p e by (auto simp: finished_def proper_def bytes_of_wire_def)
qed

section \<open>A pair of programs\<close>

locale paired_programs =
  fixes chunk :: nat and c p :: "io_op list" and need :: nat
  assumes chunk_pos: "0 < chunk"
    and all_move: "proper (start_wire c p)"
    and complete: "need \<le> cap \<Longrightarrow> completes cap (units c) (units p)"
begin

lemma run_proper: "(channel_step chunk cap)\<^sup>*\<^sup>* (start_wire c p) s \<Longrightarrow> proper s"
  by (rule proper_steps [OF _ all_move])

lemma run_ends:
  assumes "need \<le> cap" "(channel_step chunk cap)\<^sup>*\<^sup>* (start_wire c p) s"
  shows "byte_steps cap (bytes_of_wire s) ([], [], 0, 0)"
proof -
  have "byte_steps cap (bytes_of_wire (start_wire c p)) ([], [], 0, 0)"
    using completesD [OF complete [OF assms(1)], of "[]" "[]"] by (simp add: bytes_of_wire_def start_wire_def)
  then show ?thesis
    using byte_steps_confluent [OF io_steps_bytes [OF assms(2)]] no_step_end by blast
qed

lemma live:
  assumes "need \<le> cap" "(channel_step chunk cap)\<^sup>*\<^sup>* (start_wire c p) s"
  shows "finished s \<or> (\<exists>t. channel_step chunk cap s t)"
  using run_ends [OF assms]
proof (cases rule: converse_rtranclpE)
  case base
  then show ?thesis using proper_finished [OF run_proper [OF assms(2)]] by blast
next
  case (step w)
  then show ?thesis using byte_step_io [OF step(1) run_proper [OF assms(2)] chunk_pos] by blast
qed

lemma quiet:
  assumes "need \<le> cap" "(channel_step chunk cap)\<^sup>*\<^sup>* (start_wire c p) s" "\<And>t. \<not> channel_step chunk cap s t"
  shows "finished s \<and> to_peer s = 0 \<and> to_coord s = 0"
proof -
  have p: "proper s" by (rule run_proper [OF assms(2)])
  have "\<not> byte_step cap (bytes_of_wire s) w" for w
    using byte_step_io [OF _ p chunk_pos] assms(3) by blast
  then have "bytes_of_wire s = ([], [], 0, 0)"
    using run_ends [OF assms(1,2)] by (metis converse_rtranclpE)
  then show ?thesis using proper_finished [OF p] by (auto simp: bytes_of_wire_def)
qed

end

end
