(* ===== verification/StreamSchedule.thy ===== *)
theory StreamSchedule
  imports PyText ByteChannel
begin

text \<open>
  The fixed schedule of \<open>bench/usb4stream-bench.py\<close>: what the coordinator and the peer write and
  read, phase by phase, over a pair of byte channels; a write offers at most a chunk of
  \<open>THROUGHPUT_CHUNK\<close>. Also here: the percentile of the samples and the payload buffer.
\<close>

section \<open>Constants\<close>

definition WARMUP_ITERS :: nat where "WARMUP_ITERS = 50"
definition WARMUP_BYTES :: nat where "WARMUP_BYTES = 4096"
definition RTT_SIZES :: "nat list" where "RTT_SIZES = [64, 4096, 16384, 65536]"
definition RTT_ITERS :: nat where "RTT_ITERS = 500"
definition EXCHANGE_SIZES :: "nat list" where "EXCHANGE_SIZES = [8192, 16384, 65536]"
definition EXCHANGE_ITERS :: nat where "EXCHANGE_ITERS = 500"
definition THROUGHPUT_BYTES :: nat where "THROUGHPUT_BYTES = 268435456"
definition THROUGHPUT_CHUNK :: nat where "THROUGHPUT_CHUNK = 1048576"
definition HANDSHAKE_BYTES :: nat where "HANDSHAKE_BYTES = 64"
definition HANDSHAKE_MAGIC :: string where "HANDSHAKE_MAGIC = ''FLASHNEXT-USB4STREAM-FIRST-LIGHT''"

lemmas schedule_constants = WARMUP_ITERS_def WARMUP_BYTES_def RTT_SIZES_def RTT_ITERS_def
  EXCHANGE_SIZES_def EXCHANGE_ITERS_def THROUGHPUT_BYTES_def THROUGHPUT_CHUNK_def
  HANDSHAKE_BYTES_def

section \<open>The two schedules\<close>

definition coordinator_schedule :: "(string \<times> io_op list) list" where
  "coordinator_schedule =
     [(''handshake'', [Write HANDSHAKE_BYTES, Read HANDSHAKE_BYTES]),
      (''warmup'', repeat_ops WARMUP_ITERS [Write WARMUP_BYTES, Read WARMUP_BYTES]),
      (''rtt'', concat (map (\<lambda>size. repeat_ops RTT_ITERS [Write size, Read size]) RTT_SIZES)),
      (''exchange'', concat (map (\<lambda>size. repeat_ops EXCHANGE_ITERS [Write size, Read size]) EXCHANGE_SIZES)),
      (''throughput'', repeat_ops (THROUGHPUT_BYTES div THROUGHPUT_CHUNK) [Write THROUGHPUT_CHUNK]
                       @ [Read THROUGHPUT_BYTES]),
      (''teardown'', [Write HANDSHAKE_BYTES, Read HANDSHAKE_BYTES])]"

definition peer_schedule :: "(string \<times> io_op list) list" where
  "peer_schedule =
     [(''handshake'', [Read HANDSHAKE_BYTES, Write HANDSHAKE_BYTES]),
      (''warmup'', repeat_ops WARMUP_ITERS [Read WARMUP_BYTES, Write WARMUP_BYTES]),
      (''rtt'', concat (map (\<lambda>size. repeat_ops RTT_ITERS [Read size, Write size]) RTT_SIZES)),
      (''exchange'', concat (map (\<lambda>size. repeat_ops EXCHANGE_ITERS [Write size, Read size]) EXCHANGE_SIZES)),
      (''throughput'', Read THROUGHPUT_BYTES
                       # repeat_ops (THROUGHPUT_BYTES div THROUGHPUT_CHUNK) [Write THROUGHPUT_CHUNK]),
      (''teardown'', [Read HANDSHAKE_BYTES, Write HANDSHAKE_BYTES])]"

abbreviation io_step :: "nat \<Rightarrow> wire \<Rightarrow> wire \<Rightarrow> bool" where
  "io_step \<equiv> channel_step THROUGHPUT_CHUNK"

definition ops_of :: "(string \<times> io_op list) list \<Rightarrow> io_op list" where
  "ops_of phases = concat (map snd phases)"

section \<open>The samples\<close>

text \<open>\<open>percentile\<close>: the rank \<open>round(pct / 100.0 * n)\<close>, kept between 1 and \<open>n\<close>.\<close>

definition percentile_rank :: "nat \<Rightarrow> nat \<Rightarrow> nat res" where
  "percentile_rank pct n =
     res_bind (fdiv (Fin (of_nat pct)) (Fin 100)) (\<lambda>q.
     res_bind (float_of_int (int n)) (\<lambda>len.
     res_bind (round_float (fmul q len)) (\<lambda>r.
       returned (nat (max 1 (min (int n) r))))))"

definition percentile :: "rat list \<Rightarrow> nat \<Rightarrow> rat res" where
  "percentile samples pct =
     (if samples = [] then returned 0
      else res_bind (percentile_rank pct (length samples)) (\<lambda>rank.
             returned (sort samples ! (rank - 1))))"

definition payload_length :: nat where
  "payload_length =
     (let body = length HANDSHAKE_MAGIC * (THROUGHPUT_CHUNK div length HANDSHAKE_MAGIC + 1)
      in min body (max THROUGHPUT_CHUNK (max HANDSHAKE_BYTES (Max (set RTT_SIZES)))))"

section \<open>Completing the schedule\<close>

text \<open>The programs of both sides, phase by phase, in bytes.\<close>

abbreviation ping_c :: "nat \<Rightarrow> bool list" where
  "ping_c n \<equiv> replicate n True @ replicate n False"

abbreviation ping_p :: "nat \<Rightarrow> bool list" where
  "ping_p n \<equiv> replicate n False @ replicate n True"

definition before_c :: "bool list" where
  "before_c = ping_c 64 @ concat (replicate 50 (ping_c 4096)) @
     concat (map (\<lambda>n. concat (replicate 500 (ping_c n))) RTT_SIZES)"

definition before_p :: "bool list" where
  "before_p = ping_p 64 @ concat (replicate 50 (ping_p 4096)) @
     concat (map (\<lambda>n. concat (replicate 500 (ping_p n))) RTT_SIZES)"

definition exchange :: "nat list \<Rightarrow> bool list" where
  "exchange sizes = concat (map (\<lambda>n. concat (replicate 500 (ping_c n))) sizes)"

definition after_c :: "bool list" where
  "after_c = replicate 268435456 True @ replicate 268435456 False @ ping_c 64"

definition after_p :: "bool list" where
  "after_p = replicate 268435456 False @ replicate 268435456 True @ ping_p 64"

lemma units_coordinator: "units (ops_of coordinator_schedule) = before_c @ exchange EXCHANGE_SIZES @ after_c"
  by (simp only: ops_of_def coordinator_schedule_def list.map snd_conv concat.simps units_simps units_map
      units_repeat concat_replicate_replicate before_c_def exchange_def after_c_def append_Nil2 append_assoc
      schedule_constants div_self append.simps)
    (simp add: replicate_add [symmetric])

lemma units_peer: "units (ops_of peer_schedule) = before_p @ exchange EXCHANGE_SIZES @ after_p"
  by (simp only: ops_of_def peer_schedule_def list.map snd_conv concat.simps units_simps units_map
      units_repeat concat_replicate_replicate before_p_def exchange_def after_p_def append_Nil2 append_assoc
      schedule_constants div_self append.simps)
    (simp add: replicate_add [symmetric])

lemma before_completes: "0 < cap \<Longrightarrow> completes cap before_c before_p"
  unfolding before_c_def before_p_def by (intro completes_intros)

lemma after_completes: "0 < cap \<Longrightarrow> completes cap after_c after_p"
  unfolding after_c_def after_p_def
  by (rule completes_append [OF completes_down]; simp?)
    (rule completes_append [OF completes_up]; simp add: completes_append completes_down completes_up)

lemma exchange_completes:
  assumes "\<forall>n \<in> set sizes. n \<le> cap"
  shows "completes cap (exchange sizes) (exchange sizes)"
  unfolding exchange_def using assms by (intro completes_intros) auto

lemma chunk_moves: "0 < THROUGHPUT_CHUNK"
  by (simp add: THROUGHPUT_CHUNK_def)

lemma schedule_proper: "proper (start_wire (ops_of coordinator_schedule) (ops_of peer_schedule))"
  by (auto simp: proper_def start_wire_def ops_of_def coordinator_schedule_def peer_schedule_def
      repeat_ops_def schedule_constants list_all_iff)

text \<open>With a full exchange message in flight on both channels, nobody can move.\<close>

lemma exchange_stuck:
  assumes "cap < n"
  shows "byte_steps cap (replicate n True @ c, replicate n True @ p, 0, 0)
      (replicate (n - cap) True @ c, replicate (n - cap) True @ p, cap, cap)"
    and "\<not> byte_step cap (replicate (n - cap) True @ c, replicate (n - cap) True @ p, cap, cap) w"
proof -
  have split: "replicate n True = replicate cap True @ replicate (n - cap) True"
    using assms by (simp flip: replicate_add)
  have "byte_steps cap (replicate n True @ c, replicate n True @ p, 0, 0)
      (replicate (n - cap) True @ c, replicate n True @ p, cap, 0)"
    using byte_steps_write_c [of 0 cap cap] by (simp add: split)
  also have "byte_steps cap (replicate (n - cap) True @ c, replicate n True @ p, cap, 0)
      (replicate (n - cap) True @ c, replicate (n - cap) True @ p, cap, cap)"
    using byte_steps_write_p [of 0 cap cap] by (simp add: split)
  finally show "byte_steps cap (replicate n True @ c, replicate n True @ p, 0, 0)
      (replicate (n - cap) True @ c, replicate (n - cap) True @ p, cap, cap)" .
  obtain m where "n - cap = Suc m" using assms by (cases "n - cap") auto
  then show "\<not> byte_step cap (replicate (n - cap) True @ c, replicate (n - cap) True @ p, cap, cap) w"
    by (auto elim: byte_step.cases)
qed

lemma exchange_deadlock:
  assumes "0 < cap" "EXCHANGE_SIZES = pre @ n # post" "\<forall>m \<in> set pre. m \<le> cap" "cap < n"
  shows "\<exists>s. (io_step cap)\<^sup>*\<^sup>* (start_wire (ops_of coordinator_schedule) (ops_of peer_schedule)) s \<and>
    \<not> finished s \<and> (\<forall>t. \<not> io_step cap s t)"
proof -
  let ?start = "start_wire (ops_of coordinator_schedule) (ops_of peer_schedule)"
  define rest where "rest = replicate n False @ concat (replicate 499 (ping_c n)) @ exchange post"
  have "replicate 500 x = x # replicate 499 x" for x :: "bool list" by (simp add: eval_nat_numeral)
  then have ex: "exchange EXCHANGE_SIZES = exchange pre @ replicate n True @ rest"
    by (simp add: assms(2) exchange_def rest_def)
  have "byte_steps cap (bytes_of_wire ?start)
      (exchange EXCHANGE_SIZES @ after_c, exchange EXCHANGE_SIZES @ after_p, 0, 0)"
    using completesD [OF before_completes [OF assms(1)]]
    by (simp add: bytes_of_wire_def start_wire_def units_coordinator units_peer)
  also have "byte_steps cap (exchange EXCHANGE_SIZES @ after_c, exchange EXCHANGE_SIZES @ after_p, 0, 0)
      (replicate n True @ rest @ after_c, replicate n True @ rest @ after_p, 0, 0)"
    unfolding ex using completesD [OF exchange_completes [OF assms(3)]] by simp
  also have "byte_steps cap (replicate n True @ rest @ after_c, replicate n True @ rest @ after_p, 0, 0)
      (replicate (n - cap) True @ rest @ after_c, replicate (n - cap) True @ rest @ after_p, cap, cap)"
    by (rule exchange_stuck(1) [OF assms(4)])
  finally obtain s where s: "(io_step cap)\<^sup>*\<^sup>* ?start s" "bytes_of_wire s =
      (replicate (n - cap) True @ rest @ after_c, replicate (n - cap) True @ rest @ after_p, cap, cap)"
    using byte_steps_io [OF _ schedule_proper chunk_moves] by blast
  have no: "\<not> io_step cap s t" for t
  proof
    assume "io_step cap s t"
    then have bs: "byte_steps cap (bytes_of_wire s) (bytes_of_wire t)" by (rule io_step_bytes)
    have "bytes_of_wire t = bytes_of_wire s"
      using bs exchange_stuck(2) [OF assms(4)] unfolding s(2) by (metis converse_rtranclpE)
    moreover have "bytes_left t < bytes_left s" using \<open>io_step cap s t\<close> by (rule io_step_less)
    moreover have "bytes_left u = length (fst (bytes_of_wire u)) + length (fst (snd (bytes_of_wire u)))" for u
      by (simp add: bytes_left_def bytes_of_wire_def length_units)
    ultimately show False by simp
  qed
  have "\<not> finished s"
    using s(2) assms(4) by (auto simp: finished_def bytes_of_wire_def)
  with s(1) no show ?thesis by blast
qed

interpretation usb: paired_programs THROUGHPUT_CHUNK "ops_of coordinator_schedule" "ops_of peer_schedule" 65536
proof
  show "0 < THROUGHPUT_CHUNK" by (rule chunk_moves)
  show "proper (start_wire (ops_of coordinator_schedule) (ops_of peer_schedule))" by (rule schedule_proper)
  fix cap :: nat assume "65536 \<le> cap"
  then show "completes cap (units (ops_of coordinator_schedule)) (units (ops_of peer_schedule))"
    unfolding units_coordinator units_peer
    by (intro completes_append before_completes exchange_completes after_completes)
      (auto simp: EXCHANGE_SIZES_def)
qed

text \<open>
  C6: The schedule cannot deadlock exactly when each channel holds the largest exchange message:
  for a capacity of at least 65536 bytes every reachable state is finished or has a system call
  that can return, and for every smaller capacity some run blocks both sides for ever.
\<close>

theorem schedule_deadlock_free_iff:
  assumes "0 < cap"
  shows "(\<forall>s. (io_step cap)\<^sup>*\<^sup>* (start_wire (ops_of coordinator_schedule) (ops_of peer_schedule)) s \<longrightarrow>
      finished s \<or> (\<exists>t. io_step cap s t)) \<longleftrightarrow> 65536 \<le> cap"
proof
  assume cap: "65536 \<le> cap"
  show "\<forall>s. (io_step cap)\<^sup>*\<^sup>* (start_wire (ops_of coordinator_schedule) (ops_of peer_schedule)) s \<longrightarrow>
      finished s \<or> (\<exists>t. io_step cap s t)"
    using usb.live [OF cap] by blast
next
  assume live: "\<forall>s. (io_step cap)\<^sup>*\<^sup>* (start_wire (ops_of coordinator_schedule) (ops_of peer_schedule)) s \<longrightarrow>
      finished s \<or> (\<exists>t. io_step cap s t)"
  have "\<not> (EXCHANGE_SIZES = pre @ n # post \<and> (\<forall>m \<in> set pre. m \<le> cap) \<and> cap < n)" for pre n post
    using exchange_deadlock [OF assms] live by blast
  from this [of "[]" 8192 "[16384, 65536]"] this [of "[8192]" 16384 "[65536]"]
    this [of "[8192, 16384]" 65536 "[]"]
  show "65536 \<le> cap" by (auto simp: EXCHANGE_SIZES_def)
qed

text \<open>
  C28: With that capacity every run of the schedule ends: each system call leaves fewer bytes to
  move, and the state in which no call can return is the one where both programs are done and
  both channels are empty.
\<close>

theorem schedule_terminates:
  assumes "65536 \<le> cap"
    and "(io_step cap)\<^sup>*\<^sup>* (start_wire (ops_of coordinator_schedule) (ops_of peer_schedule)) s"
  shows "(\<forall>t. io_step cap s t \<longrightarrow> bytes_left t < bytes_left s) \<and>
    ((\<forall>t. \<not> io_step cap s t) \<longrightarrow> finished s \<and> to_peer s = 0 \<and> to_coord s = 0)"
  using usb.quiet [OF assms] io_step_less by blast

theorem schedule_deadlock_free_iff_witness:
  "\<exists>s. (io_step 65535)\<^sup>*\<^sup>* (start_wire (ops_of coordinator_schedule) (ops_of peer_schedule)) s \<and>
     \<not> finished s \<and> (\<nexists>t. io_step 65535 s t)"
  using schedule_deadlock_free_iff [of 65535] by auto

theorem schedule_terminates_witness:
  "\<not> finished (start_wire (ops_of coordinator_schedule) (ops_of peer_schedule)) \<and>
   (\<exists>t. io_step 65536 (start_wire (ops_of coordinator_schedule) (ops_of peer_schedule)) t)"
proof -
  have "left_c (start_wire (ops_of coordinator_schedule) (ops_of peer_schedule)) \<noteq> []"
    by (simp add: start_wire_def ops_of_def coordinator_schedule_def)
  then show ?thesis
    using schedule_terminates [of 65536, OF _ rtranclp.rtrancl_refl] by (auto simp: finished_def)
qed

section \<open>The percentile\<close>

text \<open>
  \<open>percentile\<close> is documented as nearest rank, the \<open>ceil(pct / 100 * n)\<close>-th smallest sample; it
  rounds half to even instead, so the median of the five samples 1 to 5 comes out as 2, not 3.
\<close>

theorem percentile_not_nearest_rank: "percentile [5, 3, 1, 4, 2] 50 = returned 2"
  by code_simp

end
