(* ===== verification/PyStats.thy ===== *)
theory PyStats
  imports PyFloat PyText "HOL-Library.Multiset"
begin

text \<open>
  What the instruments and benches compute over lists of doubles: the order that \<open>sorted\<close> uses
  (total on the doubles, NaN last), \<open>sum\<close> with the compensation of Python 3.12, \<open>round(x, k)\<close>,
  absolute values, the selection of a rank out of a sorted list, whose laws are proved once
  for every way of computing the rank, counters, and the mean and deviation of \<open>statistics\<close>.
\<close>

section \<open>The order of doubles\<close>

fun float_class :: "pyfloat \<Rightarrow> nat \<times> rat" where
  "float_class NInf = (0, 0)"
| "float_class (Fin x) = (1, x)"
| "float_class PInf = (2, 0)"
| "float_class NaN = (3, 0)"

lemma float_class_inject: "float_class x = float_class y \<Longrightarrow> x = y"
  by (cases x; cases y) auto

instantiation pyfloat :: linorder
begin

definition less_eq_pyfloat :: "pyfloat \<Rightarrow> pyfloat \<Rightarrow> bool" where
  "x \<le> y \<longleftrightarrow> fst (float_class x) < fst (float_class y) \<or>
     fst (float_class x) = fst (float_class y) \<and> snd (float_class x) \<le> snd (float_class y)"

definition less_pyfloat :: "pyfloat \<Rightarrow> pyfloat \<Rightarrow> bool" where
  "x < y \<longleftrightarrow> fst (float_class x) < fst (float_class y) \<or>
     fst (float_class x) = fst (float_class y) \<and> snd (float_class x) < snd (float_class y)"

instance
proof
  fix x y z :: pyfloat
  show "x < y \<longleftrightarrow> x \<le> y \<and> \<not> y \<le> x" by (auto simp: less_eq_pyfloat_def less_pyfloat_def)
  show "x \<le> x" by (simp add: less_eq_pyfloat_def)
  show "x \<le> y \<Longrightarrow> y \<le> z \<Longrightarrow> x \<le> z" by (auto simp: less_eq_pyfloat_def)
  show "x \<le> y \<Longrightarrow> y \<le> x \<Longrightarrow> x = y"
    by (rule float_class_inject) (auto simp: less_eq_pyfloat_def prod_eq_iff)
  show "x \<le> y \<or> y \<le> x" by (auto simp: less_eq_pyfloat_def)
qed

end

text \<open>Apart from NaN this is Python's \<open><\<close>.\<close>

lemma less_pyfloat_flt: "x \<noteq> NaN \<Longrightarrow> y \<noteq> NaN \<Longrightarrow> x < y \<longleftrightarrow> flt x y"
  by (cases x; cases y) (auto simp: less_pyfloat_def)

lemma less_eq_pyfloat_Fin [simp]: "Fin x \<le> Fin y \<longleftrightarrow> x \<le> y" "Fin x < Fin y \<longleftrightarrow> x < y"
  by (simp_all add: less_eq_pyfloat_def less_pyfloat_def)

lemma fmin_min: "x \<noteq> NaN \<Longrightarrow> y \<noteq> NaN \<Longrightarrow> fmin x y = min x y"
  by (auto simp: fmin_def min_def less_pyfloat_flt [symmetric])

section \<open>Rounding to decimals\<close>

text \<open>\<open>round(x, k)\<close>: the decimal nearest to the double (ties to even), as the nearest double.\<close>

definition round_at :: "nat \<Rightarrow> pyfloat \<Rightarrow> pyfloat" where
  "round_at k x =
     (case x of Fin r \<Rightarrow> fl64 (of_int (round_half_even (r * 10 ^ k)) / 10 ^ k) | _ \<Rightarrow> x)"

lemma fl64_mono: "x \<le> y \<Longrightarrow> fl64 x \<le> fl64 y"
proof -
  assume le: "x \<le> y"
  consider "0 < x" | "x = 0" | "x < 0" "y < 0" | "x < 0" "0 \<le> y" by linarith
  then show ?thesis
  proof cases
    case 1
    then have "fl_pos x \<le> fl_pos y" using fl_pos_mono le by blast
    then show ?thesis using 1 le by (auto simp: fl64_def Let_def less_eq_pyfloat_def)
  next
    case 2
    then show ?thesis using le fl_pos_nonneg [of y] by (auto simp: fl64_def Let_def less_eq_pyfloat_def)
  next
    case 3
    then have "fl_pos (- y) \<le> fl_pos (- x)" using fl_pos_mono [of "- y" "- x"] le by simp
    then show ?thesis using 3 by (auto simp: fl64_def Let_def less_eq_pyfloat_def)
  next
    case 4
    then show ?thesis
      using fl_pos_nonneg [of y] fl_pos_nonneg [of "- x"] by (auto simp: fl64_def Let_def less_eq_pyfloat_def)
  qed
qed

lemma round_at_mono: "x \<noteq> NaN \<Longrightarrow> y \<noteq> NaN \<Longrightarrow> x \<le> y \<Longrightarrow> round_at k x \<le> round_at k y"
proof (cases x; cases y)
  fix r q assume "x = Fin r" "y = Fin q" "x \<le> y"
  then show ?thesis
    by (auto simp: round_at_def intro!: fl64_mono divide_right_mono round_half_even_mono mult_right_mono)
qed (auto simp: round_at_def less_eq_pyfloat_def fl64_def Let_def)

text \<open>The doubles below an integer of at most 53 bits stay below it.\<close>

lemma fl64_mono_int:
  assumes "0 \<le> x" "x \<le> y" "y \<le> of_int n" "0 \<le> n" "n \<le> 2 ^ 53"
  shows "\<exists>p q. fl64 x = Fin p \<and> fl64 y = Fin q \<and> 0 \<le> p \<and> p \<le> q \<and> q \<le> of_int n"
proof -
  obtain p q where pq: "fl64 x = Fin p" "0 \<le> p" "fl64 y = Fin q" "0 \<le> q" "q \<le> of_int n"
    using fl64_le_int [of x n] fl64_le_int [of y n] assms by fastforce
  then show ?thesis using fl64_mono [OF assms(2)] by simp
qed

text \<open>A fraction of a count, rounded, is at most the count and grows with the fraction.\<close>

lemma round_scaled:
  assumes "0 \<le> u" "u \<le> v" "v \<le> 1" "n \<le> 2 ^ 53"
  shows "\<exists>r s. fmul (Fin (of_nat n)) (Fin u) = Fin r \<and> fmul (Fin (of_nat n)) (Fin v) = Fin s \<and>
    0 \<le> round_half_even r \<and> round_half_even r \<le> round_half_even s \<and> round_half_even s \<le> int n"
proof -
  have n: "int n \<le> 2 ^ 53" using assms(4) by (metis of_nat_le_iff of_nat_numeral of_nat_power)
  have "of_nat n * u \<le> of_nat n * v" "of_nat n * v \<le> of_int (int n)" "0 \<le> of_nat n * u"
    using assms mult_left_mono [of v 1 "of_nat n"] by (simp_all add: mult_left_mono)
  then obtain r s where "fl64 (of_nat n * u) = Fin r" "fl64 (of_nat n * v) = Fin s" "0 \<le> r" "r \<le> s" "s \<le> of_int (int n)"
    using fl64_mono_int [of "of_nat n * u" "of_nat n * v" "int n"] n by auto
  moreover from this have "round_half_even 0 \<le> round_half_even r" "round_half_even r \<le> round_half_even s"
      "round_half_even s \<le> round_half_even (of_int (int n))"
    by (auto intro: round_half_even_mono)
  ultimately show ?thesis using round_half_even_of_int [of 0] by (simp del: of_int_of_nat_eq)
qed

lemma fl64_not_NaN [simp]: "fl64 x \<noteq> NaN"
  by (simp add: fl64_def Let_def)

section \<open>Sums\<close>

fun fabs :: "pyfloat \<Rightarrow> pyfloat" where
  "fabs (Fin x) = Fin \<bar>x\<bar>"
| "fabs NInf = PInf"
| "fabs x = x"

text \<open>The running sum and its compensation, one item after the other.\<close>

fun compensated :: "pyfloat \<Rightarrow> pyfloat \<Rightarrow> pyfloat list \<Rightarrow> pyfloat \<times> pyfloat" where
  "compensated s c [] = (s, c)"
| "compensated s c (x # xs) =
     (let t = fadd s x;
          d = (if fle (fabs x) (fabs s) then fadd (fsub s t) x else fadd (fsub x t) s)
      in compensated t (fadd c d) xs)"

text \<open>\<open>sum(xs)\<close>, of an empty list the integer zero.\<close>

definition float_sum :: "pyfloat list \<Rightarrow> pyfloat" where
  "float_sum xs =
     (case xs of [] \<Rightarrow> Fin 0
      | x # rest \<Rightarrow>
          (case compensated x (Fin 0) rest of
             (s, Fin c) \<Rightarrow> if c = 0 then s else fadd s (Fin c)
           | (s, _) \<Rightarrow> s))"

text \<open>Integers are summed exactly as long as every partial sum has at most 53 bits.\<close>

lemma fadd_int:
  "\<bar>m + n\<bar> \<le> 2 ^ 53 \<Longrightarrow> fadd (Fin (of_int m)) (Fin (of_int n)) = Fin (of_int (m + n))"
  using fl64_int [of "m + n"] by (simp del: of_int_add add: of_int_add [symmetric])

lemma compensated_ints:
  "0 \<le> s \<Longrightarrow> \<forall>n \<in> set ns. 0 \<le> n \<Longrightarrow> s + sum_list ns \<le> 2 ^ 53 \<Longrightarrow>
   compensated (Fin (of_int s)) (Fin 0) (map (\<lambda>n. Fin (of_int n)) ns) = (Fin (of_int (s + sum_list ns)), Fin 0)"
proof (induction ns arbitrary: s)
  case (Cons n ns)
  have pos: "0 \<le> n" "0 \<le> sum_list ns" using Cons.prems(2) by (auto intro: sum_list_nonneg)
  have le: "s + n \<le> 2 ^ 53" using Cons.prems(3) pos by simp
  have t: "fadd (Fin (of_int s)) (Fin (of_int n)) = Fin (of_int (s + n))"
    using fadd_int [of s n] Cons.prems(1) pos le by simp
  have a: "fsub (Fin (of_int s)) (Fin (of_int (s + n))) = Fin (of_int (- n))"
    using fadd_int [of s "- (s + n)"] pos le Cons.prems(1) by (simp add: fsub_def)
  have b: "fsub (Fin (of_int n)) (Fin (of_int (s + n))) = Fin (of_int (- s))"
    using fadd_int [of n "- (s + n)"] pos le Cons.prems(1) by (simp add: fsub_def)
  have z: "fadd (Fin (of_int (- n))) (Fin (of_int n)) = Fin 0" "fadd (Fin (of_int (- s))) (Fin (of_int s)) = Fin 0"
    "fadd (Fin 0) (Fin 0) = Fin 0"
    by (simp_all add: fl64_def)
  have "compensated (Fin (of_int s)) (Fin 0) (map (\<lambda>n. Fin (of_int n)) (n # ns)) =
      compensated (Fin (of_int (s + n))) (Fin 0) (map (\<lambda>n. Fin (of_int n)) ns)"
    unfolding list.map compensated.simps Let_def t a b z by (simp only: if_cancel z)
  also have "\<dots> = (Fin (of_int (s + n + sum_list ns)), Fin 0)"
    using Cons.IH [of "s + n"] Cons.prems pos by simp
  finally show ?case by (simp add: add.assoc)
qed simp

lemma float_sum_ints:
  assumes "\<forall>n \<in> set ns. 0 \<le> n" "sum_list ns \<le> 2 ^ 53"
  shows "float_sum (map (\<lambda>n. Fin (of_int n)) ns) = Fin (of_int (sum_list ns))"
proof (cases ns)
  case (Cons n rest)
  then show ?thesis using compensated_ints [of n rest] assms by (simp add: float_sum_def)
qed (simp add: float_sum_def)

section \<open>Selecting a rank\<close>

text \<open>
  A quantile picks an element of the sorted samples; every script computes its own index. What
  does not depend on the index: the value is one of the samples, so it lies between the least and
  the largest, and it does not depend on the order of the samples. A larger index gives no
  smaller value.
\<close>

locale rank_select =
  fixes rank :: "nat \<Rightarrow> 'q \<Rightarrow> nat" and grows :: "'q \<Rightarrow> 'q \<Rightarrow> bool" and fits :: "nat \<Rightarrow> bool"
  assumes rank_in_range: "0 < n \<Longrightarrow> fits n \<Longrightarrow> rank n q < n"
    and rank_mono: "fits n \<Longrightarrow> grows p q \<Longrightarrow> rank n p \<le> rank n q"
begin

definition select :: "'a::linorder list \<Rightarrow> 'q \<Rightarrow> 'a" where
  "select xs q = sort xs ! rank (length xs) q"

lemma select_mem: "xs \<noteq> [] \<Longrightarrow> fits (length xs) \<Longrightarrow> select xs q \<in> set xs"
  using rank_in_range [of "length xs" q] nth_mem [of "rank (length xs) q" "sort xs"]
  by (simp add: select_def)

lemma select_mono: "xs \<noteq> [] \<Longrightarrow> fits (length xs) \<Longrightarrow> grows p q \<Longrightarrow> select xs p \<le> select xs q"
  unfolding select_def using rank_in_range [of "length xs" q] rank_mono
  by (intro sorted_nth_mono) simp_all

lemma select_bounds: "xs \<noteq> [] \<Longrightarrow> fits (length xs) \<Longrightarrow> Min (set xs) \<le> select xs q \<and> select xs q \<le> Max (set xs)"
  using select_mem [of xs q] by simp

lemma select_mset: "mset xs = mset ys \<Longrightarrow> select xs q = select ys q"
  unfolding select_def by (metis size_mset sorted_list_of_multiset_mset)

text \<open>At least \<open>rank + 1\<close> samples are no larger, and at least \<open>n - rank\<close> are no smaller.\<close>

lemma select_splits:
  assumes "xs \<noteq> []" "fits (length xs)"
  shows "rank (length xs) q < length (filter (\<lambda>x. x \<le> select xs q) xs)"
    and "length xs - rank (length xs) q \<le> length (filter (\<lambda>x. select xs q \<le> x) xs)"
proof -
  let ?r = "rank (length xs) q" and ?s = "sort xs"
  have r: "?r < length ?s" using rank_in_range assms by simp
  have len: "length (filter P xs) = length (filter P ?s)" for P
    by (metis mset_filter mset_sort size_mset)
  have "\<forall>x \<in> set (take (Suc ?r) ?s). x \<le> select xs q"
    unfolding select_def using r
    by (auto simp: in_set_conv_nth intro!: sorted_nth_mono)
  then have "filter (\<lambda>x. x \<le> select xs q) (take (Suc ?r) ?s) = take (Suc ?r) ?s"
    by (simp add: filter_id_conv)
  moreover have "length (filter P (take k ?s)) \<le> length (filter P ?s)" for P k
    by (metis append_take_drop_id filter_append le_add1 length_append)
  ultimately show "?r < length (filter (\<lambda>x. x \<le> select xs q) xs)"
    unfolding len using r by (metis Suc_le_eq length_take min.absorb2)
  have "\<forall>x \<in> set (drop ?r ?s). select xs q \<le> x"
    unfolding select_def using r
    by (auto simp: in_set_conv_nth intro!: sorted_nth_mono)
  then have "filter (\<lambda>x. select xs q \<le> x) (drop ?r ?s) = drop ?r ?s"
    by (simp add: filter_id_conv)
  moreover have "length (filter P (drop k ?s)) \<le> length (filter P ?s)" for P k
    by (metis append_take_drop_id filter_append le_add2 length_append)
  ultimately show "length xs - ?r \<le> length (filter (\<lambda>x. select xs q \<le> x) xs)"
    unfolding len by (metis length_drop length_sort)
qed

end

section \<open>Counters\<close>

text \<open>\<open>counter[k] += 1\<close>: a new key goes to the end.\<close>

fun bump :: "string \<Rightarrow> (string \<times> nat) list \<Rightarrow> (string \<times> nat) list" where
  "bump k [] = [(k, 1)]"
| "bump k ((k', n) # c) = (if k' = k then (k', Suc n) # c else (k', n) # bump k c)"

lemma map_of_bump: "map_of (bump k c) j = (if j = k then Some (Suc (case map_of c k of None \<Rightarrow> 0 | Some n \<Rightarrow> n)) else map_of c j)"
  by (induction c) auto

lemma sum_bump: "sum_list (map snd (bump k c)) = Suc (sum_list (map snd c))"
  by (induction c) auto

lemma keys_bump: "set (map fst (bump k c)) = insert k (set (map fst c))"
proof (induction c)
  case (Cons p c)
  then show ?case by (cases p) auto
qed simp

lemma distinct_bump: "distinct (map fst c) \<Longrightarrow> distinct (map fst (bump k c))"
proof (induction c)
  case (Cons p c)
  obtain j n where p: "p = (j, n)" by (cases p)
  have "j \<notin> set (map fst (bump k c))" if "j \<noteq> k" using Cons.prems that unfolding keys_bump p by simp
  then show ?case using Cons by (auto simp: p)
qed simp

lemma fold_bump:
  "map_of (fold bump ks c) k =
     (if k \<in> set ks then Some (count_list ks k + (case map_of c k of None \<Rightarrow> 0 | Some n \<Rightarrow> n)) else map_of c k)"
proof (induction ks arbitrary: c)
  case (Cons a ks)
  show ?case unfolding fold_simps o_def Cons.IH by (auto simp: map_of_bump count_notin)
qed simp

lemma fold_bump_sum: "sum_list (map snd (fold bump ks c)) = length ks + sum_list (map snd c)"
  by (induction ks arbitrary: c) (simp_all add: sum_bump)

section \<open>Mean and deviation\<close>

text \<open>\<open>statistics.fmean\<close> of finite doubles: the exact sum as a double, divided by their number.\<close>

definition fmean :: "rat list \<Rightarrow> pyfloat res" where
  "fmean xs =
     (if xs = [] then raised ValueError
      else res_bind (float_of_rat (sum_list xs)) (\<lambda>t.
           res_bind (float_of_int (int (length xs))) (fdiv t)))"

function isqrt :: "int \<Rightarrow> int" where
  "isqrt n =
     (if n \<le> 0 then 0
      else let r = 2 * isqrt (n div 4) in if (r + 1) * (r + 1) \<le> n then r + 1 else r)"
  by pat_completeness auto
termination
  by (relation "measure nat") auto

declare isqrt.simps [simp del]

text \<open>The square root of a fraction: an integer root rounded to odd, then a division.\<close>

definition sqrt_rto :: "int \<Rightarrow> int \<Rightarrow> int" where
  "sqrt_rto n m = (let a = isqrt (n div m) in if a * a * m \<noteq> n \<and> even a then a + 1 else a)"

definition float_sqrt :: "int \<Rightarrow> int \<Rightarrow> pyfloat res" where
  "float_sqrt n m =
     (let q = (bits n - bits m - 109) div 2
      in if 0 \<le> q then int_div (sqrt_rto n (m * ipow 2 (2 * q)) * ipow 2 q) 1
         else int_div (sqrt_rto (n * ipow 2 (- 2 * q)) m) (ipow 2 (- q)))"

text \<open>\<open>statistics.pstdev\<close> of finite doubles: the root of the exact variance.\<close>

definition pstdev :: "rat list \<Rightarrow> pyfloat res" where
  "pstdev xs =
     (if xs = [] then raised ValueError
      else
        let n = of_nat (length xs); sx = sum_list xs; sxx = sum_list (map (\<lambda>x. x * x) xs)
        in case quotient_of ((n * sxx - sx * sx) / n / n) of (a, b) \<Rightarrow> float_sqrt a b)"

lemma isqrt_bounds: "0 \<le> n \<Longrightarrow> 0 \<le> isqrt n \<and> isqrt n * isqrt n \<le> n \<and> n < (isqrt n + 1) * (isqrt n + 1)"
proof (induction n rule: isqrt.induct)
  case (1 n)
  show ?case
  proof (cases "n = 0")
    case True
    then show ?thesis by (simp add: isqrt.simps)
  next
    case False
    then have n: "0 < n" using 1 by simp
    define s where "s = isqrt (n div 4)"
    have s: "0 \<le> s" "s * s \<le> n div 4" "n div 4 < (s + 1) * (s + 1)"
      using 1(1) n by (simp_all add: s_def)
    have "4 * (s * s) \<le> n" using s(2) by linarith
    moreover have "n < 4 * ((s + 1) * (s + 1))" using s(3) by linarith
    ultimately show ?thesis using s(1) n
      by (subst (1 2 3 4 5) isqrt.simps) (auto simp: Let_def s_def [symmetric] algebra_simps)
  qed
qed

end
