(* ===== verification/StreamBench.thy ===== *)
theory StreamBench
  imports CableResolve StreamSchedule PyStats ShellWords
begin

text \<open>
  The roles of \<open>bench/usb4stream-bench.py\<close>: the preconditions, the rehearsal (\<open>--dry-run\<close>), the
  coordinator, and the mirror that runs on the peer. A run is a trace of what it does to the
  outside (it launches the peer, opens and closes the device, prints the marker, reaps the peer,
  writes the receipt). What the outside answers is the record \<open>bench\<close>: what each node reads at the
  two moments it is asked, the output of \<open>ssh\<close> and \<open>podman\<close>, how the open ends, how the schedule
  ends, and the samples. The file that is written is the receipt as a JSON value.
\<close>

section \<open>Outcomes\<close>

definition SKIP_SERVE_UP :: string where
  "SKIP_SERVE_UP = ''skipped:serve-up-on-shared-cable''"
definition SKIP_PEER_UNREACHABLE :: string where
  "SKIP_PEER_UNREACHABLE = ''skipped:rail-peer-unreachable''"
definition SKIP_CONFIGFS_MISSING :: string where
  "SKIP_CONFIGFS_MISSING = ''skipped:configfs-group-missing''"
definition SKIP_CABLE_MISMATCH :: string where
  "SKIP_CABLE_MISMATCH = ''skipped:cable-mismatch-between-nodes''"

lemmas skip_outcomes = SKIP_SERVE_UP_def SKIP_PEER_UNREACHABLE_def SKIP_CONFIGFS_MISSING_def
  SKIP_CABLE_MISMATCH_def

definition PEER_OPEN_MARKER :: string where
  "PEER_OPEN_MARKER = ''USB4STREAM-PEER-OPEN''"

text \<open>\<open>errno.errorcode\<close> of the platform is the argument \<open>names\<close>.\<close>

definition errno_name :: "(int \<Rightarrow> string option) \<Rightarrow> uexc \<Rightarrow> string" where
  "errno_name names x =
     (case x of
        BenchTimeout \<Rightarrow> ''ETIMEDOUT''
      | Errno n \<Rightarrow> (case names n of Some s \<Rightarrow> s | None \<Rightarrow> str_int n)
      | _ \<Rightarrow> ''EUNKNOWN'')"

definition aborted :: "(int \<Rightarrow> string option) \<Rightarrow> uexc \<Rightarrow> string \<Rightarrow> string" where
  "aborted names x phase = ''aborted:'' @ phase @ '':'' @ errno_name names x"

section \<open>What the outside answers\<close>

type_synonym dict = "(string \<times> json) list"

text \<open>
  How the request to the serve endpoint ended: a response, an HTTP error, or any other exception.
\<close>

datatype api_reply = Api_status int | Api_http_error | Api_failed

text \<open>
  \<open>repr_text\<close> is \<open>repr\<close> of a text, \<open>show_value\<close> is \<open>str\<close> of a decoded JSON value and \<open>describe\<close> is
  \<open>"{type(exc).__name__}: {exc}"\<close> of an exception that is not a \<open>ResolveError\<close>.
\<close>

record bench =
  banked :: bool
  clock :: string
  repr_text :: "string \<Rightarrow> string"
  show_value :: "json \<Rightarrow> string"
  describe :: "uexc \<Rightarrow> string"
  nodename :: string
  receipt_path :: string
  api_reply :: api_reply
  podman_here :: "string option"
  podman_there :: "string option"
  container :: string
  worker_host :: string
  at_serve_check :: node
  at_resolve :: node
  probe_stdout :: "string ures"
  probe_rc :: int
  probe_stderr :: string
  launched :: "unit ures"
  barrier_lines :: "string list"
  barrier_end :: uexc
  open_result :: "int ures"
  schedule_end :: "(string \<times> uexc) option"
  sample_us :: "string \<Rightarrow> nat \<Rightarrow> nat \<Rightarrow> rat"
  elapsed_down :: pyfloat
  elapsed_up :: pyfloat
  wall :: pyfloat
  reaped_lines :: "string list option"

text \<open>What a run does to the outside.\<close>

datatype event =
    Launch_peer "string list"
  | Open_device string
  | Close_device
  | Print_marker
  | Reap_peer
  | Write_receipt json

section \<open>Receipts\<close>

definition write_receipt :: "string \<Rightarrow> string \<Rightarrow> dict \<Rightarrow> event" where
  "write_receipt ts outcome data =
     (let body = setdefault (dput data ''outcome'' (JStr outcome)) ''loop'' (JStr ''python'')
      in Write_receipt (JObj [(''step'', JStr ''usb4stream''), (''status'', JStr ''pass''),
           (''ts'', JStr ts), (''data'', JObj body)]))"

definition jsizes :: "nat list \<Rightarrow> json" where
  "jsizes xs = JList (map (\<lambda>n. JInt (int n)) xs)"

definition schedule_description :: json where
  "schedule_description =
     JObj [(''warmup_iters'', JInt (int WARMUP_ITERS)), (''warmup_bytes'', JInt (int WARMUP_BYTES)),
           (''rtt_sizes'', jsizes RTT_SIZES), (''rtt_iters'', JInt (int RTT_ITERS)),
           (''exchange_sizes'', jsizes EXCHANGE_SIZES), (''exchange_iters'', JInt (int EXCHANGE_ITERS)),
           (''throughput_bytes_each_direction'', JInt (int THROUGHPUT_BYTES))]"

text \<open>\<open>base["outer"]["inner"] = v\<close>.\<close>

definition put_in :: "dict \<Rightarrow> string \<Rightarrow> string \<Rightarrow> json \<Rightarrow> dict" where
  "put_in base outer inner v =
     dput base outer (JObj (dput (case map_of base outer of Some (JObj d) \<Rightarrow> d | _ \<Rightarrow> []) inner v))"

section \<open>Preconditions\<close>

definition podman_running :: "string \<Rightarrow> string option \<Rightarrow> bool" where
  "podman_running name stdout = (case stdout of None \<Rightarrow> False | Some out \<Rightarrow> contains_str out name)"

text \<open>\<open>urlopen\<close> of the serve endpoint: any answer counts, a server error as an exception as well.\<close>

fun api_answers :: "api_reply \<Rightarrow> bool" where
  "api_answers (Api_status n) \<longleftrightarrow> n < 500"
| "api_answers Api_http_error \<longleftrightarrow> True"
| "api_answers Api_failed \<longleftrightarrow> False"

definition serve_is_up :: "bench \<Rightarrow> bool" where
  "serve_is_up b \<longleftrightarrow>
     api_answers (api_reply b) \<or> podman_running (container b) (podman_here b) \<or> podman_running (container b) (podman_there b)"

definition jpair :: "string option \<times> string option \<Rightarrow> json" where
  "jpair p = JList [jstr (fst p), jstr (snd p)]"

text \<open>A pair of texts the way an f-string prints the tuple.\<close>

definition pair_text :: "(string \<Rightarrow> string) \<Rightarrow> string option \<times> string option \<Rightarrow> string" where
  "pair_text rep p =
     (let show = (\<lambda>x. case x of None \<Rightarrow> ''None'' | Some s \<Rightarrow> rep s)
      in ''('' @ show (fst p) @ '', '' @ show (snd p) @ '')'')"

definition shared_note :: string where
  "shared_note = ''the stream device shares cable A with the serving '' @
     ''rails; first light runs attended in the morning '' @ ''AFTER the pair is torn down''"

definition not_disjoint_note :: "(string \<Rightarrow> string) \<Rightarrow> cable \<Rightarrow> string option \<times> string option \<Rightarrow>
    string option \<times> string option \<Rightarrow> string" where
  "not_disjoint_note rep cable stream_hw serve_hw =
     ''a serve is up and cable '' @ cable_label cable @ '''s stream router '' @ pair_text rep stream_hw
     @ '' could not be shown disjoint from the serving rail's '' @ pair_text rep serve_hw
     @ ''; treating the cable as shared and skipping''"

definition disjoint_note :: "(string \<Rightarrow> string) \<Rightarrow> cable \<Rightarrow> string \<Rightarrow> string option \<times> string option \<Rightarrow>
    string option \<times> string option \<Rightarrow> string" where
  "disjoint_note rep cable rail stream_hw serve_hw =
     ''a serve is up, but cable '' @ cable_label cable @ '''s stream functions sit on router ''
     @ pair_text rep stream_hw @ '' while the serving rail '' @ rail @ '' sits on '' @ pair_text rep serve_hw
     @ '': different NHI, different router, so the open/close cycle cannot reach the serving hop tables. ''
     @ ''The shared-cable rationale does not apply and the run proceeds''"

definition serve_blocks_run ::
  "(string \<Rightarrow> string) \<Rightarrow> node \<Rightarrow> cable \<Rightarrow> dict \<Rightarrow> string \<Rightarrow> (bool \<times> dict) ures" where
  "serve_blocks_run rep e cable base function =
     (if cable = Cable_A then returned (True, dput base ''note'' (JStr shared_note))
      else case res_bind (resolve_stream_device e cable function)
                  (\<lambda>l. res_bind (rail_netdev e) (\<lambda>r. returned (l, fst r))) of
          Inl (Resolve_error _ _) \<Rightarrow> returned (False, base)
        | Inl x \<Rightarrow> raised x
        | Inr (local, rail) \<Rightarrow>
            let serve_hw = router_identity e (''/sys/class/net/'' @ rail @ ''/device'');
                stream_hw = (r_domain local, r_nhi local);
                base' = dput base ''serve_hardware'' (JObj [(''serving_rail'', JStr rail),
                  (''serving_router'', jpair serve_hw), (''bench_router'', jpair stream_hw)])
            in if None \<in> {fst stream_hw, snd stream_hw, fst serve_hw, snd serve_hw}
                  \<or> stream_hw = serve_hw
               then returned (True, dput base' ''note'' (JStr (not_disjoint_note rep cable stream_hw serve_hw)))
               else returned (False, dput (dput base' ''serve_shares_bench_hardware'' (JBool False))
                      ''note'' (JStr (disjoint_note rep cable rail stream_hw serve_hw))))"

text \<open>
  The last printed line that starts with a brace and decodes; \<open>loads\<close> of such a line is a
  dictionary or fails.
\<close>

fun last_report :: "(string \<Rightarrow> dict option) \<Rightarrow> string list \<Rightarrow> dict option" where
  "last_report loads [] = None"
| "last_report loads (l # ls) =
     (case last_report loads ls of Some d \<Rightarrow> Some d
      | None \<Rightarrow> if startswith (strip l) ''{'' then loads (strip l) else None)"

definition probe_peer :: "(string \<Rightarrow> dict option) \<Rightarrow> bench \<Rightarrow> dict ures" where
  "probe_peer loads b =
     res_bind (probe_stdout b) (\<lambda>out.
       returned (case last_report loads (splitlines (strip out)) of Some d \<Rightarrow> d
                 | None \<Rightarrow> [(''ok'', JBool False), (''error'', JStr (''peer probe returned no JSON (rc='' @ str_int (probe_rc b) @ ''): ''
                   @ take 200 (strip (probe_stderr b))))]))"

datatype precondition =
    Skip string dict
  | Go resolution dict dict

definition base_dict :: "cable \<Rightarrow> dict" where
  "base_dict cable =
     [(''serve_up'', JNull), (''loop'', JStr ''python''), (''cable'', JStr (cable_label cable)),
      (''schedule'', schedule_description),
      (''device'', JObj [(''coordinator'', JNull), (''peer'', JNull)]),
      (''open_count'', JObj [(''coordinator'', JInt 0), (''peer'', JInt 0)])]"

definition hop_pair :: "json \<Rightarrow> json \<Rightarrow> json" where
  "hop_pair i out = JObj [(''in'', i), (''out'', out)]"

text \<open>The part of the preconditions after the serve check.\<close>

definition check_both_ends ::
  "(string \<Rightarrow> dict option) \<Rightarrow> bench \<Rightarrow> cable \<Rightarrow> string \<Rightarrow> dict \<Rightarrow> precondition ures" where
  "check_both_ends loads b cable function base =
     (case resolve_stream_device (at_resolve b) cable function of
        Inl (Resolve_error msg configfs) \<Rightarrow>
          (let base' = dput base ''local_resolve_error'' (JStr msg)
           in if configfs
              then res_bind (probe_peer loads b) (\<lambda>p.
                     returned (Skip SKIP_CONFIGFS_MISSING (dput base' ''peer_probe'' (JObj p))))
              else returned (Skip SKIP_PEER_UNREACHABLE base'))
      | Inl x \<Rightarrow> raised x
      | Inr local \<Rightarrow>
          res_bind (peer_reachable (at_resolve b) (r_rail local) (r_peer_addr local) (r_hwaddr local)) (\<lambda>reach.
          let base1 = dput (dput base ''rail'' (JObj [(''dev'', JStr (r_rail local)),
                  (''addr'', JStr (r_rail_addr local)), (''peer'', jstr (r_peer_addr local)),
                  (''cable'', JStr (cable_label cable))]))
                ''peer_reachable'' (JObj reach)
          in if \<not> truthy (get_key reach ''reachable'') then returned (Skip SKIP_PEER_UNREACHABLE base1)
             else res_bind (probe_peer loads b) (\<lambda>probe.
               let base2 = put_in base1 ''device'' ''coordinator'' (JStr (r_dev local));
                   base3 = dput base2 ''configfs'' (JObj [(''coordinator'', JStr (r_group local))]);
                   base4 = dput base3 ''ring_size'' (jstr (r_ring_size local));
                   base5 = dput base4 ''throttling'' (jstr (r_throttling local));
                   base6 = dput base5 ''hopids'' (JObj [(''coordinator'',
                             hop_pair (jstr (r_in_hopid local)) (jstr (r_out_hopid local)))])
               in if \<not> truthy (get_key probe ''ok'')
                  then returned (Skip SKIP_CONFIGFS_MISSING (dput base6 ''peer_probe'' (JObj probe)))
                  else
                    let base7 = put_in base6 ''device'' ''peer'' (get_key probe ''dev'');
                        base8 = put_in base7 ''configfs'' ''peer'' (get_key probe ''configfs_group'');
                        base9 = dput base8 ''peer_ring_size'' (get_key probe ''ring_size'');
                        base10 = dput base9 ''peer_throttling'' (get_key probe ''throttling'');
                        base11 = put_in base10 ''hopids'' ''peer''
                                   (hop_pair (get_key probe ''in_hopid'') (get_key probe ''out_hopid''))
                    in case cable_disagreement (resolution_dict local) probe of
                         Some d \<Rightarrow> returned (Skip SKIP_CABLE_MISMATCH
                           (dput (dput base11 ''peer_probe'' (JObj probe)) ''cable_mismatch''
                           (JStr (disagreement_text (show_value b) (resolution_dict local) probe d))))
                       | None \<Rightarrow> returned (Go local probe base11))))"

definition coordinator_preconditions ::
  "(string \<Rightarrow> dict option) \<Rightarrow> bench \<Rightarrow> cable \<Rightarrow> string \<Rightarrow> precondition ures" where
  "coordinator_preconditions loads b cable function =
     (let serve_up = serve_is_up b;
          base = dput (base_dict cable) ''serve_up'' (JBool serve_up)
      in res_bind (if serve_up then serve_blocks_run (repr_text b) (at_serve_check b) cable base function
                   else returned (False, base)) (\<lambda>(blocked, base').
           if blocked then returned (Skip SKIP_SERVE_UP base')
           else check_both_ends loads b cable function base'))"

section \<open>Samples\<close>

definition sample_cell :: "rat list \<Rightarrow> nat \<Rightarrow> json res" where
  "sample_cell samples iters =
     res_bind (percentile samples 50) (\<lambda>a. res_bind (percentile samples 99) (\<lambda>z.
       returned (JObj [(''p50'', JFloat (round_at 3 (Fin a))), (''p99'', JFloat (round_at 3 (Fin z))),
                       (''iters'', JInt (int iters))])))"

definition sample_table :: "bench \<Rightarrow> string \<Rightarrow> nat list \<Rightarrow> nat \<Rightarrow> json res" where
  "sample_table b phase sizes iters =
     res_bind (res_seq (map (\<lambda>n. res_bind (sample_cell (map (sample_us b phase n) [0..<iters]) iters)
                                 (\<lambda>c. returned (str_nat n, c))) sizes))
       (\<lambda>cells. returned (JObj cells))"

definition rate :: "pyfloat \<Rightarrow> json res" where
  "rate elapsed =
     (if elapsed = Fin 0 then returned JNull
      else res_bind (fdiv (Fin (of_nat THROUGHPUT_BYTES)) (Fin 1000000)) (\<lambda>mb.
             res_bind (fdiv mb elapsed) (\<lambda>r. returned (JFloat (round_at 1 r)))))"

definition results_dict :: "bench \<Rightarrow> dict res" where
  "results_dict b =
     res_bind (sample_table b ''rtt'' RTT_SIZES RTT_ITERS) (\<lambda>rtt.
     res_bind (sample_table b ''exchange'' EXCHANGE_SIZES EXCHANGE_ITERS) (\<lambda>ex.
     res_bind (rate (elapsed_down b)) (\<lambda>down. res_bind (rate (elapsed_up b)) (\<lambda>up.
       returned [(''rtt_us'', rtt), (''exchange_us'', ex),
                 (''throughput_mb_s'', JObj [(''coordinator_to_peer'', down), (''peer_to_coordinator'', up)])]))))"

section \<open>The coordinator\<close>

text \<open>One open per process: the counter is checked and raised before the device is touched.\<close>

definition open_stream_once :: "nat \<Rightarrow> int ures \<Rightarrow> nat \<times> bool \<times> int ures" where
  "open_stream_once opens res =
     (if opens \<noteq> 0 then (opens, False, raised No_errno) else (Suc opens, True, res))"

text \<open>The lines read before the marker, and how the wait ended.\<close>

fun wait_peer_open :: "uexc \<Rightarrow> string list \<Rightarrow> string list \<times> unit ures" where
  "wait_peer_open end' [] = ([], raised end')"
| "wait_peer_open end' (l # ls) =
     (let text = strip l in
      if text = PEER_OPEN_MARKER then ([], returned ())
      else case wait_peer_open end' ls of (consumed, r) \<Rightarrow>
        (if text \<noteq> [] then text # consumed else consumed, r))"

definition kill_peer :: "(string \<Rightarrow> dict option) \<Rightarrow> bench \<Rightarrow> bool \<Rightarrow> string list \<Rightarrow> dict" where
  "kill_peer loads b has_proc consumed =
     (if \<not> has_proc then []
      else case reaped_lines b of None \<Rightarrow> []
        | Some ls \<Rightarrow> (case last_report loads (consumed @ ls) of None \<Rightarrow> [] | Some d \<Rightarrow> d))"

text \<open>
  How far a run got: the trace, whether the peer was launched and the device is open, what the
  barrier consumed, the report so far, and the phase and exception that ended it, if one did.
\<close>

record attempt =
  trace :: "event list"
  has_proc :: bool
  has_fd :: bool
  consumed :: "string list"
  report :: dict
  failure :: "(string \<times> uexc) option"

text \<open>\<open>shlex.quote\<close>: a \<open>TypeError\<close> on a value that is neither empty nor a text.\<close>

fun quotable :: "json \<Rightarrow> bool" where
  "quotable (JStr s) \<longleftrightarrow> True"
| "quotable v \<longleftrightarrow> \<not> truthy v"

fun text_of_json :: "json \<Rightarrow> string" where
  "text_of_json (JStr s) = s"
| "text_of_json v = []"

definition SSH_OPTS :: "string list" where
  "SSH_OPTS = [''-o'', ''BatchMode=yes'', ''-o'', ''ConnectTimeout=5'', ''-o'', ''StrictHostKeyChecking=yes'']"

definition ssh_argv :: "string \<Rightarrow> string \<Rightarrow> string list" where
  "ssh_argv host command = [''ssh''] @ SSH_OPTS @ [host, command]"

definition launch_command :: "cable \<Rightarrow> string \<Rightarrow> string \<Rightarrow> string" where
  "launch_command cable function dev =
     ''python3 - --role peer --cable '' @ shlex_quote (cable_label cable) @ '' --function ''
     @ shlex_quote function @ '' --dev '' @ shlex_quote dev"

definition run_schedule :: "bench \<Rightarrow> attempt \<Rightarrow> attempt" where
  "run_schedule b a =
     (case schedule_end b of
        Some failed \<Rightarrow> a\<lparr>failure := Some failed\<rparr>
      | None \<Rightarrow>
          (case results_dict b of
             Inl _ \<Rightarrow> a\<lparr>failure := Some (''teardown'', No_errno)\<rparr>
           | Inr d \<Rightarrow> a\<lparr>report := fold (\<lambda>(k, v) r. dput r k v) d (report a)\<rparr>))"

definition open_here :: "bench \<Rightarrow> resolution \<Rightarrow> attempt \<Rightarrow> attempt" where
  "open_here b local a =
     (case open_stream_once 0 (open_result b) of
        (opens, touched, res) \<Rightarrow>
          let a' = (if touched then a\<lparr>trace := trace a @ [Open_device (r_dev local)]\<rparr> else a)
          in case res of
               Inl x \<Rightarrow> a'\<lparr>failure := Some (''open'', x)\<rparr>
             | Inr fd \<Rightarrow>
                 run_schedule b (a'\<lparr>has_fd := True,
                   report := put_in (report a') ''open_count'' ''coordinator'' (JInt (int opens))\<rparr>))"

definition attempt_run :: "bench \<Rightarrow> cable \<Rightarrow> string \<Rightarrow> resolution \<Rightarrow> dict \<Rightarrow> dict \<Rightarrow> attempt" where
  "attempt_run b cable function local probe base =
     (let a = \<lparr>trace = [], has_proc = False, has_fd = False, consumed = [], report = base, failure = None\<rparr>
      in case map_of probe ''dev'' of
           None \<Rightarrow> a\<lparr>failure := Some (''startup'', No_errno)\<rparr>
         | Some dev \<Rightarrow>
             if \<not> quotable dev then a\<lparr>failure := Some (''startup'', No_errno)\<rparr>
             else let launch = Launch_peer (ssh_argv (worker_host b)
                        (launch_command cable function (text_of_json dev)))
             in case launched b of
               Inl x \<Rightarrow> a\<lparr>trace := [launch], failure := Some (''startup'', x)\<rparr>
             | Inr _ \<Rightarrow>
                 (case wait_peer_open (barrier_end b) (barrier_lines b) of
                    (lines, Inl x) \<Rightarrow>
                      a\<lparr>trace := [launch], has_proc := True, consumed := lines,
                        failure := Some (''peer-open-barrier'', x)\<rparr>
                  | (lines, Inr _) \<Rightarrow>
                      open_here b local (a\<lparr>trace := [launch], has_proc := True, consumed := lines\<rparr>)))"

text \<open>The type of an exception and its message.\<close>

definition exc_text :: "(uexc \<Rightarrow> string) \<Rightarrow> uexc \<Rightarrow> string" where
  "exc_text say x = (case x of Resolve_error msg _ \<Rightarrow> ''ResolveError: '' @ msg | _ \<Rightarrow> say x)"

text \<open>What every report gets at the end, the wall time and what the peer said of itself.\<close>

definition peer_opens :: "dict \<Rightarrow> json" where
  "peer_opens peer = (case map_of peer ''open_count'' of None \<Rightarrow> JInt 0 | Some v \<Rightarrow> v)"

definition complete_report :: "bench \<Rightarrow> dict \<Rightarrow> dict \<Rightarrow> dict" where
  "complete_report b peer d =
     put_in (dput (dput d ''wall_s'' (JFloat (round_at 3 (wall b)))) ''peer_report'' (JObj peer))
       ''open_count'' ''peer'' (peer_opens peer)"

definition final_receipt :: "(int \<Rightarrow> string option) \<Rightarrow> bench \<Rightarrow> attempt \<Rightarrow> dict \<Rightarrow> event" where
  "final_receipt names b a peer =
     (case failure a of
        Some (phase, x) \<Rightarrow>
          write_receipt (clock b) (aborted names x phase)
            (complete_report b peer (dput (report a) ''error'' (JStr (exc_text (describe b) x))))
      | None \<Rightarrow>
          if get_key peer ''outcome'' \<noteq> JStr ''ok'' \<or> \<not> py_eq (peer_opens peer) (JInt 1)
          then write_receipt (clock b) (aborted names (Errno 71) ''peer'') (complete_report b peer (report a))
          else write_receipt (clock b) ''ok'' (complete_report b peer (report a)))"

text \<open>Whatever happened: close, reap, complete the report and write the one receipt.\<close>

definition conclude ::
  "(int \<Rightarrow> string option) \<Rightarrow> (string \<Rightarrow> dict option) \<Rightarrow> bench \<Rightarrow> attempt \<Rightarrow> event list" where
  "conclude names loads b a =
     trace a @ (if has_fd a then [Close_device] else []) @ (if has_proc a then [Reap_peer] else []) @
     [final_receipt names b a (kill_peer loads b (has_proc a) (consumed a))]"

definition run_coordinator ::
  "(int \<Rightarrow> string option) \<Rightarrow> (string \<Rightarrow> dict option) \<Rightarrow> bench \<Rightarrow> cable \<Rightarrow> string \<Rightarrow> event list ures" where
  "run_coordinator names loads b cable function =
     (if banked b then returned []
      else res_bind (coordinator_preconditions loads b cable function) (\<lambda>p.
        case p of
          Skip outcome base \<Rightarrow> returned [write_receipt (clock b) outcome base]
        | Go local probe base \<Rightarrow> returned (conclude names loads b (attempt_run b cable function local probe base))))"

text \<open>The rehearsal: what it did to the outside, and the verdict that it prints.\<close>

definition run_dry_run ::
  "(string \<Rightarrow> dict option) \<Rightarrow> bench \<Rightarrow> cable \<Rightarrow> string \<Rightarrow> (event list \<times> dict) ures" where
  "run_dry_run loads b cable function =
     (let verdict = [(''role'', JStr ''dry-run''), (''cable'', JStr (cable_label cable)),
            (''host'', JStr (nodename b)), (''receipt_exists'', JBool (banked b)),
            (''receipt_path'', JStr (receipt_path b))];
          finish = (\<lambda>d. returned ([], d @ [(''receipt_written'', JBool False), (''devices_opened'', JInt 0)]))
      in case coordinator_preconditions loads b cable function of
        Inl (Resolve_error msg _) \<Rightarrow>
          finish (verdict @ [(''decision'', JStr ''would-skip''), (''outcome'', JStr ''resolve-error''), (''detail'', JStr msg)])
      | Inl x \<Rightarrow> raised x
      | Inr (Skip outcome base) \<Rightarrow>
          finish (verdict @ [(''decision'', JStr ''would-skip''), (''outcome'', JStr outcome), (''base'', JObj base)])
      | Inr (Go local probe base) \<Rightarrow>
          finish (verdict @ [(''decision'', JStr ''would-proceed''), (''coordinator'', JObj (resolution_dict local)),
            (''peer'', JObj probe), (''base'', JObj base)]))"

section \<open>The peer\<close>

record peer_world =
  peer_node :: node
  peer_open :: "int ures"
  peer_schedule_end :: "(string \<times> uexc) option"
  peer_describe :: "uexc \<Rightarrow> string"

definition peer_base :: "string option \<Rightarrow> cable \<Rightarrow> string \<Rightarrow> dict" where
  "peer_base dev cable function =
     [(''role'', JStr ''peer''), (''outcome'', JStr ''ok''), (''open_count'', JInt 0), (''dev'', jstr dev),
      (''cable'', JStr (cable_label cable)), (''function'', JStr function)]"

definition peer_failed :: "(int \<Rightarrow> string option) \<Rightarrow> peer_world \<Rightarrow> dict \<Rightarrow> string \<Rightarrow> uexc \<Rightarrow> dict" where
  "peer_failed names w d phase x =
     dput (dput d ''outcome'' (JStr (aborted names x phase))) ''error'' (JStr (exc_text (peer_describe w) x))"

definition mismatched_open :: "string \<Rightarrow> cable \<Rightarrow> string \<Rightarrow> uexc" where
  "mismatched_open asked cable resolved =
     Resolve_error (''the coordinator asked this node to open '' @ asked @ '' for cable '' @ cable_label cable
       @ '', but cable '' @ cable_label cable @ '' resolves to '' @ resolved @ '' here; refusing a mismatched open'') False"

definition run_peer ::
  "(int \<Rightarrow> string option) \<Rightarrow> peer_world \<Rightarrow> string option \<Rightarrow> cable \<Rightarrow> string \<Rightarrow> event list \<times> dict" where
  "run_peer names w dev cable function =
     (let d0 = peer_base dev cable function
      in case resolve_stream_device (peer_node w) cable function of
           Inl x \<Rightarrow> ([], peer_failed names w d0 ''startup'' x)
         | Inr r \<Rightarrow>
             let d1 = dput (dput (dput (dput (dput d0 ''ring_size'' (jstr (r_ring_size r)))
                  ''throttling'' (jstr (r_throttling r))) ''in_hopid'' (jstr (r_in_hopid r)))
                  ''out_hopid'' (jstr (r_out_hopid r))) ''resolved_dev'' (JStr (r_dev r))
             in if given dev \<and> dev \<noteq> Some (r_dev r)
                then ([], peer_failed names w d1 ''startup'' (mismatched_open (the dev) cable (r_dev r)))
                else
                  let d2 = dput d1 ''dev'' (JStr (r_dev r))
                  in case open_stream_once 0 (peer_open w) of
                       (opens, _, Inl x) \<Rightarrow> ([Open_device (r_dev r)], peer_failed names w d2 ''open'' x)
                     | (opens, _, Inr fd) \<Rightarrow>
                         let d3 = dput d2 ''open_count'' (JInt (int opens))
                         in ([Open_device (r_dev r), Print_marker, Close_device],
                             case peer_schedule_end w of None \<Rightarrow> d3
                             | Some (phase, x) \<Rightarrow> peer_failed names w d3 phase x))"

section \<open>What a run does\<close>

fun is_open :: "event \<Rightarrow> bool" where
  "is_open (Open_device _) = True"
| "is_open _ = False"

fun is_write :: "event \<Rightarrow> bool" where
  "is_write (Write_receipt _) = True"
| "is_write _ = False"

lemma is_write_write_receipt [simp]: "is_write (write_receipt ts outcome d)" "\<not> is_open (write_receipt ts outcome d)"
  by (simp_all add: write_receipt_def Let_def)

lemma write_receipt_neq [simp]:
  "write_receipt ts outcome d \<noteq> Open_device x" "write_receipt ts outcome d \<noteq> Launch_peer y"
  "write_receipt ts outcome d \<noteq> Close_device" "write_receipt ts outcome d \<noteq> Reap_peer"
  "Open_device x \<noteq> write_receipt ts outcome d" "Launch_peer y \<noteq> write_receipt ts outcome d"
  "Close_device \<noteq> write_receipt ts outcome d" "Reap_peer \<noteq> write_receipt ts outcome d"
  by (simp_all add: write_receipt_def Let_def)

text \<open>The shape of the trace of an attempt.\<close>

definition barrier_passed :: "bench \<Rightarrow> bool" where
  "barrier_passed b \<longleftrightarrow> snd (wait_peer_open (barrier_end b) (barrier_lines b)) = returned ()"

lemma run_schedule_simps [simp]:
  "trace (run_schedule b a) = trace a" "has_fd (run_schedule b a) = has_fd a"
  "has_proc (run_schedule b a) = has_proc a" "consumed (run_schedule b a) = consumed a"
  by (simp_all add: run_schedule_def split: option.splits sum.splits)

lemma open_here_trace:
  "trace (open_here b local a) = trace a @ [Open_device (r_dev local)]"
  "has_proc (open_here b local a) = has_proc a"
  "has_fd (open_here b local a) \<longleftrightarrow> has_fd a \<or> \<not> isl (open_result b)"
  by (auto simp: open_here_def open_stream_once_def Let_def split: sum.splits)

lemma attempt_trace:
  "trace (attempt_run b cable function local probe base) =
     (case map_of probe ''dev'' of None \<Rightarrow> []
      | Some dev \<Rightarrow> if \<not> quotable dev then []
                    else let launch = Launch_peer (ssh_argv (worker_host b)
                           (launch_command cable function (text_of_json dev)))
                      in if isl (launched b) \<or> \<not> barrier_passed b then [launch]
                         else [launch, Open_device (r_dev local)])"
  by (auto simp: attempt_run_def barrier_passed_def open_here_trace Let_def
      split: option.splits sum.splits prod.splits)

lemma attempt_fd:
  "has_fd (attempt_run b cable function local probe base) \<longleftrightarrow>
     Open_device (r_dev local) \<in> set (trace (attempt_run b cable function local probe base)) \<and> \<not> isl (open_result b)"
  by (auto simp: attempt_run_def barrier_passed_def open_here_trace Let_def
      split: option.splits sum.splits prod.splits)

lemma conclude_events:
  "\<exists>r. conclude names loads b a =
     trace a @ (if has_fd a then [Close_device] else []) @ (if has_proc a then [Reap_peer] else []) @ [Write_receipt r]"
  by (auto simp: conclude_def final_receipt_def write_receipt_def Let_def split: option.splits prod.splits)

lemma run_coordinator_cases:
  assumes "run_coordinator names loads b cable function = returned tr"
  obtains (banked) "banked b" "tr = []"
  | (skip) outcome base where "\<not> banked b"
      "coordinator_preconditions loads b cable function = returned (Skip outcome base)"
      "tr = [write_receipt (clock b) outcome base]"
  | (go) local probe base where "\<not> banked b"
      "coordinator_preconditions loads b cable function = returned (Go local probe base)"
      "tr = conclude names loads b (attempt_run b cable function local probe base)"
proof (cases "banked b")
  case True
  then show ?thesis using assms banked by (simp add: run_coordinator_def)
next
  case False
  then obtain p where p: "coordinator_preconditions loads b cable function = returned p"
    and tr: "(case p of Skip outcome base \<Rightarrow> returned [write_receipt (clock b) outcome base]
      | Go local probe base \<Rightarrow> returned (conclude names loads b (attempt_run b cable function local probe base))) =
      (returned tr :: event list ures)"
    using assms by (auto simp: run_coordinator_def res_bind_Inr_iff)
  show ?thesis
    using False p tr skip go by (cases p) auto
qed

lemma preconditions_Go:
  assumes "coordinator_preconditions loads b cable function = returned (Go local probe base)"
  shows "resolve_stream_device (at_resolve b) cable function = returned local"
    and "peer_answers (at_resolve b) (r_rail local) (r_peer_addr local) (r_hwaddr local) = returned True"
    and "probe_peer loads b = returned probe"
    and "cable_disagreement (resolution_dict local) probe = None"
    and "serve_is_up b \<Longrightarrow> \<exists>base1 base2. serve_blocks_run (repr_text b) (at_serve_check b) cable base1 function = returned (False, base2)"
    and "truthy (get_key probe ''ok'')"
proof -
  obtain base' where pre: "(if serve_is_up b
      then serve_blocks_run (repr_text b) (at_serve_check b) cable (dput (base_dict cable) ''serve_up'' (JBool (serve_is_up b))) function
      else returned (False, dput (base_dict cable) ''serve_up'' (JBool (serve_is_up b)))) = returned (False, base')"
    and both: "check_both_ends loads b cable function base' = returned (Go local probe base)"
    using assms
    by (auto simp: coordinator_preconditions_def Let_def res_bind_Inr_iff split: if_splits)
  show "serve_is_up b \<Longrightarrow> \<exists>base1 base2. serve_blocks_run (repr_text b) (at_serve_check b) cable base1 function = returned (False, base2)"
    using pre by auto
  show "resolve_stream_device (at_resolve b) cable function = returned local"
    "peer_answers (at_resolve b) (r_rail local) (r_peer_addr local) (r_hwaddr local) = returned True"
    "probe_peer loads b = returned probe"
    "cable_disagreement (resolution_dict local) probe = None"
    "truthy (get_key probe ''ok'')"
    using both
    by (auto simp: check_both_ends_def peer_answers_iff Let_def res_bind_Inr_iff
        split: sum.splits uexc.splits if_splits option.splits)
qed

text \<open>
  When the serve check lets a run go on: never on cable A; on cable B when the stream's router and the
  serving rail's are both known and differ, or when the chain does not resolve at that moment.
\<close>

lemma serve_check_allows:
  assumes "serve_blocks_run rep e cable base function = returned (False, base')"
  shows "cable = Cable_B \<and>
    ((\<exists>msg c. resolve_stream_device e cable function = raised (Resolve_error msg c)) \<or>
     (\<exists>seen rail a. resolve_stream_device e cable function = returned seen \<and> rail_netdev e = returned (rail, a) \<and>
        None \<notin> {r_domain seen, r_nhi seen, fst (router_identity e (''/sys/class/net/'' @ rail @ ''/device'')),
          snd (router_identity e (''/sys/class/net/'' @ rail @ ''/device''))} \<and>
        (r_domain seen, r_nhi seen) \<noteq> router_identity e (''/sys/class/net/'' @ rail @ ''/device'')))"
proof -
  have c: "cable = Cable_B" using assms by (cases cable) (auto simp: serve_blocks_run_def)
  show ?thesis
  proof (cases "resolve_stream_device e cable function")
    case (Inl x)
    then show ?thesis using assms c by (cases x) (auto simp: serve_blocks_run_def)
  next
    case (Inr seen)
    then obtain rail a where rail: "rail_netdev e = returned (rail, a)"
      by (auto simp: resolve_stream_device_def cable_netdev_def res_bind_Inr_iff)
    define hw where "hw = router_identity e (''/sys/class/net/'' @ rail @ ''/device'')"
    have "\<not> (None \<in> {r_domain seen, r_nhi seen, fst hw, snd hw} \<or> (r_domain seen, r_nhi seen) = hw)"
    proof
      assume shared: "None \<in> {r_domain seen, r_nhi seen, fst hw, snd hw} \<or> (r_domain seen, r_nhi seen) = hw"
      then have "\<exists>x. serve_blocks_run rep e cable base function = returned (True, x)"
        unfolding serve_blocks_run_def c Inr [unfolded c] rail res_bind_simps sum.case split fst_conv snd_conv
          Let_def hw_def [symmetric] by simp
      with assms show False by simp
    qed
    then show ?thesis using c Inr rail unfolding hw_def by blast
  qed
qed

text \<open>
  C1: The coordinator opens a device at most once, and only when no receipt was banked, a serve that
  is up was checked first (the run is on cable B, and what the check read of the stream's router and of
  the serving rail's showed two different ones, or did not resolve at all), the device is the one its own
  chain resolved, a different machine answered on that netdev, the peer's probe is good, the guard found
  both ends on the same cable, and the peer had announced its own open; the run then ends with exactly one
  receipt, and an open that succeeded is closed before it.
\<close>

theorem open_only_when_safe:
  assumes "run_coordinator names loads b cable function = returned tr"
    and "Open_device d \<in> set tr"
  shows "\<not> banked b \<and> length (filter is_open tr) = 1 \<and> length (filter is_write tr) = 1 \<and>
    is_write (last tr) \<and> (\<not> isl (open_result b) \<longrightarrow> Close_device \<in> set tr) \<and> barrier_passed b \<and>
    (serve_is_up b \<longrightarrow> cable = Cable_B \<and>
      ((\<exists>msg c. resolve_stream_device (at_serve_check b) cable function = raised (Resolve_error msg c)) \<or>
       (\<exists>seen rail a. resolve_stream_device (at_serve_check b) cable function = returned seen \<and>
          rail_netdev (at_serve_check b) = returned (rail, a) \<and>
          None \<notin> {r_domain seen, r_nhi seen, fst (router_identity (at_serve_check b) (''/sys/class/net/'' @ rail @ ''/device'')),
            snd (router_identity (at_serve_check b) (''/sys/class/net/'' @ rail @ ''/device''))} \<and>
          (r_domain seen, r_nhi seen) \<noteq>
            router_identity (at_serve_check b) (''/sys/class/net/'' @ rail @ ''/device'')))) \<and>
    (\<exists>local probe. resolve_stream_device (at_resolve b) cable function = returned local \<and>
       d = r_dev local \<and>
       peer_answers (at_resolve b) (r_rail local) (r_peer_addr local) (r_hwaddr local) = returned True \<and>
       probe_peer loads b = returned probe \<and> truthy (get_key probe ''ok'') \<and>
       cable_disagreement (resolution_dict local) probe = None)"
  using assms(1)
proof (cases rule: run_coordinator_cases)
  case (go local probe base)
  define a where "a = attempt_run b cable function local probe base"
  obtain r where tr: "tr = trace a @ (if has_fd a then [Close_device] else []) @
      (if has_proc a then [Reap_peer] else []) @ [Write_receipt r]"
    using conclude_events go(3) unfolding a_def by blast
  have "Open_device d \<in> set (trace a)" using assms(2) by (auto simp: tr split: if_splits)
  then have "\<exists>dev. trace a = [Launch_peer dev, Open_device (r_dev local)] \<and> d = r_dev local \<and> barrier_passed b"
    by (cases "map_of probe ''dev''") (auto simp: a_def attempt_trace Let_def split: if_splits)
  then obtain dev where t: "trace a = [Launch_peer dev, Open_device (r_dev local)]"
    and d: "d = r_dev local" and passed: "barrier_passed b" by blast
  moreover have "has_fd a \<longleftrightarrow> \<not> isl (open_result b)" using t by (simp add: a_def attempt_fd)
  ultimately have trace: "length (filter is_open tr) = 1 \<and> length (filter is_write tr) = 1 \<and> is_write (last tr) \<and>
      (\<not> isl (open_result b) \<longrightarrow> Close_device \<in> set tr)" by (auto simp: tr)
  show ?thesis
  proof (intro conjI impI)
    assume "serve_is_up b"
    then obtain base1 base2 where
      "serve_blocks_run (repr_text b) (at_serve_check b) cable base1 function = returned (False, base2)"
      using preconditions_Go(5) [OF go(2)] by blast
    note allowed = serve_check_allows [OF this]
    show "cable = Cable_B" using allowed by (rule conjunct1)
    show "(\<exists>msg c. resolve_stream_device (at_serve_check b) cable function = raised (Resolve_error msg c)) \<or>
       (\<exists>seen rail a. resolve_stream_device (at_serve_check b) cable function = returned seen \<and>
          rail_netdev (at_serve_check b) = returned (rail, a) \<and>
          None \<notin> {r_domain seen, r_nhi seen, fst (router_identity (at_serve_check b) (''/sys/class/net/'' @ rail @ ''/device'')),
            snd (router_identity (at_serve_check b) (''/sys/class/net/'' @ rail @ ''/device''))} \<and>
          (r_domain seen, r_nhi seen) \<noteq>
            router_identity (at_serve_check b) (''/sys/class/net/'' @ rail @ ''/device''))"
      using allowed by (rule conjunct2)
  qed (use go(1) trace d passed preconditions_Go(1-4,6) [OF go(2)] in blast)+
qed (use assms(2) in auto)

text \<open>
  A run that is skipped, or that finds a receipt, launches nothing and opens nothing; a skip
  writes exactly one receipt, a banked run none.
\<close>

theorem refused_run_touches_nothing:
  assumes "run_coordinator names loads b cable function = returned tr"
    and "banked b \<or> (\<exists>outcome base. coordinator_preconditions loads b cable function = returned (Skip outcome base))"
  shows "(\<forall>ev \<in> set tr. is_write ev) \<and> length tr = (if banked b then 0 else 1)"
  using assms(1)
proof (cases rule: run_coordinator_cases)
  case (go local probe base)
  then show ?thesis using assms(2) by auto
qed auto

text \<open>
  C30: The rehearsal does nothing to the outside, says so, and decides exactly what the real run would
  do from the same answers: skip with the outcome and the evidence that the receipt would carry, or
  go on to launch with the two resolutions that it prints.
\<close>

theorem dry_run_predicts:
  assumes "run_dry_run loads b cable function = returned (tr, verdict)"
    and "run_coordinator names loads b cable function = returned tr'"
    and "\<not> banked b"
  shows "tr = [] \<and> map_of verdict ''receipt_written'' = Some (JBool False) \<and>
    map_of verdict ''devices_opened'' = Some (JInt 0) \<and>
    (\<exists>base. map_of verdict ''base'' = Some (JObj base) \<and>
      ((\<exists>outcome. map_of verdict ''decision'' = Some (JStr ''would-skip'') \<and>
          map_of verdict ''outcome'' = Some (JStr outcome) \<and> tr' = [write_receipt (clock b) outcome base]) \<or>
       (\<exists>local probe. map_of verdict ''decision'' = Some (JStr ''would-proceed'') \<and>
          map_of verdict ''coordinator'' = Some (JObj (resolution_dict local)) \<and>
          map_of verdict ''peer'' = Some (JObj probe) \<and>
          tr' = conclude names loads b (attempt_run b cable function local probe base))))"
  using assms(2)
proof (cases rule: run_coordinator_cases)
  case (skip outcome base)
  then show ?thesis using assms(1) by (auto simp: run_dry_run_def Let_def)
next
  case (go local probe base)
  then show ?thesis using assms(1) by (auto simp: run_dry_run_def Let_def)
qed (use assms(3) in simp)

text \<open>
  If a serve is up and the hardware does not change between the serve check and the run, a
  device is only opened on cable B, and only when the stream's router and the serving rail's are
  both known and differ.
\<close>

theorem open_beside_serve_is_disjoint:
  assumes "run_coordinator names loads b cable function = returned tr" and "Open_device d \<in> set tr"
    and "serve_is_up b" and "at_serve_check b = at_resolve b"
  shows "cable = Cable_B \<and>
    (\<exists>local rail a. resolve_stream_device (at_resolve b) cable function = returned local \<and>
       rail_netdev (at_resolve b) = returned (rail, a) \<and>
       r_domain local \<noteq> None \<and> r_nhi local \<noteq> None \<and>
       (r_domain local, r_nhi local) \<noteq>
         router_identity (at_resolve b) (''/sys/class/net/'' @ rail @ ''/device''))"
  using assms(1)
proof (cases rule: run_coordinator_cases)
  case (go local probe base)
  obtain base1 base2 where
    s: "serve_blocks_run (repr_text b) (at_resolve b) cable base1 function = returned (False, base2)"
    using preconditions_Go(5) [OF go(2) assms(3)] assms(4) by auto
  show ?thesis using serve_check_allows [OF s] preconditions_Go(1) [OF go(2)] by (auto simp: eq_commute [of None])
qed (use assms(2) in auto)

text \<open>
  The peer announces an open only after its own open of the device that its own chain
  resolved, opens at most once, and opens nothing when the coordinator named another device.
\<close>

theorem peer_marker_after_open:
  assumes "run_peer names w dev cable function = (tr, rep)"
  shows "length (filter is_open tr) \<le> 1 \<and>
    (tr \<noteq> [] \<longrightarrow> (\<exists>r. resolve_stream_device (peer_node w) cable function = returned r \<and>
       hd tr = Open_device (r_dev r) \<and> (given dev \<longrightarrow> dev = Some (r_dev r)))) \<and>
    (Print_marker \<in> set tr \<longrightarrow> \<not> isl (peer_open w) \<and> last tr = Close_device)"
  using assms
  by (auto simp: run_peer_def open_stream_once_def Let_def split: sum.splits if_splits)

section \<open>Two nodes\<close>

text \<open>
  A pair of nodes with cable A on \<open>tb0\<close> and cable B on \<open>tb1\<close>; the path of cable B's service and
  whether the sysfs tree of \<open>tb1\<close> is there are arguments.
\<close>

definition demo_attr :: "string \<Rightarrow> string \<Rightarrow> string \<Rightarrow> string \<Rightarrow> string option" where
  "demo_attr router hop_in hop_out p =
     map_of [(''/sys/class/net/tb0/device/key'', ''network''), (''/sys/class/net/tb1/device/key'', ''network''),
             (''/sys/class/net/tb1/carrier'', ''1''), (''/sys/class/net/tb1/address'', ''own''),
             (router @ ''/x1/s/key'', ''stream''),
             (''/sys/kernel/config/thunderbolt/stream/s/fn0/index'', ''2''),
             (''/sys/kernel/config/thunderbolt/stream/s/fn0/in_hopid'', hop_in),
             (''/sys/kernel/config/thunderbolt/stream/s/fn0/out_hopid'', hop_out)] p"

definition demo_node :: "string \<Rightarrow> string \<Rightarrow> string \<Rightarrow> string \<Rightarrow> string \<Rightarrow> bool \<Rightarrow> node" where
  "demo_node router mine theirs hop_in hop_out present =
     \<lparr>addr_show = ''1: tb0 inet 10.99.0.1/30'' @ [newline] @ ''2: tb1 inet '' @ mine @ ''/16'',
      neigh_show = (\<lambda>dev. theirs @ '' lladdr other REACHABLE''),
      ping_answers = (\<lambda>dev p. True),
      listing = (\<lambda>p. Inr (if p = ''/sys/class/net'' then [''tb0'', ''tb1''] else [''s''])),
      path_exists = (\<lambda>p. present \<or> p \<noteq> ''/sys/class/net/tb1/device''),
      path_isdir = (\<lambda>p. True),
      content = demo_attr router hop_in hop_out,
      realpath = (\<lambda>p. if p = ''/sys/class/net/tb1/device'' then router @ ''/x1/n''
                      else if p = ''/sys/class/net/tb0/device'' then ''/pci0/domain0/x0/n'' else p),
      configfs_override = None\<rparr>"

definition demo_resolution :: "string \<Rightarrow> string option \<Rightarrow> string option \<Rightarrow> string \<Rightarrow> string \<Rightarrow> string \<Rightarrow> string \<Rightarrow> resolution" where
  "demo_resolution router dom' nhi mine theirs hop_in hop_out =
     \<lparr>r_cable = Cable_B, r_function = ''fn0'', r_rail = ''tb1'', r_rail_addr = mine, r_hwaddr = Some ''own'',
      r_peer_addr = Some theirs, r_xdomain = router @ ''/x1'', r_service = router @ ''/x1/s'',
      r_domain = dom', r_nhi = nhi,
      r_group = ''/sys/kernel/config/thunderbolt/stream/s/fn0'', r_index = 2, r_dev = ''/dev/tbstream2'',
      r_in_hopid = Some hop_in, r_out_hopid = Some hop_out, r_ring_size = None, r_throttling = None\<rparr>"

definition demo_there :: resolution where
  "demo_there = demo_resolution ''/pci1/domain1'' (Some ''domain1'') (Some ''pci1'') ''169.254.0.2'' ''169.254.0.1'' ''8'' ''9''"

definition demo_probe :: dict where
  "demo_probe = probe_dict ''w'' ''fn0'' demo_there []"

definition demo_bench :: "node \<Rightarrow> node \<Rightarrow> bool \<Rightarrow> bench" where
  "demo_bench check run serve =
     \<lparr>banked = False, clock = ''t'', repr_text = id, show_value = text_of_json, describe = (\<lambda>x. ''error''),
      nodename = ''n'', receipt_path = ''usb4stream.json'',
      api_reply = (if serve then Api_status 200 else Api_failed), podman_here = None, podman_there = None,
      container = ''pair'', worker_host = ''10.99.9.2'', at_serve_check = check, at_resolve = run,
      probe_stdout = returned ''{}'', probe_rc = 0, probe_stderr = [],
      launched = returned (), barrier_lines = [''USB4STREAM-PEER-OPEN''], barrier_end = Errno 32,
      open_result = returned 3, schedule_end = Some (''handshake'', BenchTimeout),
      sample_us = (\<lambda>p n i. 1), elapsed_down = Fin 1, elapsed_up = Fin 1, wall = Fin 1, reaped_lines = None\<rparr>"

lemma demo_probe_peer: "probe_peer (\<lambda>_. Some demo_probe) (demo_bench check run serve) = returned demo_probe"
proof -
  have "splitlines (strip ''{}'') = [''{}'']" "startswith (strip ''{}'') ''{''" by code_simp+
  then show ?thesis by (simp add: probe_peer_def demo_bench_def)
qed

lemma demo_barrier: "barrier_passed (demo_bench check run serve)"
proof -
  have "strip ''USB4STREAM-PEER-OPEN'' = PEER_OPEN_MARKER" by code_simp
  then show ?thesis by (simp add: barrier_passed_def demo_bench_def Let_def)
qed

text \<open>A node of the pair that resolves, sees its peer and is not blocked by a serve goes on.\<close>

lemma demo_goes:
  assumes "resolve_stream_device run Cable_B ''fn0'' = returned l"
    and "peer_answers run (r_rail l) (r_peer_addr l) (r_hwaddr l) = returned True"
    and "cable_disagreement (resolution_dict l) demo_probe = None"
    and "serve \<Longrightarrow> serve_blocks_run id check Cable_B (dput (base_dict Cable_B) ''serve_up'' (JBool True)) ''fn0''
           = returned (False, base')"
  shows "\<exists>tr. run_coordinator names (\<lambda>_. Some demo_probe) (demo_bench check run serve) Cable_B ''fn0'' =
      returned tr \<and> Open_device (r_dev l) \<in> set tr"
proof -
  let ?b = "demo_bench check run serve"
  have up: "serve_is_up (demo_bench check run s) = s" for s
    by (simp add: serve_is_up_def demo_bench_def podman_running_def)
  have run: "at_resolve (demo_bench check run s) = run" "at_serve_check (demo_bench check run s) = check"
    "\<not> banked (demo_bench check run s)" "launched (demo_bench check run s) = returned ()"
    "repr_text (demo_bench check run s) = id" for s
    by (simp_all add: demo_bench_def)
  have ok: "truthy (get_key demo_probe ''ok'')" by (simp add: demo_probe_def)
  obtain reach where reach: "peer_reachable run (r_rail l) (r_peer_addr l) (r_hwaddr l) = returned reach"
    "truthy (get_key reach ''reachable'')"
    using assms(2) by (auto simp: peer_answers_iff)
  have both: "\<exists>base. check_both_ends (\<lambda>_. Some demo_probe) ?b Cable_B ''fn0'' d = returned (Go l demo_probe base)" for d
    by (simp add: check_both_ends_def assms(1,3) reach run demo_probe_peer ok Let_def)
  have "\<exists>base. coordinator_preconditions (\<lambda>_. Some demo_probe) ?b Cable_B ''fn0'' = returned (Go l demo_probe base)"
  proof (cases serve)
    case True
    then show ?thesis using both [of base'] assms(4)
      by (simp add: coordinator_preconditions_def up run Let_def)
  next
    case False
    then show ?thesis using both by (simp add: coordinator_preconditions_def up Let_def)
  qed
  then obtain base where
    pre: "coordinator_preconditions (\<lambda>_. Some demo_probe) ?b Cable_B ''fn0'' = returned (Go l demo_probe base)"
    by blast
  have dev: "\<exists>dev. map_of demo_probe ''dev'' = Some dev \<and> quotable dev"
    by (simp add: demo_probe_def probe_dict_def resolution_dict_def map_of_dput)
  let ?a = "attempt_run ?b Cable_B ''fn0'' l demo_probe base"
  have "Open_device (r_dev l) \<in> set (trace ?a)"
    using dev demo_barrier by (auto simp: attempt_trace run)
  moreover obtain r where "conclude names (\<lambda>_. Some demo_probe) ?b ?a = trace ?a @
      (if has_fd ?a then [Close_device] else []) @ (if has_proc ?a then [Reap_peer] else []) @ [Write_receipt r]"
    using conclude_events by blast
  ultimately have "Open_device (r_dev l) \<in> set (conclude names (\<lambda>_. Some demo_probe) ?b ?a)" by simp
  then show ?thesis by (simp add: run_coordinator_def run pre)
qed

text \<open>Beside a serve, cable A is refused.\<close>

lemma demo_skip:
  "\<exists>base. coordinator_preconditions loads (demo_bench check run True) Cable_A f = returned (Skip SKIP_SERVE_UP base)"
  by (simp add: coordinator_preconditions_def serve_is_up_def demo_bench_def serve_blocks_run_def)

definition node_here :: node where
  "node_here = demo_node ''/pci1/domain1'' ''169.254.0.1'' ''169.254.0.2'' ''9'' ''8'' True"

definition here :: resolution where
  "here = demo_resolution ''/pci1/domain1'' (Some ''domain1'') (Some ''pci1'') ''169.254.0.1'' ''169.254.0.2'' ''9'' ''8''"

lemma here_facts:
  "resolve_stream_device node_here Cable_B ''fn0'' = returned here"
  "peer_answers node_here (r_rail here) (r_peer_addr here) (r_hwaddr here) = returned True"
  "cable_disagreement (resolution_dict here) demo_probe = None"
  "rail_netdev node_here = returned (''tb0'', ''10.99.0.1'')"
  "router_identity node_here (''/sys/class/net/'' @ ''tb0'' @ ''/device'') = (Some ''domain0'', Some ''pci0'')"
  by code_simp+

lemma here_serve:
  "\<exists>d. serve_blocks_run id node_here Cable_B base ''fn0'' = returned (False, d)"
  using here_facts(5) by (simp add: serve_blocks_run_def here_facts(1,4) here_def demo_resolution_def Let_def)

lemma here_runs:
  "\<exists>tr. run_coordinator (\<lambda>_. None) (\<lambda>_. Some demo_probe) (demo_bench node_here node_here True) Cable_B ''fn0'' =
      returned tr \<and> Open_device (r_dev here) \<in> set tr"
proof -
  obtain d where "serve_blocks_run id node_here Cable_B (dput (base_dict Cable_B) ''serve_up'' (JBool True)) ''fn0''
      = returned (False, d)" using here_serve by blast
  then show ?thesis
    using demo_goes [OF here_facts(1-3), where serve = True and check = node_here and names = "\<lambda>_. None"]
    by blast
qed

theorem cables_distinct_witness:
  "in_rail_net ''10.99.0.1'' \<and> ''tb0'' \<noteq> ''tb1'' \<and> (''tb1'', ''169.254.0.1'') \<in> set (ipv4_addr_lines node_here)"
proof -
  have "cable_netdev node_here Cable_A = returned (''tb0'', ''10.99.0.1'')"
    "cable_netdev node_here Cable_B = returned (''tb1'', ''169.254.0.1'')"
    by code_simp+
  from cables_distinct [OF this] show ?thesis by blast
qed

theorem peer_is_another_machine_witness:
  "\<exists>rows ll st. neighbours node_here ''tb1'' = returned rows \<and> (''169.254.0.2'', Some ll, st) \<in> set rows \<and>
     ll \<noteq> ''own'' \<and> \<not> dead_state st"
proof -
  have "peer_answers node_here ''tb1'' (Some ''169.254.0.2'') (Some ''own'') = returned True"
    using here_facts(2) by (simp add: here_def demo_resolution_def)
  from peer_is_another_machine [OF this] show ?thesis by auto
qed

theorem guard_accepts_iff_witness:
  "\<exists>probe r. run_probe node_here ''h'' Cable_B ''fn0'' = returned probe \<and>
     cable_disagreement (resolution_dict demo_there) probe = None \<and>
     resolve_stream_device node_here Cable_B ''fn0'' = returned r \<and> r_out_hopid demo_there = r_in_hopid r"
proof -
  obtain probe where run: "run_probe node_here ''h'' Cable_B ''fn0'' = returned probe"
    using here_facts(1,2) by (auto simp: run_probe_def peer_answers_iff Let_def)
  have "cable_disagreement (resolution_dict demo_there) probe = None"
    unfolding guard_accepts_iff [OF run] here_facts(1)
    by (simp add: here_def demo_there_def demo_resolution_def)
  then show ?thesis using guard_accepts_iff [OF run] run by blast
qed

theorem open_only_when_safe_witness:
  "\<exists>tr. run_coordinator (\<lambda>_. None) (\<lambda>_. Some demo_probe) (demo_bench node_here node_here True) Cable_B ''fn0'' =
      returned tr \<and> length (filter is_open tr) = 1 \<and> Close_device \<in> set tr"
proof -
  obtain tr where tr: "run_coordinator (\<lambda>_. None) (\<lambda>_. Some demo_probe)
      (demo_bench node_here node_here True) Cable_B ''fn0'' = returned tr" "Open_device (r_dev here) \<in> set tr"
    using here_runs by blast
  have "\<not> isl (open_result (demo_bench node_here node_here True))" by (simp add: demo_bench_def)
  with open_only_when_safe [OF tr] tr(1) show ?thesis by blast
qed

theorem open_beside_serve_is_disjoint_witness:
  "\<exists>rail a. rail_netdev node_here = returned (rail, a) \<and>
     (r_domain here, r_nhi here) \<noteq> router_identity node_here (''/sys/class/net/'' @ rail @ ''/device'')"
proof -
  obtain tr where tr: "run_coordinator (\<lambda>_. None) (\<lambda>_. Some demo_probe)
      (demo_bench node_here node_here True) Cable_B ''fn0'' = returned tr" "Open_device (r_dev here) \<in> set tr"
    using here_runs by blast
  have b: "at_serve_check (demo_bench node_here node_here True) = node_here"
    "at_resolve (demo_bench node_here node_here True) = node_here"
    "serve_is_up (demo_bench node_here node_here True)"
    by (simp_all add: demo_bench_def serve_is_up_def)
  show ?thesis using open_beside_serve_is_disjoint [OF tr b(3)] here_facts(1) unfolding b by auto
qed

theorem refused_run_touches_nothing_witness:
  "\<exists>tr. run_coordinator (\<lambda>_. None) (\<lambda>_. Some demo_probe) (demo_bench node_here node_here True) Cable_A ''fn0'' =
     returned tr \<and> filter (\<lambda>ev. \<not> is_write ev) tr = [] \<and> length tr = 1"
proof -
  obtain base where pre: "coordinator_preconditions (\<lambda>_. Some demo_probe) (demo_bench node_here node_here True)
      Cable_A ''fn0'' = returned (Skip SKIP_SERVE_UP base)"
    using demo_skip by blast
  moreover have nb: "\<not> banked (demo_bench node_here node_here True)" by (simp add: demo_bench_def)
  ultimately obtain tr where run: "run_coordinator (\<lambda>_. None) (\<lambda>_. Some demo_probe)
      (demo_bench node_here node_here True) Cable_A ''fn0'' = returned tr"
    by (simp add: run_coordinator_def)
  from refused_run_touches_nothing [OF run] pre nb run show ?thesis by (auto simp: filter_empty_conv)
qed

theorem dry_run_predicts_witness:
  "\<exists>tr base. run_coordinator (\<lambda>_. None) (\<lambda>_. Some demo_probe) (demo_bench node_here node_here True) Cable_A ''fn0'' =
     returned tr \<and> tr = [write_receipt ''t'' SKIP_SERVE_UP base]"
proof -
  let ?b = "demo_bench node_here node_here True"
  have s: "serve_is_up ?b" "clock ?b = ''t''" "\<not> banked ?b"
    by (simp_all add: demo_bench_def serve_is_up_def)
  obtain base where pre: "coordinator_preconditions (\<lambda>_. Some demo_probe) ?b Cable_A ''fn0'' =
      returned (Skip SKIP_SERVE_UP base)"
    using demo_skip by blast
  obtain verdict where dry: "run_dry_run (\<lambda>_. Some demo_probe) ?b Cable_A ''fn0'' = returned ([], verdict)"
    and v: "map_of verdict ''decision'' = Some (JStr ''would-skip'')" "map_of verdict ''outcome'' = Some (JStr SKIP_SERVE_UP)"
    by (simp add: run_dry_run_def pre Let_def)
  have run: "run_coordinator (\<lambda>_. None) (\<lambda>_. Some demo_probe) ?b Cable_A ''fn0'' =
      returned [write_receipt (clock ?b) SKIP_SERVE_UP base]"
    by (simp add: run_coordinator_def pre s)
  from dry_run_predicts [OF dry run s(3)] run v show ?thesis by (auto simp: s)
qed

theorem peer_marker_after_open_witness:
  "hd (fst (run_peer (\<lambda>_. None) \<lparr>peer_node = node_here, peer_open = returned 3, peer_schedule_end = None, peer_describe = (\<lambda>x. ''error'')\<rparr>
     None Cable_B ''fn0'')) = Open_device (r_dev here)"
proof -
  let ?w = "\<lparr>peer_node = node_here, peer_open = returned 3, peer_schedule_end = None, peer_describe = (\<lambda>x. ''error'')\<rparr>"
  obtain rep where r: "run_peer (\<lambda>_. None) ?w None Cable_B ''fn0'' =
      ([Open_device (r_dev here), Print_marker, Close_device], rep)"
    by (simp add: run_peer_def here_facts(1) open_stream_once_def given_def Let_def)
  from peer_marker_after_open [OF r] r show ?thesis using here_facts(1) by auto
qed

text \<open>
  The serve check and the run read the hardware at two moments, and a resolution that fails at
  the first is not taken for shared: with a serve up, a node whose cable B comes back on the
  serving rail's own router between the two opens the device on that shared router.
\<close>

theorem serve_check_race:
  "\<exists>b tr local. serve_is_up b \<and>
     run_coordinator (\<lambda>_. None) (\<lambda>_. Some demo_probe) b Cable_B ''fn0'' = returned tr \<and>
     resolve_stream_device (at_resolve b) Cable_B ''fn0'' = returned local \<and>
     Open_device (r_dev local) \<in> set tr \<and>
     (r_domain local, r_nhi local) = router_identity (at_resolve b) ''/sys/class/net/tb0/device''"
proof -
  define gone where "gone = demo_node ''/pci0/domain0'' ''169.254.0.1'' ''169.254.0.2'' ''9'' ''8'' False"
  define there where "there = demo_node ''/pci0/domain0'' ''169.254.0.1'' ''169.254.0.2'' ''9'' ''8'' True"
  define l where "l = demo_resolution ''/pci0/domain0'' (Some ''domain0'') (Some ''pci0'') ''169.254.0.1'' ''169.254.0.2'' ''9'' ''8''"
  have "resolve_stream_device gone Cable_B ''fn0'' = raised (Resolve_error
      (''cable B: no Thunderbolt netdev besides tb0 has a carrier, so there is no second cable to bench on this node'')
      False)"
    unfolding gone_def by code_simp
  then have check: "serve_blocks_run id gone Cable_B d ''fn0'' = returned (False, d)" for d
    by (simp add: serve_blocks_run_def)
  have l: "resolve_stream_device there Cable_B ''fn0'' = returned l"
    "peer_answers there (r_rail l) (r_peer_addr l) (r_hwaddr l) = returned True"
    "cable_disagreement (resolution_dict l) demo_probe = None"
    "(r_domain l, r_nhi l) = router_identity there ''/sys/class/net/tb0/device''"
    unfolding there_def l_def by code_simp+
  obtain tr where "run_coordinator (\<lambda>_. None) (\<lambda>_. Some demo_probe) (demo_bench gone there True) Cable_B ''fn0'' =
      returned tr" "Open_device (r_dev l) \<in> set tr"
    using demo_goes [OF l(1-3) check, where serve = True and names = "\<lambda>_. None"] by blast
  moreover have "serve_is_up (demo_bench gone there True)" "at_resolve (demo_bench gone there True) = there"
    by (simp_all add: demo_bench_def serve_is_up_def)
  ultimately show ?thesis using l(1,4) by metis
qed

end
