(* ===== verification/StreamReceipts.thy ===== *)
theory StreamReceipts
  imports StreamBench ReceiptsVerify
begin

text \<open>
  The receipts that the stream bench writes, against the bound that the gate puts on them:
  whatever way a run ends, its receipt is one that \<open>receipts-verify\<close> accepts.
\<close>

section \<open>Bodies\<close>

definition receipt_body :: "string \<Rightarrow> dict \<Rightarrow> dict" where
  "receipt_body outcome data = setdefault (dput data ''outcome'' (JStr outcome)) ''loop'' (JStr ''python'')"

lemma map_of_body:
  "map_of (receipt_body outcome data) k =
     (if k = ''outcome'' then Some (JStr outcome)
      else if k = ''loop'' \<and> map_of data ''loop'' = None then Some (JStr ''python'') else map_of data k)"
  by (simp add: receipt_body_def map_of_setdefault map_of_dput)

lemma write_receipt_body:
  "write_receipt ts outcome data = Write_receipt (JObj [(''step'', JStr ''usb4stream''),
     (''status'', JStr ''pass''), (''ts'', JStr ts), (''data'', JObj (receipt_body outcome data))])"
  by (simp add: write_receipt_def receipt_body_def)

lemma strip_nonempty: "c \<in> set s \<Longrightarrow> \<not> py_space c \<Longrightarrow> strip s \<noteq> []"
proof
  assume c: "c \<in> set s" "\<not> py_space c" and "strip s = []"
  then have "\<forall>x \<in> set (dropWhile py_space s). py_space x"
    by (simp add: strip_def dropWhile_eq_Nil_conv)
  moreover have "c \<in> set (dropWhile py_space s)"
    using c by (induction s) auto
  ultimately show False using c(2) by blast
qed

lemma aborted_refusal: "typed_refusal (aborted names x phase)"
proof -
  have "strip (phase @ '':'' @ errno_name names x) \<noteq> []"
    by (rule strip_nonempty [of "CHR '':''"]) (simp_all add: py_space_def)
  then show ?thesis unfolding typed_refusal_def aborted_def by blast
qed

lemma skip_refusals:
  "typed_refusal SKIP_SERVE_UP" "typed_refusal SKIP_PEER_UNREACHABLE"
  "typed_refusal SKIP_CONFIGFS_MISSING" "typed_refusal SKIP_CABLE_MISMATCH"
  unfolding typed_refusal_iff by code_simp+

lemma refusal_accepted:
  assumes "typed_refusal outcome" "map_of data ''serve_up'' \<noteq> None"
  shows "usb4stream (JObj (receipt_body outcome data)) = Inr None"
  using assms by (simp add: usb4stream_pass map_of_body)

section \<open>What the preconditions leave in the report\<close>

lemma map_of_put_in:
  "map_of (put_in base outer inner v) k =
     (if k = outer then Some (JObj (dput (case map_of base outer of Some (JObj d) \<Rightarrow> d | _ \<Rightarrow> []) inner v))
      else map_of base k)"
  by (simp add: put_in_def map_of_dput)

lemma serve_blocks_keeps:
  assumes "serve_blocks_run rep e cable base function = returned (blocked, base')"
    and "k \<notin> {''note'', ''serve_hardware'', ''serve_shares_bench_hardware''}"
  shows "map_of base' k = map_of base k"
  using assms
  by (auto simp: serve_blocks_run_def map_of_dput Let_def res_bind_Inr_iff
      split: if_splits sum.splits uexc.splits prod.splits)

definition wanted :: "string list" where
  "wanted = [''serve_up'', ''loop'', ''device'', ''open_count'']"

lemma check_both_ends_Skip:
  assumes "check_both_ends loads b cable function base = returned (Skip outcome base')"
  shows "typed_refusal outcome \<and> (map_of base ''serve_up'' \<noteq> None \<longrightarrow> map_of base' ''serve_up'' \<noteq> None)"
  using assms skip_refusals
  by (auto simp: check_both_ends_def map_of_dput map_of_put_in Let_def res_bind_Inr_iff
      split: sum.splits uexc.splits if_splits option.splits)

lemma check_both_ends_Go:
  assumes "check_both_ends loads b cable function base = returned (Go local probe base')"
    and "map_of base ''device'' = Some (JObj [(''coordinator'', JNull), (''peer'', JNull)])"
  shows "map_of base' ''device'' =
      Some (JObj [(''coordinator'', JStr (r_dev local)), (''peer'', get_key probe ''dev'')]) \<and>
    map_of base' ''serve_up'' = map_of base ''serve_up'' \<and> map_of base' ''loop'' = map_of base ''loop'' \<and>
    map_of base' ''open_count'' = map_of base ''open_count'' \<and>
    map_of base' ''ring_size'' \<noteq> None \<and> map_of base' ''throttling'' \<noteq> None"
  using assms
  by (auto simp: check_both_ends_def map_of_dput map_of_put_in Let_def res_bind_Inr_iff
      split: sum.splits uexc.splits if_splits option.splits)

lemma preconditions_base:
  assumes "coordinator_preconditions loads b cable function = returned p"
  shows "case p of
      Skip outcome base \<Rightarrow> typed_refusal outcome \<and> map_of base ''serve_up'' \<noteq> None
    | Go local probe base \<Rightarrow>
        map_of base ''device'' = Some (JObj [(''coordinator'', JStr (r_dev local)), (''peer'', get_key probe ''dev'')]) \<and>
        map_of base ''serve_up'' \<noteq> None \<and> map_of base ''loop'' = Some (JStr ''python'') \<and>
        map_of base ''open_count'' = Some (JObj [(''coordinator'', JInt 0), (''peer'', JInt 0)]) \<and>
        map_of base ''ring_size'' \<noteq> None \<and> map_of base ''throttling'' \<noteq> None"
proof -
  let ?base0 = "dput (base_dict cable) ''serve_up'' (JBool (serve_is_up b))"
  obtain blocked base1 where
    s: "(if serve_is_up b then serve_blocks_run (repr_text b) (at_serve_check b) cable ?base0 function
         else returned (False, ?base0)) = returned (blocked, base1)"
    and rest: "(if blocked then returned (Skip SKIP_SERVE_UP base1)
         else check_both_ends loads b cable function base1) = returned p"
    using assms by (auto simp: coordinator_preconditions_def Let_def res_bind_Inr_iff)
  have keep: "map_of base1 k = map_of ?base0 k" if "k \<in> {''serve_up'', ''loop'', ''device'', ''open_count''}" for k
    using s that serve_blocks_keeps [of "repr_text b" "at_serve_check b" cable ?base0 "function" blocked base1 k]
    by (auto split: if_splits)
  have base0: "map_of ?base0 ''serve_up'' \<noteq> None" "map_of ?base0 ''loop'' = Some (JStr ''python'')"
    "map_of ?base0 ''device'' = Some (JObj [(''coordinator'', JNull), (''peer'', JNull)])"
    "map_of ?base0 ''open_count'' = Some (JObj [(''coordinator'', JInt 0), (''peer'', JInt 0)])"
    by (simp_all add: base_dict_def)
  show ?thesis
  proof (cases blocked)
    case True
    then show ?thesis using rest keep [of "''serve_up''"] base0 skip_refusals by auto
  next
    case False
    then have c: "check_both_ends loads b cable function base1 = returned p" using rest by simp
    show ?thesis
    proof (cases p)
      case (Skip outcome base)
      then show ?thesis
        using check_both_ends_Skip [OF c [unfolded Skip]] keep [of "''serve_up''"] base0 by simp
    next
      case (Go local probe base)
      then show ?thesis
        using check_both_ends_Go [OF c [unfolded Go]] keep base0 by simp
    qed
  qed
qed

section \<open>Samples\<close>

lemma percentile_500:
  "length xs = 500 \<Longrightarrow> \<exists>v. percentile xs 50 = returned v" "length xs = 500 \<Longrightarrow> \<exists>v. percentile xs 99 = returned v"
proof -
  have "percentile_rank 50 500 = returned 250" "percentile_rank 99 500 = returned 495" by code_simp+
  then show "length xs = 500 \<Longrightarrow> \<exists>v. percentile xs 50 = returned v" "length xs = 500 \<Longrightarrow> \<exists>v. percentile xs 99 = returned v"
    by (simp_all add: percentile_def)
qed

definition full_cell :: "json \<Rightarrow> bool" where
  "full_cell c \<longleftrightarrow> (\<exists>cell. c = JObj cell \<and> (\<forall>f \<in> {''p50'', ''p99''}. \<exists>x. map_of cell f = Some x \<and> x \<noteq> JNull))"

lemma sample_cell_full: "length xs = 500 \<Longrightarrow> \<exists>c. sample_cell xs 500 = returned c \<and> full_cell c"
  using percentile_500 [of xs] by (auto simp: sample_cell_def full_cell_def)

lemma sample_table_full:
  "\<exists>cells. sample_table b phase sizes 500 = returned (JObj cells) \<and>
     map fst cells = map str_nat sizes \<and> (\<forall>(k, c) \<in> set cells. full_cell c)"
proof -
  have "\<exists>cells. res_seq (map (\<lambda>n. res_bind (sample_cell (map (sample_us b phase n) [0..<500]) 500)
      (\<lambda>c. returned (str_nat n, c))) sizes) = returned cells \<and> map fst cells = map str_nat sizes \<and>
      (\<forall>(k, c) \<in> set cells. full_cell c)"
  proof (induction sizes)
    case (Cons n sizes)
    obtain c where "sample_cell (map (sample_us b phase n) [0..<500]) 500 = returned c" "full_cell c"
      using sample_cell_full [of "map (sample_us b phase n) [0..<500]"] by auto
    with Cons show ?case by (auto simp: res_simps)
  qed simp
  then show ?thesis by (auto simp: sample_table_def)
qed

lemma table_complete:
  assumes "map fst cells = map str_nat sizes" "\<forall>(k, c) \<in> set cells. full_cell c" "sizes \<noteq> []"
  shows "stat_complete (Some (JObj cells)) sizes"
proof -
  have "map_of cells (str_nat n) \<noteq> None" if "n \<in> set sizes" for n
    using that assms(1) by (metis imageI map_of_eq_None_iff set_map)
  moreover have "cells \<noteq> []" using assms by auto
  ultimately show ?thesis using assms(2) by (auto simp: stat_complete_def full_cell_def)
qed

lemma rate_value: "e \<noteq> Fin 0 \<Longrightarrow> rate e = returned v \<Longrightarrow> v \<noteq> JNull"
  by (auto simp: rate_def res_bind_Inr_iff)

lemma results_complete:
  assumes "results_dict b = returned d" "elapsed_down b \<noteq> Fin 0" "elapsed_up b \<noteq> Fin 0"
  shows "\<exists>rtt ex tput. d = [(''rtt_us'', rtt), (''exchange_us'', ex), (''throughput_mb_s'', tput)] \<and>
    stat_complete (Some rtt) RTT_SIZES \<and> stat_complete (Some ex) EXCHANGE_SIZES \<and> tput_complete (Some tput)"
proof -
  obtain rtt where rtt: "sample_table b ''rtt'' RTT_SIZES 500 = returned (JObj rtt)"
    "map fst rtt = map str_nat RTT_SIZES" "\<forall>(k, c) \<in> set rtt. full_cell c"
    using sample_table_full by blast
  obtain ex where ex: "sample_table b ''exchange'' EXCHANGE_SIZES 500 = returned (JObj ex)"
    "map fst ex = map str_nat EXCHANGE_SIZES" "\<forall>(k, c) \<in> set ex. full_cell c"
    using sample_table_full by blast
  obtain down up where t: "rate (elapsed_down b) = returned down" "rate (elapsed_up b) = returned up"
    and d: "d = [(''rtt_us'', JObj rtt), (''exchange_us'', JObj ex),
      (''throughput_mb_s'', JObj [(''coordinator_to_peer'', down), (''peer_to_coordinator'', up)])]"
    using assms(1) rtt(1) ex(1)
    by (auto simp: results_dict_def RTT_ITERS_def EXCHANGE_ITERS_def res_bind_Inr_iff)
  have "RTT_SIZES \<noteq> []" "EXCHANGE_SIZES \<noteq> []" by (simp_all add: RTT_SIZES_def EXCHANGE_SIZES_def)
  then show ?thesis
    using table_complete [OF rtt(2,3)] table_complete [OF ex(2,3)] rate_value assms(2,3) t
    by (simp add: d tput_complete_def)
qed

section \<open>The end of a run\<close>

lemma attempt_serve_up:
  assumes "failure (attempt_run b cable function local probe base) \<noteq> None"
  shows "map_of (report (attempt_run b cable function local probe base)) ''serve_up'' = map_of base ''serve_up''"
  using assms
  by (auto simp: attempt_run_def open_here_def open_stream_once_def run_schedule_def map_of_put_in Let_def
      split: option.splits sum.splits prod.splits)

lemma attempt_success:
  assumes "failure (attempt_run b cable function local probe base) = None"
  shows "\<exists>d. results_dict b = returned d \<and> schedule_end b = None \<and>
    report (attempt_run b cable function local probe base) =
      fold (\<lambda>(k, v) r. dput r k v) d (put_in base ''open_count'' ''coordinator'' (JInt 1))"
  using assms
  by (auto simp: attempt_run_def open_here_def open_stream_once_def run_schedule_def Let_def
      split: option.splits sum.splits prod.splits if_splits)

lemma complete_report_keys:
  "k \<notin> {''wall_s'', ''peer_report'', ''open_count''} \<Longrightarrow> map_of (complete_report b peer d) k = map_of d k"
  "map_of (complete_report b peer d) ''open_count'' =
     Some (JObj (dput (case map_of d ''open_count'' of Some (JObj d) \<Rightarrow> d | _ \<Rightarrow> []) ''peer'' (peer_opens peer)))"
  by (simp_all add: complete_report_def map_of_put_in map_of_dput)

text \<open>The receipt of a run is that of its end: refused because of an exception, refused because of
  the peer's report, or clean.\<close>

lemma conclude_writes:
  assumes "Write_receipt r \<in> set (conclude names loads b (attempt_run b cable function local probe base))"
  obtains peer where
    "Write_receipt r = final_receipt names b (attempt_run b cable function local probe base) peer"
proof -
  have "Write_receipt r \<notin> set (trace (attempt_run b cable function local probe base))"
    by (cases "map_of probe ''dev''") (auto simp: attempt_trace Let_def)
  then show ?thesis using assms that by (auto simp: conclude_def split: if_splits)
qed

lemma final_receipt_cases:
  obtains (failed) outcome msg where "failure a \<noteq> None" "typed_refusal outcome"
      "final_receipt names b a peer =
         write_receipt (clock b) outcome (complete_report b peer (dput (report a) ''error'' (JStr msg)))"
  | (disowned) outcome where "failure a = None" "typed_refusal outcome"
      "final_receipt names b a peer = write_receipt (clock b) outcome (complete_report b peer (report a))"
  | (clean) "failure a = None" "py_eq (peer_opens peer) (JInt 1)"
      "final_receipt names b a peer = write_receipt (clock b) ''ok'' (complete_report b peer (report a))"
proof (cases "failure a")
  case (Some p)
  obtain phase x where p: "p = (phase, x)" by (cases p)
  show ?thesis
    by (rule failed [of "aborted names x phase" "exc_text (describe b) x"])
      (simp_all add: Some p aborted_refusal final_receipt_def)
next
  case None
  show ?thesis
  proof (cases "get_key peer ''outcome'' = JStr ''ok'' \<and> py_eq (peer_opens peer) (JInt 1)")
    case True
    show ?thesis
      by (rule clean) (use None True in \<open>simp_all add: final_receipt_def del: py_eq.simps\<close>)
  next
    case False
    show ?thesis
      by (rule disowned [OF None aborted_refusal [of names "Errno 71" "''peer''"]])
        (use None False in \<open>auto simp: final_receipt_def simp del: py_eq.simps\<close>)
  qed
qed

text \<open>A run that goes on leaves a report with the serve flag; a clean one is complete.\<close>

lemma report_of_success:
  assumes "failure (attempt_run b cable function local probe base) = None"
    and "map_of base ''open_count'' = Some (JObj [(''coordinator'', JInt 0), (''peer'', JInt 0)])"
    and "elapsed_down b \<noteq> Fin 0" "elapsed_up b \<noteq> Fin 0"
  obtains rtt ex tput where "stat_complete (Some rtt) RTT_SIZES" "stat_complete (Some ex) EXCHANGE_SIZES"
    "tput_complete (Some tput)"
    "\<And>k. map_of (report (attempt_run b cable function local probe base)) k =
       (if k = ''throughput_mb_s'' then Some tput else if k = ''exchange_us'' then Some ex
        else if k = ''rtt_us'' then Some rtt
        else if k = ''open_count'' then Some (JObj [(''coordinator'', JInt 1), (''peer'', JInt 0)])
        else map_of base k)"
proof -
  obtain d where d: "results_dict b = returned d"
    and rep: "report (attempt_run b cable function local probe base) =
      fold (\<lambda>(k, v) r. dput r k v) d (put_in base ''open_count'' ''coordinator'' (JInt 1))"
    using attempt_success [OF assms(1)] by blast
  obtain rtt ex tput where "d = [(''rtt_us'', rtt), (''exchange_us'', ex), (''throughput_mb_s'', tput)]"
    "stat_complete (Some rtt) RTT_SIZES" "stat_complete (Some ex) EXCHANGE_SIZES" "tput_complete (Some tput)"
    using results_complete [OF d assms(3,4)] by blast
  then show ?thesis using that [of rtt ex tput] assms(2) by (simp add: rep map_of_dput map_of_put_in)
qed

lemma report_serve_up:
  assumes "map_of base ''serve_up'' \<noteq> None"
    and "map_of base ''open_count'' = Some (JObj [(''coordinator'', JInt 0), (''peer'', JInt 0)])"
    and "elapsed_down b \<noteq> Fin 0" "elapsed_up b \<noteq> Fin 0"
  shows "map_of (report (attempt_run b cable function local probe base)) ''serve_up'' \<noteq> None"
proof (cases "failure (attempt_run b cable function local probe base) = None")
  case True
  show ?thesis by (rule report_of_success [OF True assms(2-4)]) (use assms(1) in simp)
next
  case False
  then show ?thesis using attempt_serve_up assms(1) by metis
qed

lemma clean_receipt_complete:
  assumes "coordinator_preconditions loads b cable function = returned (Go local probe base)"
    and "failure (attempt_run b cable function local probe base) = None"
    and "elapsed_down b \<noteq> Fin 0" "elapsed_up b \<noteq> Fin 0" and "truthy (get_key probe ''dev'')"
    and "py_eq (peer_opens peer) (JInt 1)"
  shows "complete_ok (receipt_body ''ok''
    (complete_report b peer (report (attempt_run b cable function local probe base))))"
proof -
  note base = preconditions_base [OF assms(1), simplified]
  have "r_dev local \<noteq> []" using preconditions_Go(1) [OF assms(1)] resolve_dev by blast
  then show ?thesis
    using assms(5,6) base
    by (rule_tac report_of_success [OF assms(2) _ assms(3,4)])
      (simp_all add: complete_ok_def map_of_body complete_report_keys opened_once_def device_complete_def
        RTT_SIZES_def EXCHANGE_SIZES_def)
qed

text \<open>
  C29: Whatever way a run of the coordinator ends, the receipt it writes is one that the gate's
  bound accepts, given that the two throughput legs took some time and that the peer's probe named
  its device.
\<close>

theorem written_receipts_pass_gate:
  assumes run: "run_coordinator names loads b cable function = returned tr" and w: "Write_receipt r \<in> set tr"
    and time: "elapsed_down b \<noteq> Fin 0" "elapsed_up b \<noteq> Fin 0"
    and dev: "\<And>probe. probe_peer loads b = returned probe \<Longrightarrow> truthy (get_key probe ''ok'') \<Longrightarrow>
      truthy (get_key probe ''dev'')"
  shows "\<exists>data. r = JObj [(''step'', JStr ''usb4stream''), (''status'', JStr ''pass''),
      (''ts'', JStr (clock b)), (''data'', JObj data)] \<and> usb4stream (JObj data) = returned None"
  using run
proof (cases rule: run_coordinator_cases)
  case (skip outcome base)
  then have "typed_refusal outcome" "map_of base ''serve_up'' \<noteq> None"
    using preconditions_base [OF skip(2)] by simp_all
  then show ?thesis using w skip(3) refusal_accepted by (auto simp: write_receipt_body)
next
  case (go local probe base)
  let ?a = "attempt_run b cable function local probe base"
  note base = preconditions_base [OF go(2), simplified]
  have up: "map_of (report ?a) ''serve_up'' \<noteq> None" using report_serve_up [OF _ _ time] base by simp
  obtain peer where r: "Write_receipt r = final_receipt names b ?a peer"
    using conclude_writes w go(3) by metis
  show ?thesis
  proof (cases rule: final_receipt_cases [of ?a names b peer])
    case (failed outcome msg)
    then show ?thesis
      using r up by (auto simp: write_receipt_body map_of_dput complete_report_keys intro!: refusal_accepted)
  next
    case (disowned outcome)
    then show ?thesis
      using r up by (auto simp: write_receipt_body complete_report_keys intro!: refusal_accepted)
  next
    case clean
    have "truthy (get_key probe ''dev'')"
      using dev preconditions_Go(3,4) [OF go(2)] by (auto simp: cable_disagreement_def split: if_splits)
    from clean_receipt_complete [OF go(2) clean(1) time this clean(2)] show ?thesis
      using r clean(3) up by (auto simp: write_receipt_body usb4stream_pass map_of_body complete_report_keys)
  qed
qed (use w in simp)

theorem written_receipts_pass_gate_witness:
  "\<exists>r data. run_coordinator (\<lambda>_. None) (\<lambda>_. Some demo_probe) (demo_bench node_here node_here True) Cable_A ''fn0'' =
     returned [Write_receipt r] \<and>
     r = JObj [(''step'', JStr ''usb4stream''), (''status'', JStr ''pass''), (''ts'', JStr ''t''), (''data'', JObj data)] \<and>
     usb4stream (JObj data) = returned None"
proof -
  let ?b = "demo_bench node_here node_here True"
  have s: "serve_is_up ?b" "clock ?b = ''t''" "\<not> bench.banked ?b" "elapsed_down ?b \<noteq> Fin 0" "elapsed_up ?b \<noteq> Fin 0"
    by (simp_all add: demo_bench_def serve_is_up_def)
  obtain base where pre: "coordinator_preconditions (\<lambda>_. Some demo_probe) ?b Cable_A ''fn0'' =
      returned (Skip SKIP_SERVE_UP base)"
    using demo_skip by blast
  obtain r where run: "run_coordinator (\<lambda>_. None) (\<lambda>_. Some demo_probe) ?b Cable_A ''fn0'' =
      returned [Write_receipt r]"
    by (simp add: run_coordinator_def pre s write_receipt_body)
  have dev: "truthy (get_key probe ''dev'')"
    if "probe_peer (\<lambda>_. Some demo_probe) ?b = returned probe" for probe
  proof -
    have "probe = demo_probe" using that unfolding demo_probe_peer by simp
    then show ?thesis by (simp add: demo_probe_def demo_there_def demo_resolution_def)
  qed
  from written_receipts_pass_gate [OF run _ s(4,5), of r] dev run show ?thesis by (auto simp: s(2))
qed

end
