(* ===== verification/BenchCommand.thy ===== *)
theory BenchCommand
  imports StreamBench ArgParse
begin

text \<open>
  The command line of \<open>bench/usb4stream-bench.py\<close>: its parser, the dispatch on the role, and the
  commands that the coordinator sends over ssh to run the same file on the peer. The properties
  follow a launch from the coordinator's decision through the remote shell and the parser to what
  the peer opens.
\<close>

section \<open>Parser and dispatch\<close>

definition CABLES :: "string list" where
  "CABLES = [''A'', ''B'']"

definition FUNCTIONS :: "string list" where
  "FUNCTIONS = [''fn0'', ''fn1'']"

text \<open>The knobs of the environment, as the fields of \<open>bench\<close> that they set, and the endpoint they name.\<close>

definition WORKER_HOST :: "environ \<Rightarrow> string" where
  "WORKER_HOST env = env_get env ''FN_WORKER_HOST'' ''10.99.9.2''"

definition SERVE_CONTAINER :: "environ \<Rightarrow> string" where
  "SERVE_CONTAINER env = env_get env ''FN_CONTAINER'' ''flashnext-pair''"

definition serve_url :: "environ \<Rightarrow> string" where
  "serve_url env = ''http://127.0.0.1:'' @ env_get env ''FN_PORT'' ''1234'' @ ''/v1/models''"

definition podman_local :: "environ \<Rightarrow> string list" where
  "podman_local env =
     [''podman'', ''ps'', ''--filter'', ''name='' @ SERVE_CONTAINER env, ''--format'', ''{{.Names}}'']"

definition podman_remote :: "environ \<Rightarrow> string list" where
  "podman_remote env =
     ssh_argv (WORKER_HOST env) (''podman ps --filter name='' @ shlex_quote (SERVE_CONTAINER env)
       @ '' --format '' @ [apostrophe] @ ''{{.Names}}'' @ [apostrophe])"

definition with_environment :: "environ \<Rightarrow> bench \<Rightarrow> bench" where
  "with_environment env b = b\<lparr>worker_host := WORKER_HOST env, container := SERVE_CONTAINER env\<rparr>"

definition usb_parser :: "arg_spec list" where
  "usb_parser =
     [(option_of ''--role'' Text_arg (Text_value ''coordinator''))
        \<lparr>arg_choices := [''coordinator'', ''peer'', ''probe'']\<rparr>,
      option_of ''--dev'' Text_arg No_value,
      (option_of ''--cable'' Text_arg (Text_value ''A''))\<lparr>arg_choices := CABLES\<rparr>,
      (option_of ''--function'' Text_arg (Text_value ''fn0''))\<lparr>arg_choices := FUNCTIONS\<rparr>,
      flag_of ''--dry-run'']"

definition cable_of :: "string \<Rightarrow> cable" where
  "cable_of s = (if s = ''A'' then Cable_A else Cable_B)"

text \<open>
  How an invocation ends: the parser stops it, or one of the roles runs. The node is that of the peer
  world in every role that only reads; the coordinator's answers are \<open>b\<close>.
\<close>

datatype invocation =
    Stopped int
  | Probed "dict ures"
  | Mirrored "event list \<times> dict"
  | Rehearsed "(event list \<times> dict) ures"
  | Ran "event list ures"

definition bench_main ::
  "(int \<Rightarrow> string option) \<Rightarrow> (string \<Rightarrow> dict option) \<Rightarrow> string \<Rightarrow> peer_world \<Rightarrow> bench \<Rightarrow> string list \<Rightarrow> invocation" where
  "bench_main names loads host w b argv =
     (case parse_args usb_parser argv of
        Parser_exit n \<Rightarrow> Stopped n
      | Parsed ns \<Rightarrow>
          let cable = cable_of (text_arg ns ''--cable''); function = text_arg ns ''--function''
          in if text_arg ns ''--role'' = ''probe'' then Probed (run_probe (peer_node w) host cable function)
             else if text_arg ns ''--role'' = ''peer''
             then Mirrored (run_peer names w (opt_text_arg ns ''--dev'') cable function)
             else if flag_arg ns ''--dry-run'' then Rehearsed (run_dry_run loads b cable function)
             else Ran (run_coordinator names loads b cable function))"

section \<open>The commands for the peer\<close>

definition probe_command :: "cable \<Rightarrow> string \<Rightarrow> string" where
  "probe_command cable function =
     ''python3 - --role probe --cable '' @ shlex_quote (cable_label cable) @ '' --function '' @ shlex_quote function"

definition peer_line :: "cable \<Rightarrow> string \<Rightarrow> string \<Rightarrow> written list" where
  "peer_line cable function dev =
     [With_value ''--role'' ''peer'', With_value ''--cable'' (cable_label cable),
      With_value ''--function'' function, With_value ''--dev'' dev]"

definition probe_line :: "cable \<Rightarrow> string \<Rightarrow> written list" where
  "probe_line cable function =
     [With_value ''--role'' ''probe'', With_value ''--cable'' (cable_label cable),
      With_value ''--function'' function]"

lemma literal_words:
  "shlex_quote ''python3'' = ''python3''" "shlex_quote ''-'' = ''-''" "shlex_quote ''--role'' = ''--role''"
  "shlex_quote ''peer'' = ''peer''" "shlex_quote ''probe'' = ''probe''" "shlex_quote ''--cable'' = ''--cable''"
  "shlex_quote ''--function'' = ''--function''" "shlex_quote ''--dev'' = ''--dev''"
  by code_simp+

lemma commands_are_quoted_words:
  "launch_command cable function dev =
     join '' '' (map shlex_quote ([''python3'', ''-''] @ command_line (peer_line cable function dev)))"
  "probe_command cable function =
     join '' '' (map shlex_quote ([''python3'', ''-''] @ command_line (probe_line cable function)))"
  by (simp_all add: launch_command_def probe_command_def peer_line_def probe_line_def command_line_def literal_words)

section \<open>How the peer reads them\<close>

lemma usb_long_names: "long_names usb_parser"
  unfolding long_names_def usb_parser_def
  by (simp add: option_of_def flag_of_def help_name_def startswith_def)

lemma usb_specs:
  "find_spec usb_parser ''--role'' = Some ((option_of ''--role'' Text_arg (Text_value ''coordinator''))
        \<lparr>arg_choices := [''coordinator'', ''peer'', ''probe'']\<rparr>)"
  "find_spec usb_parser ''--dev'' = Some (option_of ''--dev'' Text_arg No_value)"
  "find_spec usb_parser ''--cable'' = Some ((option_of ''--cable'' Text_arg (Text_value ''A''))\<lparr>arg_choices := CABLES\<rparr>)"
  "find_spec usb_parser ''--function'' = Some ((option_of ''--function'' Text_arg (Text_value ''fn0''))\<lparr>arg_choices := FUNCTIONS\<rparr>)"
  by (simp_all add: usb_parser_def option_of_def)

lemma usb_well_written:
  "s \<in> {''coordinator'', ''peer'', ''probe''} \<Longrightarrow> well_written usb_parser (With_value ''--role'' s)"
  "well_written usb_parser (With_value ''--cable'' (cable_label cable))"
  "function \<in> set FUNCTIONS \<Longrightarrow> well_written usb_parser (With_value ''--function'' function)"
  "dev = [] \<or> hd dev \<noteq> CHR ''-'' \<Longrightarrow> well_written usb_parser (With_value ''--dev'' dev)"
  by (auto simp: usb_specs option_of_def convert_arg_def CABLES_def FUNCTIONS_def intro: cable.exhaust [of cable])

lemma usb_meaning:
  assumes "well_written usb_parser (With_value n s)" "n \<in> {''--role'', ''--dev'', ''--cable'', ''--function''}"
  shows "meaning_of usb_parser ns (With_value n s) = put_arg ns n (Text_value s)"
  using assms by (auto simp: usb_specs option_of_def convert_arg_def split: if_splits)

lemma usb_required: "\<forall>s \<in> set usb_parser. \<not> arg_required s"
  by (simp add: usb_parser_def option_of_def flag_of_def)

lemma cable_of_label [simp]: "cable_of (cable_label cable) = cable"
  by (cases cable) (simp_all add: cable_of_def)

lemma usb_line:
  assumes "list_all (well_written usb_parser) line"
    and "\<forall>e \<in> set line. \<exists>n s. e = With_value n s \<and> n \<in> {''--role'', ''--dev'', ''--cable'', ''--function''}"
  shows "parse_args usb_parser (command_line line) = Parsed (foldl
    (\<lambda>ns e. case e of With_value n s \<Rightarrow> put_arg ns n (Text_value s) | Bare n \<Rightarrow> ns) (defaults usb_parser) line)"
proof -
  have "foldl (meaning_of usb_parser) ns line = foldl
    (\<lambda>ns e. case e of With_value n s \<Rightarrow> put_arg ns n (Text_value s) | Bare n \<Rightarrow> ns) ns line" for ns
    using assms
  proof (induction line arbitrary: ns)
    case (Cons e line)
    then obtain n s where "e = With_value n s" "n \<in> {''--role'', ''--dev'', ''--cable'', ''--function''}" by auto
    then show ?case using Cons usb_meaning [of n s ns] by (simp del: meaning_of.simps well_written.simps)
  qed simp
  then show ?thesis using parse_command_line [OF usb_long_names assms(1)] usb_required by simp
qed

lemma peer_reads:
  assumes "function \<in> set FUNCTIONS" "dev = [] \<or> hd dev \<noteq> CHR ''-''"
  shows "bench_main names loads host w b (command_line (peer_line cable function dev)) =
    Mirrored (run_peer names w (Some dev) cable function)"
proof -
  have "list_all (well_written usb_parser) (peer_line cable function dev)"
    unfolding peer_line_def using usb_well_written assms by (simp del: well_written.simps)
  from usb_line [OF this] show ?thesis
    by (simp add: bench_main_def peer_line_def arg_readers Let_def)
qed

lemma probe_reads:
  assumes "function \<in> set FUNCTIONS"
  shows "bench_main names loads host w b (command_line (probe_line cable function)) =
    Probed (run_probe (peer_node w) host cable function)"
proof -
  have "list_all (well_written usb_parser) (probe_line cable function)"
    unfolding probe_line_def using usb_well_written assms by (simp del: well_written.simps)
  from usb_line [OF this] show ?thesis
    by (simp add: bench_main_def probe_line_def arg_readers Let_def)
qed

text \<open>Whatever the command line is, a role runs on a declared label and function.\<close>

lemma parsed_labels:
  assumes "parse_args usb_parser argv = Parsed ns"
  shows "cable_label (cable_of (text_arg ns ''--cable'')) = text_arg ns ''--cable''"
    "text_arg ns ''--function'' \<in> set FUNCTIONS"
    "text_arg ns ''--role'' \<in> {''coordinator'', ''peer'', ''probe''}"
proof -
  have "text_arg ns ''--cable'' \<in> {''A'', ''B''}"
    using parsed_choice [OF assms usb_specs(3)] by (simp add: option_of_def CABLES_def)
  then show "cable_label (cable_of (text_arg ns ''--cable'')) = text_arg ns ''--cable''"
    by (auto simp: cable_of_def)
  show "text_arg ns ''--function'' \<in> set FUNCTIONS"
    using parsed_choice [OF assms usb_specs(4)] by (simp add: option_of_def FUNCTIONS_def)
  show "text_arg ns ''--role'' \<in> {''coordinator'', ''peer'', ''probe''}"
    using parsed_choice [OF assms usb_specs(1)] by (simp add: option_of_def)
qed

section \<open>From the coordinator's launch to the peer's open\<close>

lemma coordinator_launch:
  assumes "run_coordinator names loads b cable function = returned tr" and "Launch_peer argv \<in> set tr"
  obtains local probe dev where "probe_peer loads b = returned probe"
    "resolve_stream_device (at_resolve b) cable function = returned local"
    "cable_disagreement (resolution_dict local) probe = None"
    "map_of probe ''dev'' = Some dev"
    "argv = ssh_argv (worker_host b) (launch_command cable function (text_of_json dev))"
  using assms(1)
proof (cases rule: run_coordinator_cases)
  case (go local probe base)
  have "Launch_peer argv \<in> set (trace (attempt_run b cable function local probe base))"
    using assms(2) go(3) by (auto simp: conclude_def final_receipt_def write_receipt_def Let_def
        split: if_splits option.splits)
  then obtain dev where "map_of probe ''dev'' = Some dev"
    "argv = ssh_argv (worker_host b) (launch_command cable function (text_of_json dev))"
    by (cases "map_of probe ''dev''") (auto simp: attempt_trace Let_def split: if_splits)
  then show ?thesis using that preconditions_Go(1,3,4) [OF go(2)] by blast
qed (use assms(2) in \<open>auto simp: write_receipt_def Let_def\<close>)

text \<open>
  C12: What the coordinator launches, a shell that reads quoted words hands to the interpreter as an
  invocation in the peer's role, on the coordinator's own cable and function; whatever that node
  resolves by then, the only device it may open is the one that its probe had named and that the
  guard had found to interlock with the coordinator's.
\<close>

theorem launched_peer_opens_probed_device:
  assumes "run_coordinator names loads b cable function = returned tr" and "Launch_peer argv \<in> set tr"
    and "reads_quoted sh" and "function \<in> set FUNCTIONS"
    and "\<And>probe. probe_peer loads b = returned probe \<Longrightarrow> \<exists>d. map_of probe ''dev'' = Some (JStr (CHR ''/'' # d))"
  shows "\<exists>args local probe. sh (last argv) = Some ([''python3'', ''-''] @ args) \<and>
    probe_peer loads b = returned probe \<and>
    resolve_stream_device (at_resolve b) cable function = returned local \<and>
    cable_disagreement (resolution_dict local) probe = None \<and>
    (\<forall>host w b'. \<exists>tr' rep. bench_main names loads host w b' args = Mirrored (tr', rep) \<and>
       (\<forall>d. Open_device d \<in> set tr' \<longrightarrow> map_of probe ''dev'' = Some (JStr d) \<and>
          (\<exists>r. resolve_stream_device (peer_node w) cable function = returned r \<and> d = r_dev r)))"
proof -
  obtain local probe dev where p: "probe_peer loads b = returned probe"
    and l: "resolve_stream_device (at_resolve b) cable function = returned local"
    and g: "cable_disagreement (resolution_dict local) probe = None"
    and dev: "map_of probe ''dev'' = Some dev"
    and argv: "argv = ssh_argv (worker_host b) (launch_command cable function (text_of_json dev))"
    using coordinator_launch [OF assms(1,2)] by blast
  obtain d where d: "dev = JStr (CHR ''/'' # d)" using assms(5) [OF p] dev by auto
  let ?args = "command_line (peer_line cable function (CHR ''/'' # d))"
  have "sh (last argv) = Some ([''python3'', ''-''] @ ?args)"
    using assms(3) [unfolded reads_quoted_def, rule_format, of "[''python3'', ''-''] @ ?args"]
    by (simp add: argv d ssh_argv_def commands_are_quoted_words del: list.map join.simps append.simps)
  moreover have "bench_main names loads host w b' ?args =
      Mirrored (run_peer names w (Some (CHR ''/'' # d)) cable function)" for host w b'
    by (rule peer_reads [OF assms(4)]) simp
  moreover have "CHR ''/'' # d = x \<and> (\<exists>r. resolve_stream_device (peer_node w) cable function = returned r \<and> x = r_dev r)"
    if "Open_device x \<in> set (fst (run_peer names w (Some (CHR ''/'' # d)) cable function))" for w x
    using that by (auto simp: run_peer_def given_def open_stream_once_def Let_def split: sum.splits if_splits)
  ultimately show ?thesis using p l g dev d by (metis prod.collapse)
qed

lemma open_implies_launch:
  assumes "run_coordinator names loads b cable function = returned tr" and "Open_device d \<in> set tr"
  shows "\<exists>argv. Launch_peer argv \<in> set tr"
  using assms(1)
proof (cases rule: run_coordinator_cases)
  case (go local probe base)
  then have "Open_device d \<in> set (trace (attempt_run b cable function local probe base))"
    using assms(2) by (auto simp: conclude_def final_receipt_def write_receipt_def Let_def
        split: if_splits option.splits)
  then show ?thesis using go(3)
    by (cases "map_of probe ''dev''") (auto simp: attempt_trace conclude_def Let_def split: if_splits)
qed (use assms(2) in \<open>auto simp: write_receipt_def Let_def\<close>)

theorem launched_peer_opens_probed_device_witness:
  "\<exists>args host w. shell_words (launch_command Cable_B ''fn0'' (r_dev demo_there)) = Some ([''python3'', ''-''] @ args) \<and>
     peer_node w = node_here \<and>
     (\<exists>tr' rep. bench_main (\<lambda>_. None) (\<lambda>_. Some demo_probe) host w (demo_bench node_here node_here True) args = Mirrored (tr', rep))"
proof -
  let ?b = "demo_bench node_here node_here True"
  obtain tr where tr: "run_coordinator (\<lambda>_. None) (\<lambda>_. Some demo_probe) ?b Cable_B ''fn0'' = returned tr"
    "Open_device (r_dev here) \<in> set tr"
    using here_runs by blast
  obtain argv where argv: "Launch_peer argv \<in> set tr" using open_implies_launch [OF tr] by blast
  have dev: "map_of demo_probe ''dev'' = Some (JStr (r_dev demo_there))"
    by (simp add: demo_probe_def probe_dict_def resolution_dict_def map_of_dput)
  have fn: "''fn0'' \<in> set FUNCTIONS" by (simp add: FUNCTIONS_def)
  have "\<exists>d. map_of probe ''dev'' = Some (JStr (CHR ''/'' # d))"
    if "probe_peer (\<lambda>_. Some demo_probe) ?b = returned probe" for probe
    using that unfolding demo_probe_peer by (auto simp: dev demo_there_def demo_resolution_def)
  from launched_peer_opens_probed_device [OF tr(1) argv shell_words_reads_quoted fn this]
  obtain args where args: "shell_words (last argv) = Some ([''python3'', ''-''] @ args)"
    and main: "\<exists>tr' rep. bench_main (\<lambda>_. None) (\<lambda>_. Some demo_probe) host w b' args = Mirrored (tr', rep)" for host w b'
    by blast
  obtain probe d where "probe_peer (\<lambda>_. Some demo_probe) ?b = returned probe" "map_of probe ''dev'' = Some d"
    "argv = ssh_argv (worker_host ?b) (launch_command Cable_B ''fn0'' (text_of_json d))"
    using coordinator_launch [OF tr(1) argv] by metis
  then have "last argv = launch_command Cable_B ''fn0'' (r_dev demo_there)"
    unfolding demo_probe_peer using dev by (auto simp: ssh_argv_def)
  moreover define w where
    "w = \<lparr>peer_node = node_here, peer_open = returned 3, peer_schedule_end = None, peer_describe = (\<lambda>x. ''error'')\<rparr>"
  moreover have "\<exists>tr' rep. bench_main (\<lambda>_. None) (\<lambda>_. Some demo_probe) ''w'' w ?b args = Mirrored (tr', rep)"
    by (rule main)
  moreover have "peer_node w = node_here" by (simp add: w_def)
  ultimately show ?thesis using args by metis
qed

end
