(* ===== verification/OffloadBatch.thy ===== *)
theory OffloadBatch
  imports PyStats
begin

text \<open>
  \<open>container/rootfs/fn_offload_batch.py\<close>: the budgets of the KV offloading connector, in double
  arithmetic. The environment is the argument \<open>environ\<close>; a fraction that is passed in is a
  double. \<open>int\<close> and \<open>float\<close> raise where Python's do, so a result is a budget, unbounded
  (\<open>None\<close>) or an exception.
\<close>

section \<open>The code\<close>

definition FRAC_ENV :: string where
  "FRAC_ENV = ''FN_OFFLOAD_STORE_BATCH_FRAC''"

definition PROMOTE_FRAC_ENV :: string where
  "PROMOTE_FRAC_ENV = ''FN_OFFLOAD_PROMOTE_FRAC''"

definition DEFAULT_FRAC :: pyfloat where
  "DEFAULT_FRAC = Fin (1 / 4)"

definition DEFAULT_PROMOTE_FRAC :: pyfloat where
  "DEFAULT_PROMOTE_FRAC = Fin (1 / 2)"

definition read_frac :: "(string \<Rightarrow> string option) \<Rightarrow> pyfloat option \<Rightarrow> string \<Rightarrow> pyfloat \<Rightarrow> pyfloat" where
  "read_frac environ fraction env dflt =
     (case fraction of Some f \<Rightarrow> f
      | None \<Rightarrow>
          (case environ env of
             None \<Rightarrow> dflt
           | Some raw \<Rightarrow>
               if raw = [] then dflt
               else (case parse_float raw of None \<Rightarrow> dflt | Some f \<Rightarrow> f)))"

text \<open>\<open>max(1, int(num_blocks * min(fraction, 1.0)))\<close>.\<close>

definition budget_blocks :: "int \<Rightarrow> pyfloat \<Rightarrow> int res" where
  "budget_blocks num_blocks fraction =
     res_bind (float_of_int num_blocks) (\<lambda>n.
     res_bind (int_of_float (fmul n (fmin fraction (Fin 1)))) (\<lambda>b. returned (max 1 b)))"

text \<open>\<open>sum(1.0 / s for s in sizes)\<close>.\<close>

definition keys_per_token :: "int list \<Rightarrow> pyfloat res" where
  "keys_per_token sizes =
     res_bind (res_seq (map (\<lambda>s. res_bind (float_of_int s) (fdiv (Fin 1))) sizes)) (\<lambda>rates.
       returned (float_sum rates))"

definition store_budget ::
  "(string \<Rightarrow> string option) \<Rightarrow> int option \<Rightarrow> int list \<Rightarrow> pyfloat option \<Rightarrow> string \<Rightarrow> pyfloat \<Rightarrow> int option res" where
  "store_budget environ num_blocks offloaded_block_sizes fraction env dflt =
     (case num_blocks of
        None \<Rightarrow> returned None
      | Some n \<Rightarrow>
          if n \<le> 0 then returned None
          else
            let sizes = filter (\<lambda>s. 0 < s) offloaded_block_sizes
            in if sizes = [] then returned None
               else
                 let f = read_frac environ fraction env dflt
                 in if fle f (Fin 0) then returned None
                    else
                      res_bind (budget_blocks n f) (\<lambda>b.
                      res_bind (keys_per_token sizes) (\<lambda>rate.
                      res_bind (float_of_int b) (\<lambda>x.
                      res_bind (res_bind (fdiv x rate) int_of_float) (\<lambda>tokens.
                        returned (Some (max tokens (Max (set sizes)))))))))"

definition resolve_store_batch_tokens ::
  "(string \<Rightarrow> string option) \<Rightarrow> int option \<Rightarrow> int list \<Rightarrow> pyfloat option \<Rightarrow> int option res" where
  "resolve_store_batch_tokens environ num_blocks offloaded_block_sizes fraction =
     store_budget environ num_blocks offloaded_block_sizes fraction FRAC_ENV DEFAULT_FRAC"

definition resolve_promote_block_budget ::
  "(string \<Rightarrow> string option) \<Rightarrow> int option \<Rightarrow> pyfloat option \<Rightarrow> int option res" where
  "resolve_promote_block_budget environ num_blocks fraction =
     (case num_blocks of
        None \<Rightarrow> returned None
      | Some n \<Rightarrow>
          if n \<le> 0 then returned None
          else
            let f = read_frac environ fraction PROMOTE_FRAC_ENV DEFAULT_PROMOTE_FRAC
            in if fle f (Fin 0) then returned None
               else res_bind (budget_blocks n f) (\<lambda>b. returned (Some b)))"

section \<open>Laws of the budget of blocks\<close>

text \<open>A fraction that a budget can be taken of.\<close>

definition proper_frac :: "pyfloat \<Rightarrow> bool" where
  "proper_frac f \<longleftrightarrow> flt (Fin 0) f"

lemma proper_frac_iff: "proper_frac f \<longleftrightarrow> f = PInf \<or> (\<exists>r. f = Fin r \<and> 0 < r)"
  by (cases f) (auto simp: proper_frac_def)

lemma proper_not_le: "proper_frac f \<longleftrightarrow> \<not> fle f (Fin 0) \<and> f \<noteq> NaN"
  by (cases f) (auto simp: proper_frac_def fle_def)

lemma proper_min: "proper_frac f \<Longrightarrow> \<exists>r. fmin f (Fin 1) = Fin r \<and> 0 < r \<and> r \<le> 1"
  by (auto simp: proper_frac_iff fmin_def)

lemma budget_blocks_mono:
  assumes "0 < n" "n \<le> 2 ^ 53" "proper_frac f" "proper_frac g" "fle f g"
  shows "\<exists>b c. budget_blocks n f = returned b \<and> budget_blocks n g = returned c \<and> 1 \<le> b \<and> b \<le> c \<and> c \<le> n"
proof -
  obtain r s where r: "fmin f (Fin 1) = Fin r" "0 < r" "r \<le> 1" and s: "fmin g (Fin 1) = Fin s" "0 < s" "s \<le> 1"
    using proper_min assms(3,4) by blast
  have rs: "r \<le> s"
    using r s assms(3-5) by (cases f; cases g) (auto simp: fmin_def fle_def proper_frac_def split: if_splits)
  have n: "0 < (of_int n :: rat)" using assms(1) by simp
  have "0 \<le> of_int n * r" "of_int n * r \<le> of_int n * s" "of_int n * s \<le> of_int n"
    using n r s rs by (simp_all add: mult_left_mono)
  then obtain p q where pq: "fl64 (of_int n * r) = Fin p" "fl64 (of_int n * s) = Fin q"
      "0 \<le> p" "p \<le> q" "q \<le> of_int n"
    using fl64_mono_int [of "of_int n * r" "of_int n * s" n] assms(1,2) by auto
  have "budget_blocks n f = returned (max 1 (trunc_rat p))" "budget_blocks n g = returned (max 1 (trunc_rat q))"
    using float_of_int_exact [of n] assms(1,2) r s pq by (simp_all add: budget_blocks_def)
  moreover have "trunc_rat p \<le> trunc_rat q" "trunc_rat q \<le> n"
    using trunc_rat_mono [of p q] trunc_rat_mono [of q "of_int n"] pq by simp_all
  ultimately show ?thesis using assms(1) by auto
qed

lemma budget_blocks_all: "0 < n \<Longrightarrow> n \<le> 2 ^ 53 \<Longrightarrow> fle (Fin 1) f \<Longrightarrow> budget_blocks n f = returned n"
proof -
  assume n: "0 < n" "n \<le> 2 ^ 53" and f: "fle (Fin 1) f"
  have "fmin f (Fin 1) = Fin 1" using f by (cases f) (auto simp: fmin_def fle_def)
  then show ?thesis
    using float_of_int_exact [of n] fl64_int [of n] n by (simp add: budget_blocks_def)
qed

text \<open>
  With a positive fraction, a request may promote at least one block and never more than
  the tier has, exactly the whole tier from fraction 1 on, and a larger fraction never promotes
  less: the cap below the tier size that keeps the promoted prefix resident.
\<close>

theorem promote_budget_bounds:
  assumes "0 < n" "n \<le> 2 ^ 53" "proper_frac f" "proper_frac g" "fle f g"
  shows "\<exists>b c. resolve_promote_block_budget environ (Some n) (Some f) = returned (Some b) \<and>
    resolve_promote_block_budget environ (Some n) (Some g) = returned (Some c) \<and>
    1 \<le> b \<and> b \<le> c \<and> c \<le> n \<and> (fle (Fin 1) g \<longrightarrow> c = n)"
proof -
  obtain b c where bc: "budget_blocks n f = returned b" "budget_blocks n g = returned c" "1 \<le> b" "b \<le> c" "c \<le> n"
    using budget_blocks_mono [OF assms] by blast
  then show ?thesis
    using assms(1-4) budget_blocks_all [of n g] proper_not_le
    by (auto simp: resolve_promote_block_budget_def read_frac_def Let_def)
qed

theorem promote_budget_bounds_witness:
  "\<exists>b c. resolve_promote_block_budget (\<lambda>_. None) (Some 258) (Some (Fin (1 / 2))) = returned (Some b) \<and>
     resolve_promote_block_budget (\<lambda>_. None) (Some 258) (Some PInf) = returned (Some c) \<and> 1 \<le> b \<and> b \<le> c \<and> c = 258"
  using promote_budget_bounds [of 258 "Fin (1 / 2)" PInf "\<lambda>_. None"]
  by (auto simp: proper_frac_def fle_def)

section \<open>The budget of tokens\<close>

text \<open>The bound is off: no tier size, no group with a block size, or a fraction that disables it.\<close>

definition unbounded :: "int option \<Rightarrow> int list \<Rightarrow> pyfloat \<Rightarrow> bool" where
  "unbounded num_blocks sizes f \<longleftrightarrow>
     (case num_blocks of None \<Rightarrow> True | Some n \<Rightarrow> n \<le> 0) \<or> (\<forall>s \<in> set sizes. s \<le> 0) \<or> fle f (Fin 0)"

lemma store_budget_cases:
  assumes "store_budget environ num_blocks sizes fraction env dflt = returned r"
  shows "(unbounded num_blocks sizes (read_frac environ fraction env dflt) \<and> r = None) \<or>
    (\<not> unbounded num_blocks sizes (read_frac environ fraction env dflt) \<and>
     (\<exists>t. r = Some t \<and> (\<forall>s \<in> set sizes. s \<le> t) \<and> 0 < t))"
proof (cases "unbounded num_blocks sizes (read_frac environ fraction env dflt)")
  case True
  then show ?thesis
    using assms by (auto simp: store_budget_def unbounded_def Let_def filter_empty_conv split: option.splits if_splits)
next
  case False
  define pos where "pos = filter (\<lambda>s. 0 < s) sizes"
  have ne: "pos \<noteq> []" using False by (auto simp: unbounded_def pos_def filter_empty_conv not_le)
  obtain n where n: "num_blocks = Some n" "0 < n"
    using False by (auto simp: unbounded_def split: option.splits)
  obtain tokens where r: "r = Some (max tokens (Max (set pos)))"
    using assms False n ne unfolding pos_def
    by (auto simp: store_budget_def unbounded_def Let_def res_bind_Inr_iff split: if_splits)
  have m: "Max (set pos) \<in> set pos" "\<forall>s \<in> set pos. s \<le> Max (set pos)" using ne by simp_all
  then have p: "0 < Max (set pos)" by (auto simp: pos_def)
  have "s \<le> Max (set pos)" if "s \<in> set sizes" for s
    using m(2) p that by (cases "0 < s") (auto simp: pos_def)
  then show ?thesis using False r p by (auto simp: le_max_iff_disj)
qed

text \<open>
  C16: The store budget is off exactly when it is disabled; otherwise it is at least one block of
  every group, the floor that lets a budget measured from the laggard reach every group's cursor.
\<close>

theorem store_budget_floor:
  assumes "resolve_store_batch_tokens environ num_blocks sizes fraction = returned r"
  shows "(r = None \<longleftrightarrow> unbounded num_blocks sizes (read_frac environ fraction FRAC_ENV DEFAULT_FRAC)) \<and>
    (\<forall>t. r = Some t \<longrightarrow> 0 < t \<and> (\<forall>s \<in> set sizes. s \<le> t))"
  using store_budget_cases [OF assms [unfolded resolve_store_batch_tokens_def]] by auto

text \<open>The relative error of rounding, away from the underflow.\<close>

lemma fl_pos_near:
  assumes "1 \<le> a * 2 ^ 1022"
  shows "\<bar>fl_pos a - a\<bar> \<le> a / 2 ^ 53"
proof -
  have a: "0 < a" using assms by (metis less_le_trans not_less zero_less_mult_pos2 zero_less_numeral zero_less_one zero_less_power)
  define e where "e = last_place a"
  have e: "pow2 (e + 52) \<le> a"
  proof (cases "e = - 1074")
    case True
    have "pow2 (- 1022) \<le> a" using assms by (simp add: pow2_power divide_le_eq)
    then show ?thesis by (simp add: True)
  next
    case False
    then show ?thesis using last_place_bounds(2) [OF a] by (simp add: e_def)
  qed
  have "\<bar>of_int (round_half_even (a / pow2 e)) - a / pow2 e\<bar> \<le> 1 / 2" by (rule round_half_even_near)
  then have "\<bar>of_int (round_half_even (a / pow2 e)) - a / pow2 e\<bar> * pow2 e \<le> 1 / 2 * pow2 e"
    by (rule mult_right_mono) (simp add: less_imp_le)
  moreover have "fl_pos a - a = (of_int (round_half_even (a / pow2 e)) - a / pow2 e) * pow2 e"
    by (simp add: fl_pos_def e_def left_diff_distrib)
  ultimately have "\<bar>fl_pos a - a\<bar> \<le> pow2 e / 2" by (simp add: abs_mult less_imp_le)
  also have "pow2 e / 2 = pow2 (e + 52) / 2 ^ 53" by (simp add: pow2_add pow2_power [of 52])
  also have "\<dots> \<le> a / 2 ^ 53" using e by (simp add: divide_right_mono)
  finally show ?thesis .
qed

text \<open>The reciprocal of an integer, rounded, times the integer.\<close>

lemma reciprocal_near:
  assumes s: "1 \<le> (of_int s :: rat)" and "of_int s \<le> (2 ^ 1022 :: rat)"
  shows "\<bar>fl_pos (1 / of_int s) * of_int s - 1\<bar> \<le> 1 / 2 ^ 53"
proof -
  define r where "r = fl_pos (1 / of_int s)"
  have "1 \<le> 1 / of_int s * (2 ^ 1022 :: rat)" using assms by (simp add: le_divide_eq)
  from fl_pos_near [OF this] have "\<bar>r - 1 / of_int s\<bar> \<le> 1 / of_int s / 2 ^ 53" by (simp add: r_def)
  then have "\<bar>r - 1 / of_int s\<bar> * of_int s \<le> 1 / of_int s / 2 ^ 53 * of_int s"
    by (rule mult_right_mono) (use s in simp)
  moreover have "\<bar>r - 1 / of_int s\<bar> * of_int s = \<bar>(r - 1 / of_int s) * of_int s\<bar>" using s by (simp add: abs_mult)
  ultimately show ?thesis using s by (simp add: r_def left_diff_distrib)
qed

text \<open>The tokens of one group: the product of blocks and block size, or one less.\<close>

lemma fdiv_rate:
  assumes "0 < b" "0 < s" "b * s \<le> 2 ^ 50"
  shows "\<exists>q. fdiv (Fin (of_int b)) (fl64 (1 / of_int s)) = returned (Fin q) \<and>
    of_int (b * s) - 1 / 2 \<le> q \<and> q < of_int (b * s) + 1 / 2"
proof -
  define m r y where "m = (of_int (b * s) :: rat)" and "r = fl_pos (1 / of_int s)" and "y = of_int b / r"
  have s: "1 \<le> (of_int s :: rat)" using assms(2) by simp
  have "s \<le> b * s" "b \<le> b * s" "1 \<le> b * s" using assms(1,2) by (simp_all add: int_one_le_iff_zero_less)
  then have m: "1 \<le> m" "m \<le> 2 ^ 50" "of_int s \<le> m"
    using assms(3) unfolding m_def by (metis of_int_1_le_iff, metis of_int_le_iff of_int_numeral of_int_power, metis of_int_le_iff)
  have "of_int s \<le> (2 ^ 1022 :: rat)" using m by (simp add: order.trans)
  from reciprocal_near [OF s this] have "\<bar>r * of_int s - 1\<bar> \<le> 1 / 2 ^ 53" by (simp add: r_def)
  then have rs2: "r * of_int s \<le> 1 + 1 / 2 ^ 53" "1 - 1 / 2 ^ 53 \<le> r * of_int s" by linarith+
  moreover have "2 / 3 \<le> (1 - 1 / 2 ^ 53 :: rat)" by simp
  ultimately have rs3: "2 / 3 \<le> r * of_int s" by linarith
  then have "0 < r * of_int s" by linarith
  then have r: "0 < r" using s by (simp add: zero_less_mult_iff)
  have y: "0 < y" using r assms(1) by (simp add: y_def)
  have prod: "y * (r * of_int s) = m" using r by (simp add: y_def m_def)
  have "y * (2 / 3) \<le> m" using mult_left_mono [OF rs3, of y] y prod by simp
  then have y2: "y \<le> 3 / 2 * m" by simp
  have "y * (1 - 1 / 2 ^ 53) \<le> m" "m \<le> y * (1 + 1 / 2 ^ 53)"
    using mult_left_mono [OF rs2(2), of y] mult_left_mono [OF rs2(1), of y] y prod by simp_all
  then have ym: "\<bar>y - m\<bar> \<le> y / 2 ^ 53" by (intro abs_leI) (simp_all add: field_simps)
  have ye: "y / 2 ^ 53 \<le> 3 / 16" using y2 m(2) by simp
  have y1: "1 / 2 \<le> y" using ym ye m(1) by linarith
  have "1 \<le> y * 2 ^ 1022" using y1 mult_right_mono [OF y1, of "2 ^ 1022"] by (simp add: order.trans)
  from fl_pos_near [OF this] have fy: "\<bar>fl_pos y - y\<bar> \<le> 3 / 16" using ye by linarith
  have near: "\<bar>fl_pos y - m\<bar> < 1 / 2" using fy ym ye by linarith
  have small: "fl_pos y < overflow_bound" "r < overflow_bound"
  proof -
    have "fl_pos y < m + 1 / 2" using near by linarith
    then have "fl_pos y < 2 ^ 51" using m(2) by simp
    then show "fl_pos y < overflow_bound" by (simp add: overflow_bound_def)
    have "r * 1 \<le> r * of_int s" by (rule mult_left_mono) (use s r in simp_all)
    then show "r < overflow_bound" using rs2(1) by (simp add: overflow_bound_def)
  qed
  have f1: "fl64 (1 / of_int s) = Fin r" using s small(2) by (simp add: fl64_def r_def)
  have "fl64 (of_int b / r) = Fin (fl_pos y)" using y small(1) by (simp add: fl64_def y_def [symmetric] Let_def)
  then have "fdiv (Fin (of_int b)) (fl64 (1 / of_int s)) = returned (Fin (fl_pos y))" using r by (simp add: f1)
  moreover have "m - 1 / 2 \<le> fl_pos y" "fl_pos y < m + 1 / 2" using near by linarith+
  ultimately show ?thesis unfolding m_def by blast
qed

text \<open>
  With one KV group the budget of tokens is the budget of blocks times the block size, or one
  token less where the reciprocal was rounded, so the blocks that it stages never exceed the
  budget of blocks, which never exceeds the tier.
\<close>

theorem one_group_budget:
  assumes "0 < n" "0 < s" "n * s \<le> 2 ^ 50" "proper_frac f"
  shows "\<exists>b t. budget_blocks n f = returned b \<and>
    resolve_store_batch_tokens environ (Some n) [s] (Some f) = returned (Some t) \<and>
    t \<in> {max s (b * s - 1), b * s} \<and> t div s \<le> b \<and> b \<le> n"
proof -
  have "n * 1 \<le> n * s" by (rule mult_left_mono) (use assms in simp_all)
  then have n: "n \<le> 2 ^ 53" using assms(3) by simp
  obtain b where b: "budget_blocks n f = returned b" "1 \<le> b" "b \<le> n"
    using budget_blocks_mono [OF assms(1) n assms(4) assms(4)] assms(4)
    by (auto simp: proper_frac_iff fle_def)
  have "b * s \<le> n * s" by (rule mult_right_mono) (use b(3) assms(2) in simp_all)
  then have bs: "b * s \<le> 2 ^ 50" using assms(3) by linarith
  have "1 * s \<le> b * s" by (rule mult_right_mono) (use assms(2) b(2) in simp_all)
  then have sb: "s \<le> b * s" "s \<le> 2 ^ 53" using bs by simp_all
  obtain q where q: "fdiv (Fin (of_int b)) (fl64 (1 / of_int s)) = returned (Fin q)"
      "of_int (b * s) - 1 / 2 \<le> q" "q < of_int (b * s) + 1 / 2"
    using fdiv_rate [of b s] b(2) assms(2) bs by auto
  have "keys_per_token [s] = returned (fl64 (1 / of_int s))"
    using float_of_int_exact [of s] assms(2) sb(2) by (simp add: keys_per_token_def float_sum_def)
  moreover have "float_of_int b = returned (Fin (of_int b))"
    using float_of_int_exact [of b] b n by simp
  moreover have "\<not> fle f (Fin 0)" using assms(4) proper_not_le by blast
  ultimately have t: "resolve_store_batch_tokens environ (Some n) [s] (Some f) = returned (Some (max (trunc_rat q) s))"
    using assms(1,2) b(1) q(1)
    by (simp add: resolve_store_batch_tokens_def store_budget_def read_frac_def Let_def)
  have "1 \<le> (of_int (b * s) :: rat)" using sb(1) assms(2) by (subst of_int_1_le_iff) linarith
  then have "0 \<le> q" using q(2) by linarith
  then have "b * s - 1 \<le> trunc_rat q" "trunc_rat q \<le> b * s"
    using q(2,3) by (simp_all add: trunc_rat_def le_floor_iff floor_le_iff)
  then have two: "max (trunc_rat q) s \<in> {max s (b * s - 1), b * s}" using sb by auto
  moreover have "max s (b * s - 1) div s \<le> b" "b * s div s \<le> b"
    using zdiv_mono1 [of "max s (b * s - 1)" "b * s" s] sb assms(2) by simp_all
  ultimately show ?thesis using b t by (intro exI [of _ b] exI [of _ "max (trunc_rat q) s"]) auto
qed

text \<open>
  The word that a mistyped fraction is taken for decides: a text that is no number falls back
  to the default, but \<open>nan\<close> is a number, is not below zero, and makes both budgets raise.
\<close>

theorem nan_fraction_raises:
  "resolve_promote_block_budget (\<lambda>_. Some ''half'') (Some 258) None =
     resolve_promote_block_budget (\<lambda>_. None) (Some 258) None \<and>
   resolve_promote_block_budget (\<lambda>_. Some ''nan'') (Some 258) None = raised ValueError \<and>
   resolve_store_batch_tokens (\<lambda>_. Some ''nan'') (Some 258) [16] None = raised ValueError"
proof -
  have w: "parse_float ''half'' = None" "parse_float ''nan'' = Some NaN" by code_simp+
  have n: "budget_blocks 258 NaN = raised ValueError" by code_simp
  show ?thesis
    by (simp add: resolve_promote_block_budget_def resolve_store_batch_tokens_def store_budget_def
        read_frac_def w n fle_def)
qed

theorem store_budget_floor_witness:
  "\<exists>t. resolve_store_batch_tokens (\<lambda>_. None) (Some 258) [16, 0, 64] None = returned (Some t) \<and> 0 < t \<and> 64 \<le> t"
proof -
  have r: "resolve_store_batch_tokens (\<lambda>_. None) (Some 258) [16, 0, 64] None = returned (Some 819)"
    by code_simp
  from store_budget_floor [OF r] r show ?thesis by auto
qed

theorem one_group_budget_witness:
  "\<exists>b t. budget_blocks 258 (Fin (1 / 4)) = returned b \<and>
     resolve_store_batch_tokens (\<lambda>_. None) (Some 258) [16] (Some (Fin (1 / 4))) = returned (Some t) \<and> t div 16 \<le> b"
  using one_group_budget [of 258 16 "Fin (1 / 4)" "\<lambda>_. None"] by (auto simp: proper_frac_def)

end
