(* ===== verification/Instrument.thy ===== *)
theory Instrument
  imports PyStats
begin

text \<open>
  What the probes of the container overlay share. A probe replaces an attribute of an object of
  the engine by a wrapper that calls the original: \<open>holder\<close> is an object with its own attributes
  and those it inherits, \<open>Probe f\<close> the wrapper around \<open>f\<close>. The locales are the contracts: an
  installation that is done at most once, its removal, and the sampling window (skip some calls,
  record a number of calls, then stop).
\<close>

section \<open>Attributes\<close>

datatype func =
    Native nat
  | Probe func

record holder =
  own :: "string \<Rightarrow> func option"
  inherited :: "string \<Rightarrow> func option"

definition get_attr :: "holder \<Rightarrow> string \<Rightarrow> func option" where
  "get_attr h n = (case own h n of None \<Rightarrow> inherited h n | Some f \<Rightarrow> Some f)"

definition set_attr :: "holder \<Rightarrow> string \<Rightarrow> func \<Rightarrow> holder" where
  "set_attr h n f = h\<lparr>own := (own h)(n \<mapsto> f)\<rparr>"

definition del_attr :: "holder \<Rightarrow> string \<Rightarrow> holder" where
  "del_attr h n = h\<lparr>own := (own h)(n := None)\<rparr>"

lemma get_set_attr [simp]: "get_attr (set_attr h n f) m = (if m = n then Some f else get_attr h m)"
  by (simp add: get_attr_def set_attr_def split: option.split)

lemma get_del_attr: "get_attr (del_attr h n) m = (if m = n then inherited h n else get_attr h m)"
  by (simp add: get_attr_def del_attr_def split: option.split)

text \<open>Putting back what was there leaves the object as it was.\<close>

lemma set_attr_undo:
  "own h n = Some f \<Longrightarrow> set_attr (set_attr h n g) n f = h"
  "own h n = None \<Longrightarrow> del_attr (set_attr h n g) n = h"
  by (simp_all add: set_attr_def del_attr_def fun_upd_idem)

text \<open>The function behind all wrappers.\<close>

fun behind :: "func \<Rightarrow> func" where
  "behind (Native n) = Native n"
| "behind (Probe f) = behind f"

section \<open>Installation\<close>

locale instrument =
  fixes install :: "'w \<Rightarrow> 'w" and installed :: "'w \<Rightarrow> bool" and look :: "'w \<Rightarrow> 'k \<Rightarrow> func option"
  assumes install_again: "installed w \<Longrightarrow> install w = w"
    and install_effect: "installed (install w) \<or> install w = w"
    and install_behind: "map_option behind (look (install w) k) = map_option behind (look w k)"
begin

lemma install_idem: "install (install w) = install w"
  using install_effect [of w] install_again [of "install w"] by auto

lemma install_many: "(install ^^ Suc n) w = install w"
  by (induction n) (simp_all add: install_idem)

end

locale removable = instrument install installed look
  for install :: "'w \<Rightarrow> 'w" and installed and look :: "'w \<Rightarrow> 'k \<Rightarrow> func option" +
  fixes uninstall :: "'w \<Rightarrow> 'w" and ok :: "'w \<Rightarrow> bool"
  assumes install_ok: "ok w \<Longrightarrow> ok (install w)"
    and uninstall_ok: "ok w \<Longrightarrow> ok (uninstall w) \<and> \<not> installed (uninstall w)"
    and uninstall_look: "ok w \<Longrightarrow> \<not> installed w \<Longrightarrow> look (uninstall (install w)) = look w"
begin

text \<open>Any number of brackets leaves every lookup as it was.\<close>

lemma brackets_look:
  "ok w \<Longrightarrow> \<not> installed w \<Longrightarrow>
     look (((\<lambda>w. uninstall (install w)) ^^ n) w) = look w \<and> ok (((\<lambda>w. uninstall (install w)) ^^ n) w) \<and>
     \<not> installed (((\<lambda>w. uninstall (install w)) ^^ n) w)"
  by (induction n) (simp_all add: uninstall_look uninstall_ok install_ok)

end

section \<open>The sampling window\<close>

text \<open>The specification: leave out the first \<open>skip\<close> calls, keep the next \<open>cap\<close>.\<close>

definition window :: "nat \<Rightarrow> nat \<Rightarrow> 'x list \<Rightarrow> 'x list" where
  "window skip cap xs = take cap (drop skip xs)"

lemma window_snoc:
  "window skip cap (xs @ [x]) =
     (if skip \<le> length xs \<and> length xs < skip + cap then window skip cap xs @ [x] else window skip cap xs)"
  by (auto simp: window_def)

lemma length_window: "length (window skip cap xs) = min cap (length xs - skip)"
  by (simp add: window_def min.commute)

locale sampling_window =
  fixes step :: "'s \<Rightarrow> 'x \<Rightarrow> 's" and seen :: "'s \<Rightarrow> nat" and rows :: "'s \<Rightarrow> 'r list"
    and closed :: "'s \<Rightarrow> bool" and row :: "'x \<Rightarrow> 'r" and skip cap :: nat
    and good :: "'x \<Rightarrow> bool" and inv :: "'s \<Rightarrow> bool"
  assumes inv_step: "inv s \<Longrightarrow> good x \<Longrightarrow> inv (step s x)"
    and closed_step: "inv s \<Longrightarrow> good x \<Longrightarrow> closed s \<Longrightarrow> closed (step s x) \<and> rows (step s x) = rows s"
    and skip_step: "inv s \<Longrightarrow> good x \<Longrightarrow> \<not> closed s \<Longrightarrow> seen s < skip \<Longrightarrow>
      \<not> closed (step s x) \<and> seen (step s x) = Suc (seen s) \<and> rows (step s x) = rows s"
    and take_step: "inv s \<Longrightarrow> good x \<Longrightarrow> \<not> closed s \<Longrightarrow> skip \<le> seen s \<Longrightarrow> seen s < skip + cap \<Longrightarrow>
      rows (step s x) = rows s @ [row x] \<and> seen (step s x) = Suc (seen s) \<and>
      (closed (step s x) \<longrightarrow> Suc (seen s) = skip + cap)"
    and full_step: "inv s \<Longrightarrow> good x \<Longrightarrow> \<not> closed s \<Longrightarrow> skip + cap \<le> seen s \<Longrightarrow>
      rows (step s x) = rows s \<and> seen (step s x) = Suc (seen s)"
begin

lemma window_run:
  assumes "inv s" "\<not> closed s" "seen s = 0" "rows s = []" "\<forall>x \<in> set xs. good x"
  shows "inv (foldl step s xs) \<and> rows (foldl step s xs) = window skip cap (map row xs) \<and>
    (\<not> closed (foldl step s xs) \<longrightarrow> seen (foldl step s xs) = length xs) \<and>
    (closed (foldl step s xs) \<longrightarrow> skip + cap \<le> length xs)"
  using assms(5)
proof (induction xs rule: rev_induct)
  case Nil
  then show ?case using assms by (simp add: window_def)
next
  case (snoc x xs)
  let ?s = "foldl step s xs"
  have IH: "rows ?s = window skip cap (map row xs)" "\<not> closed ?s \<Longrightarrow> seen ?s = length xs"
    "closed ?s \<Longrightarrow> skip + cap \<le> length xs" and i: "inv ?s" and g: "good x"
    using snoc by auto
  consider (closed) "closed ?s" | (skipped) "\<not> closed ?s" "length xs < skip"
    | (taken) "\<not> closed ?s" "skip \<le> length xs" "length xs < skip + cap"
    | (full) "\<not> closed ?s" "skip + cap \<le> length xs" by linarith
  then show ?case
  proof cases
    case closed
    then show ?thesis using closed_step [OF i g closed] inv_step [OF i g] IH by (auto simp: window_snoc)
  next
    case skipped
    then show ?thesis using skip_step [OF i g skipped(1)] inv_step [OF i g] IH by (auto simp: window_snoc)
  next
    case taken
    then show ?thesis using take_step [OF i g taken(1)] inv_step [OF i g] IH by (auto simp: window_snoc)
  next
    case full
    then show ?thesis using full_step [OF i g full(1)] inv_step [OF i g] IH by (auto simp: window_snoc)
  qed
qed

end

end
