(* ===== verification/ExpertUnion.thy ===== *)
theory ExpertUnion
  imports Instrument FileStore
begin

text \<open>
  \<open>container/rootfs/fn_expert_union.py\<close>: the probe of the routing call. A tensor of expert ids is
  its list of rows; writing through an index tensor follows torch (negative indices count from
  the end, an index out of range raises). The configuration is a record, the preallocated buffer
  a list of \<open>_CALLS\<close> rows that starts all zero. The start and the length of the window are
  naturals. The dump is the list of its rows and the text of the file that holds them; a disk that
  fails while it is written, which the code reports and survives, is not modelled.
\<close>

section \<open>State\<close>

record eu_config =
  eu_enabled :: bool
  eu_start :: nat
  eu_calls :: nat

type_synonym eu_row = "nat \<times> nat \<times> nat"

record eu_state =
  eu_buf :: "eu_row list option"
  calls_seen :: nat
  eu_done :: bool
  eu_installed :: bool
  dumped :: "eu_row list option"
  router :: holder

section \<open>Recording\<close>

text \<open>\<open>mask[i] = True\<close> for every index of a list.\<close>

definition torch_index :: "nat \<Rightarrow> int \<Rightarrow> nat res" where
  "torch_index n i =
     (if 0 \<le> i \<and> i < int n then returned (nat i)
      else if i < 0 \<and> - int n \<le> i then returned (nat (int n + i))
      else raised IndexError)"

definition set_true :: "bool list \<Rightarrow> int list \<Rightarrow> bool list res" where
  "set_true slots is =
     res_bind (res_seq (map (torch_index (length slots)) is)) (\<lambda>ks.
       returned (fold (\<lambda>k m. m[k := True]) ks slots))"

text \<open>The row of one call: its rows, its distinct experts, and the local experts.\<close>

definition eu_measure :: "int list list \<Rightarrow> nat \<Rightarrow> eu_row res" where
  "eu_measure topk_ids num_local_experts =
     res_bind (set_true (replicate (num_local_experts + 1) False) (map (\<lambda>i. i + 1) (concat topk_ids)))
       (\<lambda>seen. returned (length topk_ids, length (filter id (tl seen)), num_local_experts))"

text \<open>Only the rows of calls that had rows are written.\<close>

definition eu_flush :: "eu_state \<Rightarrow> eu_state" where
  "eu_flush s =
     (if eu_done s then s
      else case eu_buf s of None \<Rightarrow> s
        | Some rows \<Rightarrow> s\<lparr>eu_done := True, dumped := Some (filter (\<lambda>(r, d, l). r \<noteq> 0) rows)\<rparr>)"

definition eu_record :: "eu_config \<Rightarrow> int list list \<Rightarrow> nat \<Rightarrow> eu_state \<Rightarrow> unit res \<times> eu_state" where
  "eu_record c topk_ids num_local_experts s =
     (if eu_done s \<or> num_local_experts = 0 then (returned (), s)
      else
        let n = Suc (calls_seen s); s1 = s\<lparr>calls_seen := n\<rparr>
        in if n \<le> eu_start c then (returned (), s1)
           else
             let i = n - eu_start c - 1
             in if eu_calls c \<le> i then (returned (), eu_flush s1)
                else
                  let rows = (case eu_buf s1 of None \<Rightarrow> replicate (eu_calls c) (0, 0, 0) | Some b \<Rightarrow> b);
                      s2 = s1\<lparr>eu_buf := Some rows\<rparr>
                  in case eu_measure topk_ids num_local_experts of
                       Inl x \<Rightarrow> (raised x, s2)
                     | Inr r \<Rightarrow> (returned (), s2\<lparr>eu_buf := Some (rows[i := r])\<rparr>))"

text \<open>The file that \<open>_flush\<close> writes.\<close>

definition dump_header :: string where
  "dump_header = ''# n_rows'' @ tab @ ''n_distinct'' @ tab @ ''n_local_experts''"

definition dump_line :: "eu_row \<Rightarrow> string" where
  "dump_line row = (case row of (n_rows, n_distinct, n_local) \<Rightarrow> str_nat n_rows @ tab @ str_nat n_distinct @ tab @ str_nat n_local)"

definition dump_text :: "eu_row list \<Rightarrow> string" where
  "dump_text rows = text_of_lines (dump_header # map dump_line rows)"

section \<open>The wrapper\<close>

text \<open>
  The arguments of a call: the shape of the keyword \<open>gating_output\<close> if it is there, the shapes of
  the positional arguments (\<open>None\<close> for a Python \<open>None\<close>), and what the original returned.
\<close>

datatype routed = Routed_tuple "int list list list" | Routed_other

record eu_call =
  gating_kw :: "nat list option"
  positional :: "nat list option list"
  result :: "pyexc + routed"

definition second_id :: "routed \<Rightarrow> int list list option" where
  "second_id r = (case r of Routed_tuple (_ # t # _) \<Rightarrow> Some t | _ \<Rightarrow> None)"

definition last_dim :: "nat list option \<Rightarrow> nat res" where
  "last_dim g = (case g of None \<Rightarrow> returned 0 | Some [] \<Rightarrow> raised IndexError | Some sh \<Rightarrow> returned (last sh))"

text \<open>The probe after the call; whatever it raises is dropped.\<close>

definition eu_probe :: "eu_config \<Rightarrow> eu_call \<Rightarrow> routed \<Rightarrow> eu_state \<Rightarrow> eu_state" where
  "eu_probe c call res s =
     (let gating = (if gating_kw call = None \<and> 1 < length (positional call) then positional call ! 1 else gating_kw call)
      in case last_dim gating of
           Inl _ \<Rightarrow> s
         | Inr n_local \<Rightarrow>
             (case second_id res of None \<Rightarrow> s
              | Some topk_ids \<Rightarrow> snd (eu_record c topk_ids n_local s)))"

definition eu_wrapped :: "eu_config \<Rightarrow> eu_call \<Rightarrow> eu_state \<Rightarrow> (pyexc + routed) \<times> eu_state" where
  "eu_wrapped c call s =
     (case result call of Inl x \<Rightarrow> (raised x, s) | Inr r \<Rightarrow> (returned r, eu_probe c call r s))"

definition eu_install :: "eu_config \<Rightarrow> eu_state \<Rightarrow> eu_state" where
  "eu_install c s =
     (if \<not> eu_enabled c \<or> eu_installed s then s
      else case get_attr (router s) ''fused_topk'' of
          None \<Rightarrow> s
        | Some orig \<Rightarrow> s\<lparr>router := set_attr (router s) ''fused_topk'' (Probe orig), eu_installed := True\<rparr>)"

section \<open>The file read back\<close>

definition read_dump :: "string \<Rightarrow> int option list list" where
  "read_dump contents = map (\<lambda>l. map parse_int (split_on (hd tab) l)) (tl (splitlines contents))"

lemma split_on_parts:
  "c \<notin> set a \<Longrightarrow> split_on c (a @ c # b) = a # split_on c b" "c \<notin> set a \<Longrightarrow> split_on c a = [a]"
  by (induction a) auto

lemma digit_no_break: "py_digit c \<Longrightarrow> \<not> line_break c \<and> c \<noteq> hd tab"
  by (auto simp: py_digit_def line_break_def tab_def Let_def)

lemma digits_no_tab: "hd tab \<notin> set (str_nat n)"
  using str_nat_digits [of n] digit_no_break by (auto simp: list_all_iff)

lemma dump_one_line: "one_line (dump_line row)" "one_line dump_header"
proof -
  have digits: "list_all (\<lambda>c. \<not> line_break c) (str_nat n)" for n
    using str_nat_digits [of n] digit_no_break by (auto simp: list_all_iff)
  have tabs: "list_all (\<lambda>c. \<not> line_break c) tab" by code_simp
  show "one_line (dump_line row)"
    by (cases row) (simp add: one_line_def dump_line_def digits tabs)
  show "one_line dump_header" by code_simp
qed

text \<open>Every row that was dumped is read out of the file, as the numbers it was written as.\<close>

theorem dump_reads_back:
  "read_dump (dump_text rows) = map (\<lambda>(a, b, c). [Some (int a), Some (int b), Some (int c)]) rows"
proof -
  have line: "map parse_int (split_on (hd tab) (dump_line (a, b, c))) = [Some (int a), Some (int b), Some (int c)]" for a b c
    using digits_no_tab by (simp add: dump_line_def tab_def split_on_parts)
  have "splitlines (dump_text rows) = dump_header # map dump_line rows"
    unfolding dump_text_def by (rule splitlines_text) (simp add: dump_one_line list_all_iff)
  then show ?thesis by (auto simp: read_dump_def line)
qed

section \<open>What a row says\<close>

lemma torch_index_Inr: "torch_index n i = returned k \<Longrightarrow> k < n"
  by (auto simp: torch_index_def split: if_splits)

lemma length_fold_set_true: "length (fold (\<lambda>k m. m[k := True]) ks slots) = length slots"
  by (induction ks arbitrary: slots) auto

lemma fold_set_true:
  "j < length slots \<Longrightarrow> fold (\<lambda>k m. m[k := True]) ks slots ! j \<longleftrightarrow> slots ! j \<or> j \<in> set ks"
proof (induction ks arbitrary: slots)
  case (Cons k ks)
  then show ?case by (cases "k = j") auto
qed simp

lemma set_true_plain:
  assumes "\<forall>i \<in> set is. 0 \<le> i \<and> i < int (length slots)"
  shows "set_true slots is = returned (fold (\<lambda>k m. m[k := True]) (map nat is) slots)"
proof -
  have "map (torch_index (length slots)) is = map Inr (map nat is)"
    using assms by (simp add: torch_index_def)
  then have "res_seq (map (torch_index (length slots)) is) = returned (map nat is)"
    unfolding res_seq_Inr .
  then show ?thesis by (simp add: set_true_def)
qed

text \<open>The padding \<open>-1\<close> goes to slot 0, which is not counted.\<close>

lemma eu_measure_distinct:
  assumes "\<forall>i \<in> set (concat ids). - 1 \<le> i \<and> i < int n"
  shows "eu_measure ids n = returned (length ids, card (set (concat ids) - {- 1}), n)"
proof -
  define seen where
    "seen = fold (\<lambda>k m. m[k := True]) (map nat (map (\<lambda>i. i + 1) (concat ids))) (replicate (n + 1) False)"
  have m: "set_true (replicate (n + 1) False) (map (\<lambda>i. i + 1) (concat ids)) = returned seen"
    unfolding seen_def
  proof (rule set_true_plain, intro ballI)
    fix k assume "k \<in> set (map (\<lambda>i. i + 1) (concat ids))"
    then obtain i where "k = i + 1" "i \<in> set (concat ids)" unfolding set_map by blast
    then show "0 \<le> k \<and> k < int (length (replicate (n + 1) False))" using assms by fastforce
  qed
  have at: "seen ! Suc j \<longleftrightarrow> int j \<in> set (concat ids)" if "j < n" for j
  proof -
    have "seen ! Suc j \<longleftrightarrow> Suc j \<in> set (map nat (map (\<lambda>i. i + 1) (concat ids)))"
      unfolding seen_def using that by (subst fold_set_true) auto
    also have "\<dots> \<longleftrightarrow> (\<exists>i \<in> set (concat ids). nat (i + 1) = Suc j)"
      unfolding set_map image_image by (metis (no_types, lifting) image_iff)
    also have "\<dots> \<longleftrightarrow> int j \<in> set (concat ids)"
    proof
      assume "\<exists>i \<in> set (concat ids). nat (i + 1) = Suc j"
      then obtain i where "i \<in> set (concat ids)" "nat (i + 1) = Suc j" by blast
      moreover from this have "i = int j" by linarith
      ultimately show "int j \<in> set (concat ids)" by simp
    next
      assume "int j \<in> set (concat ids)"
      then show "\<exists>i \<in> set (concat ids). nat (i + 1) = Suc j" by (rule bexI [rotated]) linarith
    qed
    finally show ?thesis .
  qed
  have len: "length (tl seen) = n" by (simp add: seen_def length_fold_set_true)
  have "length (filter id (tl seen)) = card {j. j < n \<and> tl seen ! j}"
    using len by (simp add: length_filter_conv_card)
  also have "{j. j < n \<and> tl seen ! j} = {j. j < n \<and> int j \<in> set (concat ids)}"
    using at len by (auto simp: nth_tl)
  also have "card \<dots> = card (int ` {j. j < n \<and> int j \<in> set (concat ids)})"
    by (simp add: card_image)
  also have "int ` {j. j < n \<and> int j \<in> set (concat ids)} = set (concat ids) - {- 1}"
  proof (intro subset_antisym subsetI)
    fix i assume i: "i \<in> set (concat ids) - {- 1}"
    then have "0 \<le> i" "i < int n" using assms by force+
    then show "i \<in> int ` {j. j < n \<and> int j \<in> set (concat ids)}"
      using i by (intro image_eqI [of _ _ "nat i"]) auto
  qed auto
  finally have "length (filter id (tl seen)) = card (set (concat ids) - {- 1})" .
  then show ?thesis unfolding eu_measure_def m by (simp only: res_bind_simps)
qed

section \<open>The window\<close>

definition eu_start_state :: "holder \<Rightarrow> eu_state" where
  "eu_start_state h = \<lparr>eu_buf = None, calls_seen = 0, eu_done = False, eu_installed = False, dumped = None, router = h\<rparr>"

text \<open>One call that was routed among some experts; a call that could not be measured leaves a zero row.\<close>

definition eu_step :: "eu_config \<Rightarrow> eu_state \<Rightarrow> int list list \<times> nat \<Rightarrow> eu_state" where
  "eu_step c s x = snd (eu_record c (fst x) (snd x) s)"

definition eu_row_of :: "int list list \<times> nat \<Rightarrow> eu_row" where
  "eu_row_of x = (case eu_measure (fst x) (snd x) of Inl _ \<Rightarrow> (0, 0, 0) | Inr r \<Rightarrow> r)"

text \<open>The buffer, and its used part: the rows recorded so far.\<close>

definition eu_buffer :: "eu_config \<Rightarrow> eu_state \<Rightarrow> eu_row list" where
  "eu_buffer c s = (case eu_buf s of None \<Rightarrow> replicate (eu_calls c) (0, 0, 0) | Some b \<Rightarrow> b)"

definition eu_rows :: "eu_config \<Rightarrow> eu_state \<Rightarrow> eu_row list" where
  "eu_rows c s = take (calls_seen s - eu_start c) (eu_buffer c s)"

text \<open>The buffer keeps its length, and the part not reached yet is zero.\<close>

definition eu_inv :: "eu_config \<Rightarrow> eu_state \<Rightarrow> bool" where
  "eu_inv c s \<longleftrightarrow>
     length (eu_buffer c s) = eu_calls c \<and>
     drop (calls_seen s - eu_start c) (eu_buffer c s) =
       replicate (eu_calls c - (calls_seen s - eu_start c)) (0, 0, 0) \<and>
     (eu_buf s = None \<longrightarrow> \<not> eu_done s \<and> (calls_seen s \<le> eu_start c \<or> eu_calls c = 0)) \<and>
     (eu_done s \<longrightarrow> eu_start c + eu_calls c < calls_seen s \<and>
        dumped s = Some (filter (\<lambda>(r, d, l). r \<noteq> 0) (eu_rows c s)))"

lemma eu_inv_start: "eu_inv c (eu_start_state h)"
  by (simp add: eu_inv_def eu_start_state_def eu_buffer_def)

text \<open>The three ways of a call while the window is open.\<close>

lemma eu_step_skip:
  "\<not> eu_done s \<Longrightarrow> snd x \<noteq> 0 \<Longrightarrow> calls_seen s < eu_start c \<Longrightarrow> eu_step c s x = s\<lparr>calls_seen := Suc (calls_seen s)\<rparr>"
  by (simp add: eu_step_def eu_record_def Let_def)

lemma eu_step_full:
  "\<not> eu_done s \<Longrightarrow> snd x \<noteq> 0 \<Longrightarrow> eu_start c + eu_calls c \<le> calls_seen s \<Longrightarrow>
   eu_step c s x = eu_flush (s\<lparr>calls_seen := Suc (calls_seen s)\<rparr>)"
  by (simp add: eu_step_def eu_record_def Let_def)

lemma eu_step_take:
  assumes "eu_inv c s" "\<not> eu_done s" "snd x \<noteq> 0" "eu_start c \<le> calls_seen s" "calls_seen s < eu_start c + eu_calls c"
  shows "eu_step c s x = s\<lparr>calls_seen := Suc (calls_seen s),
    eu_buf := Some ((eu_buffer c s)[calls_seen s - eu_start c := eu_row_of x])\<rparr>"
proof -
  define i where "i = calls_seen s - eu_start c"
  have len: "i < length (eu_buffer c s)" using assms by (auto simp: i_def eu_inv_def)
  have "eu_buffer c s ! i = drop i (eu_buffer c s) ! 0" using len by simp
  also have "\<dots> = (0, 0, 0)" using assms(1) len by (simp add: eu_inv_def i_def)
  finally have "(eu_buffer c s)[i := (0, 0, 0)] = eu_buffer c s" by (metis list_update_id)
  moreover have "\<not> eu_calls c \<le> i" using assms by (auto simp: i_def)
  moreover have "\<not> calls_seen s < eu_start c" using assms(4) by simp
  ultimately show ?thesis
    using assms(2,3)
    by (simp add: eu_step_def eu_record_def Let_def eu_row_of_def eu_buffer_def i_def [symmetric] split: sum.split option.splits)
qed

lemma eu_rows_zero: "eu_inv c s \<Longrightarrow> filter (\<lambda>(r, d, l). r \<noteq> 0) (eu_buffer c s) = filter (\<lambda>(r, d, l). r \<noteq> 0) (eu_rows c s)"
proof -
  assume "eu_inv c s"
  then have "eu_buffer c s = eu_rows c s @ replicate (eu_calls c - (calls_seen s - eu_start c)) (0, 0, 0)"
    unfolding eu_rows_def eu_inv_def by (metis append_take_drop_id)
  then show ?thesis by (simp add: filter_replicate)
qed

lemma eu_take_rows:
  fixes r :: eu_row
  assumes "eu_inv c s" "\<not> eu_done s" "eu_start c \<le> calls_seen s" "calls_seen s < eu_start c + eu_calls c"
  defines "s' \<equiv> s\<lparr>calls_seen := Suc (calls_seen s),
    eu_buf := Some ((eu_buffer c s)[calls_seen s - eu_start c := r])\<rparr>"
  shows "eu_rows c s' = eu_rows c s @ [r]" "eu_inv c s'"
proof -
  define i where "i = calls_seen s - eu_start c"
  have len: "length (eu_buffer c s) = eu_calls c" and i: "i < eu_calls c"
    and zero: "drop i (eu_buffer c s) = replicate (eu_calls c - i) (0, 0, 0)"
    using assms by (auto simp: i_def eu_inv_def)
  have i': "Suc (calls_seen s) - eu_start c = Suc i" using assms(3) by (simp add: i_def)
  have b: "eu_buffer c s' = (eu_buffer c s)[i := r]" by (simp add: eu_buffer_def s'_def i_def)
  show "eu_rows c s' = eu_rows c s @ [r]"
    using len i unfolding eu_rows_def b
    by (simp add: s'_def i' i_def [symmetric] take_Suc_conv_app_nth take_update_cancel)
  have "drop (Suc i) ((eu_buffer c s)[i := r]) = drop (Suc i) (eu_buffer c s)" by simp
  also have "\<dots> = tl (drop i (eu_buffer c s))" by (simp add: drop_Suc tl_drop)
  finally have "drop (Suc i) ((eu_buffer c s)[i := r]) = replicate (eu_calls c - Suc i) (0, 0, 0)"
    using i by (cases "eu_calls c - i") (simp_all add: zero)
  then show "eu_inv c s'"
    using len assms(2) unfolding eu_inv_def b by (simp add: s'_def i')
qed

lemma eu_flush_inv:
  assumes "eu_inv c s" "\<not> eu_done s" "eu_start c + eu_calls c \<le> calls_seen s"
  defines "s' \<equiv> eu_flush (s\<lparr>calls_seen := Suc (calls_seen s)\<rparr>)"
  shows "eu_rows c s' = eu_rows c s" "eu_inv c s'" "calls_seen s' = Suc (calls_seen s)"
proof -
  have b: "eu_buffer c s' = eu_buffer c s" and n: "calls_seen s' = Suc (calls_seen s)"
    and d: "eu_buf s' = eu_buf s" "eu_done s' \<longleftrightarrow> eu_buf s \<noteq> None"
    and u: "eu_buf s \<noteq> None \<Longrightarrow> dumped s' = Some (filter (\<lambda>(r, d, l). r \<noteq> 0) (eu_buffer c s))"
    using assms(2) by (auto simp: s'_def eu_flush_def eu_buffer_def split: option.split)
  have len: "length (eu_buffer c s) = eu_calls c" using assms(1) by (simp add: eu_inv_def)
  have full: "eu_rows c s' = eu_buffer c s" "eu_rows c s = eu_buffer c s"
    using len assms(3) by (simp_all add: eu_rows_def b n)
  then show "eu_rows c s' = eu_rows c s" by simp
  show "calls_seen s' = Suc (calls_seen s)" by (rule n)
  show "eu_inv c s'"
    using assms(1,3) len u unfolding eu_inv_def full b n d by auto
qed

lemma eu_window:
  "sampling_window (eu_step c) calls_seen (eu_rows c) eu_done eu_row_of (eu_start c) (eu_calls c)
     (\<lambda>x. snd x \<noteq> 0) (eu_inv c)"
proof
  fix s and x :: "int list list \<times> nat"
  assume i: "eu_inv c s" and g: "snd x \<noteq> 0"
  have stay: "eu_step c s x = s" if "eu_done s" using that by (simp add: eu_step_def eu_record_def)
  have skip: "eu_inv c (s\<lparr>calls_seen := Suc (calls_seen s)\<rparr>)" if "calls_seen s < eu_start c"
    using i that by (auto simp: eu_inv_def eu_buffer_def eu_rows_def)
  show "eu_inv c (eu_step c s x)"
  proof (cases "eu_done s")
    case False
    consider "calls_seen s < eu_start c" | "eu_start c \<le> calls_seen s" "calls_seen s < eu_start c + eu_calls c"
      | "eu_start c + eu_calls c \<le> calls_seen s" by linarith
    then show ?thesis
      using eu_step_skip [OF False g] skip eu_step_take [OF i False g] eu_take_rows(2) [OF i False]
        eu_step_full [OF False g] eu_flush_inv(2) [OF i False]
      by cases simp_all
  qed (simp add: stay i)
  show "eu_done s \<Longrightarrow> eu_done (eu_step c s x) \<and> eu_rows c (eu_step c s x) = eu_rows c s" by (simp add: stay)
  assume o: "\<not> eu_done s"
  show "calls_seen s < eu_start c \<Longrightarrow> \<not> eu_done (eu_step c s x) \<and>
      calls_seen (eu_step c s x) = Suc (calls_seen s) \<and> eu_rows c (eu_step c s x) = eu_rows c s"
    using eu_step_skip [OF o g] o by (simp add: eu_rows_def eu_buffer_def)
  show "eu_start c \<le> calls_seen s \<Longrightarrow> calls_seen s < eu_start c + eu_calls c \<Longrightarrow>
      eu_rows c (eu_step c s x) = eu_rows c s @ [eu_row_of x] \<and> calls_seen (eu_step c s x) = Suc (calls_seen s) \<and>
      (eu_done (eu_step c s x) \<longrightarrow> Suc (calls_seen s) = eu_start c + eu_calls c)"
    using eu_step_take [OF i o g] eu_take_rows(1) [OF i o] o by simp
  show "eu_start c + eu_calls c \<le> calls_seen s \<Longrightarrow>
      eu_rows c (eu_step c s x) = eu_rows c s \<and> calls_seen (eu_step c s x) = Suc (calls_seen s)"
    using eu_step_full [OF o g] eu_flush_inv(1,3) [OF i o] by simp
qed

interpretation eu: sampling_window "eu_step c" calls_seen "eu_rows c" eu_done eu_row_of "eu_start c" "eu_calls c"
  "\<lambda>x. snd x \<noteq> 0" "eu_inv c" for c
  by (rule eu_window)

interpretation eu_hook: instrument "eu_install c" "\<lambda>s. \<not> eu_enabled c \<or> eu_installed s" "\<lambda>s. get_attr (router s)" for c
  by unfold_locales (auto simp: eu_install_def split: option.split)

section \<open>What the dump says\<close>

lemma window_map: "window skip cap (map f xs) = map f (window skip cap xs)"
  by (simp add: window_def take_map drop_map)

lemma set_window: "set (window skip cap xs) \<subseteq> set xs"
  unfolding window_def by (meson set_drop_subset set_take_subset subset_trans)

text \<open>All ids of a call are experts or padding.\<close>

definition eu_valid :: "int list list \<times> nat \<Rightarrow> bool" where
  "eu_valid x \<longleftrightarrow> snd x \<noteq> 0 \<and> (\<forall>i \<in> set (concat (fst x)). - 1 \<le> i \<and> i < int (snd x))"

lemma eu_row_valid: "eu_valid x \<Longrightarrow> eu_row_of x = (length (fst x), card (set (concat (fst x)) - {- 1}), snd x)"
  using eu_measure_distinct [of "fst x" "snd x"] by (simp add: eu_row_of_def eu_valid_def)

text \<open>
  C17: The dump of a run holds, in order, one line for each routing call of the window that had
  rows (the first \<open>_START\<close> calls left out, at most \<open>_CALLS\<close> kept, whether the window filled up or the
  shutdown flushed it), and each line counts the distinct experts the call selected, padding left out.
\<close>

theorem union_dump_exact:
  assumes "\<forall>x \<in> set xs. eu_valid x" and "eu_start c < length xs" and "0 < eu_calls c"
  shows "dumped (eu_flush (foldl (eu_step c) (eu_start_state h) xs)) =
    Some (filter (\<lambda>(r, d, l). r \<noteq> 0)
      (map (\<lambda>(ids, n). (length ids, card (set (concat ids) - {- 1}), n)) (window (eu_start c) (eu_calls c) xs)))"
proof -
  let ?s = "foldl (eu_step c) (eu_start_state h) xs"
  have run: "eu_inv c ?s" "eu_rows c ?s = window (eu_start c) (eu_calls c) (map eu_row_of xs)"
    "\<not> eu_done ?s \<Longrightarrow> calls_seen ?s = length xs"
    using eu.window_run [OF eu_inv_start [of c h], of xs] assms(1)
    by (auto simp: eu_start_state_def eu_rows_def eu_buffer_def eu_valid_def)
  have "dumped (eu_flush ?s) = Some (filter (\<lambda>(r, d, l). r \<noteq> 0) (eu_rows c ?s))"
  proof (cases "eu_done ?s")
    case True
    then show ?thesis using run(1) by (simp add: eu_flush_def eu_inv_def)
  next
    case False
    then obtain b where "eu_buf ?s = Some b" using run(1,3) assms(2,3) by (auto simp: eu_inv_def)
    then show ?thesis using False eu_rows_zero [OF run(1)] by (simp add: eu_flush_def eu_buffer_def)
  qed
  moreover have "map eu_row_of (window (eu_start c) (eu_calls c) xs) =
      map (\<lambda>(ids, n). (length ids, card (set (concat ids) - {- 1}), n)) (window (eu_start c) (eu_calls c) xs)"
    using assms(1) set_window [of "eu_start c" "eu_calls c" xs] eu_row_valid by (intro map_cong) (auto simp: split_beta)
  ultimately show ?thesis by (simp add: run(2) window_map)
qed

theorem union_dump_exact_witness:
  "dumped (eu_flush (foldl (eu_step \<lparr>eu_enabled = True, eu_start = 1, eu_calls = 2\<rparr>)
     (eu_start_state \<lparr>own = \<lambda>_. None, inherited = \<lambda>_. None\<rparr>)
     [([[0, 1]], 4), ([[2, 2], [3, -1]], 4), ([], 4), ([[0]], 4)])) = Some [(2, 2, 4)]"
proof -
  have c: "card ({2, 3, - 1} - {- 1 :: int}) = 2" by (simp add: insert_Diff_if)
  show ?thesis
    by (subst union_dump_exact) (simp_all add: eu_valid_def window_def c)
qed

text \<open>
  The probe is invisible to the routing: a wrapped call returns or raises what the original
  does, whatever the arguments look like and whatever the probe runs into, and installing any
  number of times wraps the function at most once.
\<close>

theorem union_probe_transparent:
  "fst (eu_wrapped c call s) = result call \<and> router (snd (eu_wrapped c call s)) = router s \<and>
   (eu_install c ^^ Suc n) s = eu_install c s \<and>
   map_option behind (get_attr (router (eu_install c s)) k) = map_option behind (get_attr (router s) k)"
proof -
  have "router (snd (eu_wrapped c call s)) = router s"
    by (auto simp: eu_wrapped_def eu_probe_def eu_record_def eu_flush_def Let_def split: sum.splits option.splits)
  moreover have "fst (eu_wrapped c call s) = result call" by (simp add: eu_wrapped_def split: sum.split)
  ultimately show ?thesis using eu_hook.install_many eu_hook.install_behind by blast
qed

end
