(* ===== verification/SyncTrace.thy ===== *)
theory SyncTrace
  imports Instrument
begin

text \<open>
  \<open>container/rootfs/fn_synctrace.py\<close>: the tracer of blocking transfers. It wraps methods of the
  tensor class (a \<open>holder\<close>: some it defines, some it inherits), counts the call site of every
  wrapped call and puts the originals back. A frame is its file, line and function, or nothing
  when it cannot be had.
\<close>

section \<open>State and operations\<close>

record st_state =
  counts :: "(string \<times> nat) list"
  st_installed :: bool
  orig :: "(string \<times> func) list"
  tensor :: holder

definition TARGETS :: "string list" where
  "TARGETS = [''item'', ''tolist'', ''cpu'', ''numpy'', ''nonzero'', ''__float__'', ''__int__'']"

record frame_info =
  f_file :: string
  f_line :: nat
  f_name :: string

text \<open>\<open>s.split(sep)[-1]\<close>: what follows the last separator.\<close>

definition last_piece :: "string \<Rightarrow> string \<Rightarrow> string" where
  "last_piece sep s =
     (case filter (\<lambda>t. startswith t sep) (map (\<lambda>i. drop i s) [0..<length s]) of
        [] \<Rightarrow> s | ts \<Rightarrow> drop (length sep) (last ts))"

definition site :: "string \<Rightarrow> frame_info \<Rightarrow> string" where
  "site name f =
     last_piece ''site-packages/'' (f_file f) @ '':'' @ str_nat (f_line f) @ '' '' @ f_name f @ ''() ['' @ name @ '']''"

definition st_wrapper :: "string \<Rightarrow> frame_info option \<Rightarrow> st_state \<Rightarrow> st_state" where
  "st_wrapper name f s =
     (case f of None \<Rightarrow> s | Some f \<Rightarrow> s\<lparr>counts := bump (site name f) (counts s)\<rparr>)"

text \<open>One target; a class without the method leaves everything as it is.\<close>

definition st_wrap :: "string \<Rightarrow> st_state \<Rightarrow> st_state" where
  "st_wrap name s =
     (case get_attr (tensor s) name of
        None \<Rightarrow> s
      | Some f \<Rightarrow> s\<lparr>orig := (name, f) # filter (\<lambda>(k, g). k \<noteq> name) (orig s),
                   tensor := set_attr (tensor s) name (Probe f)\<rparr>)"

definition st_install :: "st_state \<Rightarrow> st_state" where
  "st_install s = (if st_installed s then s else (fold st_wrap TARGETS s)\<lparr>st_installed := True\<rparr>)"

definition st_uninstall :: "st_state \<Rightarrow> st_state" where
  "st_uninstall s =
     s\<lparr>tensor := fold (\<lambda>(n, f) h. set_attr h n f) (orig s) (tensor s), orig := [], st_installed := False\<rparr>"

definition st_reset :: "st_state \<Rightarrow> st_state" where
  "st_reset s = s\<lparr>counts := []\<rparr>"

text \<open>
  The table of \<open>report\<close>: the events in all, and for each of the thirty most frequent sites its
  rate per step, its count and its name. \<open>most_common\<close> keeps the order of insertion among equals.
\<close>

definition most_common :: "nat \<Rightarrow> (string \<times> nat) list \<Rightarrow> (string \<times> nat) list" where
  "most_common k c = take k (sort_key (\<lambda>(s, n). - int n) c)"

definition st_rate :: "pyfloat \<Rightarrow> nat \<Rightarrow> pyfloat res" where
  "st_rate steps n = res_bind (float_of_int (int n)) (\<lambda>x. fdiv x (fmax steps (fl64 (1 / 10 ^ 9))))"

definition st_report :: "pyfloat \<Rightarrow> st_state \<Rightarrow> (nat \<times> pyfloat \<times> (pyfloat \<times> nat \<times> string) list) option res" where
  "st_report steps s =
     (if counts s = [] then returned None
      else
        let events = sum_list (map snd (counts s))
        in res_bind (st_rate steps events) (\<lambda>r.
           res_bind (res_seq (map (\<lambda>(t, n). res_bind (st_rate steps n) (\<lambda>x. returned (x, n, t)))
                                (most_common 30 (counts s))))
             (\<lambda>rows. returned (Some (events, r, rows)))))"

text \<open>The text of the table.\<close>

definition rate_line :: "pyfloat \<times> nat \<times> string \<Rightarrow> string" where
  "rate_line row =
     (case row of (x, n, place) \<Rightarrow>
        ''  '' @ left_pad 7 (fixed 1 x) @ ''/step  ('' @ left_pad 5 (str_nat n) @ '')  '' @ place)"

definition st_report_text :: "pyfloat \<Rightarrow> st_state \<Rightarrow> string res" where
  "st_report_text steps s =
     res_bind (st_report steps s) (\<lambda>table. returned (case table of
        None \<Rightarrow> ''### BLOCKING-SYNC ATTRIBUTION ###'' @ [newline] @
          ''  (no events -- either the tracer never installed, or every sync is bool-mask indexing / '' @
          ''C++-internal and invisible to a python hook)'' @ [newline, newline]
      | Some (events, rate, rows) \<Rightarrow>
          join [newline]
            ([''### BLOCKING-SYNC ATTRIBUTION ('' @ str_nat events @ '' events over '' @ fixed 2 steps @
              '' decode steps = '' @ fixed 1 rate @ ''/step) ###''] @ map rate_line rows @ [[]]) @ [newline, newline]))"

section \<open>Counting\<close>

text \<open>The calls of a run, each with its method and frame.\<close>

definition st_run :: "(string \<times> frame_info option) list \<Rightarrow> st_state \<Rightarrow> st_state" where
  "st_run calls s = fold (\<lambda>(name, f). st_wrapper name f) calls s"

definition sites :: "(string \<times> frame_info option) list \<Rightarrow> string list" where
  "sites calls = List.map_filter (\<lambda>(name, f). map_option (site name) f) calls"

lemma st_run_counts: "counts (st_run calls s) = fold bump (sites calls) (counts s)"
  by (induction calls arbitrary: s)
    (auto simp: st_run_def sites_def st_wrapper_def List.map_filter_simps split: option.splits)

section \<open>Putting the methods back\<close>

text \<open>What the tracer remembers after wrapping some methods of an untouched class.\<close>

definition wrapped_all :: "string list \<Rightarrow> st_state \<Rightarrow> st_state \<Rightarrow> bool" where
  "wrapped_all ns s s' \<longleftrightarrow> st_installed s' = st_installed s \<and> counts s' = counts s \<and>
     distinct (map fst (orig s')) \<and>
     (\<forall>n. map_of (orig s') n = (if n \<in> set ns then get_attr (tensor s) n else None)) \<and>
     (\<forall>n. get_attr (tensor s') n =
        (if n \<in> set ns then map_option Probe (get_attr (tensor s) n) else get_attr (tensor s) n))"

lemma wrap_one:
  assumes "wrapped_all ns s s'" "n \<notin> set ns"
  shows "wrapped_all (ns @ [n]) s (st_wrap n s')"
proof (cases "get_attr (tensor s) n")
  case None
  then have "st_wrap n s' = s'" using assms by (simp add: st_wrap_def wrapped_all_def)
  then show ?thesis using assms None by (auto simp: wrapped_all_def)
next
  case (Some f)
  have g: "get_attr (tensor s') n = Some f" using assms Some by (simp add: wrapped_all_def)
  have "map_of (orig s') n = None" using assms by (simp add: wrapped_all_def)
  then have "n \<notin> fst ` set (orig s')" by (simp add: map_of_eq_None_iff)
  then have "filter (\<lambda>(k, g). k \<noteq> n) (orig s') = orig s'" by (intro filter_True) force
  then have w: "st_wrap n s' = s'\<lparr>orig := (n, f) # orig s', tensor := set_attr (tensor s') n (Probe f)\<rparr>"
    by (simp add: st_wrap_def g)
  show ?thesis
    using assms Some \<open>n \<notin> fst ` set (orig s')\<close> unfolding w by (simp add: wrapped_all_def)
qed

lemma wrap_all: "orig s = [] \<Longrightarrow> distinct ns \<Longrightarrow> wrapped_all ns s (fold st_wrap ns s)"
proof (induction ns rule: rev_induct)
  case Nil
  then show ?case by (simp add: wrapped_all_def)
next
  case (snoc n ns)
  then show ?case using wrap_one [of ns s "fold st_wrap ns s" n] by simp
qed

lemma put_back:
  "distinct (map fst fs) \<Longrightarrow> get_attr (fold (\<lambda>(n, f) h. set_attr h n f) fs h) k =
     (case map_of fs k of None \<Rightarrow> get_attr h k | Some f \<Rightarrow> Some f)"
proof (induction fs arbitrary: h)
  case (Cons p fs)
  obtain n f where p: "p = (n, f)" by (cases p)
  then have none: "map_of fs n = None" using Cons.prems by (simp add: map_of_eq_None_iff)
  show ?case using Cons.IH [of "set_attr h n f"] Cons.prems none by (cases "k = n") (simp_all add: p split: option.split)
qed simp

text \<open>Between two brackets nothing is remembered.\<close>

definition st_ok :: "st_state \<Rightarrow> bool" where
  "st_ok s \<longleftrightarrow> (\<not> st_installed s \<longrightarrow> orig s = [])"

lemma distinct_TARGETS: "distinct TARGETS"
  by (simp add: TARGETS_def)

lemma bracket_look:
  assumes "st_ok s" "\<not> st_installed s"
  shows "get_attr (tensor (st_uninstall (st_install s))) = get_attr (tensor s)"
proof
  fix n
  have w: "wrapped_all TARGETS s (fold st_wrap TARGETS s)"
    by (rule wrap_all [OF _ distinct_TARGETS]) (use assms in \<open>simp add: st_ok_def\<close>)
  show "get_attr (tensor (st_uninstall (st_install s))) n = get_attr (tensor s) n"
    using w assms(2) unfolding wrapped_all_def
    by (auto simp: st_uninstall_def st_install_def put_back split: option.splits)
qed

lemma wrap_behind: "map_option behind (get_attr (tensor (st_wrap n s)) k) = map_option behind (get_attr (tensor s) k)"
  by (simp add: st_wrap_def split: option.split)

lemma fold_wrap_behind:
  "map_option behind (get_attr (tensor (fold st_wrap ns s)) k) = map_option behind (get_attr (tensor s) k)"
  by (induction ns arbitrary: s) (simp_all add: wrap_behind)

interpretation st_hook: removable st_install st_installed "\<lambda>s. get_attr (tensor s)" st_uninstall st_ok
proof
  fix w :: st_state and k
  show "st_installed w \<Longrightarrow> st_install w = w" by (simp add: st_install_def)
  show "st_installed (st_install w) \<or> st_install w = w" by (simp add: st_install_def)
  show "map_option behind (get_attr (tensor (st_install w)) k) = map_option behind (get_attr (tensor w) k)"
    by (simp add: st_install_def fold_wrap_behind)
  show "st_ok w \<Longrightarrow> st_ok (st_install w)" by (simp add: st_ok_def st_install_def)
  show "st_ok w \<Longrightarrow> st_ok (st_uninstall w) \<and> \<not> st_installed (st_uninstall w)"
    by (simp add: st_ok_def st_uninstall_def)
  show "st_ok w \<Longrightarrow> \<not> st_installed w \<Longrightarrow> get_attr (tensor (st_uninstall (st_install w))) = get_attr (tensor w)"
    by (rule bracket_look)
qed

definition st_fresh :: "holder \<Rightarrow> st_state" where
  "st_fresh h = \<lparr>counts = [], st_installed = False, orig = [], tensor = h\<rparr>"

text \<open>
  After any number of windows (install, some traced calls, uninstall) every method of the
  tensor class is what it was, and while one is open each target is wrapped exactly once, however
  often it is installed.
\<close>

theorem sync_windows_restore:
  "get_attr (tensor (((\<lambda>s. st_uninstall (st_install s)) ^^ n) (st_fresh h))) = get_attr h \<and>
   get_attr (tensor ((st_install ^^ Suc m) (st_fresh h))) k =
     (if k \<in> set TARGETS then map_option Probe (get_attr h k) else get_attr h k)"
proof -
  have ok: "st_ok (st_fresh h)" "\<not> st_installed (st_fresh h)" "tensor (st_fresh h) = h" "orig (st_fresh h) = []"
    by (simp_all add: st_ok_def st_fresh_def)
  have "get_attr (tensor (st_install (st_fresh h))) k =
      (if k \<in> set TARGETS then map_option Probe (get_attr h k) else get_attr h k)"
    using wrap_all [OF ok(4) distinct_TARGETS] ok(2,3) by (simp add: wrapped_all_def st_install_def)
  then show ?thesis
    using st_hook.brackets_look [OF ok(1,2)] ok(3) unfolding st_hook.install_many by simp
qed

lemma most_common_sorted: "sorted (map (\<lambda>(s, n). - int n) (most_common k c))"
  unfolding most_common_def take_map [symmetric] by (intro sorted_wrt_take) (simp add: sorted_sort_key)

lemma most_common_set: "set (most_common k c) \<subseteq> set c"
  unfolding most_common_def using set_take_subset by fastforce

lemma rated_rows:
  "map (\<lambda>(t, n). res_bind (g n) (\<lambda>x. returned (x, n, t))) cs = map returned rows \<Longrightarrow>
   map (\<lambda>(x, n, t). (t, n)) rows = cs"
proof (induction cs arbitrary: rows)
  case (Cons p cs)
  then show ?case by (cases p) (auto simp: res_bind_Inr_iff)
qed simp

text \<open>
  The report counts every traced call once: its events is the number of calls whose frame was
  known, each line carries the number of calls from its site, and the lines are in descending
  order of their counts.
\<close>

theorem sync_report_counts:
  assumes "st_report steps (st_run calls (st_fresh h)) = returned (Some (events, r, rows))"
  shows "events = length (sites calls) \<and>
    (\<forall>(x, n, t) \<in> set rows. n = count_list (sites calls) t) \<and>
    sorted (map (\<lambda>(x, n, t). - int n) rows)"
proof -
  let ?c = "counts (st_run calls (st_fresh h))"
  have c: "?c = fold bump (sites calls) []" by (simp add: st_run_counts st_fresh_def)
  have d: "distinct (map fst (fold bump ks []))" for ks :: "string list"
    by (induction ks rule: rev_induct) (simp_all add: distinct_bump del: distinct_map)
  have rows: "res_seq (map (\<lambda>(t, n). res_bind (st_rate steps n) (\<lambda>x. returned (x, n, t))) (most_common 30 ?c)) = returned rows"
    and events: "events = sum_list (map snd ?c)"
    using assms by (auto simp: st_report_def Let_def res_bind_Inr_iff split: if_splits)
  have map: "map (\<lambda>(x, n, t). (t, n)) rows = most_common 30 ?c"
    using rows unfolding res_seq_Inr by (rule rated_rows)
  show ?thesis
  proof (intro conjI)
    show "events = length (sites calls)" by (simp add: events c fold_bump_sum)
    have "n = count_list (sites calls) t" if "(t, n) \<in> set ?c" for t n
    proof -
      have "map_of ?c t = Some n" using d that unfolding c by (simp add: map_of_is_SomeI del: distinct_map)
      then show ?thesis unfolding c fold_bump by (simp split: if_splits)
    qed
    moreover have "(t, n) \<in> set ?c" if "(x, n, t) \<in> set rows" for x n t
    proof -
      have "(t, n) \<in> set (map (\<lambda>(x, n, t). (t, n)) rows)" using that by force
      then show ?thesis unfolding map using most_common_set by blast
    qed
    ultimately show "\<forall>(x, n, t) \<in> set rows. n = count_list (sites calls) t" by fastforce
    have "map (\<lambda>(x, n, t). - int n) rows = map (\<lambda>(s, n). - int n) (map (\<lambda>(x, n, t). (t, n)) rows)"
      by (simp add: o_def split_beta)
    then show "sorted (map (\<lambda>(x, n, t). - int n) rows)" unfolding map by (simp add: most_common_sorted)
  qed
qed

theorem sync_report_counts_witness:
  "count_list (sites [(''item'', Some \<lparr>f_file = ''/v/site-packages/m.py'', f_line = 7, f_name = ''f''\<rparr>),
     (''cpu'', None),
     (''item'', Some \<lparr>f_file = ''/v/site-packages/m.py'', f_line = 7, f_name = ''f''\<rparr>)]) ''m.py:7 f() [item]'' = 2"
proof -
  define calls where "calls = [(''item'', Some \<lparr>f_file = ''/v/site-packages/m.py'', f_line = 7, f_name = ''f''\<rparr>),
     (''cpu'', None), (''item'', Some \<lparr>f_file = ''/v/site-packages/m.py'', f_line = 7, f_name = ''f''\<rparr>)]"
  define h :: holder where "h = \<lparr>own = \<lambda>_. None, inherited = \<lambda>_. None\<rparr>"
  have "st_report (Fin 1) (st_run calls (st_fresh h)) =
      returned (Some (2, Fin 2, [(Fin 2, 2, ''m.py:7 f() [item]'')]))"
    unfolding calls_def h_def by code_simp
  from sync_report_counts [OF this] show ?thesis unfolding calls_def by simp
qed

end
