(* ===== verification/LayerWalk.thy ===== *)
theory LayerWalk
  imports PyText
begin

text \<open>
  The attribution of a collective to a layer type in \<open>container/rootfs/fn_allreduce_timer.py\<close>: the
  formula over the layer index, the reading of a layer object, and the walk up the Python stack
  with its cache. A frame is the object bound to \<open>self\<close>, with its identity, or nothing. Of an
  object the attributes that hold a string are kept.
\<close>

section \<open>Buckets\<close>

datatype bucket = QSA | GDN | Unknown

fun bucket_name :: "bucket \<Rightarrow> string" where
  "bucket_name QSA = ''qsa''"
| "bucket_name GDN = ''gdn''"
| "bucket_name Unknown = ''unknown''"

definition BUCKETS :: "bucket list" where
  "BUCKETS = [QSA, GDN, Unknown]"

definition classify_layer :: "int \<Rightarrow> int \<Rightarrow> bucket" where
  "classify_layer idx interval =
     (if idx < 0 \<or> interval \<le> 0 then Unknown
      else if (idx + 1) mod interval = 0 then QSA else GDN)"

section \<open>Reading an object\<close>

record layer_obj =
  layer_type :: "string option"
  prefix_name :: "string option"
  layer_name :: "string option"

text \<open>
  \<open>_LAYER_RE.search\<close> over the components of a dotted name: the first \<open>layers\<close> or \<open>blocks\<close> whose
  next component is a number. At the end of the name a newline may follow the number.
\<close>

definition number_part :: "string \<Rightarrow> bool \<Rightarrow> nat option" where
  "number_part s final =
     (if isdigit s then Some (int_of_digits s)
      else if final \<and> endswith s [CHR 0x0A] \<and> isdigit (butlast s) then Some (int_of_digits (butlast s))
      else None)"

fun layer_index :: "string list \<Rightarrow> nat option" where
  "layer_index [] = None"
| "layer_index [a] = None"
| "layer_index (a # b # rest) =
     (if a = ''layers'' \<or> a = ''blocks''
      then (case number_part b (rest = []) of Some n \<Rightarrow> Some n | None \<Rightarrow> layer_index (b # rest))
      else layer_index (b # rest))"

fun classify_names :: "int \<Rightarrow> string option list \<Rightarrow> bucket option" where
  "classify_names interval [] = None"
| "classify_names interval (None # names) = classify_names interval names"
| "classify_names interval (Some name # names) =
     (case layer_index (split_on (CHR ''.'') name) of
        Some n \<Rightarrow> Some (classify_layer (int n) interval)
      | None \<Rightarrow> classify_names interval names)"

definition has_any :: "string list \<Rightarrow> string \<Rightarrow> bool" where
  "has_any words s \<longleftrightarrow> list_ex (contains_str s) words"

definition classify_obj :: "int \<Rightarrow> layer_obj \<Rightarrow> bucket option" where
  "classify_obj interval obj =
     (let low = (case layer_type obj of None \<Rightarrow> [] | Some d \<Rightarrow> lower d)
      in if has_any [''linear'', ''gdn'', ''mamba''] low then Some GDN
         else if has_any [''full'', ''qsa''] low then Some QSA
         else classify_names interval [prefix_name obj, layer_name obj])"

section \<open>The walk\<close>

type_synonym cache = "(nat \<times> bucket option) list"

definition CACHE_MAX :: nat where
  "CACHE_MAX = 8192"

text \<open>\<open>_site_cache\<close> after an object that was not in it.\<close>

definition remember :: "nat \<Rightarrow> bucket option \<Rightarrow> cache \<Rightarrow> cache" where
  "remember key kind c = (if CACHE_MAX \<le> length c then [] else c) @ [(key, kind)]"

fun walk :: "int \<Rightarrow> nat \<Rightarrow> (nat \<times> layer_obj) option list \<Rightarrow> cache \<Rightarrow> bucket \<times> cache" where
  "walk interval 0 frames c = (Unknown, c)"
| "walk interval (Suc d) [] c = (Unknown, c)"
| "walk interval (Suc d) (None # frames) c = walk interval d frames c"
| "walk interval (Suc d) (Some (key, obj) # frames) c =
     (case map_of c key of
        Some (Some kind) \<Rightarrow> (kind, c)
      | Some None \<Rightarrow> walk interval d frames c
      | None \<Rightarrow>
          let kind = classify_obj interval obj; c' = remember key kind c
          in case kind of Some b \<Rightarrow> (b, c') | None \<Rightarrow> walk interval d frames c')"

section \<open>The formula\<close>

lemma qsa_layers: "0 < n \<Longrightarrow> {i. i < L \<and> classify_layer (int i) (int n) = QSA} = (\<lambda>k. k * n - 1) ` {1..L div n}"
proof (intro subset_antisym subsetI)
  assume n: "0 < n"
  fix i assume "i \<in> {i. i < L \<and> classify_layer (int i) (int n) = QSA}"
  then have i: "i < L" "(int i + 1) mod int n = 0" using n by (auto simp: classify_layer_def split: if_splits)
  then have "int (Suc i) mod int n = 0" by (simp add: add.commute)
  then have "n dvd Suc i" by (metis of_nat_dvd_iff dvd_eq_mod_eq_0)
  then obtain k where k: "Suc i = k * n" by (metis dvd_div_mult_self)
  then have "k \<in> {1..L div n}" using i(1) n by (cases k) (auto simp: less_eq_div_iff_mult_less_eq)
  moreover have "i = k * n - 1" using k by simp
  ultimately show "i \<in> (\<lambda>k. k * n - 1) ` {1..L div n}" by blast
next
  assume n: "0 < n"
  fix i assume "i \<in> (\<lambda>k. k * n - 1) ` {1..L div n}"
  then obtain k where k: "1 \<le> k" "k \<le> L div n" "i = k * n - 1" by auto
  have "k * n \<le> L" using k(2) n by (simp add: less_eq_div_iff_mult_less_eq)
  moreover have "Suc i = k * n" using k n by (cases k) auto
  then have "int i + 1 = int k * int n" by (metis of_nat_Suc of_nat_mult add.commute)
  ultimately show "i \<in> {i. i < L \<and> classify_layer (int i) (int n) = QSA}"
    using n \<open>Suc i = k * n\<close> by (simp add: classify_layer_def)
qed

text \<open>
  Of the first \<open>L\<close> layers exactly one in \<open>n\<close> is full attention and all others are linear, so
  48 layers with interval 4 split into 12 and 36.
\<close>

theorem layer_split:
  assumes "0 < n"
  shows "card {i. i < L \<and> classify_layer (int i) (int n) = QSA} = L div n \<and>
    card {i. i < L \<and> classify_layer (int i) (int n) = GDN} = L - L div n"
proof -
  have inj: "inj_on (\<lambda>k. k * n - 1) {1..L div n}"
  proof (rule inj_onI)
    fix j k assume "j \<in> {1..L div n}" "k \<in> {1..L div n}" "j * n - 1 = k * n - 1"
    moreover from this have "0 < j * n" "0 < k * n" using assms by auto
    ultimately have "j * n = k * n" by linarith
    then show "j = k" using assms by simp
  qed
  have q: "card {i. i < L \<and> classify_layer (int i) (int n) = QSA} = L div n"
    unfolding qsa_layers [OF assms] card_image [OF inj] by simp
  have "{i. i < L \<and> classify_layer (int i) (int n) = GDN} =
      {i. i < L} - {i. i < L \<and> classify_layer (int i) (int n) = QSA}"
    using assms by (auto simp: classify_layer_def)
  moreover have "card ({i. i < L} - {i. i < L \<and> classify_layer (int i) (int n) = QSA}) =
      card {i. i < L} - card {i. i < L \<and> classify_layer (int i) (int n) = QSA}"
    by (rule card_Diff_subset) auto
  ultimately have "card {i. i < L \<and> classify_layer (int i) (int n) = GDN} =
      card {i. i < L} - card {i. i < L \<and> classify_layer (int i) (int n) = QSA}" by simp
  with q show ?thesis by simp
qed

theorem layer_split_witness:
  "card {i. i < (48 :: nat) \<and> classify_layer (int i) (int 4) = QSA} = 12 \<and>
   card {i. i < (48 :: nat) \<and> classify_layer (int i) (int 4) = GDN} = 36"
  using layer_split [of 4 48] by simp

section \<open>The cache\<close>

text \<open>The walk without a cache: the first of the nearest frames that is a layer.\<close>

definition walk_plain :: "int \<Rightarrow> nat \<Rightarrow> (nat \<times> layer_obj) option list \<Rightarrow> bucket" where
  "walk_plain interval depth frames =
     (case List.map_filter (\<lambda>f. Option.bind f (\<lambda>(key, obj). classify_obj interval obj)) (take depth frames) of
        [] \<Rightarrow> Unknown | b # _ \<Rightarrow> b)"

text \<open>
  The cache tells the truth about the objects \<open>objs\<close> (identity to object), holds each once and
  stays within its bound. The frames show the same objects.
\<close>

definition cache_true :: "int \<Rightarrow> (nat \<Rightarrow> layer_obj) \<Rightarrow> cache \<Rightarrow> bool" where
  "cache_true interval objs c \<longleftrightarrow> distinct (map fst c) \<and> length c \<le> CACHE_MAX \<and>
     (\<forall>(key, kind) \<in> set c. kind = classify_obj interval (objs key))"

definition frames_of :: "(nat \<Rightarrow> layer_obj) \<Rightarrow> (nat \<times> layer_obj) option list \<Rightarrow> bool" where
  "frames_of objs frames \<longleftrightarrow> (\<forall>key obj. Some (key, obj) \<in> set frames \<longrightarrow> obj = objs key)"

lemma remember_true:
  "cache_true interval objs c \<Longrightarrow> map_of c key = None \<Longrightarrow>
   cache_true interval objs (remember key (classify_obj interval (objs key)) c)"
  by (auto simp: cache_true_def remember_def map_of_eq_None_iff CACHE_MAX_def)

lemma cache_hit: "cache_true interval objs c \<Longrightarrow> map_of c key = Some kind \<Longrightarrow> kind = classify_obj interval (objs key)"
  unfolding cache_true_def using map_of_SomeD by fastforce

text \<open>
  C34: The cache changes nothing but the time: with a cache that is true of the objects, the walk
  gives the bucket of the first layer object among the nearest frames, and leaves a cache that is
  again true and within its bound, also when it had to be cleared.
\<close>

theorem cached_walk:
  assumes "cache_true interval objs c" "frames_of objs frames"
  shows "fst (walk interval depth frames c) = walk_plain interval depth frames \<and>
    cache_true interval objs (snd (walk interval depth frames c))"
  using assms
proof (induction interval depth frames c rule: walk.induct)
  case (4 interval d key obj frames c)
  have obj: "obj = objs key" and fr: "frames_of objs frames" using 4(4) by (auto simp: frames_of_def)
  note IH_none = 4(1) [OF _ refl refl] and IH_miss = 4(2)
  show ?case
  proof (cases "map_of c key")
    case None
    then show ?thesis
      using IH_none [OF None] remember_true [OF 4(3) None] fr
      by (cases "classify_obj interval obj") (simp_all add: obj walk_plain_def List.map_filter_simps Let_def)
  next
    case (Some kind)
    then have k: "kind = classify_obj interval obj" using cache_hit [OF 4(3)] by (simp add: obj)
    show ?thesis
    proof (cases kind)
      case None
      then show ?thesis
        using IH_miss [OF _ _ 4(3) fr] Some k by (simp add: walk_plain_def List.map_filter_simps)
    next
      case (Some b)
      then show ?thesis
        using \<open>map_of c key = Some kind\<close> k 4(3) by (simp add: walk_plain_def List.map_filter_simps)
    qed
  qed
qed (auto simp: walk_plain_def List.map_filter_simps frames_of_def)

theorem cached_walk_witness:
  "fst (walk 4 12 [None, Some (1, \<lparr>layer_type = None, prefix_name = Some ''model.norm'', layer_name = None\<rparr>),
     Some (2, \<lparr>layer_type = None, prefix_name = Some ''model.layers.3.mlp'', layer_name = None\<rparr>)] [(1, None)]) = QSA"
proof -
  define objs :: "nat \<Rightarrow> layer_obj" where
    "objs = (\<lambda>k. if k = 1 then \<lparr>layer_type = None, prefix_name = Some ''model.norm'', layer_name = None\<rparr>
      else \<lparr>layer_type = None, prefix_name = Some ''model.layers.3.mlp'', layer_name = None\<rparr>)"
  have none: "classify_obj 4 \<lparr>layer_type = None, prefix_name = Some ''model.norm'', layer_name = None\<rparr> = None"
    by code_simp
  have t: "cache_true 4 objs [(1, None)]"
    by (simp add: cache_true_def objs_def none CACHE_MAX_def)
  have f: "frames_of objs [None, Some (1, objs 1), Some (2, objs 2)]" by (auto simp: frames_of_def)
  have "walk_plain 4 12 [None, Some (1, objs 1), Some (2, objs 2)] = QSA"
    unfolding objs_def by code_simp
  with cached_walk [OF t f, of 12] show ?thesis by (simp add: objs_def)
qed

end
