(* ===== verification/AllreduceTimer.thy ===== *)
theory AllreduceTimer
  imports Instrument LayerWalk ReceiptRestore Checkpoint
begin

text \<open>
  \<open>container/rootfs/fn_allreduce_timer.py\<close>: the timer of the tensor-parallel all-reduce. A call is
  what the outside does during it: the three clock readings, the answers of the custom paths and
  of the capture query, the frames above the call site, and how the collective ends. The
  communicators are holders by their identity; the disk is the file store of the receipt scripts.
\<close>

section \<open>Configuration\<close>

record ar_config =
  ar_enabled :: bool
  ar_start :: nat
  ar_calls :: nat
  ar_out :: string
  ar_interval :: int
  ar_depth :: nat

text \<open>\<open>os.path.expanduser\<close>; \<open>home_of\<close> is the home directory of a user, the caller's for no name.\<close>

definition expanduser :: "(string \<Rightarrow> string option) \<Rightarrow> string \<Rightarrow> string" where
  "expanduser home_of p =
     (if \<not> startswith p ''~'' then p
      else
        let user = takeWhile (\<lambda>c. c \<noteq> CHR ''/'') (tl p); rest = dropWhile (\<lambda>c. c \<noteq> CHR ''/'') (tl p)
        in case home_of user of
             None \<Rightarrow> p
           | Some h \<Rightarrow>
               let q = rev (dropWhile (\<lambda>c. c = CHR ''/'') (rev h)) @ rest
               in if q = [] then ''/'' else q)"

definition int_env :: "(string \<Rightarrow> string option) \<Rightarrow> string \<Rightarrow> int \<Rightarrow> int" where
  "int_env environ name dflt =
     (case environ name of
        None \<Rightarrow> dflt
      | Some t \<Rightarrow> (case parse_int t of None \<Rightarrow> dflt | Some n \<Rightarrow> n))"

definition default_out :: "(string \<Rightarrow> string option) \<Rightarrow> (string \<Rightarrow> string option) \<Rightarrow> string" where
  "default_out environ home_of =
     (case environ ''FN_STATE_DIR'' of
        Some (c # cs) \<Rightarrow> os_join (c # cs) ''receipts''
      | _ \<Rightarrow> expanduser home_of ''~/vllm-prof'')"

definition reload_config :: "(string \<Rightarrow> string option) \<Rightarrow> (string \<Rightarrow> string option) \<Rightarrow> ar_config" where
  "reload_config environ home_of =
     \<lparr>ar_enabled = (environ ''FN_ALLREDUCE_TIMER'' = Some ''1''),
      ar_start = nat (max 0 (int_env environ ''FN_AR_START'' 200)),
      ar_calls = nat (max 0 (int_env environ ''FN_AR_CALLS'' 20000)),
      ar_out = expanduser home_of
        (case environ ''FN_AR_OUT'' of Some (c # cs) \<Rightarrow> c # cs | _ \<Rightarrow> default_out environ home_of),
      ar_interval = int_env environ ''FN_AR_FULL_ATTENTION_INTERVAL'' 4,
      ar_depth = nat (max 1 (int_env environ ''FN_AR_FRAME_DEPTH'' 12))\<rparr>"

section \<open>The call site\<close>

record sub_comm =
  sub_disabled :: bool
  sub_should :: "(nat \<Rightarrow> bool res) option"

definition CUSTOM_ATTRS :: "string list" where
  "CUSTOM_ATTRS = [''ca_comm'', ''qr_comm'', ''symm_mem_comm'']"

text \<open>
  The answer over the sub-communicators in order of dispatch: fired, declined, or not knowable
  (none is there, or one raised).
\<close>

fun custom_fired :: "bool \<Rightarrow> sub_comm option list \<Rightarrow> nat \<Rightarrow> bool option" where
  "custom_fired seen [] t = (if seen then Some False else None)"
| "custom_fired seen (None # subs) t = custom_fired seen subs t"
| "custom_fired seen (Some s # subs) t =
     (if sub_disabled s then custom_fired True subs t
      else case sub_should s of
        None \<Rightarrow> custom_fired True subs t
      | Some f \<Rightarrow> (case f t of
          Inl _ \<Rightarrow> None
        | Inr True \<Rightarrow> Some True
        | Inr False \<Rightarrow> custom_fired True subs t))"

text \<open>No torch, or a query that raises: not knowable.\<close>

definition capture_state :: "bool res option \<Rightarrow> bool option" where
  "capture_state q = (case q of Some (Inr b) \<Rightarrow> Some b | _ \<Rightarrow> None)"

section \<open>State\<close>

record ar_row =
  row_kind :: bucket
  row_detect :: pyfloat
  row_exchange :: pyfloat
  row_compute :: "pyfloat option"
  row_fired :: "bool option"
  row_capturing :: "bool option"

record ar_state =
  ar_rows :: "ar_row list"
  ar_n :: nat
  last_exit :: "pyfloat option"
  ar_done :: bool
  ar_installed :: "(nat \<times> string \<times> func \<times> bool) list"
  ar_cache :: cache
  candidates :: "string list"
  comms :: "nat \<Rightarrow> holder"
  subs_of :: "nat \<Rightarrow> string \<Rightarrow> sub_comm option"
  settable :: "nat \<Rightarrow> bool"
  disk :: world

definition ar_reset :: "ar_state \<Rightarrow> ar_state" where
  "ar_reset s = s\<lparr>ar_rows := [], ar_cache := [], ar_n := 0, last_exit := None, ar_done := False\<rparr>"

section \<open>The summary\<close>

definition MEASURES :: string where
  "MEASURES = ''host-side perf_counter around the communicator call; no device sync is inserted, so exchange_us is the host-visible cost of the collective call and compute_us the host-visible gap between two of them (RUN3-BRIEF 14.6: a sync in the decode loop changes the thing being measured)''"

text \<open>The two quantiles, as the doubles of the source.\<close>

datatype quantile = P50 | P99

fun quantile_value :: "quantile \<Rightarrow> pyfloat" where
  "quantile_value P50 = Fin (1 / 2)"
| "quantile_value P99 = fl64 (99 / 100)"

definition ar_rank :: "nat \<Rightarrow> quantile \<Rightarrow> nat" where
  "ar_rank n q =
     (case fmul (Fin (of_nat (n - 1))) (quantile_value q) of Fin r \<Rightarrow> nat (round_half_even r) | _ \<Rightarrow> 0)"

definition ar_pct :: "pyfloat list \<Rightarrow> quantile \<Rightarrow> pyfloat" where
  "ar_pct values q = values ! ar_rank (length values) q"

definition ar_stats :: "pyfloat list \<Rightarrow> json" where
  "ar_stats values =
     (if values = [] then JObj [(''n'', JInt 0), (''sum'', JFloat (Fin 0)), (''p50'', JNull), (''p99'', JNull), (''max'', JNull)]
      else
        let us = sort (map (\<lambda>v. fmul v (Fin 1000000)) values)
        in JObj [(''n'', JInt (int (length us))), (''sum'', JFloat (round_at 3 (float_sum us))),
             (''p50'', JFloat (round_at 3 (ar_pct us P50))), (''p99'', JFloat (round_at 3 (ar_pct us P99))),
             (''max'', JFloat (round_at 3 (last us)))])"

definition ar_tally :: "bool option list \<Rightarrow> (string \<times> json) list" where
  "ar_tally flags =
     [(''true'', JInt (int (count_list flags (Some True)))), (''false'', JInt (int (count_list flags (Some False)))),
      (''unknown'', JInt (int (count_list flags None)))]"

definition us_total :: "pyfloat list \<Rightarrow> pyfloat" where
  "us_total xs = round_at 3 (fmul (float_sum xs) (Fin 1000000))"

definition share_of :: "pyfloat \<Rightarrow> pyfloat \<Rightarrow> json" where
  "share_of grand v =
     (if grand = Fin 0 then JNull
      else case fdiv v grand of Inl _ \<Rightarrow> JNull | Inr x \<Rightarrow> JFloat (round_at 4 x))"

definition layer_entry :: "ar_row list \<Rightarrow> json" where
  "layer_entry sel =
     JObj [(''collectives'', JInt (int (length sel))),
       (''detect_us'', ar_stats (map row_detect sel)), (''exchange_us'', ar_stats (map row_exchange sel)),
       (''compute_us'', ar_stats (List.map_filter row_compute sel)),
       (''custom_path'', JObj (ar_tally (map row_fired sel))),
       (''capturing'', JObj (ar_tally (map row_capturing sel)))]"

definition ar_summary :: "ar_config \<Rightarrow> ar_state \<Rightarrow> (string \<times> json) list" where
  "ar_summary c s =
     (let rs = ar_rows s;
          detect = us_total (map row_detect rs); exchange = us_total (map row_exchange rs);
          compute = us_total (List.map_filter row_compute rs);
          grand = float_sum [detect, exchange, compute]
      in [(''measures'', JStr MEASURES), (''enabled'', JBool (ar_enabled c)),
          (''window'', JObj [(''skip'', JInt (int (ar_start c))), (''calls'', JInt (int (ar_calls c))),
             (''seen'', JInt (int (ar_n s))), (''recorded'', JInt (int (length rs))), (''closed'', JBool (ar_done s))]),
          (''layer_types'', JObj [(''full_attention_interval'', JInt (ar_interval c)),
             (''qsa'', JStr (bucket_name QSA)), (''gdn'', JStr (bucket_name GDN))]),
          (''custom_path'', JObj ((''candidates'', JList (map JStr (candidates s))) # ar_tally (map row_fired rs))),
          (''capturing'', JObj (ar_tally (map row_capturing rs))),
          (''totals_us'', JObj [(''detect'', JFloat detect), (''exchange'', JFloat exchange), (''compute'', JFloat compute)]),
          (''share'', JObj [(''detect'', share_of grand detect), (''exchange'', share_of grand exchange),
             (''compute'', share_of grand compute)]),
          (''by_layer_type'', JObj (map (\<lambda>k. (bucket_name k, layer_entry (filter (\<lambda>r. row_kind r = k) rs))) BUCKETS))])"

section \<open>The receipt\<close>

definition receipt_path :: "ar_config \<Rightarrow> int option \<Rightarrow> string" where
  "receipt_path c rank =
     (if rank = None \<or> rank = Some 0 then os_join (ar_out c) ''allreduce.json''
      else os_join (ar_out c) (''allreduce-rank'' @ str_int (the rank) @ ''.json''))"

definition ar_receipt :: "ar_config \<Rightarrow> ar_state \<Rightarrow> int option \<Rightarrow> string \<Rightarrow> json" where
  "ar_receipt c s rank ts =
     JObj [(''step'', JStr ''allreduce''), (''status'', JStr ''pass''), (''ts'', JStr ts),
       (''data'', JObj (ar_summary c s @ [(''rank'', case rank of None \<Rightarrow> JNull | Some r \<Rightarrow> JInt r)]))]"

text \<open>\<open>_strip_ts\<close>, the timer's own copy of the eraser of \<open>scripts/receipt-restore.py\<close>.\<close>

fun ar_strip_ts :: "json \<Rightarrow> json" where
  "ar_strip_ts (JObj kvs) =
     JObj (map (\<lambda>(k, v). (k, ar_strip_ts v)) (filter (\<lambda>(k, v). k \<noteq> ''ts'') kvs))"
| "ar_strip_ts (JList xs) = JList (map ar_strip_ts xs)"
| "ar_strip_ts x = x"

lemma ar_strip_ts_is_strip_ts [simp]: "ar_strip_ts x = strip_ts x"
  by (induction x rule: ar_strip_ts.induct) (auto intro!: map_cong)

text \<open>Writing unless an equal receipt is there; an exception of the disk becomes \<open>None\<close>.\<close>

definition bank :: "(string \<Rightarrow> json option) \<Rightarrow> world \<Rightarrow> path \<Rightarrow> json \<Rightarrow> string \<Rightarrow> bool res \<times> world" where
  "bank loads w target receipt text =
     (if is_file w target \<and>
         (case read_text w target of
            Inl _ \<Rightarrow> False
          | Inr t \<Rightarrow> (case loads t of None \<Rightarrow> False | Some old \<Rightarrow> py_eq (ar_strip_ts old) (ar_strip_ts receipt)))
      then (returned False, w)
      else case mkdirs w (butlast target) of
        (Inl e, w1) \<Rightarrow> (raised e, w1)
      | (Inr _, w1) \<Rightarrow>
          (case write_text w1 target text of
             (Inl e, w2) \<Rightarrow> (raised e, w2)
           | (Inr _, w2) \<Rightarrow> (returned True, w2)))"

definition ar_flush ::
  "(string \<Rightarrow> json option) \<Rightarrow> (json \<Rightarrow> string) \<Rightarrow> ar_config \<Rightarrow> int option \<Rightarrow> string \<Rightarrow> ar_state
     \<Rightarrow> string option \<times> ar_state" where
  "ar_flush loads dumps c rank ts s =
     (let receipt = ar_receipt c s rank ts; text = dumps receipt @ [newline]; target = receipt_path c rank
      in case bank loads (disk s) (path_parts target) receipt text of
           (Inl _, w) \<Rightarrow> (None, s\<lparr>disk := w\<rparr>)
         | (Inr _, w) \<Rightarrow> (Some target, s\<lparr>disk := w\<rparr>))"

section \<open>The wrapper\<close>

record ar_call =
  tensor_id :: nat
  t0 :: pyfloat
  t1 :: pyfloat
  t2 :: pyfloat
  capture :: "bool res option"
  frames :: "(nat \<times> layer_obj) option list"
  outcome :: "pyexc + nat"
  clock_text :: string
  rank_now :: "int option"

definition ar_record ::
  "(string \<Rightarrow> json option) \<Rightarrow> (json \<Rightarrow> string) \<Rightarrow> ar_config \<Rightarrow> ar_call \<Rightarrow> ar_row \<Rightarrow> ar_state \<Rightarrow> ar_state" where
  "ar_record loads dumps c call row s =
     (let s' = s\<lparr>ar_rows := ar_rows s @ [row]\<rparr>
      in if ar_calls c \<le> length (ar_rows s')
         then snd (ar_flush loads dumps c (rank_now call) (clock_text call) (s'\<lparr>ar_done := True\<rparr>))
         else s')"

definition ar_wrapped ::
  "(string \<Rightarrow> json option) \<Rightarrow> (json \<Rightarrow> string) \<Rightarrow> ar_config \<Rightarrow> nat \<Rightarrow> ar_call \<Rightarrow> ar_state
     \<Rightarrow> (pyexc + nat) \<times> ar_state" where
  "ar_wrapped loads dumps c comm call s =
     (if ar_done s then (outcome call, s)
      else
        let n = Suc (ar_n s); recording = (ar_start c < n);
            fired = (if recording then custom_fired False (map (subs_of s comm) CUSTOM_ATTRS) (tensor_id call) else None);
            capturing = (if recording then capture_state (capture call) else None);
            (kind, cache) = (if recording then walk (ar_interval c) (ar_depth c) (frames call) (ar_cache s)
                             else (Unknown, ar_cache s));
            s1 = s\<lparr>ar_n := n, ar_cache := cache\<rparr>
        in case outcome call of
             Inl x \<Rightarrow> (raised x, s1)
           | Inr out \<Rightarrow>
               let prev = last_exit s1; s2 = s1\<lparr>last_exit := Some (t2 call)\<rparr>
               in (returned out,
                   if recording
                   then ar_record loads dumps c call
                     \<lparr>row_kind = kind, row_detect = fsub (t1 call) (t0 call), row_exchange = fsub (t2 call) (t1 call),
                      row_compute = map_option (fsub (t0 call)) prev, row_fired = fired, row_capturing = capturing\<rparr> s2
                   else s2))"

section \<open>Installation\<close>

definition ar_wrap :: "nat \<Rightarrow> string \<Rightarrow> ar_state \<Rightarrow> bool \<times> ar_state" where
  "ar_wrap comm name s =
     (case get_attr (comms s comm) name of
        Some (Native k) \<Rightarrow>
          if \<not> settable s comm then (False, s)
          else (True, s\<lparr>comms := (comms s)(comm := set_attr (comms s comm) name (Probe (Native k))),
                 ar_installed := ar_installed s @ [(comm, name, Native k, own (comms s comm) name \<noteq> None)],
                 candidates := filter (\<lambda>a. subs_of s comm a \<noteq> None) CUSTOM_ATTRS\<rparr>)
      | _ \<Rightarrow> (False, s))"

text \<open>\<open>comm\<close> is the communicator passed or resolved, \<open>None\<close> when vLLM's cannot be had.\<close>

definition ar_install :: "ar_config \<Rightarrow> nat option \<Rightarrow> ar_state \<Rightarrow> bool \<times> ar_state" where
  "ar_install c comm s =
     (if \<not> ar_enabled c \<or> ar_installed s \<noteq> [] then (False, s)
      else case comm of None \<Rightarrow> (False, s) | Some i \<Rightarrow> ar_wrap i ''all_reduce'' s)"

fun unwrap_all :: "(nat \<times> string \<times> func \<times> bool) list \<Rightarrow> (nat \<Rightarrow> holder) \<Rightarrow> nat \<Rightarrow> holder" where
  "unwrap_all [] h = h"
| "unwrap_all ((i, name, f, mine) # rest) h =
     unwrap_all rest (h(i := (if mine then set_attr (h i) name f else del_attr (h i) name)))"

definition ar_uninstall :: "ar_state \<Rightarrow> ar_state" where
  "ar_uninstall s = s\<lparr>comms := unwrap_all (rev (ar_installed s)) (comms s), ar_installed := []\<rparr>"

section \<open>Installing and removing\<close>

lemma ar_uninstall_install:
  assumes "ar_installed s = []"
  shows "comms (ar_uninstall (snd (ar_install c comm s))) = comms s"
proof (cases comm)
  case (Some i)
  show ?thesis
  proof (cases "own (comms s i) ''all_reduce''")
    case None
    then show ?thesis using assms Some set_attr_undo(2)
      by (auto simp: ar_uninstall_def ar_install_def ar_wrap_def fun_eq_iff split: option.split func.split)
  next
    case (Some f)
    then have "get_attr (comms s i) ''all_reduce'' = Some f" by (simp add: get_attr_def)
    then show ?thesis using assms \<open>comm = Some i\<close> Some set_attr_undo(1)
      by (auto simp: ar_uninstall_def ar_install_def ar_wrap_def fun_eq_iff split: func.split)
  qed
qed (use assms in \<open>simp add: ar_uninstall_def ar_install_def\<close>)

interpretation ar_hook: removable "\<lambda>s. snd (ar_install c comm s)" "\<lambda>s. ar_installed s \<noteq> []"
  "\<lambda>s (i, n). get_attr (comms s i) n" ar_uninstall "\<lambda>_. True" for c comm
proof
  fix w :: ar_state and k :: "nat \<times> string"
  show "ar_installed w \<noteq> [] \<Longrightarrow> snd (ar_install c comm w) = w" by (simp add: ar_install_def)
  show "ar_installed (snd (ar_install c comm w)) \<noteq> [] \<or> snd (ar_install c comm w) = w"
    by (auto simp: ar_install_def ar_wrap_def split: option.split func.split)
  show "map_option behind (case k of (i, n) \<Rightarrow> get_attr (comms (snd (ar_install c comm w)) i) n) =
      map_option behind (case k of (i, n) \<Rightarrow> get_attr (comms w i) n)"
    by (cases k) (auto simp: ar_install_def ar_wrap_def split: option.split func.split)
  show "True \<and> \<not> ar_installed (ar_uninstall w) \<noteq> []" by (simp add: ar_uninstall_def)
  show "\<not> ar_installed w \<noteq> [] \<Longrightarrow> (\<lambda>(i, n). get_attr (comms (ar_uninstall (snd (ar_install c comm w))) i) n) =
      (\<lambda>(i, n). get_attr (comms w i) n)"
    by (simp add: ar_uninstall_install)
qed

text \<open>
  C33: The timer leaves the engine alone: a wrapped collective returns or raises what the original
  does, installing again changes nothing, and uninstalling gives every communicator back exactly
  as it was, also when the wrapper had shadowed a method of its class.
\<close>

theorem timer_transparent:
  assumes "ar_installed s = []"
  shows "fst (ar_wrapped loads dumps c i call s) = outcome call \<and>
    ((\<lambda>s. snd (ar_install c comm s)) ^^ Suc n) s = snd (ar_install c comm s) \<and>
    comms (ar_uninstall (snd (ar_install c comm s))) = comms s"
proof -
  have "fst (ar_wrapped loads dumps c i call s) = outcome call"
    by (auto simp: ar_wrapped_def Let_def split: sum.split prod.split)
  then show ?thesis using ar_hook.install_many ar_uninstall_install [OF assms] by blast
qed

section \<open>The receipt store\<close>

text \<open>The same rule as the receipt guard's: equal modulo \<open>ts\<close> means nothing is written.\<close>

lemma bank_place: "bank loads w p r t = place loads w p r t"
  unfolding bank_def ar_strip_ts_is_strip_ts by (simp add: place_def same_receipt_def)

interpretation ar_store: receipt_store "bank loads" False "banked loads" "sound_text loads" for loads
proof
  fix w k r t b k' r' t'
  show "banked loads w k r \<Longrightarrow> bank loads w k r t = (Inr False, w)"
    by (simp add: bank_place place_skips)
  show "fst (bank loads w k r t) = Inr b \<Longrightarrow> sound_text loads w k r t \<Longrightarrow> banked loads (snd (bank loads w k r t)) k r"
    by (simp add: bank_place place_stores)
  show "k' \<noteq> k \<Longrightarrow> banked loads w k' r' \<Longrightarrow> banked loads (snd (bank loads w k r t)) k' r'"
    unfolding bank_place by (rule rr.put_frame)
  show "sound_text loads w k' r' t' \<Longrightarrow> sound_text loads (snd (bank loads w k r t)) k' r' t'"
    unfolding bank_place by (rule rr.put_sound)
qed

text \<open>
  The timer's \<open>flush\<close> decides and writes exactly as the receipt guard's \<open>_place\<close> does.
\<close>

theorem flush_is_place:
  "ar_flush loads dumps c rank ts s =
     (case place loads (disk s) (path_parts (receipt_path c rank)) (ar_receipt c s rank ts)
             (dumps (ar_receipt c s rank ts) @ [newline]) of
        (Inl _, w) \<Rightarrow> (None, s\<lparr>disk := w\<rparr>)
      | (Inr _, w) \<Rightarrow> (Some (receipt_path c rank), s\<lparr>disk := w\<rparr>))"
  by (simp add: ar_flush_def bank_place Let_def)

lemma ar_receipt_disk [simp]: "ar_receipt c (s\<lparr>disk := w\<rparr>) rank ts = ar_receipt c s rank ts"
  by (simp add: ar_receipt_def ar_summary_def Let_def)

lemma strip_ar_receipt: "strip_ts (ar_receipt c s rank ts) = strip_ts (ar_receipt c s rank ts')"
  by (simp add: ar_receipt_def)

lemma banked_ts: "banked loads w p (ar_receipt c s rank ts) = banked loads w p (ar_receipt c s rank ts')"
  unfolding banked_iff by (metis strip_ar_receipt)

text \<open>
  Flushing an unchanged measurement again, at whatever time, writes nothing: the disk stays as
  it is and the receipt keeps its first timestamp.
\<close>

theorem flush_pure:
  assumes "ar_flush loads dumps c rank ts s = (Some p, s')"
    and "sound_text loads (disk s) (path_parts (receipt_path c rank)) (ar_receipt c s rank ts)
      (dumps (ar_receipt c s rank ts) @ [newline])"
  shows "ar_flush loads dumps c rank ts' s' = (Some p, s')"
proof -
  let ?p = "path_parts (receipt_path c rank)" and ?r = "ar_receipt c s rank"
  obtain b where put: "fst (bank loads (disk s) ?p (?r ts) (dumps (?r ts) @ [newline])) = Inr b"
    and s': "s' = s\<lparr>disk := snd (bank loads (disk s) ?p (?r ts) (dumps (?r ts) @ [newline]))\<rparr>"
    and p: "p = receipt_path c rank"
    using assms(1) by (auto simp: ar_flush_def Let_def split: prod.splits sum.splits)
  have "banked loads (disk s') ?p (?r ts)"
    using ar_store.put_stores [OF put assms(2)] by (simp add: s')
  then have "banked loads (disk s') ?p (?r ts')" by (simp add: banked_ts [of _ _ _ c s rank ts' ts])
  then have "bank loads (disk s') ?p (?r ts') (dumps (?r ts') @ [newline]) = (Inr False, disk s')"
    by (rule ar_store.put_skips)
  moreover have "ar_receipt c s' rank ts' = ?r ts'" by (simp add: s')
  ultimately show ?thesis by (simp add: ar_flush_def Let_def p)
qed

section \<open>The window\<close>

definition ar_step ::
  "(string \<Rightarrow> json option) \<Rightarrow> (json \<Rightarrow> string) \<Rightarrow> ar_config \<Rightarrow> nat \<Rightarrow> ar_state \<Rightarrow> ar_call \<Rightarrow> ar_state" where
  "ar_step loads dumps c i s call = snd (ar_wrapped loads dumps c i call s)"

text \<open>All of a row but the gap, which depends on the call before.\<close>

type_synonym ar_obs = "bucket \<times> pyfloat \<times> pyfloat \<times> bool option \<times> bool option"

definition obs_row :: "ar_row \<Rightarrow> ar_obs" where
  "obs_row r = (row_kind r, row_detect r, row_exchange r, row_fired r, row_capturing r)"

definition obs_call :: "ar_config \<Rightarrow> (string \<Rightarrow> sub_comm option) \<Rightarrow> ar_call \<Rightarrow> ar_obs" where
  "obs_call c sub call =
     (walk_plain (ar_interval c) (ar_depth c) (frames call), fsub (t1 call) (t0 call), fsub (t2 call) (t1 call),
      custom_fired False (map sub CUSTOM_ATTRS) (tensor_id call), capture_state (capture call))"

lemma ar_flush_fields [simp]:
  "ar_rows (snd (ar_flush loads dumps c r t s)) = ar_rows s" "ar_n (snd (ar_flush loads dumps c r t s)) = ar_n s"
  "ar_done (snd (ar_flush loads dumps c r t s)) = ar_done s" "ar_cache (snd (ar_flush loads dumps c r t s)) = ar_cache s"
  "last_exit (snd (ar_flush loads dumps c r t s)) = last_exit s" "subs_of (snd (ar_flush loads dumps c r t s)) = subs_of s"
  by (simp_all add: ar_flush_def Let_def split: prod.split sum.split)

lemma ar_step_done: "ar_done s \<Longrightarrow> ar_step loads dumps c i s call = s"
  by (simp add: ar_step_def ar_wrapped_def)

lemma ar_step_open:
  fixes loads :: "string \<Rightarrow> json option" and dumps :: "json \<Rightarrow> string" and c :: ar_config and i :: nat
  assumes "\<not> ar_done s" "\<not> isl (outcome call)"
  defines "s' \<equiv> ar_step loads dumps c i s call"
  shows "ar_n s' = Suc (ar_n s)" "last_exit s' = Some (t2 call)" "subs_of s' = subs_of s"
    and "ar_n s < ar_start c \<Longrightarrow> ar_rows s' = ar_rows s \<and> \<not> ar_done s' \<and> ar_cache s' = ar_cache s"
    and "ar_start c \<le> ar_n s \<Longrightarrow>
      (\<exists>r. ar_rows s' = ar_rows s @ [r] \<and> row_compute r = map_option (fsub (t0 call)) (last_exit s) \<and>
        obs_row r = (fst (walk (ar_interval c) (ar_depth c) (frames call) (ar_cache s)), fsub (t1 call) (t0 call),
          fsub (t2 call) (t1 call), custom_fired False (map (subs_of s i) CUSTOM_ATTRS) (tensor_id call),
          capture_state (capture call))) \<and>
      (ar_done s' \<longleftrightarrow> ar_calls c \<le> Suc (length (ar_rows s))) \<and>
      ar_cache s' = snd (walk (ar_interval c) (ar_depth c) (frames call) (ar_cache s))"
  using assms(1,2)
  by (auto simp: s'_def ar_step_def ar_wrapped_def ar_record_def obs_row_def Let_def split_beta isl_def split: sum.splits)

text \<open>
  While the window is open the rows are those since the start, fewer than the window holds; the
  cache tells the truth about the objects that the frames show.
\<close>

definition ar_inv :: "ar_config \<Rightarrow> nat \<Rightarrow> (nat \<Rightarrow> layer_obj) \<Rightarrow> (string \<Rightarrow> sub_comm option) \<Rightarrow> ar_state \<Rightarrow> bool" where
  "ar_inv c i objs sub s \<longleftrightarrow> cache_true (ar_interval c) objs (ar_cache s) \<and> subs_of s i = sub \<and>
     (\<not> ar_done s \<longrightarrow> length (ar_rows s) = ar_n s - ar_start c \<and> length (ar_rows s) < max 1 (ar_calls c))"

definition ar_good :: "(nat \<Rightarrow> layer_obj) \<Rightarrow> ar_call \<Rightarrow> bool" where
  "ar_good objs call \<longleftrightarrow> \<not> isl (outcome call) \<and> frames_of objs (frames call)"

lemma ar_take:
  fixes loads :: "string \<Rightarrow> json option" and dumps :: "json \<Rightarrow> string" and c :: ar_config and i :: nat
  assumes "ar_inv c i objs sub s" "ar_good objs call" "\<not> ar_done s" "ar_start c \<le> ar_n s"
  defines "s' \<equiv> ar_step loads dumps c i s call"
  shows "map obs_row (ar_rows s') = map obs_row (ar_rows s) @ [obs_call c sub call]" "ar_inv c i objs sub s'"
    and "ar_done s' \<Longrightarrow> Suc (ar_n s) = ar_start c + max 1 (ar_calls c)"
proof -
  have g: "\<not> isl (outcome call)" and t: "cache_true (ar_interval c) objs (ar_cache s)" and f: "frames_of objs (frames call)"
    and sub: "subs_of s i = sub" and len: "length (ar_rows s) = ar_n s - ar_start c" "length (ar_rows s) < max 1 (ar_calls c)"
    using assms(1-3) by (auto simp: ar_inv_def ar_good_def)
  note step = ar_step_open [OF assms(3) g, where loads = loads and dumps = dumps and c = c and i = i, folded s'_def]
  note w = cached_walk [OF t f, of "ar_depth c"]
  obtain r where r: "ar_rows s' = ar_rows s @ [r]" "obs_row r = obs_call c sub call"
    using step(5) [OF assms(4)] w sub by (auto simp: obs_call_def)
  then show "map obs_row (ar_rows s') = map obs_row (ar_rows s) @ [obs_call c sub call]" by simp
  have d: "ar_done s' \<longleftrightarrow> ar_calls c \<le> Suc (length (ar_rows s))"
    and cache: "ar_cache s' = snd (walk (ar_interval c) (ar_depth c) (frames call) (ar_cache s))"
    using step(5) [OF assms(4)] by auto
  show "ar_inv c i objs sub s'"
    using w step(1,3) sub len assms(4) by (auto simp: ar_inv_def r d cache)
  show "ar_done s' \<Longrightarrow> Suc (ar_n s) = ar_start c + max 1 (ar_calls c)" using len assms(4) by (auto simp: d)
qed

interpretation ar: sampling_window "ar_step loads dumps c i" ar_n "\<lambda>s. map obs_row (ar_rows s)" ar_done
  "obs_call c sub" "ar_start c" "max 1 (ar_calls c)" "ar_good objs" "ar_inv c i objs sub"
  for loads dumps c i sub objs
proof
  fix s and call :: ar_call
  assume i: "ar_inv c i objs sub s" and g: "ar_good objs call"
  then have o: "\<not> isl (outcome call)" by (simp add: ar_good_def)
  show "ar_done s \<Longrightarrow> ar_done (ar_step loads dumps c i s call) \<and>
      map obs_row (ar_rows (ar_step loads dumps c i s call)) = map obs_row (ar_rows s)"
    by (simp add: ar_step_done)
  show "ar_inv c i objs sub (ar_step loads dumps c i s call)"
  proof (cases "ar_done s \<or> ar_start c \<le> ar_n s")
    case True
    then show ?thesis using ar_take(2) [OF i g] i by (cases "ar_done s") (simp_all add: ar_step_done)
  next
    case False
    then show ?thesis using ar_step_open [OF _ o, where loads = loads and dumps = dumps and c = c and i = i] i by (simp add: ar_inv_def)
  qed
  assume d: "\<not> ar_done s"
  show "ar_n s < ar_start c \<Longrightarrow> \<not> ar_done (ar_step loads dumps c i s call) \<and>
      ar_n (ar_step loads dumps c i s call) = Suc (ar_n s) \<and>
      map obs_row (ar_rows (ar_step loads dumps c i s call)) = map obs_row (ar_rows s)"
    using ar_step_open [OF d o, where loads = loads and dumps = dumps and c = c and i = i] by simp
  show "ar_start c \<le> ar_n s \<Longrightarrow> ar_n s < ar_start c + max 1 (ar_calls c) \<Longrightarrow>
      map obs_row (ar_rows (ar_step loads dumps c i s call)) = map obs_row (ar_rows s) @ [obs_call c sub call] \<and>
      ar_n (ar_step loads dumps c i s call) = Suc (ar_n s) \<and>
      (ar_done (ar_step loads dumps c i s call) \<longrightarrow> Suc (ar_n s) = ar_start c + max 1 (ar_calls c))"
    using ar_take(1,3) [OF i g d] ar_step_open(1) [OF d o] by blast
  show "ar_start c + max 1 (ar_calls c) \<le> ar_n s \<Longrightarrow>
      map obs_row (ar_rows (ar_step loads dumps c i s call)) = map obs_row (ar_rows s) \<and>
      ar_n (ar_step loads dumps c i s call) = Suc (ar_n s)"
    by (rule FalseE) (use i d in \<open>unfold ar_inv_def, linarith\<close>)
qed

text \<open>The gaps before the calls: from the return of the call before, none before the first.\<close>

fun gaps :: "pyfloat option \<Rightarrow> ar_call list \<Rightarrow> pyfloat option list" where
  "gaps prev [] = []"
| "gaps prev (call # calls) = map_option (fsub (t0 call)) prev # gaps (Some (t2 call)) calls"

lemma gaps_snoc:
  "gaps prev (calls @ [call]) = gaps prev calls @
     [map_option (fsub (t0 call)) (if calls = [] then prev else Some (t2 (last calls)))]"
  by (induction calls arbitrary: prev) auto

lemma length_gaps [simp]: "length (gaps prev calls) = length calls"
  by (induction calls arbitrary: prev) auto

definition ar_fresh :: "(nat \<Rightarrow> holder) \<Rightarrow> (nat \<Rightarrow> string \<Rightarrow> sub_comm option) \<Rightarrow> world \<Rightarrow> ar_state" where
  "ar_fresh hs subs w =
     \<lparr>ar_rows = [], ar_n = 0, last_exit = None, ar_done = False, ar_installed = [], ar_cache = [], candidates = [],
      comms = hs, subs_of = subs, settable = (\<lambda>_. True), disk = w\<rparr>"

lemma ar_inv_fresh: "ar_inv c i objs (subs i) (ar_fresh hs subs w)"
  by (simp add: ar_inv_def ar_fresh_def cache_true_def)

lemma ar_fresh_fields: "\<not> ar_done (ar_fresh hs subs w)" "ar_n (ar_fresh hs subs w) = 0" "ar_rows (ar_fresh hs subs w) = []"
  "last_exit (ar_fresh hs subs w) = None"
  by (simp_all add: ar_fresh_def)

lemma ar_observed:
  assumes "\<forall>call \<in> set calls. ar_good objs call"
  shows "ar_inv c i objs (subs i) (foldl (ar_step loads dumps c i) (ar_fresh hs subs w) calls) \<and>
    map obs_row (ar_rows (foldl (ar_step loads dumps c i) (ar_fresh hs subs w) calls)) =
      window (ar_start c) (max 1 (ar_calls c)) (map (obs_call c (subs i)) calls) \<and>
    (\<not> ar_done (foldl (ar_step loads dumps c i) (ar_fresh hs subs w) calls) \<longrightarrow>
      ar_n (foldl (ar_step loads dumps c i) (ar_fresh hs subs w) calls) = length calls) \<and>
    (ar_done (foldl (ar_step loads dumps c i) (ar_fresh hs subs w) calls) \<longrightarrow>
      ar_start c + max 1 (ar_calls c) \<le> length calls)"
  by (rule ar.window_run) (use assms ar_inv_fresh in \<open>simp_all add: ar_fresh_fields\<close>)

lemma ar_gaps:
  fixes loads :: "string \<Rightarrow> json option" and dumps :: "json \<Rightarrow> string" and c :: ar_config and i :: nat
    and hs subs w calls objs
  assumes "\<forall>call \<in> set calls. ar_good objs call"
  defines "s \<equiv> foldl (ar_step loads dumps c i) (ar_fresh hs subs w) calls"
  shows "map row_compute (ar_rows s) = window (ar_start c) (max 1 (ar_calls c)) (gaps None calls) \<and>
    (\<not> ar_done s \<longrightarrow> last_exit s = (if calls = [] then None else Some (t2 (last calls))))"
  using assms(1) unfolding s_def
proof (induction calls rule: rev_induct)
  case Nil
  then show ?case by (simp add: ar_fresh_fields window_def)
next
  case (snoc call calls)
  let ?s = "foldl (ar_step loads dumps c i) (ar_fresh hs subs w) calls"
  have g: "\<forall>call \<in> set calls. ar_good objs call" "ar_good objs call" "\<not> isl (outcome call)"
    using snoc.prems by (auto simp: ar_good_def)
  note run = ar_observed [OF g(1), where loads = loads and dumps = dumps and c = c and i = i and hs = hs and subs = subs and w = w]
  have IH: "map row_compute (ar_rows ?s) = window (ar_start c) (max 1 (ar_calls c)) (gaps None calls)"
    "\<not> ar_done ?s \<Longrightarrow> last_exit ?s = (if calls = [] then None else Some (t2 (last calls)))"
    using snoc.IH g(1) by auto
  show ?case
  proof (cases "ar_done ?s")
    case True
    then have "ar_start c + max 1 (ar_calls c) \<le> length calls" using run by simp
    then show ?thesis using True IH(1) by (simp add: ar_step_done gaps_snoc window_snoc)
  next
    case False
    have n: "ar_n ?s = length calls" and lt: "length calls - ar_start c < max 1 (ar_calls c)"
      using run False by (auto simp: ar_inv_def)
    note step = ar_step_open [OF False g(3), where loads = loads and dumps = dumps and c = c and i = i]
    show ?thesis
    proof (cases "length calls < ar_start c")
      case True
      then show ?thesis using step(2,4) IH(1) n by (simp add: gaps_snoc window_snoc)
    next
      case False
      then obtain r where "ar_rows (ar_step loads dumps c i ?s call) = ar_rows ?s @ [r]"
          "row_compute r = map_option (fsub (t0 call)) (last_exit ?s)"
        using step(5) n by auto
      moreover have "length calls < ar_start c + max 1 (ar_calls c)" using lt False by linarith
      ultimately show ?thesis
        using step(2) IH \<open>\<not> ar_done ?s\<close> False by (simp add: gaps_snoc window_snoc)
    qed
  qed
qed

text \<open>
  C4: What the timer records. Over collectives that return, the rows are those of the window (the
  first \<open>START\<close> left out, then at most \<open>CALLS\<close>, one even when \<open>CALLS\<close> is 0): each with its bucket as if
  there were no cache, the probe and exchange times, the tri-state answers, and as compute time the
  gap from the return of the collective before it, which need not be a recorded one.
\<close>

theorem timer_records_window:
  assumes "\<forall>call \<in> set calls. ar_good objs call"
  shows "map obs_row (ar_rows (foldl (ar_step loads dumps c i) (ar_fresh hs subs w) calls)) =
      window (ar_start c) (max 1 (ar_calls c)) (map (obs_call c (subs i)) calls) \<and>
    map row_compute (ar_rows (foldl (ar_step loads dumps c i) (ar_fresh hs subs w) calls)) =
      window (ar_start c) (max 1 (ar_calls c)) (gaps None calls)"
  using ar_observed [OF assms, where loads = loads and dumps = dumps and hs = hs and w = w]
    ar_gaps [OF assms, where loads = loads and dumps = dumps and c = c and i = i and hs = hs and subs = subs and w = w]
  by (simp add: ar_fresh_fields)

section \<open>The quantiles\<close>

definition grows :: "quantile \<Rightarrow> quantile \<Rightarrow> bool" where
  "grows p q \<longleftrightarrow> p = q \<or> p = P50"

lemma quantile_values: "\<exists>v. quantile_value q = Fin v \<and> 1 / 2 \<le> v \<and> v \<le> 1 \<and> (q = P50 \<longrightarrow> v = 1 / 2)"
proof (cases q)
  case P99
  have "fl64 (99 / 100) = Fin (4458563631096791 / 4503599627370496)" by code_simp
  then show ?thesis by (intro exI [of _ "4458563631096791 / 4503599627370496"]) (simp add: P99)
next
  case P50
  then show ?thesis by (intro exI [of _ "1 / 2"]) simp
qed

lemma ar_rank_mono: "n \<le> 2 ^ 53 \<Longrightarrow> grows p q \<Longrightarrow> ar_rank n p \<le> ar_rank n q \<and> ar_rank n q \<le> n - 1"
proof -
  assume n: "n \<le> 2 ^ 53" and g: "grows p q"
  obtain u v where u: "quantile_value p = Fin u" "0 \<le> u" and v: "quantile_value q = Fin v" "v \<le> 1" and "u \<le> v"
    using quantile_values [of p] quantile_values [of q] g by (fastforce simp: grows_def)
  moreover have "n - 1 \<le> 2 ^ 53" using n by linarith
  ultimately obtain r s where "fmul (Fin (of_nat (n - 1))) (Fin u) = Fin r" "fmul (Fin (of_nat (n - 1))) (Fin v) = Fin s"
      "0 \<le> round_half_even r" "round_half_even r \<le> round_half_even s" "round_half_even s \<le> int (n - 1)"
    using round_scaled [of u v "n - 1"] by blast
  then show ?thesis by (simp add: ar_rank_def u(1) v(1) nat_mono nat_le_iff del: fmul.simps)
qed

interpretation ar_quantile: rank_select ar_rank grows "\<lambda>n. n \<le> 2 ^ 53"
proof
  fix n p q
  show "0 < n \<Longrightarrow> n \<le> 2 ^ 53 \<Longrightarrow> ar_rank n q < n"
    using ar_rank_mono [of n q q] by (simp add: grows_def)
  show "n \<le> 2 ^ 53 \<Longrightarrow> grows p q \<Longrightarrow> ar_rank n p \<le> ar_rank n q" using ar_rank_mono by blast
qed

text \<open>
  The statistics of finite times are consistent: the median is at most the 99th percentile,
  which is at most the maximum, also after the rounding to decimals, and the first two come from
  samples.
\<close>

theorem timer_stats_ordered:
  assumes "values \<noteq> []" "\<forall>v \<in> set values. \<exists>r. v = Fin r" "length values \<le> 2 ^ 53"
  shows "\<exists>total a b m. ar_stats values = JObj [(''n'', JInt (int (length values))), (''sum'', JFloat total),
      (''p50'', JFloat a), (''p99'', JFloat b), (''max'', JFloat m)] \<and> a \<le> b \<and> b \<le> m \<and>
    {a, b} \<subseteq> (\<lambda>v. round_at 3 (fmul v (Fin 1000000))) ` set values"
proof -
  define us where "us = map (\<lambda>v. fmul v (Fin 1000000)) values"
  have us: "us \<noteq> []" "length us \<le> 2 ^ 53" "length us = length values" using assms by (simp_all add: us_def)
  have sel: "ar_pct (sort us) q = ar_quantile.select us q" for q by (simp add: ar_pct_def ar_quantile.select_def)
  have mem: "ar_quantile.select us q \<in> set us" for q by (rule ar_quantile.select_mem [OF us(1,2)])
  have nn: "x \<noteq> NaN" if "x \<in> set us" for x using that assms(2) by (auto simp: us_def)
  have last: "last (sort us) = sort us ! (length us - 1)" using us(1) by (metis last_conv_nth length_0_conv length_sort)
  have lm: "last (sort us) \<in> set us" using last_in_set [of "sort us"] us(1) by (metis length_0_conv length_sort set_sort)
  have le1: "ar_quantile.select us P50 \<le> ar_quantile.select us P99"
    by (rule ar_quantile.select_mono [OF us(1,2)]) (simp add: grows_def)
  have le2: "ar_quantile.select us P99 \<le> last (sort us)"
    unfolding last ar_quantile.select_def
  proof (rule sorted_nth_mono)
    have "0 < length us" using us(1) by simp
    then show "ar_rank (length us) P99 \<le> length us - 1" "length us - 1 < length (sort us)"
      using ar_quantile.rank_in_range [of "length us" P99] us(2) by simp_all
  qed simp
  have "ar_stats values = JObj [(''n'', JInt (int (length values))), (''sum'', JFloat (round_at 3 (float_sum (sort us)))),
      (''p50'', JFloat (round_at 3 (ar_quantile.select us P50))), (''p99'', JFloat (round_at 3 (ar_quantile.select us P99))),
      (''max'', JFloat (round_at 3 (last (sort us))))]"
    using assms(1) us(3) by (simp add: ar_stats_def Let_def us_def [symmetric] sel)
  moreover have "{round_at 3 (ar_quantile.select us P50), round_at 3 (ar_quantile.select us P99)} \<subseteq>
      (\<lambda>v. round_at 3 (fmul v (Fin 1000000))) ` set values"
    using mem [of P50] mem [of P99] by (auto simp: us_def)
  ultimately show ?thesis
    using round_at_mono [OF nn [OF mem] nn [OF mem] le1] round_at_mono [OF nn [OF mem] nn [OF lm] le2] by blast
qed

section \<open>A small run\<close>

definition demo_call :: "rat \<Rightarrow> ar_call" where
  "demo_call t = \<lparr>tensor_id = 0, t0 = Fin t, t1 = Fin (t + 1), t2 = Fin (t + 3), capture = Some (Inr False),
     frames = [], outcome = Inr 7, clock_text = ''t'', rank_now = None\<rparr>"

definition demo_config :: ar_config where
  "demo_config = \<lparr>ar_enabled = True, ar_start = 1, ar_calls = 5, ar_out = ''/out'', ar_interval = 4, ar_depth = 12\<rparr>"

definition demo_comms :: "nat \<Rightarrow> holder" where
  "demo_comms = (\<lambda>_. \<lparr>own = (\<lambda>_. None), inherited = (\<lambda>n. if n = ''all_reduce'' then Some (Native 0) else None)\<rparr>)"

definition demo_state :: ar_state where
  "demo_state = ar_fresh demo_comms (\<lambda>_ _. None) demo_world"

theorem timer_records_window_witness:
  "map row_compute (ar_rows (foldl (ar_step demo_loads (\<lambda>_. []) demo_config 0)
     (ar_fresh demo_comms (\<lambda>_ _. None) demo_world) [demo_call 0, demo_call 10])) = [Some (Fin 7)]"
proof -
  have g: "\<forall>call \<in> set [demo_call 0, demo_call 10]. ar_good (\<lambda>_. undefined) call"
    by (simp add: ar_good_def demo_call_def frames_of_def)
  have "fsub (Fin 10) (Fin 3) = Fin 7" by code_simp
  then show ?thesis
    using timer_records_window [OF g, of demo_loads "\<lambda>_. []" demo_config 0 demo_comms "\<lambda>_ _. None" demo_world]
    by (simp add: window_def demo_config_def demo_call_def)
qed

theorem timer_transparent_witness:
  "get_attr (comms (snd (ar_install demo_config (Some 0) demo_state)) 0) ''all_reduce'' = Some (Probe (Native 0)) \<and>
   comms (ar_uninstall (snd (ar_install demo_config (Some 0) demo_state))) = comms demo_state"
proof -
  have e: "ar_installed demo_state = []" by (simp add: demo_state_def ar_fresh_def)
  have "get_attr (comms (snd (ar_install demo_config (Some 0) demo_state)) 0) ''all_reduce'' = Some (Probe (Native 0))"
    by (simp add: demo_state_def ar_fresh_def ar_install_def ar_wrap_def demo_config_def demo_comms_def get_attr_def set_attr_def)
  then show ?thesis using timer_transparent [OF e, where c = demo_config and comm = "Some 0"] by blast
qed

theorem timer_stats_ordered_witness:
  "\<exists>total a b m. ar_stats [Fin 3, Fin 1, Fin 2] = JObj [(''n'', JInt 3), (''sum'', JFloat total),
     (''p50'', JFloat a), (''p99'', JFloat b), (''max'', JFloat m)] \<and> a \<le> b \<and> b \<le> m"
  using timer_stats_ordered [of "[Fin 3, Fin 1, Fin 2]"] by auto

text \<open>A disk whose root is empty, and a decoder that reads back the one text that is written.\<close>

definition empty_world :: world where
  "empty_world = \<lparr>nodes = [], readable = (\<lambda>_. True), fate_of = (\<lambda>_. WOk)\<rparr>"

definition flushed_world :: world where
  "flushed_world = put_node (put_node empty_world [''out''] Dir) [''out'', ''allreduce.json''] (Reg (''r'' @ [newline]))"

lemma demo_flush:
  "ar_flush (\<lambda>_. Some (ar_receipt demo_config (ar_fresh demo_comms (\<lambda>_ _. None) empty_world) None ''t1'')) (\<lambda>_. ''r'')
     demo_config None ''t1'' (ar_fresh demo_comms (\<lambda>_ _. None) empty_world) =
   (Some ''/out/allreduce.json'', (ar_fresh demo_comms (\<lambda>_ _. None) empty_world)\<lparr>disk := flushed_world\<rparr>)"
proof -
  define s where "s = ar_fresh demo_comms (\<lambda>_ _. None) empty_world"
  define r where "r = ar_receipt demo_config s None ''t1''"
  have path: "receipt_path demo_config None = ''/out/allreduce.json''"
    "path_parts ''/out/allreduce.json'' = [''out'', ''allreduce.json'']" by code_simp+
  have "place (\<lambda>_. Some r) empty_world [''out'', ''allreduce.json''] r (''r'' @ [newline]) = (Inr True, flushed_world)"
    by (simp add: place_def is_file_def empty_world_def node_at_def mkdirs_def mkdirs_from_Cons write_text_def
        is_dir_def put_node_def flushed_world_def)
  then show ?thesis
    unfolding s_def [symmetric] r_def [symmetric]
    by (simp add: ar_flush_def bank_place path r_def [symmetric] Let_def) (simp add: s_def ar_fresh_def)
qed

theorem flush_pure_witness:
  "\<exists>s'. fst (ar_flush (\<lambda>_. Some (ar_receipt demo_config (ar_fresh demo_comms (\<lambda>_ _. None) empty_world) None ''t1''))
       (\<lambda>_. ''r'') demo_config None ''t2'' s') = Some ''/out/allreduce.json'' \<and> disk s' \<noteq> empty_world \<and>
     snd (ar_flush (\<lambda>_. Some (ar_receipt demo_config (ar_fresh demo_comms (\<lambda>_ _. None) empty_world) None ''t1''))
       (\<lambda>_. ''r'') demo_config None ''t2'' s') = s'"
proof -
  define s where "s = ar_fresh demo_comms (\<lambda>_ _. None) empty_world"
  define r where "r = ar_receipt demo_config s None ''t1''"
  have f: "ar_flush (\<lambda>_. Some r) (\<lambda>_. ''r'') demo_config None ''t1'' s = (Some ''/out/allreduce.json'', s\<lparr>disk := flushed_world\<rparr>)"
    using demo_flush unfolding s_def r_def .
  have "wf_json r \<and> no_nan r"
    unfolding r_def s_def ar_receipt_def ar_summary_def ar_fresh_def demo_config_def by code_simp
  then have "sound_text (\<lambda>_. Some r) (disk s) (path_parts (receipt_path demo_config None))
      (ar_receipt demo_config s None ''t1'') (''r'' @ [newline])"
    by (simp add: sound_text_def r_def s_def ar_fresh_def empty_world_def)
  from flush_pure [OF f this, of "''t2''"] show ?thesis
    unfolding s_def [symmetric] r_def [symmetric]
    by (intro exI [of _ "s\<lparr>disk := flushed_world\<rparr>"]) (simp add: flushed_world_def put_node_def empty_world_def)
qed

end
