(* ===== verification/AllreduceReport.thy ===== *)
theory AllreduceReport
  imports AllreduceTimer
begin

text \<open>
  The operator's table of \<open>container/rootfs/fn_allreduce_timer.py\<close>, \<open>report\<close>, as the text it returns,
  and the rank of the process, \<open>_rank\<close>. \<open>show\<close> is \<open>str\<close> of a float.
\<close>

section \<open>The rank\<close>

text \<open>
  torch's answer when it is there and initialised (\<open>None\<close> otherwise), else the variable \<open>RANK\<close> when it
  is a number; an exception of torch is passed over.
\<close>

definition ar_rank_of :: "int res option \<Rightarrow> (string \<Rightarrow> string option) \<Rightarrow> int option" where
  "ar_rank_of torch environ =
     (case torch of
        Some (Inr r) \<Rightarrow> Some r
      | _ \<Rightarrow> Option.bind (environ ''RANK'') parse_int)"

section \<open>The cells\<close>

text \<open>\<open>d[k] or 0\<close> of a statistic, and a share.\<close>

definition stat_cell :: "pyfloat list \<Rightarrow> string" where
  "stat_cell values =
     left_pad 8 (fixed 1 (case ar_stats values of
        JObj kvs \<Rightarrow> (case map_of kvs ''p50'' of Some (JFloat x) \<Rightarrow> x | _ \<Rightarrow> Fin 0)
      | _ \<Rightarrow> Fin 0))"

definition show_share :: "(pyfloat \<Rightarrow> string) \<Rightarrow> json \<Rightarrow> string" where
  "show_share show j = (case j of JFloat x \<Rightarrow> show x | _ \<Rightarrow> ''None'')"

section \<open>The table\<close>

definition of_kind :: "ar_row list \<Rightarrow> bucket \<Rightarrow> ar_row list" where
  "of_kind rs k = filter (\<lambda>r. row_kind r = k) rs"

definition bucket_line :: "ar_row list \<Rightarrow> bucket \<Rightarrow> string" where
  "bucket_line rs k =
     (let sel = of_kind rs k
      in ''  '' @ right_pad 9 (bucket_name k) @ left_pad 6 (str_nat (length sel)) @ ''  '' @
         stat_cell (map row_detect sel) @ '' p50  '' @ stat_cell (map row_exchange sel) @ '' p50  '' @
         stat_cell (List.map_filter row_compute sel) @ '' p50'')"

definition shown_buckets :: "ar_row list \<Rightarrow> bucket list" where
  "shown_buckets rs = filter (\<lambda>k. of_kind rs k \<noteq> []) BUCKETS"

definition ar_report :: "(pyfloat \<Rightarrow> string) \<Rightarrow> ar_config \<Rightarrow> ar_state \<Rightarrow> string" where
  "ar_report show c s =
     (let rs = ar_rows s;
          detect = us_total (map row_detect rs); exchange = us_total (map row_exchange rs);
          compute = us_total (List.map_filter row_compute rs);
          grand = float_sum [detect, exchange, compute]
      in if rs = [] then
           ''### ALLREDUCE SPLIT ###'' @ [newline] @
           ''  (no collectives recorded -- either FN_ALLREDUCE_TIMER was not 1, install() never ran, or the window skip of ''
           @ str_nat (ar_start c) @ '' was never reached)'' @ [newline, newline]
         else
           join [newline]
             ([''### ALLREDUCE SPLIT ('' @ str_nat (length rs) @ '' collectives, '' @
               str_nat (count_list (map row_fired rs) (Some True)) @ '' custom-path fired / '' @
               str_nat (count_list (map row_fired rs) (Some False)) @ '' declined) ###'',
               ''  bucket     n      detect us      exchange us     compute us''] @
              map (bucket_line rs) (shown_buckets rs) @
              [''  share: detect '' @ show_share show (share_of grand detect) @ '' / exchange '' @
               show_share show (share_of grand exchange) @ '' / compute '' @ show_share show (share_of grand compute),
               []]) @ [newline, newline])"

section \<open>No collective is missing from the table\<close>

text \<open>
  The table accounts for every recorded collective: the counts of the lines it shows add up to the
  count of its heading, and a line it leaves out stands for none.
\<close>

theorem report_accounts:
  "sum_list (map (\<lambda>k. length (of_kind rs k)) (shown_buckets rs)) = length rs \<and>
   concat (map (of_kind rs) (filter (\<lambda>k. k \<notin> set (shown_buckets rs)) BUCKETS)) = []"
proof -
  have all: "sum_list (map (\<lambda>k. length (of_kind rs k)) BUCKETS) = length rs"
    proof (induction rs)
    case (Cons r rs)
    then show ?case by (cases "row_kind r") (simp_all add: of_kind_def BUCKETS_def)
  qed (simp add: of_kind_def BUCKETS_def)
  have "sum_list (map (\<lambda>k. length (of_kind rs k)) (shown_buckets rs)) = sum_list (map (\<lambda>k. length (of_kind rs k)) BUCKETS)"
    by (simp add: shown_buckets_def BUCKETS_def)
  moreover have "of_kind rs k = []" if "k \<notin> set (shown_buckets rs)" for k
    using that by (cases k) (simp_all add: shown_buckets_def BUCKETS_def split: if_splits)
  ultimately show ?thesis using all by auto
qed

end
