(* ===== verification/StreamMetrics.thy ===== *)
theory StreamMetrics
  imports PyStats
begin

text \<open>
  The engine's side of \<open>bench/fn-stream-client.py\<close>: reading the Prometheus exposition text, the
  mean of a histogram over the requests between two scrapes, and the split of the first-token
  budget into queue wait and prompt processing. A scrape that failed is \<open>None\<close>. A reading is the
  pair of cumulative values; every float is an IEEE double.
\<close>

section \<open>Names\<close>

definition QUEUE_TIME_METRIC :: string where
  "QUEUE_TIME_METRIC = ''vllm:request_queue_time_seconds''"

definition PREFILL_TIME_METRIC :: string where
  "PREFILL_TIME_METRIC = ''vllm:request_prefill_time_seconds''"

definition TTFT_METRIC :: string where
  "TTFT_METRIC = ''vllm:time_to_first_token_seconds''"

definition INFERENCE_TIME_METRIC :: string where
  "INFERENCE_TIME_METRIC = ''vllm:request_inference_time_seconds''"

definition DECODE_TIME_METRIC :: string where
  "DECODE_TIME_METRIC = ''vllm:request_decode_time_seconds''"

definition SCRAPE_UNAVAILABLE :: string where
  "SCRAPE_UNAVAILABLE = ''scrape-unavailable''"

lemmas metric_names =
  QUEUE_TIME_METRIC_def PREFILL_TIME_METRIC_def TTFT_METRIC_def INFERENCE_TIME_METRIC_def
  DECODE_TIME_METRIC_def SCRAPE_UNAVAILABLE_def

section \<open>Reading the exposition text\<close>

record hist_reading =
  hr_total :: pyfloat
  hr_count :: pyfloat

type_synonym readings = "(string \<times> hist_reading) list"

definition no_reading :: hist_reading where
  "no_reading = \<lparr>hr_total = Fin 0, hr_count = Fin 0\<rparr>"

text \<open>\<open>d.setdefault(k, v)\<close> followed by an update of the value found.\<close>

definition change :: "readings \<Rightarrow> string \<Rightarrow> (hist_reading \<Rightarrow> hist_reading) \<Rightarrow> readings" where
  "change m k f = map (\<lambda>(k', r). (k', if k' = k then f r else r)) (setdefault m k no_reading)"

text \<open>One line: a name up to its labels, and the last word as a float.\<close>

definition sample_of :: "string \<Rightarrow> (string \<times> pyfloat) option" where
  "sample_of raw =
     (let line = strip raw
      in if line = [] \<or> startswith line ''#'' then None
         else let parts = split_ws line
              in if length parts < 2 then None
                 else map_option (\<lambda>v. (takeWhile (\<lambda>c. c \<noteq> CHR ''{'') (hd parts), v)) (parse_float (last parts)))"

definition add_sample :: "readings \<Rightarrow> string \<times> pyfloat \<Rightarrow> readings" where
  "add_sample m s =
     (case s of (name, v) \<Rightarrow>
        if endswith name ''_sum'' then change m (take (length name - 4) name) (\<lambda>r. r\<lparr>hr_total := v\<rparr>)
        else if endswith name ''_count'' then change m (take (length name - 6) name) (\<lambda>r. r\<lparr>hr_count := v\<rparr>)
        else m)"

definition parse_metrics :: "string \<Rightarrow> readings" where
  "parse_metrics text = foldl add_sample [] (List.map_filter sample_of (splitlines text))"

text \<open>A scrape: \<open>fetch\<close> is the request for the page, its text or the exception.\<close>

definition scrape_metrics :: "(string \<Rightarrow> string res) \<Rightarrow> string \<Rightarrow> readings res" where
  "scrape_metrics fetch url = res_bind (fetch url) (\<lambda>text. returned (parse_metrics text))"

section \<open>The mean over a batch\<close>

definition hist_delta_mean :: "readings option \<Rightarrow> readings option \<Rightarrow> string \<Rightarrow> (pyfloat option \<times> int) res" where
  "hist_delta_mean before after metric =
     (case (before, after) of
        (Some bs, Some as) \<Rightarrow>
          (case map_of as metric of
             None \<Rightarrow> returned (None, 0)
           | Some a \<Rightarrow>
               let b = (case map_of bs metric of None \<Rightarrow> no_reading | Some r \<Rightarrow> r);
                   d_sum = fsub (hr_total a) (hr_total b); d_count = fsub (hr_count a) (hr_count b)
               in if fle d_count (Fin 0) then returned (None, 0)
                  else res_bind (fdiv d_sum d_count) (\<lambda>q.
                       res_bind (int_of_float d_count) (\<lambda>n. returned (Some q, n))))
      | _ \<Rightarrow> returned (None, 0))"

record first_token_split =
  queue_wait_s :: "pyfloat option"
  prefill_s :: "pyfloat option"
  queue_samples :: int
  prefill_samples :: int
  prefill_source :: string

definition split_first_token ::
  "readings option \<Rightarrow> readings option \<Rightarrow> string \<Rightarrow> string \<Rightarrow> first_token_split res" where
  "split_first_token before after queue_metric prefill_metric =
     (if before = None \<or> after = None
      then returned \<lparr>queue_wait_s = None, prefill_s = None, queue_samples = 0, prefill_samples = 0,
                     prefill_source = SCRAPE_UNAVAILABLE\<rparr>
      else
        res_bind (hist_delta_mean before after queue_metric) (\<lambda>(queue_wait, queue_n).
        res_bind (hist_delta_mean before after prefill_metric) (\<lambda>(prefill, prefill_n).
        res_bind
          (if prefill \<noteq> None then returned (prefill, prefill_n, prefill_metric)
           else
             res_bind (hist_delta_mean before after INFERENCE_TIME_METRIC) (\<lambda>(infer, _).
             res_bind (hist_delta_mean before after DECODE_TIME_METRIC) (\<lambda>(decode, _).
               case (infer, decode) of
                 (Some i, Some d) \<Rightarrow>
                   returned (Some (fmax (Fin 0) (fsub i d)), - 1,
                             INFERENCE_TIME_METRIC @ '' - '' @ DECODE_TIME_METRIC)
               | _ \<Rightarrow> returned (prefill, prefill_n, prefill_metric))))
          (\<lambda>(p, n, src).
             returned \<lparr>queue_wait_s = queue_wait, prefill_s = p, queue_samples = queue_n,
                       prefill_samples = n, prefill_source = src\<rparr>))))"

section \<open>What the parser reads\<close>

text \<open>The specification: the last sample of a name.\<close>

definition samples :: "string \<Rightarrow> (string \<times> pyfloat) list" where
  "samples text = List.map_filter sample_of (splitlines text)"

definition last_value :: "string \<Rightarrow> (string \<times> pyfloat) list \<Rightarrow> pyfloat option" where
  "last_value name ss = map_of (rev ss) name"

definition reading_of :: "(string \<times> pyfloat) list \<Rightarrow> string \<Rightarrow> hist_reading option" where
  "reading_of ss base =
     (case (last_value (base @ ''_sum'') ss, last_value (base @ ''_count'') ss) of
        (None, None) \<Rightarrow> None
      | (s, c) \<Rightarrow> Some \<lparr>hr_total = (case s of None \<Rightarrow> Fin 0 | Some x \<Rightarrow> x),
                        hr_count = (case c of None \<Rightarrow> Fin 0 | Some x \<Rightarrow> x)\<rparr>)"

lemma map_of_change:
  "map_of (change m k f) j =
     (if j = k then Some (f (case map_of m k of None \<Rightarrow> no_reading | Some r \<Rightarrow> r)) else map_of m j)"
proof -
  have "map_of (map (\<lambda>(k', r). (k', if k' = k then f r else r)) xs) j =
      map_option (\<lambda>r. if j = k then f r else r) (map_of xs j)" for xs
    by (induction xs) auto
  then show ?thesis by (auto simp: change_def map_of_setdefault option.map_ident split: option.split)
qed

lemma last_value_snoc: "last_value name (ss @ [(n, v)]) = (if n = name then Some v else last_value name ss)"
  by (simp add: last_value_def)

lemma suffixes_differ [simp]:
  "t @ ''_sum'' \<noteq> b @ ''_count''" "b @ ''_count'' \<noteq> t @ ''_sum''"
proof -
  have "last (t @ ''_sum'') \<noteq> last (b @ ''_count'')" by simp
  then show "t @ ''_sum'' \<noteq> b @ ''_count''" by metis
  then show "b @ ''_count'' \<noteq> t @ ''_sum''" by metis
qed

lemma reading_of_add: "map_of (add_sample m s) base = reading_of (ss @ [s]) base"
  if m: "\<And>b. map_of m b = reading_of ss b"
proof (cases s)
  case (Pair name v)
  have none: "map_of m t = None \<Longrightarrow> last_value (t @ ''_sum'') ss = None \<and> last_value (t @ ''_count'') ss = None" for t
    by (auto simp: m reading_of_def split: option.splits)
  consider t where "name = t @ ''_sum''" | t where "name = t @ ''_count''"
    | "\<not> endswith name ''_sum''" "\<not> endswith name ''_count''"
    by (auto simp: endswith_iff)
  then show ?thesis
  proof cases
    case 1
    then show ?thesis unfolding Pair
      by (auto simp: add_sample_def map_of_change m reading_of_def last_value_snoc no_reading_def split: option.split)
  next
    case 2
    then have "\<not> endswith name ''_sum''" by (auto simp: endswith_iff)
    then show ?thesis using 2 unfolding Pair
      by (auto simp: add_sample_def map_of_change m reading_of_def last_value_snoc no_reading_def split: option.split)
  next
    case 3
    then have "name \<noteq> base @ ''_sum''" "name \<noteq> base @ ''_count''" by auto
    then show ?thesis using 3 unfolding Pair
      by (simp add: add_sample_def m reading_of_def last_value_snoc)
  qed
qed

lemma foldl_samples: "map_of (foldl add_sample [] ss) base = reading_of ss base"
proof (induction ss arbitrary: base rule: rev_induct)
  case Nil
  then show ?case by (simp add: reading_of_def last_value_def)
next
  case (snoc s ss)
  then show ?case by (simp add: reading_of_add)
qed

text \<open>
  The parser reads exactly the cumulative values of a histogram: a metric has a reading when a
  \<open>_sum\<close> or \<open>_count\<close> sample of it is in the text, and the reading holds the last one of each,
  whatever labels, comments, buckets and unreadable lines are around. In particular the series of
  one metric under different labels are not added up, the last one stands for all.
\<close>

theorem parse_metrics_spec:
  "map_of (parse_metrics text) base = reading_of (samples text) base"
  by (simp add: parse_metrics_def samples_def foldl_samples)

section \<open>The mean is of the batch\<close>

text \<open>
  The reading after a batch: the sum grew by \<open>s\<close> and the count by \<open>n\<close> since the reading before.
  Counts are integers that a double holds, and the batch's sum is a double.
\<close>

definition grew :: "readings \<Rightarrow> string \<Rightarrow> rat \<Rightarrow> nat \<Rightarrow> readings \<Rightarrow> bool" where
  "grew bs metric s n as \<longleftrightarrow>
     (\<exists>S (c :: nat).
        (case map_of bs metric of None \<Rightarrow> S = 0 \<and> c = 0
         | Some b \<Rightarrow> b = \<lparr>hr_total = Fin S, hr_count = Fin (of_nat c)\<rparr>) \<and>
        map_of as metric = Some \<lparr>hr_total = Fin (S + s), hr_count = Fin (of_nat (c + n))\<rparr>) \<and>
     fl64 s = Fin s \<and> n \<le> 2 ^ 53"

lemma fl64_nat: "n \<le> 2 ^ 53 \<Longrightarrow> fl64 (of_nat n) = Fin (of_nat n)"
  using fl64_int [of "int n"] by simp

lemma mean_of_grown:
  assumes "grew bs metric s n as"
  shows "hist_delta_mean (Some bs) (Some as) metric =
    (if n = 0 then returned (None, 0) else returned (Some (fl64 (s / of_nat n)), int n))"
proof -
  obtain S and c :: nat where b: "case map_of bs metric of None \<Rightarrow> S = 0 \<and> c = 0
      | Some b \<Rightarrow> b = \<lparr>hr_total = Fin S, hr_count = Fin (of_nat c)\<rparr>"
    and a: "map_of as metric = Some \<lparr>hr_total = Fin (S + s), hr_count = Fin (of_nat (c + n))\<rparr>"
    and s: "fl64 s = Fin s" and n: "n \<le> 2 ^ 53"
    using assms by (auto simp: grew_def)
  define b where "b = (case map_of bs metric of None \<Rightarrow> no_reading | Some r \<Rightarrow> r)"
  have bb: "b = \<lparr>hr_total = Fin S, hr_count = Fin (of_nat c)\<rparr>"
    using b by (auto simp: b_def no_reading_def split: option.splits)
  have "fsub (Fin (S + s)) (hr_total b) = Fin s" "fsub (Fin (of_nat (c + n))) (hr_count b) = Fin (of_nat n)"
    using s fl64_nat [OF n] by (simp_all add: bb fsub_def)
  then show ?thesis
    using a by (simp add: hist_delta_mean_def b_def [symmetric] fle_def trunc_rat_of_int [of "int n", simplified])
qed

text \<open>
  C18: A published mean is of the batch and of nothing else: when the sum of a histogram grew by
  \<open>s\<close> over \<open>n\<close> requests, the mean is the double of \<open>s / n\<close> whatever the engine had accumulated
  before, no number is published when no request landed, and a scrape that failed on either side
  gives no number, never a mean over the engine's lifetime.
\<close>

theorem batch_mean_only:
  assumes "grew bs metric s n as"
  shows "hist_delta_mean (Some bs) (Some as) metric =
      (if n = 0 then returned (None, 0) else returned (Some (fl64 (s / of_nat n)), int n)) \<and>
    hist_delta_mean None (Some as) metric = returned (None, 0) \<and>
    hist_delta_mean (Some bs) None metric = returned (None, 0)"
  using mean_of_grown [OF assms] by (simp add: hist_delta_mean_def)

definition demo_metrics :: "rat \<Rightarrow> nat \<Rightarrow> readings" where
  "demo_metrics s c = [(''m'', \<lparr>hr_total = Fin s, hr_count = Fin (of_nat c)\<rparr>)]"

theorem batch_mean_only_witness:
  "grew (demo_metrics 1000 10) ''m'' (3 / 2) 2 (demo_metrics (2003 / 2) 12) \<and>
   hist_delta_mean (Some (demo_metrics 1000 10)) (Some (demo_metrics (2003 / 2) 12)) ''m'' =
     returned (Some (Fin (3 / 4)), 2)"
proof -
  have half: "fl64 (3 / 2) = Fin (3 / 2)" and quarter: "fl64 (3 / 4) = Fin (3 / 4)"
    by code_simp+
  have "map_of (demo_metrics (2003 / 2) 12) ''m'' =
      Some \<lparr>hr_total = Fin (1000 + 3 / 2), hr_count = Fin (of_nat (10 + 2))\<rparr>"
    by (simp add: demo_metrics_def)
  moreover have "map_of (demo_metrics 1000 10) ''m'' = Some \<lparr>hr_total = Fin 1000, hr_count = Fin (of_nat 10)\<rparr>"
    by (simp add: demo_metrics_def)
  ultimately have g: "grew (demo_metrics 1000 10) ''m'' (3 / 2) 2 (demo_metrics (2003 / 2) 12)"
    unfolding grew_def using half by (intro conjI exI [of _ 1000] exI [of _ "10 :: nat"]) auto
  then show ?thesis using batch_mean_only [OF g] quarter by simp
qed

section \<open>Where the split comes from\<close>

lemma mean_cases: "hist_delta_mean before after metric = returned (x, n) \<Longrightarrow> x = None \<Longrightarrow> n = 0"
  by (auto simp: hist_delta_mean_def Let_def res_simps split: option.splits if_splits)

lemma mean_other:
  "metric \<noteq> k \<Longrightarrow> hist_delta_mean (Some ((k, b) # bs)) (Some ((k, a) # as)) metric = hist_delta_mean (Some bs) (Some as) metric"
  by (simp add: hist_delta_mean_def Let_def split: option.split)

text \<open>The three ways a split that was measured can come out.\<close>

lemma split_cases:
  fixes bs as :: readings
  defines "hm \<equiv> hist_delta_mean (Some bs) (Some as)"
  assumes "split_first_token (Some bs) (Some as) q p = returned f"
  obtains qw qn pw pn where "hm q = returned (qw, qn)" "hm p = returned (pw, pn)"
      "f = \<lparr>queue_wait_s = qw, prefill_s = pw, queue_samples = qn, prefill_samples = pn, prefill_source = p\<rparr>"
  | qw qn i k d l where "hm q = returned (qw, qn)" "hm p = returned (None, 0)"
      "hm INFERENCE_TIME_METRIC = returned (Some i, k)" "hm DECODE_TIME_METRIC = returned (Some d, l)"
      "f = \<lparr>queue_wait_s = qw, prefill_s = Some (fmax (Fin 0) (fsub i d)), queue_samples = qn,
           prefill_samples = - 1, prefill_source = INFERENCE_TIME_METRIC @ '' - '' @ DECODE_TIME_METRIC\<rparr>"
proof -
  note run = assms(2) [unfolded split_first_token_def, folded hm_def, simplified]
  obtain qw qn where q: "hm q = returned (qw, qn)"
    using run by (cases "hm q") auto
  obtain pw pn where p: "hm p = returned (pw, pn)"
    using run by (cases "hm p") (auto simp: q)
  note run = run [unfolded q p, simplified]
  show thesis
  proof (cases pw)
    case (Some x)
    then show thesis using run by (intro that(1) [OF q p]) simp
  next
    case None
    then have pn: "pn = 0" using mean_cases p by (auto simp: hm_def)
    obtain i k where i: "hm INFERENCE_TIME_METRIC = returned (i, k)"
      using run None by (cases "hm INFERENCE_TIME_METRIC") auto
    obtain d l where d: "hm DECODE_TIME_METRIC = returned (d, l)"
      using run None by (cases "hm DECODE_TIME_METRIC") (auto simp: i)
    note run = run [unfolded i d None, simplified]
    show thesis
    proof (cases "i = None \<or> d = None")
      case True
      then show thesis using run None by (intro that(1) [OF q p]) (cases i; cases d; simp)
    next
      case False
      then obtain x y where xy: "i = Some x" "d = Some y" by auto
      show thesis
        using run by (intro that(2) [OF q p [unfolded None pn] i [unfolded xy] d [unfolded xy]]) (simp add: xy)
    qed
  qed
qed

text \<open>
  The source named beside the split is where its numbers come from: queue wait is always the
  mean of the queue histogram, prefill the mean of the prefill histogram, or the nonnegative
  difference of the inference and decode means when that histogram gave none and both of these
  did, or absent; and whatever the engine's first-token histogram reads before and after has no
  influence on any of it.
\<close>

theorem prefill_provenance:
  assumes "split_first_token (Some bs) (Some as) QUEUE_TIME_METRIC PREFILL_TIME_METRIC = returned f"
  shows "hist_delta_mean (Some bs) (Some as) QUEUE_TIME_METRIC = returned (queue_wait_s f, queue_samples f) \<and>
    (prefill_source f = PREFILL_TIME_METRIC \<and>
       hist_delta_mean (Some bs) (Some as) PREFILL_TIME_METRIC = returned (prefill_s f, prefill_samples f) \<or>
     prefill_source f = INFERENCE_TIME_METRIC @ '' - '' @ DECODE_TIME_METRIC \<and> prefill_samples f = - 1 \<and>
       hist_delta_mean (Some bs) (Some as) PREFILL_TIME_METRIC = returned (None, 0) \<and>
       (\<exists>i k d l. hist_delta_mean (Some bs) (Some as) INFERENCE_TIME_METRIC = returned (Some i, k) \<and>
          hist_delta_mean (Some bs) (Some as) DECODE_TIME_METRIC = returned (Some d, l) \<and>
          prefill_s f = Some (fmax (Fin 0) (fsub i d)))) \<and>
    split_first_token (Some ((TTFT_METRIC, b) # bs)) (Some ((TTFT_METRIC, a) # as))
      QUEUE_TIME_METRIC PREFILL_TIME_METRIC = returned f"
proof -
  have "hist_delta_mean (Some ((TTFT_METRIC, b) # bs)) (Some ((TTFT_METRIC, a) # as)) m =
      hist_delta_mean (Some bs) (Some as) m"
    if "m \<in> {QUEUE_TIME_METRIC, PREFILL_TIME_METRIC, INFERENCE_TIME_METRIC, DECODE_TIME_METRIC}" for m
    using that by (intro mean_other) (auto simp: metric_names)
  then have ttft: "split_first_token (Some ((TTFT_METRIC, b) # bs)) (Some ((TTFT_METRIC, a) # as))
      QUEUE_TIME_METRIC PREFILL_TIME_METRIC = returned f"
    using assms by (simp add: split_first_token_def cong: if_cong)
  show ?thesis
    by (rule split_cases [OF assms]) (use ttft in auto)
qed

definition demo_split :: "rat \<Rightarrow> nat \<Rightarrow> readings" where
  "demo_split s c =
     [(QUEUE_TIME_METRIC, \<lparr>hr_total = Fin s, hr_count = Fin (of_nat c)\<rparr>),
      (INFERENCE_TIME_METRIC, \<lparr>hr_total = Fin (4 * s), hr_count = Fin (of_nat c)\<rparr>),
      (DECODE_TIME_METRIC, \<lparr>hr_total = Fin (3 * s), hr_count = Fin (of_nat c)\<rparr>)]"

theorem prefill_provenance_witness:
  "\<exists>f. split_first_token (Some (demo_split 1 1)) (Some (demo_split 3 2)) QUEUE_TIME_METRIC PREFILL_TIME_METRIC = returned f \<and>
     prefill_s f = Some (Fin 2) \<and> prefill_samples f = - 1 \<and>
     split_first_token (Some ((TTFT_METRIC, no_reading) # demo_split 1 1))
       (Some ((TTFT_METRIC, \<lparr>hr_total = Fin 9, hr_count = Fin 2\<rparr>) # demo_split 3 2))
       QUEUE_TIME_METRIC PREFILL_TIME_METRIC = returned f"
proof -
  have run: "split_first_token (Some (demo_split 1 1)) (Some (demo_split 3 2)) QUEUE_TIME_METRIC PREFILL_TIME_METRIC =
      returned \<lparr>queue_wait_s = Some (Fin 2), prefill_s = Some (Fin 2), queue_samples = 1, prefill_samples = - 1,
        prefill_source = INFERENCE_TIME_METRIC @ '' - '' @ DECODE_TIME_METRIC\<rparr>"
    by code_simp
  show ?thesis
    using prefill_provenance [OF run, of no_reading "\<lparr>hr_total = Fin 9, hr_count = Fin 2\<rparr>"] run by simp
qed

end
