(* ===== verification/StreamRequest.thy ===== *)
theory StreamRequest
  imports PyStats
begin

text \<open>
  One streamed completion of \<open>bench/fn-stream-client.py\<close>: the fingerprint of a token sequence, the
  tokens of a chunk, and the request itself with its client-side clock. The engine is an argument:
  what opening a URL with a body gives (an exception, or the lines of the response and the
  exception that broke it off), what \<open>json.loads\<close> makes of a payload, and the readings of the
  clock in order. SHA-256 and \<open>str\<close> of floats, lists and dictionaries are arguments too. Text is
  the list of its UTF-8 bytes, so encoding it is the identity.
\<close>

section \<open>JSON values as Python objects\<close>

fun is_int :: "json \<Rightarrow> bool" where
  "is_int (JInt n) = True"
| "is_int (JBool b) = True"
| "is_int _ = False"

text \<open>\<open>d.get(k) or dflt\<close>.\<close>

definition dget_or :: "json \<Rightarrow> string \<Rightarrow> json \<Rightarrow> json res" where
  "dget_or d k dflt =
     res_bind (dget d k) (\<lambda>v. returned (case v of None \<Rightarrow> dflt | Some x \<Rightarrow> if truthy x then x else dflt))"

fun res_foldl :: "('x \<Rightarrow> 's \<Rightarrow> 's res) \<Rightarrow> 's \<Rightarrow> 'x list \<Rightarrow> 's res" where
  "res_foldl f s [] = returned s"
| "res_foldl f s (x # xs) = res_bind (f x s) (\<lambda>s'. res_foldl f s' xs)"

section \<open>Fingerprints\<close>

definition token_bytes :: "(json \<Rightarrow> string) \<Rightarrow> json \<Rightarrow> string" where
  "token_bytes show_rest item = (if is_int item then ''i:'' else ''s:'') @ py_str show_rest item @ '';''"

definition stream_bytes :: "(json \<Rightarrow> string) \<Rightarrow> json list \<Rightarrow> string" where
  "stream_bytes show_rest items = concat (map (token_bytes show_rest) items)"

definition fingerprint_of :: "(string \<Rightarrow> string) \<Rightarrow> (json \<Rightarrow> string) \<Rightarrow> json list \<Rightarrow> string" where
  "fingerprint_of sha256 show_rest items = (if items = [] then [] else sha256 (stream_bytes show_rest items))"

section \<open>The tokens of a chunk\<close>

definition direct_ids :: "json option \<Rightarrow> json" where
  "direct_ids direct =
     (case direct of
        Some (JInt n) \<Rightarrow> JList [JInt n]
      | Some (JBool b) \<Rightarrow> JList [JBool b]
      | Some (JList xs) \<Rightarrow> JList (filter is_int xs)
      | _ \<Rightarrow> JList [])"

definition extract_chunk_tokens :: "json \<Rightarrow> (json \<times> json) res" where
  "extract_chunk_tokens choice =
     res_bind (dget_or choice ''logprobs'' (JObj [])) (\<lambda>lp.
     res_bind (dget_or lp ''tokens'' (JList [])) (\<lambda>tok_strs.
     res_bind (dget_or lp ''token_ids'' (JList [])) (\<lambda>ids.
     res_bind (dget choice ''token_ids'') (\<lambda>direct.
     res_bind (dget choice ''text'') (\<lambda>text.
       let tok_ids = (if truthy ids then ids else direct_ids direct)
       in returned
            (if \<not> truthy tok_strs \<and> \<not> truthy tok_ids
             then (case text of Some t \<Rightarrow> (if truthy t then JList [t] else tok_strs) | None \<Rightarrow> tok_strs)
             else tok_strs, tok_ids))))))"

section \<open>The request\<close>

record stream_state =
  id_seq :: "json list"
  str_seq :: "json list"
  all_ids :: bool
  t_first :: "pyfloat option"
  usage :: "json option"
  ticks :: nat

text \<open>The token pieces and ids at position \<open>i\<close>: \<open>''\<close> and \<open>None\<close> where one list is shorter.\<close>

definition token_at :: "json \<Rightarrow> json \<Rightarrow> nat \<Rightarrow> (json \<times> json option) res" where
  "token_at tok_strs tok_ids i =
     res_bind (res_bind (py_len tok_strs) (\<lambda>n. if i < n then py_item tok_strs i else returned (JStr []))) (\<lambda>s.
     res_bind (res_bind (py_len tok_ids)
                 (\<lambda>n. if i < n then res_bind (py_item tok_ids i) (\<lambda>v. returned (Some v)) else returned None)) (\<lambda>tid.
       returned (s, tid)))"

definition add_token :: "stream_state \<Rightarrow> json \<times> json option \<Rightarrow> stream_state" where
  "add_token st p =
     (case p of (s, tid) \<Rightarrow>
        (case tid of
           Some v \<Rightarrow> if is_int v then st\<lparr>id_seq := id_seq st @ [v], str_seq := str_seq st @ [s]\<rparr>
                     else st\<lparr>all_ids := False, str_seq := str_seq st @ [s]\<rparr>
         | None \<Rightarrow> st\<lparr>all_ids := False, str_seq := str_seq st @ [s]\<rparr>))"

definition choice_tokens :: "json \<Rightarrow> (json \<times> json option) list res" where
  "choice_tokens choice =
     res_bind (extract_chunk_tokens choice) (\<lambda>(tok_strs, tok_ids).
     res_bind (py_len tok_strs) (\<lambda>a.
     res_bind (py_len tok_ids) (\<lambda>b.
       res_seq (map (token_at tok_strs tok_ids) [0..<max a b]))))"

text \<open>A choice without tokens does not read the clock.\<close>

definition read_choice :: "(nat \<Rightarrow> pyfloat) \<Rightarrow> json \<Rightarrow> stream_state \<Rightarrow> stream_state res" where
  "read_choice clock choice st =
     res_bind (choice_tokens choice) (\<lambda>ps.
       returned
         (if ps = [] then st
          else foldl add_token
                 (st\<lparr>t_first := (case t_first st of None \<Rightarrow> Some (clock (ticks st)) | Some t \<Rightarrow> Some t),
                     ticks := Suc (ticks st)\<rparr>) ps))"

definition read_chunk :: "(nat \<Rightarrow> pyfloat) \<Rightarrow> json \<Rightarrow> stream_state \<Rightarrow> stream_state res" where
  "read_chunk clock chunk st =
     res_bind (dget chunk ''usage'') (\<lambda>u.
     res_bind (dget_or chunk ''choices'' (JList [])) (\<lambda>cs.
     res_bind (py_list cs) (\<lambda>choices.
       res_foldl (read_choice clock)
         (case u of Some x \<Rightarrow> if truthy x then st\<lparr>usage := Some x\<rparr> else st | None \<Rightarrow> st) choices)))"

text \<open>The data of a line of the event stream; other lines are skipped.\<close>

definition payload_of :: "string \<Rightarrow> string option" where
  "payload_of raw =
     (let line = strip raw in if startswith line ''data:'' then Some (strip (drop 5 line)) else None)"

fun read_lines ::
  "(string \<Rightarrow> json option) \<Rightarrow> (nat \<Rightarrow> pyfloat) \<Rightarrow> string list \<Rightarrow> pyexc option \<Rightarrow> stream_state \<Rightarrow> stream_state res" where
  "read_lines loads clock [] broke st = (case broke of None \<Rightarrow> returned st | Some e \<Rightarrow> raised e)"
| "read_lines loads clock (raw # rest) broke st =
     (case payload_of raw of
        None \<Rightarrow> read_lines loads clock rest broke st
      | Some payload \<Rightarrow>
          if payload = ''[DONE]'' then returned st
          else (case loads payload of
                  None \<Rightarrow> read_lines loads clock rest broke st
                | Some chunk \<Rightarrow> res_bind (read_chunk clock chunk st) (read_lines loads clock rest broke)))"

definition start_stream :: stream_state where
  "start_stream = \<lparr>id_seq = [], str_seq = [], all_ids = True, t_first = None, usage = None, ticks = 1\<rparr>"

record stream_rec =
  r_ttft :: "pyfloat option"
  r_decode :: "pyfloat option"
  r_total :: pyfloat
  r_prompt_tokens :: "json option"
  r_completion_tokens :: "json option"
  r_fingerprint :: string
  r_token_ids :: "json list option"

definition token_sequence :: "stream_state \<Rightarrow> json list" where
  "token_sequence st = (if all_ids st \<and> id_seq st \<noteq> [] then id_seq st else str_seq st)"

definition finish_stream ::
  "(string \<Rightarrow> string) \<Rightarrow> (json \<Rightarrow> string) \<Rightarrow> (nat \<Rightarrow> pyfloat) \<Rightarrow> stream_state \<Rightarrow> stream_rec res" where
  "finish_stream sha256 show_rest clock st =
     (let total = fsub (clock (ticks st)) (clock 0);
          ttft = map_option (\<lambda>t. fsub t (clock 0)) (t_first st)
      in res_bind (dget (or_empty (usage st)) ''prompt_tokens'') (\<lambda>pt.
         res_bind (dget (or_empty (usage st)) ''completion_tokens'') (\<lambda>ct.
           returned
             \<lparr>r_ttft = ttft, r_decode = map_option (\<lambda>t. fmax (Fin 0) (fsub total t)) ttft, r_total = total,
              r_prompt_tokens = pt, r_completion_tokens = ct,
              r_fingerprint = fingerprint_of sha256 show_rest (token_sequence st),
              r_token_ids = (if all_ids st \<and> id_seq st \<noteq> [] then Some (id_seq st) else None)\<rparr>)))"

type_synonym response = "(string list \<times> pyexc option) res"

definition rstrip_slash :: "string \<Rightarrow> string" where
  "rstrip_slash s = rev (dropWhile (\<lambda>c. c = CHR ''/'') (rev s))"

definition completion_body :: "string \<Rightarrow> string \<Rightarrow> int \<Rightarrow> pyfloat \<Rightarrow> json" where
  "completion_body model prompt max_tokens temperature =
     JObj [(''model'', JStr model), (''prompt'', JStr prompt), (''max_tokens'', JInt max_tokens),
       (''temperature'', JFloat temperature), (''stream'', JBool True),
       (''stream_options'', JObj [(''include_usage'', JBool True)]), (''logprobs'', JInt 1)]"

definition stream_one_request ::
  "(string \<Rightarrow> json \<Rightarrow> response) \<Rightarrow> (string \<Rightarrow> json option) \<Rightarrow> (string \<Rightarrow> string) \<Rightarrow> (json \<Rightarrow> string)
     \<Rightarrow> (nat \<Rightarrow> pyfloat) \<Rightarrow> string \<Rightarrow> string \<Rightarrow> string \<Rightarrow> int \<Rightarrow> pyfloat \<Rightarrow> stream_rec res" where
  "stream_one_request urlopen loads sha256 show_rest clock api model prompt max_tokens temperature =
     res_bind (urlopen (rstrip_slash api @ ''/v1/completions'') (completion_body model prompt max_tokens temperature))
       (\<lambda>(ls, broke).
     res_bind (read_lines loads clock ls broke start_stream) (finish_stream sha256 show_rest clock))"

section \<open>The token sequence\<close>

text \<open>The specification: all tokens of the response in order, however they are cut into chunks.\<close>

definition choice_toks :: "json \<Rightarrow> (json \<times> json option) list" where
  "choice_toks c = (case choice_tokens c of Inl _ \<Rightarrow> [] | Inr ps \<Rightarrow> ps)"

definition chunk_toks :: "json \<Rightarrow> (json \<times> json option) list" where
  "chunk_toks chunk =
     (case res_bind (dget_or chunk ''choices'' (JList [])) py_list of
        Inl _ \<Rightarrow> [] | Inr cs \<Rightarrow> concat (map choice_toks cs))"

fun tokens_of :: "(string \<Rightarrow> json option) \<Rightarrow> string list \<Rightarrow> (json \<times> json option) list" where
  "tokens_of loads [] = []"
| "tokens_of loads (raw # rest) =
     (case payload_of raw of
        None \<Rightarrow> tokens_of loads rest
      | Some payload \<Rightarrow>
          if payload = ''[DONE]'' then []
          else (case loads payload of None \<Rightarrow> [] | Some chunk \<Rightarrow> chunk_toks chunk) @ tokens_of loads rest)"

fun int_id :: "json \<times> json option \<Rightarrow> json option" where
  "int_id (s, Some v) = (if is_int v then Some v else None)"
| "int_id (s, None) = None"

text \<open>The ids when every token has one, the pieces otherwise.\<close>

definition sequence_of :: "(json \<times> json option) list \<Rightarrow> json list" where
  "sequence_of toks =
     (if list_all (\<lambda>p. int_id p \<noteq> None) toks then List.map_filter int_id toks else map fst toks)"

definition reads :: "(nat \<Rightarrow> pyfloat) \<Rightarrow> (json \<times> json option) list \<Rightarrow> stream_state \<Rightarrow> bool" where
  "reads clock toks st \<longleftrightarrow>
     id_seq st = List.map_filter int_id toks \<and> str_seq st = map fst toks \<and>
     all_ids st = list_all (\<lambda>p. int_id p \<noteq> None) toks \<and>
     t_first st = (if toks = [] then None else Some (clock 1)) \<and> (toks = [] \<longrightarrow> ticks st = 1) \<and> 1 \<le> ticks st"

lemma map_filter_append: "List.map_filter f (xs @ ys) = List.map_filter f xs @ List.map_filter f ys"
  by (simp add: List.map_filter_def)

lemma add_tokens_seqs:
  "id_seq (foldl add_token st ps) = id_seq st @ List.map_filter int_id ps"
  "str_seq (foldl add_token st ps) = str_seq st @ map fst ps"
  "all_ids (foldl add_token st ps) \<longleftrightarrow> all_ids st \<and> list_all (\<lambda>p. int_id p \<noteq> None) ps"
  "t_first (foldl add_token st ps) = t_first st" "ticks (foldl add_token st ps) = ticks st"
  by (induction ps arbitrary: st)
    (auto simp: add_token_def map_filter_simps split: prod.split option.split)

lemma reads_choice:
  assumes "reads clock toks st" "read_choice clock c st = returned st'"
  shows "reads clock (toks @ choice_toks c) st'"
proof -
  obtain ps where ps: "choice_tokens c = returned ps"
    using assms(2) by (auto simp: read_choice_def res_simps)
  show ?thesis
  proof (cases "ps = []")
    case True
    then show ?thesis using assms by (simp add: read_choice_def choice_toks_def ps)
  next
    case False
    then show ?thesis using assms
      by (auto simp: read_choice_def choice_toks_def ps reads_def add_tokens_seqs map_filter_append split: if_splits)
  qed
qed

lemma reads_choices:
  "reads clock toks st \<Longrightarrow> res_foldl (read_choice clock) st cs = returned st'
     \<Longrightarrow> reads clock (toks @ concat (map choice_toks cs)) st'"
proof (induction cs arbitrary: toks st)
  case (Cons c cs)
  from Cons.prems(2) obtain st1 where st1: "read_choice clock c st = returned st1"
      "res_foldl (read_choice clock) st1 cs = returned st'"
    by (auto simp: res_simps)
  show ?case using Cons.IH [OF reads_choice [OF Cons.prems(1) st1(1)] st1(2)] by simp
qed simp

lemma reads_chunk:
  assumes "reads clock toks st" "read_chunk clock chunk st = returned st'"
  shows "reads clock (toks @ chunk_toks chunk) st'"
proof -
  obtain u cs choices where r: "dget_or chunk ''choices'' (JList []) = returned cs" "py_list cs = returned choices"
      "res_foldl (read_choice clock)
         (case u of Some x \<Rightarrow> if truthy x then st\<lparr>usage := Some x\<rparr> else st | None \<Rightarrow> st) choices = returned st'"
    using assms(2) by (auto simp: read_chunk_def res_simps)
  have "reads clock toks (case u of Some x \<Rightarrow> if truthy x then st\<lparr>usage := Some x\<rparr> else st | None \<Rightarrow> st)"
    using assms(1) by (auto simp: reads_def split: option.split)
  then show ?thesis using reads_choices r by (simp add: chunk_toks_def)
qed

lemma reads_lines:
  "reads clock toks st \<Longrightarrow> read_lines loads clock ls broke st = returned st'
     \<Longrightarrow> reads clock (toks @ tokens_of loads ls) st'"
proof (induction ls arbitrary: toks st)
  case Nil
  then show ?case by (auto split: option.splits)
next
  case (Cons raw rest)
  show ?case
  proof (cases "payload_of raw")
    case None
    then show ?thesis using Cons by simp
  next
    case (Some payload)
    note data = Some
    show ?thesis
    proof (cases "payload = ''[DONE]''")
      case True
      then show ?thesis using Cons.prems data by simp
    next
      case False
      show ?thesis
      proof (cases "loads payload")
        case None
        then show ?thesis using Cons.IH [of toks st] Cons.prems data False by simp
      next
        case (Some chunk)
        with Cons.prems(2) data False obtain st1 where st1: "read_chunk clock chunk st = returned st1"
            "read_lines loads clock rest broke st1 = returned st'"
          by (auto simp: res_simps)
        show ?thesis
          using Cons.IH [OF reads_chunk [OF Cons.prems(1) st1(1)] st1(2)] data False Some by simp
      qed
    qed
  qed
qed

lemma reads_start: "reads clock [] start_stream"
  by (simp add: reads_def start_stream_def map_filter_simps)

lemma sequence_of_reads:
  assumes "reads clock toks st"
  shows "token_sequence st = sequence_of toks"
proof (cases "list_all (\<lambda>p. int_id p \<noteq> None) toks")
  case True
  show ?thesis
  proof (cases toks)
    case Nil
    then show ?thesis using assms by (simp add: reads_def token_sequence_def sequence_of_def map_filter_simps)
  next
    case (Cons p ps)
    then have "List.map_filter int_id toks \<noteq> []" using True by (auto simp: map_filter_simps)
    then show ?thesis using assms True by (simp add: reads_def token_sequence_def sequence_of_def)
  qed
next
  case False
  then show ?thesis using assms by (simp add: reads_def token_sequence_def sequence_of_def)
qed

lemma request_reads:
  assumes "urlopen (rstrip_slash api @ ''/v1/completions'') (completion_body model prompt max_tokens temperature) =
      returned (ls, broke)"
    and "stream_one_request urlopen loads sha256 show_rest clock api model prompt max_tokens temperature = returned r"
  obtains st where "reads clock (tokens_of loads ls) st" "finish_stream sha256 show_rest clock st = returned r"
proof -
  from assms obtain st where st: "read_lines loads clock ls broke start_stream = returned st"
      "finish_stream sha256 show_rest clock st = returned r"
    by (auto simp: stream_one_request_def res_simps)
  show thesis using that reads_lines [OF reads_start st(1)] st(2) by simp
qed

lemma finish_fields:
  assumes "finish_stream sha256 show_rest clock st = returned r"
  shows "r_fingerprint r = fingerprint_of sha256 show_rest (token_sequence st)"
    "r_ttft r = map_option (\<lambda>t. fsub t (clock 0)) (t_first st)"
    "r_total r = fsub (clock (ticks st)) (clock 0)"
    "r_decode r = map_option (\<lambda>t. fmax (Fin 0) (fsub (r_total r) t)) (r_ttft r)"
proof -
  obtain pt where pt: "dget (or_empty (usage st)) ''prompt_tokens'' = returned pt"
    using assms by (cases "dget (or_empty (usage st)) ''prompt_tokens''") (simp_all add: finish_stream_def)
  obtain ct where ct: "dget (or_empty (usage st)) ''completion_tokens'' = returned ct"
    using assms by (cases "dget (or_empty (usage st)) ''completion_tokens''") (simp_all add: finish_stream_def pt)
  note r = assms [unfolded finish_stream_def Let_def pt ct res_bind_simps, THEN sum.inject(2) [THEN iffD1], symmetric]
  show "r_fingerprint r = fingerprint_of sha256 show_rest (token_sequence st)"
    "r_ttft r = map_option (\<lambda>t. fsub t (clock 0)) (t_first st)"
    "r_total r = fsub (clock (ticks st)) (clock 0)"
    "r_decode r = map_option (\<lambda>t. fmax (Fin 0) (fsub (r_total r) t)) (r_ttft r)"
    unfolding r by simp_all
qed

text \<open>
  C27: The fingerprint of a completion is over the tokens the response carries, in order, the ids
  when every token came with an integer id and the pieces otherwise. How the engine cuts them into
  chunks, choices without tokens, keep-alive and unreadable lines, the usage report and the clock
  have no influence, and nothing after \<open>[DONE]\<close> is read. A request has a first-token time exactly
  when a token came, and no token means no fingerprint.
\<close>

theorem fingerprint_of_tokens:
  assumes "urlopen (rstrip_slash api @ ''/v1/completions'') (completion_body model prompt max_tokens temperature) =
      returned (ls, broke)"
    and "stream_one_request urlopen loads sha256 show_rest clock api model prompt max_tokens temperature = returned r"
  shows "r_fingerprint r = fingerprint_of sha256 show_rest (sequence_of (tokens_of loads ls)) \<and>
    (r_ttft r = None \<longleftrightarrow> tokens_of loads ls = []) \<and>
    (tokens_of loads ls = [] \<longleftrightarrow> sequence_of (tokens_of loads ls) = [])"
proof -
  obtain st where st: "reads clock (tokens_of loads ls) st" "finish_stream sha256 show_rest clock st = returned r"
    using request_reads [OF assms] .
  have "sequence_of toks = [] \<longleftrightarrow> toks = []" for toks
    by (cases toks) (auto simp: sequence_of_def map_filter_simps)
  then show ?thesis
    using finish_fields [OF st(2)] sequence_of_reads [OF st(1)] st(1) by (simp add: reads_def)
qed

section \<open>The client's clock\<close>

text \<open>
  With a clock that does not run backwards the times of a request fit together: the first
  token is not before the release and not after the end, the time after it is not negative, and it
  is the total minus the first-token time whenever that difference is a number.
\<close>

theorem request_times:
  assumes "urlopen (rstrip_slash api @ ''/v1/completions'') (completion_body model prompt max_tokens temperature) =
      returned (ls, broke)"
    and "stream_one_request urlopen loads sha256 show_rest (\<lambda>i. Fin (c i)) api model prompt max_tokens temperature = returned r"
    and "mono c"
  shows "Fin 0 \<le> r_total r \<and>
    (r_ttft r = None \<and> r_decode r = None \<or>
     (\<exists>t d. r_ttft r = Some t \<and> r_decode r = Some d \<and> Fin 0 \<le> t \<and> t \<le> r_total r \<and> Fin 0 \<le> d \<and>
        (r_total r = PInf \<or> d = fsub (r_total r) t)))"
proof -
  obtain st where st: "reads (\<lambda>i. Fin (c i)) (tokens_of loads ls) st"
      "finish_stream sha256 show_rest (\<lambda>i. Fin (c i)) st = returned r"
    using request_reads [OF assms(1,2)] .
  note r = finish_fields [OF st(2)]
  have c: "c 0 \<le> c 1" "c 1 \<le> c (ticks st)" using assms(3) st(1) by (simp_all add: mono_def reads_def)
  have tot: "r_total r = fl64 (c (ticks st) - c 0)" by (simp add: r fsub_def)
  have zero: "fl64 0 = Fin 0" by (simp add: fl64_def)
  have t0: "Fin 0 \<le> r_total r" using fl64_mono [of 0 "c (ticks st) - c 0"] c by (simp add: tot zero)
  show ?thesis
  proof (cases "tokens_of loads ls = []")
    case True
    then show ?thesis using st(1) t0 by (simp add: r(2,4) reads_def)
  next
    case False
    define t where "t = fl64 (c 1 - c 0)"
    have ttft: "r_ttft r = Some t" using st(1) False by (simp add: r(2) reads_def t_def fsub_def)
    have t: "Fin 0 \<le> t" "t \<le> r_total r"
      using fl64_mono [of 0 "c 1 - c 0"] fl64_mono [of "c 1 - c 0" "c (ticks st) - c 0"] c by (simp_all add: tot zero t_def)
    define d where "d = fmax (Fin 0) (fsub (r_total r) t)"
    have decode: "r_decode r = Some d" by (simp add: r(4) ttft d_def)
    have d: "Fin 0 \<le> d"
      by (cases "fsub (r_total r) t") (auto simp: d_def fmax_def less_eq_pyfloat_def)
    have "r_total r = PInf \<or> d = fsub (r_total r) t"
    proof (cases "r_total r")
      case (Fin x)
      obtain y where y: "t = Fin y" "y \<le> x" using t Fin by (cases t) (auto simp: less_eq_pyfloat_def)
      have eq: "fsub (r_total r) t = fl64 (x - y)" using y Fin by (simp add: fsub_def)
      have "Fin 0 \<le> fl64 (x - y)" using fl64_mono [of 0 "x - y"] y by (simp add: zero)
      then show ?thesis using fl64_not_NaN [of "x - y"] unfolding d_def eq
        by (cases "fl64 (x - y)") (auto simp: fmax_def less_eq_pyfloat_def)
    qed (use t0 tot in \<open>auto simp: less_eq_pyfloat_def\<close>)
    then show ?thesis using t0 ttft decode t d by blast
  qed
qed

section \<open>Fingerprints separate id sequences\<close>

lemma int_body_no_semicolon: "is_int v \<Longrightarrow> CHR '';'' \<notin> set (py_str show_rest v)"
proof (cases v)
  case (JInt n)
  have "CHR '';'' \<notin> set (str_nat k)" for k
    using str_nat_digits [of k] by (auto simp: list_all_iff py_digit_def)
  then show ?thesis using JInt by (auto simp: str_int_def)
qed auto

lemma int_body_inject: "is_int v \<Longrightarrow> is_int w \<Longrightarrow> py_str show_rest v = py_str show_rest w \<longleftrightarrow> v = w"
proof -
  have digit: "CHR ''T'' # s \<noteq> str_nat k" "CHR ''F'' # s \<noteq> str_nat k" for s k
    using str_nat_digits [of k] by (auto simp: py_digit_def dest: sym)
  have word: "str_int n \<noteq> ''True''" "str_int n \<noteq> ''False''" for n
    using digit digit [symmetric] by (auto simp: str_int_def)
  show "is_int v \<Longrightarrow> is_int w \<Longrightarrow> py_str show_rest v = py_str show_rest w \<longleftrightarrow> v = w"
    using word word [symmetric] by (cases v; cases w) auto
qed

lemma first_semicolon:
  "CHR '';'' \<notin> set a \<Longrightarrow> CHR '';'' \<notin> set b \<Longrightarrow> a @ CHR '';'' # x = b @ CHR '';'' # y \<longleftrightarrow> a = b \<and> x = y"
proof (induction a arbitrary: b)
  case Nil
  then show ?case by (cases b) auto
next
  case (Cons c a)
  then show ?case by (cases b) auto
qed

lemma id_stream_inject:
  "list_all is_int xs \<Longrightarrow> list_all is_int ys \<Longrightarrow> stream_bytes show_rest xs = stream_bytes show_rest ys \<longleftrightarrow> xs = ys"
proof (induction xs arbitrary: ys)
  case Nil
  then show ?case by (cases ys) (auto simp: stream_bytes_def token_bytes_def)
next
  case (Cons x xs)
  then show ?case
  proof (cases ys)
    case (Cons y zs)
    then have "stream_bytes show_rest (x # xs) = stream_bytes show_rest ys \<longleftrightarrow>
        py_str show_rest x = py_str show_rest y \<and> stream_bytes show_rest xs = stream_bytes show_rest zs"
      using Cons.prems int_body_no_semicolon [of x] int_body_no_semicolon [of y]
      by (simp add: stream_bytes_def token_bytes_def first_semicolon)
    then show ?thesis using Cons Cons.prems Cons.IH [of zs] int_body_inject [of x y] by simp
  qed (simp add: stream_bytes_def token_bytes_def)
qed

text \<open>
  Different id sequences give the digest different input, so only a collision of SHA-256 gives
  two diverging completions one fingerprint, and no sequence of pieces has the input of a sequence
  of ids.
\<close>

theorem fingerprint_separates:
  assumes "list_all is_int xs" and "list_all is_int ys" and "xs \<noteq> []"
  shows "fingerprint_of sha256 show_rest xs = sha256 (stream_bytes show_rest xs) \<and>
    (stream_bytes show_rest xs = stream_bytes show_rest ys \<longleftrightarrow> xs = ys) \<and>
    stream_bytes show_rest xs \<noteq> stream_bytes show_rest (JStr p # ps)"
proof -
  have "hd (stream_bytes show_rest xs) = CHR ''i''"
    using assms(1,3) by (cases xs) (simp_all add: stream_bytes_def token_bytes_def)
  moreover have "hd (stream_bytes show_rest (JStr p # ps)) = CHR ''s''"
    by (simp add: stream_bytes_def token_bytes_def)
  ultimately show ?thesis
    using assms id_stream_inject [OF assms(1,2)] by (auto simp: fingerprint_of_def)
qed

text \<open>
  Token pieces are not separated: a piece may contain the delimiter, and then two different
  completions have one fingerprint, whatever the digest.
\<close>

theorem pieces_collide:
  "[JStr ''a;s:b''] \<noteq> [JStr ''a'', JStr ''b''] \<and>
   fingerprint_of sha256 show_rest [JStr ''a;s:b''] = fingerprint_of sha256 show_rest [JStr ''a'', JStr ''b'']"
  by (simp add: fingerprint_of_def stream_bytes_def token_bytes_def)

section \<open>Witnesses\<close>

definition demo_loads :: "string \<Rightarrow> json option" where
  "demo_loads payload =
     (if payload = ''one'' then Some (JObj [(''choices'', JList [JObj [(''token_ids'', JInt 7)]])])
      else if payload = ''two'' then Some (JObj [(''usage'', JObj [(''prompt_tokens'', JInt 3)]),
        (''choices'', JList [JObj [(''logprobs'', JObj [(''tokens'', JList [JStr ''x'', JStr ''y'']),
           (''token_ids'', JList [JInt 8, JInt 9])])]])])
      else None)"

definition demo_open :: "string \<Rightarrow> json \<Rightarrow> response" where
  "demo_open url body =
     (if url = ''http://a/v1/completions'' then returned ([''data: one'', '': ping'', ''data: ?'', ''data: two'', ''data: [DONE]'', ''data: one''], None)
      else raised OSError)"

lemma demo_run:
  "stream_one_request demo_open demo_loads (\<lambda>s. s) (\<lambda>v. []) (\<lambda>i. Fin (of_nat (3 * i))) ''http://a/'' ''m'' ''p'' 8 (Fin 0) =
     returned \<lparr>r_ttft = Some (Fin 3), r_decode = Some (Fin 6), r_total = Fin 9, r_prompt_tokens = Some (JInt 3),
       r_completion_tokens = None, r_fingerprint = ''i:7;i:8;i:9;'', r_token_ids = Some [JInt 7, JInt 8, JInt 9]\<rparr>"
  by code_simp

lemma demo_response:
  "demo_open (rstrip_slash ''http://a/'' @ ''/v1/completions'') (completion_body ''m'' ''p'' 8 (Fin 0)) =
     returned ([''data: one'', '': ping'', ''data: ?'', ''data: two'', ''data: [DONE]'', ''data: one''], None)"
  by code_simp

theorem fingerprint_of_tokens_witness:
  "fingerprint_of (\<lambda>s. s) (\<lambda>v. []) (sequence_of (tokens_of demo_loads
     [''data: one'', '': ping'', ''data: ?'', ''data: two'', ''data: [DONE]'', ''data: one''])) = ''i:7;i:8;i:9;''"
  using fingerprint_of_tokens [OF demo_response demo_run] by simp

theorem request_times_witness: "Fin 0 \<le> Fin 9 \<and> (\<exists>t d. t = Fin 3 \<and> d = Fin 6 \<and> t \<le> Fin 9 \<and> d = fsub (Fin 9) t)"
  using request_times [OF demo_response demo_run] by (simp add: mono_def)

theorem fingerprint_separates_witness:
  "stream_bytes (\<lambda>v. []) [JInt 1, JInt 2] \<noteq> stream_bytes (\<lambda>v. []) [JInt 12] \<and>
   stream_bytes (\<lambda>v. []) [JInt 1, JInt 2] \<noteq> stream_bytes (\<lambda>v. []) [JStr ''1'']"
  using fingerprint_separates [of "[JInt 1, JInt 2]" "[JInt 12]" "\<lambda>s. s" "\<lambda>v. []" "''1''" "[]"]
  by simp

end
