(* ===== verification/StreamConcurrency.thy ===== *)
theory StreamConcurrency
  imports Prelude "HOL-Library.Multiset"
begin

text \<open>
  \<open>run_concurrent\<close> of \<open>bench/fn-stream-client.py\<close>: the requests are dealt to the workers, a barrier
  releases them together, and each worker drains its slice, one request after the other. A step of
  the batch is one worker starting its next request or finishing the one it has in flight; any
  order of such steps is a schedule. What a request gives is an argument, \<open>serve i\<close> for the one
  with index \<open>i\<close>, and the theorems hold for every schedule.
\<close>

section \<open>The batch\<close>

text \<open>A worker has the request in flight and what is left of its slice.\<close>

type_synonym worker = "nat option \<times> nat list"

record 'r batch =
  workers :: "worker list"
  results :: "'r option list"
  errors :: "(nat \<times> pyexc) list"

definition at_least_one :: "int \<Rightarrow> nat" where
  "at_least_one n = (if n < 1 then 1 else nat n)"

definition slices :: "nat \<Rightarrow> nat \<Rightarrow> nat list list" where
  "slices concurrency requests =
     foldl (\<lambda>cs i. cs[i mod concurrency := cs ! (i mod concurrency) @ [i]]) (replicate concurrency []) [0..<requests]"

definition release :: "int \<Rightarrow> int \<Rightarrow> 'r batch" where
  "release concurrency requests =
     \<lparr>workers = map (\<lambda>chunk. (None, chunk)) (slices (at_least_one concurrency) (at_least_one requests)),
      results = replicate (at_least_one requests) None, errors = []\<rparr>"

definition act :: "(nat \<Rightarrow> 'r res) \<Rightarrow> nat \<Rightarrow> 'r batch \<Rightarrow> 'r batch" where
  "act serve w b =
     (case workers b ! w of
        (None, []) \<Rightarrow> b
      | (None, i # chunk) \<Rightarrow> b\<lparr>workers := (workers b)[w := (Some i, chunk)]\<rparr>
      | (Some i, chunk) \<Rightarrow>
          (let b' = b\<lparr>workers := (workers b)[w := (None, chunk)]\<rparr>
           in case serve i of
                Inr r \<Rightarrow> b'\<lparr>results := (results b)[i := Some r]\<rparr>
              | Inl e \<Rightarrow> b'\<lparr>errors := errors b @ [(i, e)]\<rparr>))"

definition joined :: "'r batch \<Rightarrow> bool" where
  "joined b \<longleftrightarrow> list_all (\<lambda>p. p = (None, [])) (workers b)"

inductive conc_step :: "(nat \<Rightarrow> 'r res) \<Rightarrow> 'r batch \<Rightarrow> 'r batch \<Rightarrow> bool" for serve where
  worker_acts: "w < length (workers b) \<Longrightarrow> workers b ! w \<noteq> (None, []) \<Longrightarrow> conc_step serve b (act serve w b)"

inductive_cases conc_stepE: "conc_step serve b b'"

text \<open>What is returned after the workers are joined.\<close>

definition collect :: "'r batch \<Rightarrow> 'r list res" where
  "collect b =
     (let got = List.map_filter id (results b) in if got = [] then raised RuntimeError else returned got)"

text \<open>One schedule: the workers that act, in order.\<close>

definition run_schedule :: "(nat \<Rightarrow> 'r res) \<Rightarrow> nat list \<Rightarrow> 'r batch \<Rightarrow> 'r batch" where
  "run_schedule serve ws b = foldl (\<lambda>b w. if w < length (workers b) then act serve w b else b) b ws"

definition run_concurrent :: "(nat \<Rightarrow> 'r res) \<Rightarrow> nat list \<Rightarrow> int \<Rightarrow> int \<Rightarrow> 'r list res" where
  "run_concurrent serve ws concurrency requests =
     collect (run_schedule serve ws (release concurrency requests))"

section \<open>Requests not yet answered\<close>

fun open_of :: "worker \<Rightarrow> nat multiset" where
  "open_of (None, chunk) = mset chunk"
| "open_of (Some i, chunk) = add_mset i (mset chunk)"

definition owed :: "worker list \<Rightarrow> nat multiset" where
  "owed ws = sum_list (map open_of ws)"

lemma owed_update: "w < length ws \<Longrightarrow> owed (ws[w := p]) + open_of (ws ! w) = owed ws + open_of p"
proof (induction ws arbitrary: w)
  case (Cons q ws)
  then show ?case
  proof (cases w)
    case (Suc v)
    then show ?thesis using Cons.IH [of v] Cons.prems by (simp add: owed_def ac_simps)
  qed (simp add: owed_def ac_simps)
qed simp

lemma owed_joined: "joined b \<Longrightarrow> owed (workers b) = {#}"
proof -
  have "list_all (\<lambda>p. p = (None, [])) ws \<Longrightarrow> owed ws = {#}" for ws
    by (induction ws) (auto simp: owed_def)
  then show "joined b \<Longrightarrow> owed (workers b) = {#}" by (simp add: joined_def)
qed

lemma length_slices [simp]: "length (slices c n) = c"
proof -
  have "length (foldl (\<lambda>cs i. cs[i mod c := cs ! (i mod c) @ [i]]) cs is) = length cs" for cs :: "nat list list" and "is"
    by (induction "is" arbitrary: cs) auto
  then show ?thesis by (simp add: slices_def)
qed

lemma slices_Suc: "slices c (Suc n) = (slices c n)[n mod c := slices c n ! (n mod c) @ [n]]"
  by (simp add: slices_def)

text \<open>The dealing is a partition: worker \<open>w\<close> gets the requests congruent to \<open>w\<close>, in order.\<close>

lemma slices_nth: "w < c \<Longrightarrow> slices c n ! w = filter (\<lambda>i. i mod c = w) [0..<n]"
proof (induction n)
  case 0
  then show ?case by (simp add: slices_def)
next
  case (Suc n)
  then show ?case by (cases "w = n mod c") (auto simp: slices_Suc nth_list_update)
qed

lemma owed_slices: "0 < c \<Longrightarrow> owed (map (\<lambda>chunk. (None, chunk)) (slices c n)) = mset [0..<n]"
proof (induction n)
  case 0
  have "owed (map (\<lambda>chunk. (None, chunk)) (replicate c [])) = {#}" by (induction c) (auto simp: owed_def)
  then show ?case by (simp add: slices_def)
next
  case (Suc n)
  let ?ws = "map (\<lambda>chunk. (None, chunk)) (slices c n)"
  have w: "n mod c < length ?ws" using Suc.prems by simp
  have deal: "map (\<lambda>chunk. (None, chunk)) (slices c (Suc n)) = ?ws[n mod c := (None, slices c n ! (n mod c) @ [n])]"
    using Suc.prems by (simp add: slices_Suc map_update)
  have "owed (?ws[n mod c := (None, slices c n ! (n mod c) @ [n])]) + mset (slices c n ! (n mod c)) =
      owed ?ws + mset (slices c n ! (n mod c) @ [n])"
    using owed_update [OF w, of "(None, slices c n ! (n mod c) @ [n])"] w by simp
  then show ?case unfolding deal using Suc by simp
qed

section \<open>The invariant\<close>

definition answer :: "(nat \<Rightarrow> 'r res) \<Rightarrow> nat \<Rightarrow> 'r option" where
  "answer serve i = (case serve i of Inl _ \<Rightarrow> None | Inr r \<Rightarrow> Some r)"

definition failure :: "(nat \<Rightarrow> 'r res) \<Rightarrow> nat \<Rightarrow> (nat \<times> pyexc) option" where
  "failure serve i = (case serve i of Inl e \<Rightarrow> Some (i, e) | Inr _ \<Rightarrow> None)"

text \<open>\<open>ds\<close> are the requests answered so far, in the order of their answers.\<close>

definition answered :: "(nat \<Rightarrow> 'r res) \<Rightarrow> nat \<Rightarrow> nat list \<Rightarrow> 'r batch \<Rightarrow> bool" where
  "answered serve n ds b \<longleftrightarrow>
     mset ds + owed (workers b) = mset [0..<n] \<and>
     results b = map (\<lambda>i. if i \<in> set ds then answer serve i else None) [0..<n] \<and>
     errors b = List.map_filter (failure serve) ds"

lemma answered_release: "answered serve (at_least_one n) [] (release c n)"
  by (auto simp: answered_def release_def owed_slices at_least_one_def map_filter_simps map_replicate_const)

lemma answered_act:
  assumes inv: "answered serve n ds b" and w: "w < length (workers b)" and busy: "workers b ! w \<noteq> (None, [])"
  shows "\<exists>ds'. answered serve n ds' (act serve w b)"
proof -
  obtain f chunk where p: "workers b ! w = (f, chunk)" by (cases "workers b ! w")
  show ?thesis
  proof (cases f)
    case None
    then obtain i rest where c: "chunk = i # rest" using busy p by (cases chunk) auto
    have "owed ((workers b)[w := (Some i, rest)]) = owed (workers b)"
      using owed_update [OF w, of "(Some i, rest)"] p None c by simp
    then show ?thesis using inv by (auto simp: act_def p None c answered_def)
  next
    case (Some i)
    have o: "add_mset i (owed ((workers b)[w := (None, chunk)])) = owed (workers b)"
      using owed_update [OF w, of "(None, chunk)"] p Some by simp
    have "mset ds + owed (workers b) = mset [0..<n]" using inv by (simp add: answered_def)
    then have all: "mset (ds @ [i]) + owed ((workers b)[w := (None, chunk)]) = mset [0..<n]"
      unfolding o [symmetric] by simp
    have "i \<in># mset [0..<n]" unfolding all [symmetric] by simp
    then have i: "i < n" by simp
    have "answered serve n (ds @ [i]) (act serve w b)"
      using inv all i
      by (auto simp: act_def p Some answered_def answer_def failure_def List.map_filter_def nth_list_update
            intro!: nth_equalityI split: sum.split)
    then show ?thesis ..
  qed
qed

lemma answered_reachable:
  assumes "(conc_step serve)\<^sup>*\<^sup>* (release c n) b"
  shows "\<exists>ds. answered serve (at_least_one n) ds b"
  using assms
proof (induction rule: rtranclp_induct)
  case base
  then show ?case using answered_release by blast
next
  case (step b b')
  then show ?case using answered_act by (blast elim: conc_stepE)
qed

lemma run_schedule_reaches: "(conc_step serve)\<^sup>*\<^sup>* b (run_schedule serve ws b)"
proof (induction ws arbitrary: b)
  case Nil
  then show ?case by (simp add: run_schedule_def)
next
  case (Cons w ws)
  have "(conc_step serve)\<^sup>*\<^sup>* b (if w < length (workers b) then act serve w b else b)"
    using worker_acts [of w b serve] by (cases "w < length (workers b) \<and> workers b ! w \<noteq> (None, [])") (auto simp: act_def)
  then show ?case
    using Cons [of "if w < length (workers b) then act serve w b else b"] by (simp add: run_schedule_def)
qed

section \<open>Every schedule\<close>

text \<open>The answers of the requests in the order of their indices.\<close>

definition answers :: "(nat \<Rightarrow> 'r res) \<Rightarrow> nat \<Rightarrow> 'r list" where
  "answers serve n = List.map_filter (answer serve) [0..<n]"

lemma joined_outcome:
  assumes "(conc_step serve)\<^sup>*\<^sup>* (release concurrency requests) b" and "joined b"
  shows "List.map_filter id (results b) = answers serve (at_least_one requests)"
    and "mset (errors b) = mset (List.map_filter (failure serve) [0..<at_least_one requests])"
proof -
  let ?n = "at_least_one requests"
  obtain ds where ds: "answered serve ?n ds b" using answered_reachable [OF assms(1)] by blast
  then have perm: "mset ds = mset [0..<?n]" using owed_joined [OF assms(2)] by (simp add: answered_def)
  then have "set ds = set [0..<?n]" by (metis set_mset_mset)
  then have "results b = map (answer serve) [0..<?n]" using ds by (simp add: answered_def)
  then show "List.map_filter id (results b) = answers serve ?n"
    by (simp add: answers_def List.map_filter_def filter_map comp_def)
  show "mset (errors b) = mset (List.map_filter (failure serve) [0..<?n])"
    using perm ds by (simp add: answered_def List.map_filter_def mset_filter)
qed

text \<open>
  C5: Whatever the interleaving of the workers, a batch that is done returns the answers of the
  requests that succeeded, in the order of their indices, every failure is recorded once with its
  index, and an exception is raised exactly when no request succeeded.
\<close>

theorem concurrent_result:
  assumes "(conc_step serve)\<^sup>*\<^sup>* (release concurrency requests) b" and "joined b"
  shows "collect b =
      (if answers serve (at_least_one requests) = [] then raised RuntimeError
       else returned (answers serve (at_least_one requests))) \<and>
    mset (errors b) = mset (List.map_filter (failure serve) [0..<at_least_one requests])"
  using joined_outcome [OF assms] by (simp add: collect_def)

fun work :: "worker \<Rightarrow> nat" where
  "work (None, chunk) = 2 * length chunk"
| "work (Some i, chunk) = Suc (2 * length chunk)"

definition work_left :: "'r batch \<Rightarrow> nat" where
  "work_left b = sum_list (map work (workers b))"

lemma work_left_release: "work_left (release c n) = 2 * at_least_one n"
proof -
  have "sum_list (map work (map (\<lambda>chunk. (None, chunk)) css)) = 2 * size (owed (map (\<lambda>chunk. (None, chunk)) css))"
    for css :: "nat list list"
    by (induction css) (auto simp: owed_def)
  then show ?thesis
    using owed_slices [of "at_least_one c" "at_least_one n"]
    by (simp add: work_left_def release_def at_least_one_def)
qed

lemma workers_act: "w < length (workers b) \<Longrightarrow> workers b ! w \<noteq> (None, []) \<Longrightarrow>
    \<exists>p. workers (act serve w b) = (workers b)[w := p] \<and> Suc (work p) = work (workers b ! w)"
proof -
  assume w: "w < length (workers b)" "workers b ! w \<noteq> (None, [])"
  obtain f chunk where p: "workers b ! w = (f, chunk)" by (cases "workers b ! w")
  show ?thesis
  proof (cases f)
    case None
    then obtain i rest where c: "chunk = i # rest" using w p by (cases chunk) auto
    show ?thesis using w p by (intro exI [of _ "(Some i, rest)"]) (simp add: act_def None c)
  next
    case (Some i)
    then show ?thesis using w p
      by (intro exI [of _ "(None, chunk)"]) (simp add: act_def Let_def split: sum.split)
  qed
qed

lemma work_left_step:
  assumes "conc_step serve b b'"
  shows "Suc (work_left b') = work_left b" "length (workers b') = length (workers b)"
proof -
  obtain w where w: "w < length (workers b)" "workers b ! w \<noteq> (None, [])" "b' = act serve w b"
    using assms by (auto elim: conc_stepE)
  obtain p where p: "workers b' = (workers b)[w := p]" "Suc (work p) = work (workers b ! w)"
    using workers_act [OF w(1,2), of serve] w(3) by blast
  have "work (workers b ! w) \<le> sum_list (map work (workers b))"
    using w(1) by (intro member_le_sum_list) auto
  then show "Suc (work_left b') = work_left b"
    using p w(1) by (simp add: work_left_def map_update sum_list_update)
  show "length (workers b') = length (workers b)" by (simp add: p)
qed

lemma joined_iff: "joined b \<longleftrightarrow> work_left b = 0"
proof -
  have "list_all (\<lambda>p. p = (None, [])) ws \<longleftrightarrow> sum_list (map work ws) = 0" for ws
  proof (induction ws)
    case (Cons p ws)
    then show ?case by (cases p rule: work.cases) auto
  qed simp
  then show ?thesis by (simp add: joined_def work_left_def)
qed

lemma work_left_steps: "(conc_step serve ^^ k) b b' \<Longrightarrow> k + work_left b' = work_left b"
proof (induction k arbitrary: b')
  case (Suc k)
  then obtain b1 where b1: "(conc_step serve ^^ k) b b1" "conc_step serve b1 b'" by auto
  then show ?case using Suc.IH [OF b1(1)] work_left_step(1) [OF b1(2)] by simp
qed simp

lemma joined_or_step: "joined b \<or> (\<exists>b'. conc_step serve b b')"
  using worker_acts by (fastforce simp: joined_def list_all_length)

text \<open>
  C31: A batch ends: no schedule gets stuck before all workers are done, and every schedule is done
  after exactly two steps per request, so the join returns.
\<close>

theorem batch_terminates:
  assumes "(conc_step serve ^^ k) (release concurrency requests) b"
  shows "k \<le> 2 * at_least_one requests \<and> (joined b \<longleftrightarrow> k = 2 * at_least_one requests) \<and>
    (joined b \<or> (\<exists>b'. conc_step serve b b'))"
  using work_left_steps [OF assms] work_left_release [of concurrency requests] joined_iff [of b] joined_or_step [of b]
  by auto

section \<open>How many are in flight\<close>

definition in_flight :: "'r batch \<Rightarrow> nat" where
  "in_flight b = length (filter (\<lambda>(f, chunk). f \<noteq> None) (workers b))"

lemma in_flight_owed: "in_flight b \<le> size (owed (workers b))"
proof -
  have "length (filter (\<lambda>(f, chunk). f \<noteq> None) ws) \<le> size (owed ws)" for ws :: "worker list"
    by (induction ws) (auto simp: owed_def)
  then show ?thesis by (simp add: in_flight_def)
qed

lemma workers_length: "(conc_step serve)\<^sup>*\<^sup>* b b' \<Longrightarrow> length (workers b') = length (workers b)"
  by (induction rule: rtranclp_induct) (auto simp: work_left_step)

text \<open>
  At no time are more requests in flight than the concurrency, nor more than there are requests:
  with fewer requests than workers the load is the number of requests, not the concurrency that is
  recorded for it.
\<close>

theorem in_flight_bound:
  assumes "(conc_step serve)\<^sup>*\<^sup>* (release concurrency requests) b"
  shows "in_flight b \<le> min (at_least_one concurrency) (at_least_one requests)"
proof -
  obtain ds where "answered serve (at_least_one requests) ds b" using answered_reachable [OF assms] by blast
  then have "size (mset ds + owed (workers b)) = size (mset [0..<at_least_one requests])"
    unfolding answered_def by metis
  then have "size (owed (workers b)) \<le> at_least_one requests" by simp
  moreover have "in_flight b \<le> length (workers b)" by (simp add: in_flight_def)
  moreover have "length (workers b) = at_least_one concurrency"
    using workers_length [OF assms] by (simp add: release_def)
  ultimately show ?thesis using in_flight_owed [of b] by simp
qed

section \<open>Witnesses\<close>

definition demo_serve :: "nat \<Rightarrow> string res" where
  "demo_serve i = (if i = 1 then raised ConnectionError else returned (str_nat i))"

definition demo_release :: "string batch" where
  "demo_release = release 2 3"

lemma demo_schedule:
  "run_schedule demo_serve [1, 0, 0, 1, 0, 0] demo_release =
     \<lparr>workers = [(None, []), (None, [])], results = [Some ''0'', None, Some ''2''], errors = [(1, ConnectionError)]\<rparr>"
  by code_simp

theorem concurrent_result_witness:
  "collect (run_schedule demo_serve [1, 0, 0, 1, 0, 0] demo_release) = returned [''0'', ''2''] \<and>
   answers demo_serve 3 = [''0'', ''2'']"
proof -
  have fin: "joined (run_schedule demo_serve [1, 0, 0, 1, 0, 0] (release 2 3))"
    using demo_schedule by (simp add: joined_def demo_release_def)
  have three: "at_least_one 3 = 3" by (simp add: at_least_one_def)
  have "collect (run_schedule demo_serve [1, 0, 0, 1, 0, 0] demo_release) =
      (if answers demo_serve 3 = [] then raised RuntimeError else returned (answers demo_serve 3))"
    using concurrent_result [OF run_schedule_reaches fin] unfolding three demo_release_def by (rule conjunct1)
  moreover have "answers demo_serve 3 = [''0'', ''2'']" by code_simp
  ultimately show ?thesis by simp
qed

theorem batch_terminates_witness:
  "\<exists>k. (conc_step demo_serve ^^ k) demo_release (run_schedule demo_serve [1, 0, 0, 1, 0, 0] demo_release) \<and> k = 6"
proof -
  have "(conc_step demo_serve)\<^sup>*\<^sup>* demo_release (run_schedule demo_serve [1, 0, 0, 1, 0, 0] demo_release)"
    by (rule run_schedule_reaches)
  then obtain k where k: "(conc_step demo_serve ^^ k) demo_release (run_schedule demo_serve [1, 0, 0, 1, 0, 0] demo_release)"
    by (metis rtranclp_imp_relpowp)
  have "joined (run_schedule demo_serve [1, 0, 0, 1, 0, 0] demo_release)" unfolding demo_schedule by (simp add: joined_def)
  then have "k = 6" using batch_terminates [OF k [unfolded demo_release_def]] by (simp add: demo_release_def at_least_one_def)
  then show ?thesis using k by blast
qed

theorem in_flight_bound_witness: "in_flight (run_schedule demo_serve [1, 0] demo_release) \<le> 2"
  using in_flight_bound [OF run_schedule_reaches, of demo_serve "[1, 0]" 2 3]
  by (simp add: demo_release_def at_least_one_def)

end
