(* ===== verification/StreamClient.thy ===== *)
theory StreamClient
  imports StreamMetrics StreamRequest StreamConcurrency FileStore
begin

text \<open>
  The rest of \<open>bench/fn-stream-client.py\<close>: fitting a prompt to a token depth, the CSV file, and
  the measured batch as a whole, which composes the scrapes, the concurrent requests, the split and
  the file. The engine is an argument: its answers to a probe, a scrape and a request, and the
  schedule of the workers.
\<close>

section \<open>The prompt\<close>

definition SHORT_PROMPT :: string where
  "SHORT_PROMPT = ''The ledger records what the night proved: ''"

definition DEPTH_PARAGRAPH :: string where
  "DEPTH_PARAGRAPH = ''The fleet measures before it claims. Every receipt is a fact the morning operator can check. The pair serves from its own drives; the rails carry tensors and the wire carries control. Nothing is narrated that was not measured, and no column is published without its protocol attached. ''"

definition paragraphs :: "int \<Rightarrow> string" where
  "paragraphs reps = concat (replicate (nat reps) DEPTH_PARAGRAPH)"

text \<open>\<open>probe k p\<close> is the token count the \<open>k\<close>-th probe reports for a prompt, \<open>None\<close> when it failed.\<close>

definition close_enough :: "int \<Rightarrow> pyfloat \<Rightarrow> int \<Rightarrow> bool" where
  "close_enough depth d got = fle (Fin (of_int \<bar>got - depth\<bar>)) (fmax (Fin 64) (fmul d (fl64 (2 / 100))))"

definition rescale :: "int \<Rightarrow> int \<Rightarrow> int \<Rightarrow> int res" where
  "rescale depth got reps =
     res_bind (int_div depth got) (\<lambda>scale.
     res_bind (float_of_int reps) (\<lambda>r.
     res_bind (int_of_float (fmul r scale)) (\<lambda>n.
       returned (max 1 (n + (if flt (Fin 1) scale then 1 else 0))))))"

fun converge_loop :: "(nat \<Rightarrow> string \<Rightarrow> int option) \<Rightarrow> int \<Rightarrow> nat \<Rightarrow> nat \<Rightarrow> int \<Rightarrow> string res" where
  "converge_loop probe depth 0 k reps = returned (paragraphs reps)"
| "converge_loop probe depth (Suc attempts) k reps =
     (case probe k (paragraphs reps) of
        None \<Rightarrow> returned (paragraphs reps)
      | Some got \<Rightarrow>
          if got \<le> 0 then returned (paragraphs reps)
          else
            res_bind (float_of_int depth) (\<lambda>d.
              if close_enough depth d got then returned (paragraphs reps)
              else res_bind (rescale depth got reps) (converge_loop probe depth attempts (Suc k))))"

definition converge_prompt :: "(nat \<Rightarrow> string \<Rightarrow> int option) \<Rightarrow> int \<Rightarrow> nat \<Rightarrow> string res" where
  "converge_prompt probe depth attempts =
     (if depth \<le> 0 then returned SHORT_PROMPT
      else
        res_bind (float_of_int depth) (\<lambda>d.
        res_bind (fdiv (fmul d (Fin 4)) (Fin (of_nat (length DEPTH_PARAGRAPH)))) (\<lambda>x.
        res_bind (int_of_float x) (\<lambda>n. converge_loop probe depth attempts 0 (max 1 n)))))"

text \<open>
  One probe: \<open>post\<close> is the request, its text or the exception; any flaw of the answer counts as a
  failed probe. The server's count is an integer or null.
\<close>

definition probe_body :: "string \<Rightarrow> string \<Rightarrow> json" where
  "probe_body model prompt =
     JObj [(''model'', JStr model), (''prompt'', JStr prompt), (''max_tokens'', JInt 1), (''temperature'', JInt 0)]"

definition probe_prompt_tokens ::
  "(string \<Rightarrow> json \<Rightarrow> string res) \<Rightarrow> (string \<Rightarrow> json option) \<Rightarrow> string \<Rightarrow> string \<Rightarrow> string \<Rightarrow> int option" where
  "probe_prompt_tokens post loads api model prompt =
     (case post (rstrip_slash api @ ''/v1/completions'') (probe_body model prompt) of
        Inl _ \<Rightarrow> None
      | Inr text \<Rightarrow>
          (case loads text of None \<Rightarrow> None
           | Some j \<Rightarrow>
               (case res_bind (dict_item j ''usage'') (\<lambda>u. dict_item u ''prompt_tokens'') of
                  Inr (JInt n) \<Rightarrow> Some n | _ \<Rightarrow> None)))"

section \<open>The CSV file\<close>

definition CSV_FIELDS :: "string list" where
  "CSV_FIELDS = [''arm'', ''load'', ''depth_target'', ''depth_actual'', ''concurrency'', ''request_index'', ''ttft_s'', ''queue_wait_s'', ''prefill_s'', ''decode_s'', ''total_s'', ''completion_tokens'', ''fingerprint'', ''spec_config'']"

definition CSV_HEADER_COMMENT :: string where
  "CSV_HEADER_COMMENT = concat (map (\<lambda>l. l @ [newline])
     [''# fn-stream-client CSV '' @ [CHR 0xE2] @ [CHR 0x80] @ [CHR 0x94] @ '' column semantics (spec claim 6.2; protocol per row).'',
      ''#   arm               bench arm label (spec-off / spec-on).'',
      ''#   load              load index within the arm, 1..loads_per_arm.'',
      ''#   depth_target      requested prompt depth in tokens (the independent var).'',
      ''#   depth_actual      prompt_tokens the server actually accepted.'',
      ''#   concurrency       number of in-flight sequences when this row was measured.'',
      ''#   request_index     per-request index within the load.'',
      ''#   ttft_s            CLIENT-side time-to-first-token: request release -> first'',
      ''#                     streamed token. Includes queue + prefill + first decode +'',
      ''#                     network + SSE framing. It is NOT prefill.'',
      ''#   queue_wait_s      SERVER-side scheduler queue wait, delta of the'',
      ''#                     vllm:request_queue_time_seconds histogram across this load'' @ [CHR 0x27] @ ''s batch.'',
      ''#   prefill_s         SERVER-side prompt processing, delta of the'',
      ''#                     vllm:request_prefill_time_seconds histogram across this load'' @ [CHR 0x27] @ ''s batch. Independent of'',
      ''#                     ttft_s: the reference harness duplicated ttft into this'',
      ''#                     column (evidence/nix-strix-halo.md '' @ [CHR 0xC2] @ [CHR 0xA7] @ ''4.4); we do not.'',
      ''#   decode_s          CLIENT-side total minus ttft.'',
      ''#   total_s           CLIENT-side total request wall time.'',
      ''#   completion_tokens server-reported completion token count.'',
      ''#   fingerprint       sha256 over the completion'' @ [CHR 0x27] @ ''s token ids (ints when the'',
      ''#                     engine provides them, token pieces otherwise). Empty'',
      ''#                     when the completion produced no tokens.'',
      ''#   spec_config       speculative-decoding configuration active for the arm.'',
      ''# queue_wait_s and prefill_s are load-level server measurements shared by every'',
      ''# row of a load; ttft_s/total_s/decode_s/fingerprint are per-request.'',
      ''# Empty means the number was not measured '' @ [CHR 0xE2] @ [CHR 0x80] @ [CHR 0x94] @ '' the engine did not expose the'',
      ''# metric, or a bracketing scrape failed. An honest absence, never a proxy: a'',
      ''# scrape failure is NEVER differenced against zero to yield a lifetime mean.''])"

definition fmt :: "(json \<Rightarrow> string) \<Rightarrow> json \<Rightarrow> string" where
  "fmt show_rest x = (case x of JNull \<Rightarrow> [] | JFloat f \<Rightarrow> fixed 6 f | _ \<Rightarrow> py_str show_rest x)"

text \<open>The cells of \<open>csv.DictWriter\<close>: quoted when a comma, a quote or a line end is inside.\<close>

definition carriage_return :: char where
  "carriage_return = char_of (13 :: nat)"

definition quote :: char where
  "quote = char_of (34 :: nat)"

definition csv_quote :: "string \<Rightarrow> string" where
  "csv_quote s =
     (if list_ex (\<lambda>c. c = CHR '','' \<or> c = quote \<or> c = carriage_return \<or> c = newline) s
      then quote # concat (map (\<lambda>c. if c = quote then [quote, quote] else [c]) s) @ [quote] else s)"

definition csv_line :: "string list \<Rightarrow> string" where
  "csv_line cells = join '','' (map csv_quote cells) @ [carriage_return, newline]"

type_synonym bench_row = "(string \<times> json) list"

definition csv_cell :: "(json \<Rightarrow> string) \<Rightarrow> bench_row \<Rightarrow> string \<Rightarrow> string" where
  "csv_cell show_rest row k =
     (case map_of row k of None \<Rightarrow> [] | Some JNull \<Rightarrow> [] | Some v \<Rightarrow> py_str show_rest v)"

definition csv_rows :: "(json \<Rightarrow> string) \<Rightarrow> bench_row list \<Rightarrow> string" where
  "csv_rows show_rest rows = concat (map (\<lambda>row. csv_line (map (csv_cell show_rest row) CSV_FIELDS)) rows)"

definition csv_header :: string where
  "csv_header = CSV_HEADER_COMMENT @ csv_line CSV_FIELDS"

text \<open>Opening for append and writing; a missing file is created.\<close>

definition append_text :: "world \<Rightarrow> path \<Rightarrow> string \<Rightarrow> unit res \<times> world" where
  "append_text w p t =
     (if p = [] \<or> is_dir w p \<or> \<not> is_dir w (butlast p) then (raised OSError, w)
      else
        let old = (case node_at w p of Some (Reg s) \<Rightarrow> s | _ \<Rightarrow> [])
        in case fate_of w p of
             WOk \<Rightarrow> (returned (), put_node w p (Reg (old @ t)))
           | WRefused \<Rightarrow> (raised OSError, w)
           | WTorn n \<Rightarrow> (raised OSError, put_node w p (Reg (old @ take n t))))"

definition write_csv :: "(json \<Rightarrow> string) \<Rightarrow> world \<Rightarrow> path \<Rightarrow> bench_row list \<Rightarrow> unit res \<times> world" where
  "write_csv show_rest w p rows =
     (let fresh = (case node_at w p of None \<Rightarrow> True | Some (Reg s) \<Rightarrow> s = [] | Some Dir \<Rightarrow> False)
      in case mkdirs w (butlast p) of
           (Inl e, w1) \<Rightarrow> (raised e, w1)
         | (Inr _, w1) \<Rightarrow> append_text w1 p ((if fresh then csv_header else []) @ csv_rows show_rest rows))"

section \<open>The measured batch\<close>

record bench_args =
  b_api :: string
  b_metrics :: "string option"
  b_model :: string
  b_arm :: string
  b_load :: int
  b_depth :: int
  b_concurrency :: int
  b_requests :: int
  b_max_tokens :: int
  b_temperature :: pyfloat
  b_spec_label :: string
  b_csv :: "path option"

text \<open>
  The outside: the answer to each probe, the text each of the two scrapes gives, what opening the
  completion URL gives to the request with an index and the readings of its clock, and the schedule.
\<close>

record engine =
  e_probe :: "nat \<Rightarrow> string \<Rightarrow> json \<Rightarrow> string res"
  e_scrape :: "bool \<Rightarrow> string \<Rightarrow> string res"
  e_open :: "nat \<Rightarrow> string \<Rightarrow> json \<Rightarrow> response"
  e_clock :: "nat \<Rightarrow> nat \<Rightarrow> pyfloat"
  e_schedule :: "nat list"

record lib =
  lib_loads :: "string \<Rightarrow> json option"
  lib_sha256 :: "string \<Rightarrow> string"
  lib_str :: "json \<Rightarrow> string"

definition bench_serve :: "lib \<Rightarrow> engine \<Rightarrow> bench_args \<Rightarrow> string \<Rightarrow> nat \<Rightarrow> stream_rec res" where
  "bench_serve l e a prompt i =
     stream_one_request (e_open e i) (lib_loads l) (lib_sha256 l) (lib_str l) (e_clock e i)
       (b_api a) (b_model a) prompt (b_max_tokens a) (b_temperature a)"

definition metrics_url :: "bench_args \<Rightarrow> string" where
  "metrics_url a =
     (case b_metrics a of Some (c # cs) \<Rightarrow> c # cs | _ \<Rightarrow> rstrip_slash (b_api a) @ ''/metrics'')"

definition scraped :: "engine \<Rightarrow> bench_args \<Rightarrow> bool \<Rightarrow> readings option" where
  "scraped e a after =
     (case scrape_metrics (e_scrape e after) (metrics_url a) of Inl _ \<Rightarrow> None | Inr m \<Rightarrow> Some m)"

definition opt_float :: "pyfloat option \<Rightarrow> json" where
  "opt_float x = (case x of None \<Rightarrow> JNull | Some f \<Rightarrow> JFloat f)"

definition opt_json :: "json option \<Rightarrow> json" where
  "opt_json x = (case x of None \<Rightarrow> JNull | Some v \<Rightarrow> v)"

definition row_of ::
  "(json \<Rightarrow> string) \<Rightarrow> bench_args \<Rightarrow> first_token_split \<Rightarrow> nat \<Rightarrow> stream_rec \<Rightarrow> bench_row" where
  "row_of show_rest a split i r =
     [(''arm'', JStr (b_arm a)), (''load'', JInt (b_load a)), (''depth_target'', JInt (b_depth a)),
      (''depth_actual'', opt_json (r_prompt_tokens r)), (''concurrency'', JInt (b_concurrency a)),
      (''request_index'', JInt (int i)),
      (''ttft_s'', JStr (fmt show_rest (opt_float (r_ttft r)))),
      (''queue_wait_s'', JStr (fmt show_rest (opt_float (queue_wait_s split)))),
      (''prefill_s'', JStr (fmt show_rest (opt_float (prefill_s split)))),
      (''decode_s'', JStr (fmt show_rest (opt_float (r_decode r)))),
      (''total_s'', JStr (fmt show_rest (JFloat (r_total r)))),
      (''completion_tokens'', opt_json (r_completion_tokens r)),
      (''fingerprint'', JStr (r_fingerprint r)), (''spec_config'', JStr (b_spec_label a))]"

definition rows_of ::
  "(json \<Rightarrow> string) \<Rightarrow> bench_args \<Rightarrow> first_token_split \<Rightarrow> stream_rec list \<Rightarrow> bench_row list" where
  "rows_of show_rest a split records = map (\<lambda>(i, r). row_of show_rest a split i r) (enumerate 0 records)"

definition bench_out :: "bench_args \<Rightarrow> first_token_split \<Rightarrow> bench_row list \<Rightarrow> json" where
  "bench_out a split rows =
     JObj [(''arm'', JStr (b_arm a)), (''load'', JInt (b_load a)), (''depth_target'', JInt (b_depth a)),
       (''concurrency'', JInt (b_concurrency a)), (''requests'', JInt (int (length rows))),
       (''queue_wait_s'', opt_float (queue_wait_s split)), (''prefill_s'', opt_float (prefill_s split)),
       (''prefill_source'', JStr (prefill_source split)), (''queue_samples'', JInt (queue_samples split)),
       (''prefill_samples'', JInt (prefill_samples split)),
       (''fingerprints'', JList (map (\<lambda>row. opt_json (map_of row ''fingerprint'')) rows))]"

text \<open>The prompt of a batch: fitted by up to three probes.\<close>

definition fitted_prompt :: "lib \<Rightarrow> engine \<Rightarrow> bench_args \<Rightarrow> string res" where
  "fitted_prompt l e a =
     converge_prompt (\<lambda>k. probe_prompt_tokens (e_probe e k) (lib_loads l) (b_api a) (b_model a)) (b_depth a) 3"

text \<open>The measurement: the prompt, the scrape before, the batch, the scrape after, the split.\<close>

definition measure_batch ::
  "lib \<Rightarrow> engine \<Rightarrow> bench_args \<Rightarrow> (stream_rec list \<times> first_token_split) res" where
  "measure_batch l e a =
     res_bind (fitted_prompt l e a) (\<lambda>prompt.
     let before = scraped e a False
     in res_bind (run_concurrent (bench_serve l e a prompt) (e_schedule e) (b_concurrency a) (b_requests a)) (\<lambda>records.
        let after = scraped e a True
        in res_bind (split_first_token before after QUEUE_TIME_METRIC PREFILL_TIME_METRIC) (\<lambda>split.
             returned (records, split))))"

definition bench_main :: "lib \<Rightarrow> engine \<Rightarrow> bench_args \<Rightarrow> world \<Rightarrow> json res \<times> world" where
  "bench_main l e a w =
     (case measure_batch l e a of
        Inl x \<Rightarrow> (raised x, w)
      | Inr (records, split) \<Rightarrow>
          let rows = rows_of (lib_str l) a split records
          in case b_csv a of
               None \<Rightarrow> (returned (bench_out a split rows), w)
             | Some p \<Rightarrow>
                 (case write_csv (lib_str l) w p rows of
                    (Inl x, w1) \<Rightarrow> (raised x, w1)
                  | (Inr _, w1) \<Rightarrow> (returned (bench_out a split rows), w1)))"

section \<open>Prompts are whole paragraphs\<close>

lemma rescale_pos: "rescale depth got reps = returned n \<Longrightarrow> 1 \<le> n"
  by (auto simp: rescale_def res_simps)

lemma converge_loop_shape:
  "1 \<le> reps \<Longrightarrow> converge_loop probe depth m k reps = returned p \<Longrightarrow> \<exists>n \<ge> 1. p = paragraphs n"
proof (induction probe depth m k reps rule: converge_loop.induct)
  case (2 probe depth m k reps)
  show ?case
  proof (cases "probe k (paragraphs reps)")
    case None
    then show ?thesis using 2 by auto
  next
    case (Some got)
    note p = Some
    show ?thesis
    proof (cases "got \<le> 0")
      case True
      then show ?thesis using 2 p by auto
    next
      case False
      obtain d where d: "float_of_int depth = returned d"
        using 2(3) p False by (auto simp: res_simps)
      show ?thesis
      proof (cases "close_enough depth d got")
        case True
        then show ?thesis using 2 p False d by auto
      next
        case far: False
        then obtain n where n: "rescale depth got reps = returned n" "converge_loop probe depth m (Suc k) n = returned p"
          using 2(3) p False d by (auto simp: res_simps)
        show ?thesis by (rule 2(1) [OF p False d far n(1) rescale_pos [OF n(1)] n(2)])
      qed
    qed
  qed
qed auto

text \<open>The prompt of a batch is the short one for depth 0, and otherwise at least one whole paragraph.\<close>

lemma converge_prompt_shape:
  "converge_prompt probe depth attempts = returned p \<Longrightarrow>
    (if depth \<le> 0 then p = SHORT_PROMPT else \<exists>n \<ge> 1. p = paragraphs n)"
proof (cases "depth \<le> 0")
  case False
  assume "converge_prompt probe depth attempts = returned p"
  then obtain n where "converge_loop probe depth attempts 0 (max 1 n) = returned p"
    using False by (auto simp: converge_prompt_def res_simps)
  then show ?thesis using False converge_loop_shape [of "max 1 n"] by simp
qed (simp add: converge_prompt_def)

section \<open>Reading the rows back\<close>

text \<open>A reader of the format, the specification of the writer.\<close>

fun read_quoted :: "string \<Rightarrow> string \<times> string" where
  "read_quoted [] = ([], [])"
| "read_quoted (c # s) =
     (if c \<noteq> quote then (case read_quoted s of (v, r) \<Rightarrow> (c # v, r))
      else (case s of
              [] \<Rightarrow> ([], [])
            | d # s' \<Rightarrow> if d = quote then (case read_quoted s' of (v, r) \<Rightarrow> (quote # v, r)) else ([], s)))"

definition unquoted :: "char \<Rightarrow> bool" where
  "unquoted c \<longleftrightarrow> c \<noteq> CHR '','' \<and> c \<noteq> carriage_return"

definition read_cell :: "string \<Rightarrow> string \<times> string" where
  "read_cell s =
     (if s \<noteq> [] \<and> hd s = quote then read_quoted (tl s) else (takeWhile unquoted s, dropWhile unquoted s))"

fun read_cells :: "nat \<Rightarrow> string \<Rightarrow> string list \<times> string" where
  "read_cells 0 s = ([], s)"
| "read_cells (Suc n) s =
     (case read_cell s of (v, r) \<Rightarrow> (case read_cells n (tl r) of (vs, r') \<Rightarrow> (v # vs, r')))"

text \<open>A whole text: the comment lines are skipped, then one row after the other is read to the end.\<close>

fun skip_line :: "string \<Rightarrow> string" where
  "skip_line [] = []"
| "skip_line (c # s) = (if c = newline then s else skip_line s)"

lemma length_skip_line: "length (skip_line s) \<le> length s"
  by (induction s) auto

function skip_comments :: "string \<Rightarrow> string" where
  "skip_comments s = (if s \<noteq> [] \<and> hd s = CHR ''#'' then skip_comments (skip_line (tl s)) else s)"
  by pat_completeness auto
termination
  by (relation "measure length") (auto simp: length_skip_line neq_Nil_conv le_imp_less_Suc)

declare skip_comments.simps [simp del]

fun read_rows :: "nat \<Rightarrow> nat \<Rightarrow> string \<Rightarrow> string list list" where
  "read_rows columns 0 s = []"
| "read_rows columns (Suc k) s =
     (if s = [] then [] else case read_cells columns s of (vs, r) \<Rightarrow> vs # read_rows columns k (tl r))"

definition read_table :: "nat \<Rightarrow> string \<Rightarrow> string list list" where
  "read_table columns s = read_rows columns (length s) (skip_comments s)"

lemma special_chars: "quote \<noteq> CHR '',''" "quote \<noteq> carriage_return" "quote \<noteq> newline"
  by code_simp+

lemma read_quoted_escaped:
  "c \<noteq> quote \<Longrightarrow>
   read_quoted (concat (map (\<lambda>c. if c = quote then [quote, quote] else [c]) s) @ quote # c # r) = (s, c # r)"
  by (induction s) auto

lemma read_cell_quoted:
  assumes "c = CHR '','' \<or> c = carriage_return"
  shows "read_cell (csv_quote s @ c # r) = (s, c # r)"
proof (cases "list_ex (\<lambda>c. c = CHR '','' \<or> c = quote \<or> c = carriage_return \<or> c = newline) s")
  case True
  then show ?thesis
    using assms special_chars read_quoted_escaped [of c s r] by (auto simp: csv_quote_def read_cell_def)
next
  case False
  then have "\<forall>x \<in> set s. unquoted x \<and> x \<noteq> quote" by (auto simp: list_ex_iff unquoted_def)
  moreover have "\<not> unquoted c" using assms by (auto simp: unquoted_def)
  moreover have "csv_quote s = s" using False by (simp add: csv_quote_def)
  moreover have "c \<noteq> quote" using assms special_chars by auto
  ultimately show ?thesis by (cases s) (auto simp: read_cell_def)
qed

lemma read_cells_line:
  "cells \<noteq> [] \<Longrightarrow> read_cells (length cells) (join '','' (map csv_quote cells) @ carriage_return # r) = (cells, r)"
proof (induction cells)
  case (Cons v vs)
  then show ?case by (cases vs) (simp_all add: read_cell_quoted)
qed simp

lemma read_rows_lines:
  "\<forall>cells \<in> set rows. length cells = n \<Longrightarrow> 0 < n \<Longrightarrow> length rows \<le> k \<Longrightarrow>
   read_rows n k (concat (map csv_line rows)) = rows"
proof (induction rows arbitrary: k)
  case Nil
  then show ?case by (cases k) simp_all
next
  case (Cons cells rows)
  obtain j where k: "k = Suc j" using Cons.prems(3) by (cases k) auto
  have "cells \<noteq> []" using Cons.prems(1,2) by auto
  then have "read_cells n (csv_line cells @ s) = (cells, newline # s)" for s
    using read_cells_line [of cells "newline # s"] Cons.prems(1) by (simp add: csv_line_def)
  moreover have "csv_line cells \<noteq> []" by (simp add: csv_line_def)
  ultimately show ?case using Cons by (simp add: k)
qed

lemma skip_line_at: "newline \<notin> set l \<Longrightarrow> skip_line (l @ newline # s) = s"
  by (induction l) auto

lemma skip_comment_lines:
  "list_all (\<lambda>l. l \<noteq> [] \<and> hd l = CHR ''#'' \<and> newline \<notin> set l) ls \<Longrightarrow>
   skip_comments (concat (map (\<lambda>l. l @ [newline]) ls) @ s) = skip_comments s"
proof (induction ls)
  case (Cons l ls)
  then obtain c cs where l: "l = c # cs" by (cases l) auto
  then show ?case using Cons skip_comments.simps [of "l @ newline # concat (map (\<lambda>l. l @ [newline]) ls) @ s"]
    by (simp add: skip_line_at)
qed simp

lemma header_skipped: "skip_comments (CSV_HEADER_COMMENT @ s) = skip_comments s"
  unfolding CSV_HEADER_COMMENT_def by (rule skip_comment_lines) code_simp

lemma read_table_file:
  assumes "\<forall>cells \<in> set rows. length cells = length CSV_FIELDS"
  shows "read_table (length CSV_FIELDS) (csv_header @ concat (map csv_line rows)) = CSV_FIELDS # rows"
proof -
  let ?s = "concat (map csv_line (CSV_FIELDS # rows))"
  have "length rs \<le> length (concat (map csv_line rs))" for rs
    by (induction rs) (auto simp: csv_line_def)
  note this [of "CSV_FIELDS # rows"]
  then have k: "length (CSV_FIELDS # rows) \<le> length (CSV_HEADER_COMMENT @ ?s)" by simp
  have "hd (csv_line CSV_FIELDS) \<noteq> CHR ''#''" "csv_line CSV_FIELDS \<noteq> []" by code_simp+
  then have "skip_comments ?s = ?s" by (simp add: skip_comments.simps)
  moreover have "csv_header @ concat (map csv_line rows) = CSV_HEADER_COMMENT @ ?s" by (simp add: csv_header_def)
  moreover have "0 < length CSV_FIELDS" by (simp add: CSV_FIELDS_def)
  ultimately show ?thesis
    using read_rows_lines [of "CSV_FIELDS # rows" "length CSV_FIELDS", OF _ _ k] assms
    by (simp only: read_table_def header_skipped) simp
qed

section \<open>One header\<close>

definition content :: "world \<Rightarrow> path \<Rightarrow> string" where
  "content w p = (case node_at w p of Some (Reg s) \<Rightarrow> s | _ \<Rightarrow> [])"

text \<open>The loads of an arm appended to one file, each by a run of its own.\<close>

fun append_runs :: "(json \<Rightarrow> string) \<Rightarrow> world \<Rightarrow> path \<Rightarrow> bench_row list list \<Rightarrow> unit res \<times> world" where
  "append_runs show_rest w p [] = (returned (), w)"
| "append_runs show_rest w p (rows # runs) =
     (case write_csv show_rest w p rows of
        (Inl e, w1) \<Rightarrow> (raised e, w1)
      | (Inr _, w1) \<Rightarrow> append_runs show_rest w1 p runs)"

lemma csv_header_nonempty: "csv_header \<noteq> []"
  by (simp add: csv_header_def csv_line_def)

lemma write_csv_content:
  assumes "write_csv show_rest w p rows = (returned (), w')"
  shows "content w' p = content w p @ (if content w p = [] then csv_header else []) @ csv_rows show_rest rows"
proof -
  obtain w1 where m: "mkdirs w (butlast p) = (Inr (), w1)"
    using assms by (auto simp: write_csv_def Let_def split: prod.splits sum.splits)
  have more: "more_dirs w w1" using mkdirs_more_dirs [of w "butlast p"] m by simp
  define fresh where "fresh = (case node_at w p of None \<Rightarrow> True | Some (Reg s) \<Rightarrow> s = [] | Some Dir \<Rightarrow> False)"
  have a: "append_text w1 p ((if fresh then csv_header else []) @ csv_rows show_rest rows) = (returned (), w')"
    using assms m by (simp add: write_csv_def fresh_def)
  then have p: "p \<noteq> []" "\<not> is_dir w1 p" "fate_of w1 p = WOk"
    by (auto simp: append_text_def Let_def split: if_splits fate.splits)
  have same: "node_at w1 p = node_at w p" using more p(2) unfolding more_dirs_def is_dir_def by metis
  have c: "content w1 p = content w p" "fresh = (content w p = [])"
    using same p(2) by (auto simp: content_def fresh_def is_dir_def split: option.splits node.splits)
  then show ?thesis
    using a p by (auto simp: append_text_def content_def Let_def split: if_splits)
qed

lemma append_runs_content:
  "append_runs show_rest w p runs = (returned (), w') \<Longrightarrow> content w p \<noteq> []
     \<Longrightarrow> content w' p = content w p @ csv_rows show_rest (concat runs)"
proof (induction runs arbitrary: w)
  case Nil
  then show ?case by (simp add: csv_rows_def)
next
  case (Cons rows runs)
  then obtain w1 where w1: "write_csv show_rest w p rows = (returned (), w1)" "append_runs show_rest w1 p runs = (returned (), w')"
    by (auto split: prod.splits sum.splits)
  show ?case
    using Cons.IH [OF w1(2)] write_csv_content [OF w1(1)] Cons.prems(2) by (simp add: csv_rows_def)
qed

text \<open>
  However many runs append to it, the file is one header followed by the rows of all runs in
  order, the same as if a single run had written them all.
\<close>

theorem csv_one_header:
  assumes "append_runs show_rest w p (rows # runs) = (returned (), w')" and "content w p = []"
  shows "content w' p = csv_header @ csv_rows show_rest (concat (rows # runs))"
proof -
  obtain w1 where w1: "write_csv show_rest w p rows = (returned (), w1)" "append_runs show_rest w1 p runs = (returned (), w')"
    using assms(1) by (auto split: prod.splits sum.splits)
  have "content w1 p = csv_header @ csv_rows show_rest rows" using write_csv_content [OF w1(1)] assms(2) by simp
  then show ?thesis
    using append_runs_content [OF w1(2)] csv_header_nonempty by (simp add: csv_rows_def)
qed

section \<open>The batch as a whole\<close>

lemma column_of_rows:
  "map (\<lambda>row. csv_cell show_rest row k) (rows_of show_rest a split records) =
     map (\<lambda>(i, r). csv_cell show_rest (row_of show_rest a split i r) k) (enumerate 0 records)"
  by (simp add: rows_of_def case_prod_beta comp_def)

lemma map_snd_enumerate: "map (\<lambda>(i, r). f r) (enumerate n xs) = map f xs"
  by (induction xs arbitrary: n) auto

lemma map_fst_enumerate: "map (\<lambda>(i, r). f i) (enumerate n xs) = map f [n..<n + length xs]"
  by (induction xs arbitrary: n) (auto simp: upt_conv_Cons simp del: upt_Suc)

lemma columns:
  "map (\<lambda>row. csv_cell s row ''fingerprint'') (rows_of s a split records) = map r_fingerprint records"
  "map (\<lambda>row. csv_cell s row ''request_index'') (rows_of s a split records) = map (\<lambda>i. str_int (int i)) [0..<length records]"
  "map (\<lambda>row. csv_cell s row ''queue_wait_s'') (rows_of s a split records) =
     replicate (length records) (fmt s (opt_float (queue_wait_s split)))"
  "map (\<lambda>row. csv_cell s row ''prefill_s'') (rows_of s a split records) =
     replicate (length records) (fmt s (opt_float (prefill_s split)))"
  unfolding column_of_rows
  by (simp_all add: csv_cell_def row_of_def map_snd_enumerate [of r_fingerprint]
        map_fst_enumerate [of "\<lambda>i. str_int (int i)"] map_snd_enumerate map_replicate_const)

lemma measure_batch_parts:
  assumes "measure_batch l e a = returned (records, split)"
  obtains prompt where "fitted_prompt l e a = returned prompt"
    "run_concurrent (bench_serve l e a prompt) (e_schedule e) (b_concurrency a) (b_requests a) = returned records"
    "split_first_token (scraped e a False) (scraped e a True) QUEUE_TIME_METRIC PREFILL_TIME_METRIC = returned split"
  using assms by (auto simp: measure_batch_def res_simps)

text \<open>
  A measured batch has one row for each request that completed, in the order of the requests
  and whatever the schedule was, each with its own fingerprint and all with the same two server
  means, which come from the scrapes around the batch. The index of a row counts the completed
  requests: after a failed request it is not the index the request had in the load.
\<close>

theorem bench_rows:
  assumes "fitted_prompt l e a = returned prompt"
    and "joined (run_schedule (bench_serve l e a prompt) (e_schedule e) (release (b_concurrency a) (b_requests a)))"
    and "measure_batch l e a = returned (records, split)"
  shows "records = answers (bench_serve l e a prompt) (at_least_one (b_requests a)) \<and>
    split_first_token (scraped e a False) (scraped e a True) QUEUE_TIME_METRIC PREFILL_TIME_METRIC = returned split \<and>
    map (\<lambda>row. csv_cell s row ''fingerprint'') (rows_of s a split records) = map r_fingerprint records \<and>
    map (\<lambda>row. csv_cell s row ''request_index'') (rows_of s a split records) = map (\<lambda>i. str_int (int i)) [0..<length records] \<and>
    map (\<lambda>row. csv_cell s row ''queue_wait_s'') (rows_of s a split records) =
      replicate (length records) (fmt s (opt_float (queue_wait_s split))) \<and>
    map (\<lambda>row. csv_cell s row ''prefill_s'') (rows_of s a split records) =
      replicate (length records) (fmt s (opt_float (prefill_s split)))"
proof -
  obtain p where p: "fitted_prompt l e a = returned p"
      "run_concurrent (bench_serve l e a p) (e_schedule e) (b_concurrency a) (b_requests a) = returned records"
      "split_first_token (scraped e a False) (scraped e a True) QUEUE_TIME_METRIC PREFILL_TIME_METRIC = returned split"
    using measure_batch_parts [OF assms(3)] by metis
  have "p = prompt" using p(1) assms(1) by simp
  then have "records = answers (bench_serve l e a prompt) (at_least_one (b_requests a))"
    using p(2) joined_outcome(1) [OF run_schedule_reaches assms(2)]
    by (simp add: run_concurrent_def collect_def Let_def split: if_splits)
  then show ?thesis using p(3) columns [of s a split records] by blast
qed

text \<open>
  When either scrape around the batch fails, no number is published as queue wait or prefill:
  both columns are empty in every row, the summary has none, and the source says why.
\<close>

theorem failed_scrape_blank:
  assumes "measure_batch l e a = returned (records, split)"
    and "scraped e a False = None \<or> scraped e a True = None"
  shows "prefill_source split = SCRAPE_UNAVAILABLE \<and>
    map (\<lambda>row. csv_cell s row ''queue_wait_s'') (rows_of s a split records) = replicate (length records) [] \<and>
    map (\<lambda>row. csv_cell s row ''prefill_s'') (rows_of s a split records) = replicate (length records) [] \<and>
    dget (bench_out a split rows) ''queue_wait_s'' = returned (Some JNull) \<and>
    dget (bench_out a split rows) ''prefill_s'' = returned (Some JNull)"
proof -
  obtain p where "split_first_token (scraped e a False) (scraped e a True) QUEUE_TIME_METRIC PREFILL_TIME_METRIC = returned split"
    using measure_batch_parts [OF assms(1)] by metis
  then have "split = \<lparr>queue_wait_s = None, prefill_s = None, queue_samples = 0, prefill_samples = 0,
      prefill_source = SCRAPE_UNAVAILABLE\<rparr>"
    using assms(2) by (simp add: split_first_token_def split: if_splits)
  then show ?thesis
    by (simp add: columns fmt_def opt_float_def bench_out_def dget_def)
qed

text \<open>
  A run of the client appends exactly the rows of its batch to the file, under a header when the
  file had nothing in it, and a run without a measurement leaves the disk as it was.
\<close>

theorem bench_appends:
  assumes "b_csv a = Some p" and "bench_main l e a w = (outcome, w')" and "outcome = returned out \<or> measure_batch l e a = raised x"
  shows "(\<exists>records split. measure_batch l e a = returned (records, split) \<and>
      out = bench_out a split (rows_of (lib_str l) a split records) \<and>
      content w' p = content w p @ (if content w p = [] then csv_header else []) @
        csv_rows (lib_str l) (rows_of (lib_str l) a split records)) \<or>
    outcome = raised x \<and> w' = w"
proof (cases "measure_batch l e a")
  case (Inl y)
  then show ?thesis using assms by (auto simp: bench_main_def)
next
  case (Inr m)
  obtain records split where m: "m = (records, split)" by (cases m)
  let ?rows = "rows_of (lib_str l) a split records"
  have "bench_main l e a w = (returned out, w')" using assms(2,3) Inr by simp
  then have "write_csv (lib_str l) w p ?rows = (returned (), w')" "out = bench_out a split ?rows"
    using assms(1) Inr m by (auto simp: bench_main_def Let_def split: prod.splits sum.splits)
  then show ?thesis using write_csv_content Inr m by blast
qed

section \<open>What the file tells\<close>

text \<open>How a row is to be written: seconds with six decimals, and nothing for what was not measured.\<close>

definition seconds_text :: "pyfloat option \<Rightarrow> string" where
  "seconds_text x = (case x of None \<Rightarrow> [] | Some f \<Rightarrow> fixed 6 f)"

definition count_text :: "(json \<Rightarrow> string) \<Rightarrow> json option \<Rightarrow> string" where
  "count_text show_rest x = (case x of None \<Rightarrow> [] | Some JNull \<Rightarrow> [] | Some v \<Rightarrow> py_str show_rest v)"

definition row_text :: "(json \<Rightarrow> string) \<Rightarrow> bench_args \<Rightarrow> first_token_split \<Rightarrow> nat \<Rightarrow> stream_rec \<Rightarrow> string list" where
  "row_text show_rest a split i r =
     [b_arm a, str_int (b_load a), str_int (b_depth a), count_text show_rest (r_prompt_tokens r),
      str_int (b_concurrency a), str_int (int i), seconds_text (r_ttft r),
      seconds_text (queue_wait_s split), seconds_text (prefill_s split),
      seconds_text (r_decode r), fixed 6 (r_total r), count_text show_rest (r_completion_tokens r),
      r_fingerprint r, b_spec_label a]"

lemma row_cells: "map (csv_cell s (row_of s a split i r)) CSV_FIELDS = row_text s a split i r"
proof -
  have "(case opt_json x of JNull \<Rightarrow> [] | v \<Rightarrow> py_str s v) = count_text s x" for x
    by (auto simp: opt_json_def count_text_def split: option.split json.split)
  moreover have "fmt s (opt_float x) = seconds_text x" for x
    by (auto simp: fmt_def opt_float_def seconds_text_def split: option.split)
  moreover have "fmt s (JFloat x) = fixed 6 x" for x by (simp add: fmt_def)
  ultimately show ?thesis by (simp add: csv_cell_def row_of_def row_text_def CSV_FIELDS_def)
qed

text \<open>
  C35: The file of a run tells the whole batch: reading it back, behind the comments and under the names
  of the columns there is one row for each completed request in order, with the arm, load, depth,
  concurrency and configuration of the command line, its own times, counts and fingerprint and the
  shared server means, each under its name; whatever characters are in the labels, and blank where
  nothing was measured.
\<close>

theorem csv_file_tells_batch:
  assumes "b_csv a = Some p" and "content w p = []" and "bench_main l e a w = (returned out, w')"
  shows "\<exists>records split. measure_batch l e a = returned (records, split) \<and>
    read_table 14 (content w' p) =
      [''arm'', ''load'', ''depth_target'', ''depth_actual'', ''concurrency'', ''request_index'', ''ttft_s'',
       ''queue_wait_s'', ''prefill_s'', ''decode_s'', ''total_s'', ''completion_tokens'', ''fingerprint'', ''spec_config'']
      # map (\<lambda>(i, r). row_text (lib_str l) a split i r) (enumerate 0 records)"
proof -
  obtain records split where m: "measure_batch l e a = returned (records, split)"
    using assms(3) by (auto simp: bench_main_def split: sum.splits)
  let ?rows = "map (\<lambda>(i, r). row_text (lib_str l) a split i r) (enumerate 0 records)"
  have "write_csv (lib_str l) w p (rows_of (lib_str l) a split records) = (returned (), w')"
    using assms(1,3) m by (auto simp: bench_main_def Let_def split: prod.splits sum.splits)
  then have c: "content w' p = csv_header @ csv_rows (lib_str l) (rows_of (lib_str l) a split records)"
    using write_csv_content assms(2) by simp
  have "map (\<lambda>row. csv_line (map (csv_cell (lib_str l) row) CSV_FIELDS)) (rows_of (lib_str l) a split records) =
      map csv_line ?rows"
    by (auto simp: rows_of_def row_cells comp_def case_prod_unfold)
  then have "csv_rows (lib_str l) (rows_of (lib_str l) a split records) = concat (map csv_line ?rows)"
    unfolding csv_rows_def by (rule arg_cong)
  moreover have n: "length CSV_FIELDS = 14" by (simp add: CSV_FIELDS_def)
  moreover have "\<forall>cells \<in> set ?rows. length cells = 14" by (auto simp: row_text_def)
  ultimately have "read_table 14 (content w' p) = CSV_FIELDS # ?rows"
    using read_table_file [of ?rows] c by simp
  then show ?thesis using m by (auto simp: CSV_FIELDS_def)
qed

section \<open>Witnesses\<close>

definition demo_lib :: lib where
  "demo_lib = \<lparr>lib_loads = demo_loads, lib_sha256 = (\<lambda>s. s), lib_str = (\<lambda>v. [])\<rparr>"

definition demo_engine :: engine where
  "demo_engine =
     \<lparr>e_probe = (\<lambda>k url body. raised OSError),
      e_scrape = (\<lambda>after url. if after then returned [] else raised OSError),
      e_open = (\<lambda>i url body. if i = 0 then raised OSError else returned ([''data: one''], None)),
      e_clock = (\<lambda>i t. Fin (of_nat t)), e_schedule = [1, 0, 1, 0]\<rparr>"

definition demo_args :: bench_args where
  "demo_args =
     \<lparr>b_api = ''http://a'', b_metrics = None, b_model = ''m'', b_arm = ''a,b'', b_load = 1, b_depth = 0, b_concurrency = 2,
      b_requests = 2, b_max_tokens = 8, b_temperature = Fin 0, b_spec_label = ''off'', b_csv = Some [''t'', ''o.csv'']\<rparr>"

definition blank_split :: first_token_split where
  "blank_split = \<lparr>queue_wait_s = None, prefill_s = None, queue_samples = 0, prefill_samples = 0,
     prefill_source = SCRAPE_UNAVAILABLE\<rparr>"

definition demo_record :: stream_rec where
  "demo_record = \<lparr>r_ttft = Some (Fin 1), r_decode = Some (Fin 1), r_total = Fin 2, r_prompt_tokens = None,
     r_completion_tokens = None, r_fingerprint = ''i:7;'', r_token_ids = Some [JInt 7]\<rparr>"

lemma demo_measured: "measure_batch demo_lib demo_engine demo_args = returned ([demo_record], blank_split)"
  by code_simp

lemma demo_prompt: "fitted_prompt demo_lib demo_engine demo_args = returned SHORT_PROMPT"
  by (simp add: fitted_prompt_def converge_prompt_def demo_args_def)

lemma demo_joined:
  "joined (run_schedule (bench_serve demo_lib demo_engine demo_args SHORT_PROMPT) (e_schedule demo_engine)
     (release (b_concurrency demo_args) (b_requests demo_args)))"
  by code_simp

theorem bench_rows_witness:
  "map (\<lambda>row. csv_cell (\<lambda>v. []) row ''request_index'') (rows_of (\<lambda>v. []) demo_args blank_split [demo_record]) = [str_int 0] \<and>
   [demo_record] = answers (bench_serve demo_lib demo_engine demo_args SHORT_PROMPT) 2"
proof -
  have n: "at_least_one (b_requests demo_args) = 2" by (simp add: demo_args_def at_least_one_def)
  have l: "map (\<lambda>i. str_int (int i)) [0..<length [demo_record]] = [str_int 0]" by simp
  show ?thesis
    using bench_rows [OF demo_prompt demo_joined demo_measured, of "\<lambda>v. []"] unfolding n l by blast
qed

theorem failed_scrape_blank_witness:
  "map (\<lambda>row. csv_cell (\<lambda>v. []) row ''prefill_s'') (rows_of (\<lambda>v. []) demo_args blank_split [demo_record]) = [[]]"
proof -
  have "scraped demo_engine demo_args False = None \<or> scraped demo_engine demo_args True = None"
    by (simp add: scraped_def scrape_metrics_def demo_engine_def)
  from failed_scrape_blank [OF demo_measured this, of "\<lambda>v. []"] show ?thesis by simp
qed

definition demo_world :: world where
  "demo_world = \<lparr>nodes = [], readable = (\<lambda>p. True), fate_of = (\<lambda>p. WOk)\<rparr>"

theorem csv_one_header_witness:
  "\<exists>w. append_runs (\<lambda>v. []) demo_world [''o.csv''] [[], []] = (returned (), w) \<and> content w [''o.csv''] = csv_header"
proof -
  obtain w where w: "append_runs (\<lambda>v. []) demo_world [''o.csv''] [[], []] = (returned (), w)"
    by (auto simp: write_csv_def append_text_def mkdirs_def demo_world_def node_at_def is_dir_def put_node_def)
  have "content demo_world [''o.csv''] = []" by (simp add: content_def demo_world_def node_at_def)
  with csv_one_header [OF w] w show ?thesis by (auto simp: csv_rows_def)
qed

lemma demo_main:
  "\<exists>w'. bench_main demo_lib demo_engine demo_args demo_world =
     (returned (bench_out demo_args blank_split (rows_of (\<lambda>v. []) demo_args blank_split [demo_record])), w')"
proof -
  have out: "b_csv demo_args = Some [''t'', ''o.csv'']" "lib_str demo_lib = (\<lambda>v. [])"
    by (simp_all add: demo_args_def demo_lib_def)
  obtain w' where "write_csv (\<lambda>v. []) demo_world [''t'', ''o.csv''] (rows_of (\<lambda>v. []) demo_args blank_split [demo_record]) =
      (returned (), w')"
    by (simp add: write_csv_def append_text_def mkdirs_def mkdirs_from_Cons demo_world_def node_at_def is_dir_def put_node_def)
  then have "bench_main demo_lib demo_engine demo_args demo_world =
     (returned (bench_out demo_args blank_split (rows_of (\<lambda>v. []) demo_args blank_split [demo_record])), w')"
    by (simp add: bench_main_def demo_measured out)
  then show ?thesis ..
qed

theorem bench_appends_witness:
  "\<exists>w'. content w' [''t'', ''o.csv''] =
     csv_header @ csv_rows (\<lambda>v. []) (rows_of (\<lambda>v. []) demo_args blank_split [demo_record])"
proof -
  let ?out = "bench_out demo_args blank_split (rows_of (\<lambda>v. []) demo_args blank_split [demo_record])"
  obtain w' where w: "bench_main demo_lib demo_engine demo_args demo_world = (returned ?out, w')"
    using demo_main by blast
  have fl: "b_csv demo_args = Some [''t'', ''o.csv'']" and str: "lib_str demo_lib = (\<lambda>v. [])"
    by (simp_all add: demo_args_def demo_lib_def)
  have "content demo_world [''t'', ''o.csv''] = []" by (simp add: content_def demo_world_def node_at_def)
  then show ?thesis
    using bench_appends [OF fl w, of ?out OSError] by (auto simp: demo_measured str)
qed

theorem csv_file_tells_batch_witness:
  "\<exists>w'. read_table 14 (content w' [''t'', ''o.csv'']) =
     [[''arm'', ''load'', ''depth_target'', ''depth_actual'', ''concurrency'', ''request_index'', ''ttft_s'',
       ''queue_wait_s'', ''prefill_s'', ''decode_s'', ''total_s'', ''completion_tokens'', ''fingerprint'', ''spec_config''],
      [''a,b'', ''1'', ''0'', [], ''2'', ''0'', fixed 6 (Fin 1), [], [], fixed 6 (Fin 1), fixed 6 (Fin 2), [], ''i:7;'', ''off'']]"
proof -
  obtain out w' where w: "bench_main demo_lib demo_engine demo_args demo_world = (returned out, w')"
    using demo_main by blast
  have fl: "b_csv demo_args = Some [''t'', ''o.csv'']" and str: "lib_str demo_lib = (\<lambda>v. [])"
    by (simp_all add: demo_args_def demo_lib_def)
  have empty: "content demo_world [''t'', ''o.csv''] = []" by (simp add: content_def demo_world_def node_at_def)
  have ints: "str_int 0 = ''0''" "str_int 1 = ''1''" "str_int 2 = ''2''" by code_simp+
  have row: "map (\<lambda>(i, r). row_text (\<lambda>v. []) demo_args blank_split i r) (enumerate 0 [demo_record]) =
      [[''a,b'', ''1'', ''0'', [], ''2'', ''0'', fixed 6 (Fin 1), [], [], fixed 6 (Fin 1), fixed 6 (Fin 2), [], ''i:7;'', ''off'']]"
    by (simp add: row_text_def demo_args_def blank_split_def demo_record_def ints seconds_text_def count_text_def)
  obtain records split where m: "measure_batch demo_lib demo_engine demo_args = returned (records, split)"
    and t: "read_table 14 (content w' [''t'', ''o.csv'']) =
      [''arm'', ''load'', ''depth_target'', ''depth_actual'', ''concurrency'', ''request_index'', ''ttft_s'',
       ''queue_wait_s'', ''prefill_s'', ''decode_s'', ''total_s'', ''completion_tokens'', ''fingerprint'', ''spec_config'']
      # map (\<lambda>(i, r). row_text (lib_str demo_lib) demo_args split i r) (enumerate 0 records)"
    using csv_file_tells_batch [OF fl empty w] by - (erule exE, erule exE, erule conjE, rule that, assumption, assumption)
  have "records = [demo_record]" "split = blank_split" using m demo_measured by simp_all
  with t show ?thesis by (intro exI [of _ w']) (simp only: str row)
qed

end
