(* ===== verification/StreamCommand.thy ===== *)
theory StreamCommand
  imports StreamClient ArgParse
begin

text \<open>
  The command line of \<open>bench/fn-stream-client.py\<close>: the parser with the defaults it reads from the
  environment, and the whole process from the arguments to the measured batch.
\<close>

section \<open>The parser\<close>

definition default_api :: "environ \<Rightarrow> string" where
  "default_api env = env_get env ''FN_API'' (''http://127.0.0.1:'' @ env_get env ''FN_PORT'' ''1234'')"

text \<open>A number in the environment that is none raises before any argument is looked at.\<close>

definition client_parser :: "environ \<Rightarrow> arg_spec list res" where
  "client_parser env =
     res_bind (env_int env ''FN_BENCH_CONCURRENCY'' ''1'') (\<lambda>concurrency.
     res_bind (env_int env ''FN_BENCH_REQUESTS'' ''8'') (\<lambda>requests.
     res_bind (env_int env ''FN_BENCH_MAX_TOKENS'' ''128'') (\<lambda>tokens.
       returned
         [option_of ''--api'' Text_arg (Text_value (default_api env)),
          option_of ''--metrics'' Text_arg No_value,
          option_of ''--model'' Text_arg (Text_value (env_get env ''FN_SERVED_NAME'' ''flashnext'')),
          option_of ''--arm'' Text_arg (Text_value ''unspecified''),
          option_of ''--load'' Int_arg (Int_value 1),
          option_of ''--depth'' Int_arg (Int_value 0),
          option_of ''--concurrency'' Int_arg (Int_value concurrency),
          option_of ''--requests'' Int_arg (Int_value requests),
          option_of ''--max-tokens'' Int_arg (Int_value tokens),
          option_of ''--temperature'' Float_arg (Float_value (Fin 0)),
          option_of ''--timeout'' Float_arg (Float_value (Fin 7200)),
          option_of ''--spec-label'' Text_arg (Text_value (env_get env ''FN_BENCH_SPEC_LABEL'' ''unspecified'')),
          option_of ''--csv'' Text_arg No_value])))"

text \<open>\<open>path_of\<close> is the path that a text names; an empty \<open>--csv\<close> counts as none.\<close>

definition bench_args_of :: "(string \<Rightarrow> path) \<Rightarrow> namespace \<Rightarrow> bench_args" where
  "bench_args_of path_of ns =
     \<lparr>b_api = text_arg ns ''--api'', b_metrics = opt_text_arg ns ''--metrics'', b_model = text_arg ns ''--model'',
      b_arm = text_arg ns ''--arm'', b_load = int_arg ns ''--load'', b_depth = int_arg ns ''--depth'',
      b_concurrency = int_arg ns ''--concurrency'', b_requests = int_arg ns ''--requests'',
      b_max_tokens = int_arg ns ''--max-tokens'', b_temperature = float_arg ns ''--temperature'',
      b_spec_label = text_arg ns ''--spec-label'',
      b_csv = (if text_arg ns ''--csv'' = [] then None else Some (path_of (text_arg ns ''--csv'')))\<rparr>"

text \<open>The exit status of an early end, or what the measured batch prints; and the files.\<close>

definition client_process ::
  "lib \<Rightarrow> engine \<Rightarrow> (string \<Rightarrow> path) \<Rightarrow> environ \<Rightarrow> string list \<Rightarrow> world \<Rightarrow> (int + json) res \<times> world" where
  "client_process l e path_of env argv w =
     (case client_parser env of
        Inl x \<Rightarrow> (raised x, w)
      | Inr specs \<Rightarrow>
          (case parse_args specs argv of
             Parser_exit n \<Rightarrow> (returned (Inl n), w)
           | Parsed ns \<Rightarrow>
               (case bench_main l e (bench_args_of path_of ns) w of
                  (r, w1) \<Rightarrow> (res_bind r (\<lambda>j. returned (Inr j)), w1))))"

section \<open>What an invocation measures\<close>

lemma client_long_names: "client_parser env = returned specs \<Longrightarrow> long_names specs"
  by (auto simp: client_parser_def res_bind_Inr_iff long_names_def option_of_def help_name_def startswith_def)

lemma client_specs:
  assumes "client_parser env = returned specs"
  shows "\<exists>d. find_spec specs ''--arm'' = Some (option_of ''--arm'' Text_arg d)"
    "\<exists>d. find_spec specs ''--concurrency'' = Some (option_of ''--concurrency'' Int_arg d)"
    "\<exists>d. find_spec specs ''--requests'' = Some (option_of ''--requests'' Int_arg d)"
    "\<exists>d. find_spec specs ''--depth'' = Some (option_of ''--depth'' Int_arg d)"
    "\<exists>d. find_spec specs ''--csv'' = Some (option_of ''--csv'' Text_arg d)"
    "\<forall>s \<in> set specs. \<not> arg_required s"
    "map_of (defaults specs) ''--api'' = Some (Text_value (default_api env))"
    "map_of (defaults specs) ''--metrics'' = Some No_value"
    "map_of (defaults specs) ''--model'' = Some (Text_value (env_get env ''FN_SERVED_NAME'' ''flashnext''))"
    "map_of (defaults specs) ''--spec-label'' = Some (Text_value (env_get env ''FN_BENCH_SPEC_LABEL'' ''unspecified''))"
    "\<exists>n. env_int env ''FN_BENCH_MAX_TOKENS'' ''128'' = returned n \<and> map_of (defaults specs) ''--max-tokens'' = Some (Int_value n)"
  using assms by (auto simp: client_parser_def res_bind_Inr_iff option_of_def defaults_def)

definition measuring_line :: "string \<Rightarrow> int \<Rightarrow> int \<Rightarrow> int \<Rightarrow> string \<Rightarrow> written list" where
  "measuring_line arm depth concurrency requests csv =
     [With_value ''--arm'' arm, With_value ''--depth'' (str_int depth), With_value ''--concurrency'' (str_int concurrency),
      With_value ''--requests'' (str_int requests), With_value ''--csv'' csv]"

lemma measuring_line_read:
  assumes "client_parser env = returned specs" "arm = [] \<or> hd arm \<noteq> CHR ''-''" "csv = [] \<or> hd csv \<noteq> CHR ''-''"
  shows "\<exists>ns. parse_args specs (command_line (measuring_line arm depth concurrency requests csv)) = Parsed ns \<and>
    text_arg ns ''--api'' = default_api env \<and> opt_text_arg ns ''--metrics'' = None \<and> text_arg ns ''--arm'' = arm \<and>
    int_arg ns ''--depth'' = depth \<and> int_arg ns ''--concurrency'' = concurrency \<and>
    int_arg ns ''--requests'' = requests \<and> text_arg ns ''--csv'' = csv \<and>
    text_arg ns ''--model'' = env_get env ''FN_SERVED_NAME'' ''flashnext'' \<and>
    text_arg ns ''--spec-label'' = env_get env ''FN_BENCH_SPEC_LABEL'' ''unspecified'' \<and>
    env_int env ''FN_BENCH_MAX_TOKENS'' ''128'' = returned (int_arg ns ''--max-tokens'')"
proof -
  note specs = client_specs [OF assms(1)]
  obtain tokens where tokens: "env_int env ''FN_BENCH_MAX_TOKENS'' ''128'' = returned tokens"
    "map_of (defaults specs) ''--max-tokens'' = Some (Int_value tokens)"
    using specs(11) by blast
  obtain d1 d2 d3 d4 d5 where s:
    "find_spec specs ''--arm'' = Some (option_of ''--arm'' Text_arg d1)"
    "find_spec specs ''--concurrency'' = Some (option_of ''--concurrency'' Int_arg d2)"
    "find_spec specs ''--requests'' = Some (option_of ''--requests'' Int_arg d3)"
    "find_spec specs ''--depth'' = Some (option_of ''--depth'' Int_arg d4)"
    "find_spec specs ''--csv'' = Some (option_of ''--csv'' Text_arg d5)"
    using specs(1-5) by blast
  have names: "\<forall>m \<in> set (help_name # map arg_name specs). startswith m ''--''"
    using client_long_names [OF assms(1)] by (auto simp: long_names_def help_name_def startswith_def)
  have "list_all (well_written specs) (measuring_line arm depth concurrency requests csv)"
    using int_can_be_value [OF names] assms(2,3)
    by (simp add: measuring_line_def s option_of_def convert_arg_def)
  from parse_command_line [OF client_long_names [OF assms(1)] this] show ?thesis
    using specs(6-10) tokens by (simp add: measuring_line_def s option_of_def convert_arg_def arg_readers)
qed

text \<open>The environment sets one of the numbers it may set to a text that is none.\<close>

definition bad_number :: "environ \<Rightarrow> bool" where
  "bad_number env \<longleftrightarrow>
     list_ex (\<lambda>v. case env v of None \<Rightarrow> False | Some s \<Rightarrow> parse_int s = None)
       [''FN_BENCH_CONCURRENCY'', ''FN_BENCH_REQUESTS'', ''FN_BENCH_MAX_TOKENS'']"

lemma client_parser_cases:
  "bad_number env \<Longrightarrow> client_parser env = raised ValueError"
  "\<not> bad_number env \<Longrightarrow> \<exists>specs. client_parser env = returned specs"
proof -
  have numbers: "parse_int ''1'' = Some 1" "parse_int ''8'' = Some 8" "parse_int ''128'' = Some 128" by code_simp+
  have number: "env_int env v d = (case env v of None \<Rightarrow> returned n | Some s \<Rightarrow>
      (case parse_int s of None \<Rightarrow> raised ValueError | Some i \<Rightarrow> returned i))" if "parse_int d = Some n" for v d n
    using that by (simp add: env_int_def env_get_def split: option.split)
  note read = number [OF numbers(1)] number [OF numbers(2)] number [OF numbers(3)]
  show "bad_number env \<Longrightarrow> client_parser env = raised ValueError"
    by (auto simp: bad_number_def client_parser_def read split: option.splits)
  show "\<not> bad_number env \<Longrightarrow> \<exists>specs. client_parser env = returned specs"
    by (auto simp: bad_number_def client_parser_def read split: option.splits)
qed

text \<open>
  C25: When the environment sets a number of the client to a text that is none, the process raises
  before it looks at its arguments, whatever they are, and measures and writes nothing. Otherwise an
  invocation that names its arm, depth, concurrency, number of requests and file measures exactly that,
  against the endpoint of the environment and the metrics page under it, with the model, the token limit
  and the label of the environment; the other numbers of the environment do not count then.
\<close>

theorem invocation_measures:
  assumes "arm = [] \<or> hd arm \<noteq> CHR ''-''" and "csv \<noteq> [] \<and> hd csv \<noteq> CHR ''-''"
  shows "if bad_number env
    then \<forall>argv. client_process l e path_of env argv w = (raised ValueError, w)
    else \<exists>a. b_api a = default_api env \<and> metrics_url a = rstrip_slash (default_api env) @ ''/metrics'' \<and>
        b_arm a = arm \<and> b_depth a = depth \<and> b_concurrency a = concurrency \<and> b_requests a = requests \<and>
        b_csv a = Some (path_of csv) \<and>
        b_model a = env_get env ''FN_SERVED_NAME'' ''flashnext'' \<and>
        b_spec_label a = env_get env ''FN_BENCH_SPEC_LABEL'' ''unspecified'' \<and>
        parse_int (env_get env ''FN_BENCH_MAX_TOKENS'' ''128'') = Some (b_max_tokens a) \<and>
        client_process l e path_of env (command_line (measuring_line arm depth concurrency requests csv)) w =
          (case bench_main l e a w of (r, w1) \<Rightarrow> (res_bind r (\<lambda>j. returned (Inr j)), w1))"
proof (cases "bad_number env")
  case True
  then show ?thesis using client_parser_cases(1) by (simp add: client_process_def)
next
  case False
  then obtain specs where Inr: "client_parser env = returned specs" using client_parser_cases(2) by blast
  obtain ns where ns: "parse_args specs (command_line (measuring_line arm depth concurrency requests csv)) = Parsed ns"
    "text_arg ns ''--api'' = default_api env" "opt_text_arg ns ''--metrics'' = None" "text_arg ns ''--arm'' = arm"
    "int_arg ns ''--depth'' = depth" "int_arg ns ''--concurrency'' = concurrency"
    "int_arg ns ''--requests'' = requests" "text_arg ns ''--csv'' = csv"
    "text_arg ns ''--model'' = env_get env ''FN_SERVED_NAME'' ''flashnext''"
    "text_arg ns ''--spec-label'' = env_get env ''FN_BENCH_SPEC_LABEL'' ''unspecified''"
    and tokens: "env_int env ''FN_BENCH_MAX_TOKENS'' ''128'' = returned (int_arg ns ''--max-tokens'')"
    using measuring_line_read [OF Inr, of arm csv] assms by blast
  have "parse_int (env_get env ''FN_BENCH_MAX_TOKENS'' ''128'') = Some (int_arg ns ''--max-tokens'')"
    using tokens by (simp add: env_int_def split: option.splits)
  then have "\<exists>a. b_api a = default_api env \<and> metrics_url a = rstrip_slash (default_api env) @ ''/metrics'' \<and>
        b_arm a = arm \<and> b_depth a = depth \<and> b_concurrency a = concurrency \<and> b_requests a = requests \<and>
        b_csv a = Some (path_of csv) \<and>
        b_model a = env_get env ''FN_SERVED_NAME'' ''flashnext'' \<and>
        b_spec_label a = env_get env ''FN_BENCH_SPEC_LABEL'' ''unspecified'' \<and>
        parse_int (env_get env ''FN_BENCH_MAX_TOKENS'' ''128'') = Some (b_max_tokens a) \<and>
        client_process l e path_of env (command_line (measuring_line arm depth concurrency requests csv)) w =
          (case bench_main l e a w of (r, w1) \<Rightarrow> (res_bind r (\<lambda>j. returned (Inr j)), w1))"
    by (intro exI [of _ "bench_args_of path_of ns"])
      (use assms(2) in \<open>simp add: ns Inr client_process_def bench_args_of_def metrics_url_def\<close>)
  then show ?thesis using False by simp
qed

theorem invocation_measures_witness:
  "(\<exists>a. b_api a = ''http://127.0.0.1:8000'' \<and> b_concurrency a = 4 \<and> b_csv a = Some [''o.csv''] \<and>
     client_process demo_lib demo_engine (\<lambda>s. [s]) (\<lambda>v. if v = ''FN_PORT'' then Some ''8000'' else None)
       (command_line (measuring_line ''spec'' 0 4 16 ''o.csv'')) demo_world =
     (case bench_main demo_lib demo_engine a demo_world of (r, w1) \<Rightarrow> (res_bind r (\<lambda>j. returned (Inr j)), w1))) \<and>
   client_process demo_lib demo_engine (\<lambda>s. [s]) (\<lambda>v. Some ''many'') [] demo_world = (raised ValueError, demo_world)"
proof (rule conjI)
  define env :: environ where "env = (\<lambda>v. if v = ''FN_PORT'' then Some ''8000'' else None)"
  have "\<not> bad_number env" by (simp add: bad_number_def env_def)
  moreover have "default_api env = ''http://127.0.0.1:8000''"
    by (simp add: default_api_def env_get_def env_def)
  ultimately show "\<exists>a. b_api a = ''http://127.0.0.1:8000'' \<and> b_concurrency a = 4 \<and> b_csv a = Some [''o.csv''] \<and>
     client_process demo_lib demo_engine (\<lambda>s. [s]) (\<lambda>v. if v = ''FN_PORT'' then Some ''8000'' else None)
       (command_line (measuring_line ''spec'' 0 4 16 ''o.csv'')) demo_world =
     (case bench_main demo_lib demo_engine a demo_world of (r, w1) \<Rightarrow> (res_bind r (\<lambda>j. returned (Inr j)), w1))"
    using invocation_measures [where arm = "''spec''" and csv = "''o.csv''" and env = env and l = demo_lib
        and e = demo_engine and path_of = "\<lambda>s. [s]" and depth = 0 and concurrency = 4 and requests = 16 and w = demo_world]
    unfolding env_def by auto
  have "parse_int ''many'' = None" by code_simp
  then have "bad_number (\<lambda>v. Some ''many'')" by (simp add: bad_number_def)
  then show "client_process demo_lib demo_engine (\<lambda>s. [s]) (\<lambda>v. Some ''many'') [] demo_world = (raised ValueError, demo_world)"
    using invocation_measures [where arm = "[]" and csv = "''o.csv''" and env = "\<lambda>v. Some ''many''" and l = demo_lib
        and e = demo_engine and path_of = "\<lambda>s. [s]" and w = demo_world]
    by simp
qed

end
