(* ===== verification/SocketWire.thy ===== *)
theory SocketWire
  imports PyText PyValue ByteChannel
begin

text \<open>
  The wire protocol of \<open>bench/socket-transport-bench.py\<close>: the framing of commands, what the client
  sends and receives in a session and what the server does for each command. A connection is a pair
  of byte channels; the bytes a side will still receive before the peer closes are a string.
  \<open>json.dumps\<close> and \<open>json.loads\<close> are arguments with the law that loading what was dumped gives it
  back. A socket may move any part of what is asked for, so the theorems hold for every limit on
  a single system call.
\<close>

section \<open>Framing\<close>

definition HDR :: nat where "HDR = 8"

definition ACK :: string where "ACK = ''ACKACKAC''"

definition frame :: "(json \<Rightarrow> string) \<Rightarrow> json \<Rightarrow> string" where
  "frame dumps obj = (let body = dumps obj in zero_pad 8 (str_nat (length body)) @ body)"

text \<open>\<open>recv_exact\<close> on the bytes that come before the peer closes.\<close>

definition recv_exact :: "nat \<Rightarrow> string \<Rightarrow> (string \<times> string) res" where
  "recv_exact n s = (if length s < n then raised ConnectionError else returned (take n s, drop n s))"

definition recv_cmd :: "(string \<Rightarrow> json option) \<Rightarrow> string \<Rightarrow> (json \<times> string) res" where
  "recv_cmd loads s =
     res_bind (recv_exact HDR s) (\<lambda>(h, r).
       case parse_int h of
         None \<Rightarrow> raised ValueError
       | Some n \<Rightarrow>
           if n < 0 then raised ValueError
           else res_bind (recv_exact (nat n) r) (\<lambda>(body, r').
                  case loads body of None \<Rightarrow> raised ValueError | Some v \<Rightarrow> returned (v, r')))"

section \<open>Commands\<close>

datatype cmd = Echo nat nat | Sink nat nat | Source nat nat | Quit

fun cmd_json :: "cmd \<Rightarrow> json" where
  "cmd_json (Echo n k) = JObj [(''op'', JStr ''echo''), (''size'', JInt (int n)), (''iters'', JInt (int k))]"
| "cmd_json (Sink b c) = JObj [(''op'', JStr ''sink''), (''bytes'', JInt (int b)), (''chunk'', JInt (int c))]"
| "cmd_json (Source b c) = JObj [(''op'', JStr ''source''), (''bytes'', JInt (int b)), (''chunk'', JInt (int c))]"
| "cmd_json Quit = JObj [(''op'', JStr ''quit'')]"

text \<open>The dispatch of the server; the numbers of a command are natural.\<close>

definition nat_field :: "json \<Rightarrow> string \<Rightarrow> nat res" where
  "nat_field d k =
     res_bind (dget d k) (\<lambda>v. case v of
       None \<Rightarrow> raised KeyError
     | Some (JInt n) \<Rightarrow> if n < 0 then raised ValueError else returned (nat n)
     | Some _ \<Rightarrow> raised TypeError)"

definition dispatch :: "json \<Rightarrow> cmd res" where
  "dispatch d =
     res_bind (dget d ''op'') (\<lambda>v. case v of
       None \<Rightarrow> raised KeyError
     | Some t \<Rightarrow>
         if t = JStr ''quit'' then returned Quit
         else if t = JStr ''echo'' then
           res_bind (nat_field d ''size'') (\<lambda>n. res_bind (nat_field d ''iters'') (\<lambda>k. returned (Echo n k)))
         else if t = JStr ''sink'' then
           res_bind (nat_field d ''bytes'') (\<lambda>b. res_bind (nat_field d ''chunk'') (\<lambda>c. returned (Sink b c)))
         else if t = JStr ''source'' then
           res_bind (nat_field d ''bytes'') (\<lambda>b. res_bind (nat_field d ''chunk'') (\<lambda>c. returned (Source b c)))
         else raised ValueError)"

section \<open>The two sides\<close>

text \<open>The sizes of the pieces a loop sends; with a chunk of zero it never ends.\<close>

partial_function (option) send_chunks :: "nat \<Rightarrow> nat \<Rightarrow> nat list option" where
  "send_chunks chunk left =
     (if left = 0 then Some []
      else let m = min chunk left in Option.bind (send_chunks chunk (left - m)) (\<lambda>ms. Some (m # ms)))"

text \<open>What the client does for one command, after \<open>fsize\<close> bytes of its frame.\<close>

definition client_ops :: "(cmd \<Rightarrow> nat) \<Rightarrow> cmd \<Rightarrow> io_op list option" where
  "client_ops fsize c =
     (case c of
        Echo n k \<Rightarrow> Some (Write (fsize c) # repeat_ops k (rest_write n (rest_read n [])))
      | Sink b chunk \<Rightarrow>
          map_option (\<lambda>ms. Write (fsize c) # concat (map (\<lambda>m. rest_write m []) ms) @ [Read HDR]) (send_chunks chunk b)
      | Source b chunk \<Rightarrow> Some (Write (fsize c) # rest_read b [Write (length ACK)])
      | Quit \<Rightarrow> Some [Write (fsize c)])"

text \<open>
  The server reads the frame and then serves the command out of a buffer of one MiB: a receive that
  asks for more than the buffer has is refused, one into an empty view looks like a closed peer.
\<close>

definition BUFFER :: nat where "BUFFER = 1048576"

definition server_ops :: "(cmd \<Rightarrow> nat) \<Rightarrow> cmd \<Rightarrow> io_op list option res" where
  "server_ops fsize c =
     (let header = (\<lambda>ops. Read HDR # rest_read (fsize c - HDR) ops)
      in case c of
           Echo n k \<Rightarrow>
             if 0 < k \<and> BUFFER < n then raised ValueError
             else returned (Some (header (repeat_ops k (rest_read n (rest_write n [])))))
         | Sink b chunk \<Rightarrow>
             if BUFFER < min chunk b then raised ValueError
             else if 0 < b \<and> chunk = 0 then raised ConnectionError
             else returned (Some (header (rest_read b [Write (length ACK)])))
         | Source b chunk \<Rightarrow>
             returned (map_option (\<lambda>ms. header (concat (map (\<lambda>m. rest_write m []) ms) @ [Read HDR])) (send_chunks chunk b))
         | Quit \<Rightarrow> returned (Some (header [])))"

text \<open>The commands of \<open>run_client\<close>.\<close>

definition echo_iters :: "nat \<Rightarrow> nat \<Rightarrow> nat" where
  "echo_iters iters bytes = (if bytes \<le> 16384 then iters else max 2000 (iters div 4))"

definition session :: "nat list \<Rightarrow> nat \<Rightarrow> nat \<Rightarrow> nat \<Rightarrow> nat \<Rightarrow> cmd list" where
  "session sizes iters warmup throughput_bytes chunk =
     map (\<lambda>n. Echo n (echo_iters iters n + warmup)) sizes
     @ (if throughput_bytes \<noteq> 0 then [Sink throughput_bytes chunk, Source throughput_bytes chunk] else [])
     @ [Quit]"

fun those_ops :: "io_op list option list \<Rightarrow> io_op list option" where
  "those_ops [] = Some []"
| "those_ops (None # xs) = None"
| "those_ops (Some ops # xs) = map_option (\<lambda>rest. ops @ rest) (those_ops xs)"

definition client_program :: "(cmd \<Rightarrow> nat) \<Rightarrow> cmd list \<Rightarrow> io_op list option" where
  "client_program fsize cmds = those_ops (map (client_ops fsize) cmds)"

definition server_program :: "(cmd \<Rightarrow> nat) \<Rightarrow> cmd list \<Rightarrow> io_op list option res" where
  "server_program fsize cmds =
     res_bind (res_seq (map (server_ops fsize) cmds)) (\<lambda>opss. returned (those_ops opss))"

definition frame_size :: "(json \<Rightarrow> string) \<Rightarrow> cmd \<Rightarrow> nat" where
  "frame_size dumps c = length (frame dumps (cmd_json c))"

section \<open>Frames are read as they were sent\<close>

text \<open>All commands of a stream, one after the other.\<close>

fun recv_all :: "(string \<Rightarrow> json option) \<Rightarrow> nat \<Rightarrow> string \<Rightarrow> (cmd list \<times> string) res" where
  "recv_all loads 0 s = returned ([], s)"
| "recv_all loads (Suc k) s =
     res_bind (recv_cmd loads s) (\<lambda>(v, r).
     res_bind (dispatch v) (\<lambda>c.
     res_bind (recv_all loads k r) (\<lambda>(cs, r'). returned (c # cs, r'))))"

lemma recv_frame:
  assumes "loads (dumps v) = Some v" "length (dumps v) < 10 ^ 8"
  shows "recv_cmd loads (frame dumps v @ rest) = returned (v, rest)"
proof -
  have h: "length (zero_pad 8 (str_nat (length (dumps v)))) = 8"
    by (rule length_zero_pad [OF assms(2)]) simp
  then show ?thesis
    using assms(1) by (simp add: recv_cmd_def recv_exact_def frame_def HDR_def Let_def parse_int_zero_pad)
qed

lemma dispatch_cmd: "dispatch (cmd_json c) = returned c"
  by (cases c) (simp_all add: dispatch_def nat_field_def dget_def)

text \<open>
  The server decodes exactly the commands the client sent and takes not one byte more, so the
  payload that follows a command is never eaten by the framing.
\<close>

theorem frames_roundtrip:
  assumes "\<And>c. c \<in> set cmds \<Longrightarrow> loads (dumps (cmd_json c)) = Some (cmd_json c) \<and> length (dumps (cmd_json c)) < 10 ^ 8"
  shows "recv_all loads (length cmds) (concat (map (\<lambda>c. frame dumps (cmd_json c)) cmds) @ payload) = returned (cmds, payload)"
  using assms
proof (induction cmds)
  case (Cons c cmds)
  have "loads (dumps (cmd_json c)) = Some (cmd_json c)" "length (dumps (cmd_json c)) < 10 ^ 8"
    using Cons.prems [of c] by simp_all
  then show ?case using Cons by (simp add: recv_frame dispatch_cmd)
qed simp

section \<open>The throughput loop\<close>

lemma send_chunks_pieces:
  "0 < chunk \<Longrightarrow> \<exists>ms. send_chunks chunk left = Some ms \<and> sum_list ms = left \<and> list_all (\<lambda>m. 0 < m \<and> m \<le> chunk) ms"
proof (induction left rule: less_induct)
  case (less left)
  show ?case
  proof (cases "left = 0")
    case True
    then show ?thesis by (subst send_chunks.simps) simp
  next
    case False
    let ?m = "min chunk left"
    have "left - ?m < left" using False less.prems by simp
    then obtain ms where "send_chunks chunk (left - ?m) = Some ms" "sum_list ms = left - ?m"
        "list_all (\<lambda>m. 0 < m \<and> m \<le> chunk) ms"
      using less.IH less.prems by blast
    then show ?thesis using False less.prems
      by (intro exI [of _ "?m # ms"]) (subst send_chunks.simps, simp)
  qed
qed

lemma send_chunks_zero: "send_chunks 0 left = (if left = 0 then Some [] else None)"
proof -
  have "send_chunks c l = Some ms \<Longrightarrow> c = 0 \<longrightarrow> l = 0" for c l ms
    by (erule send_chunks.raw_induct [where P = "\<lambda>c l ms. c = 0 \<longrightarrow> l = 0", rotated])
      (fastforce simp: Let_def bind_eq_Some_conv split: if_splits)
  moreover have "send_chunks 0 0 = Some []" by (subst send_chunks.simps) simp
  ultimately show ?thesis by (cases "send_chunks 0 left"; cases "left = 0") auto
qed

lemma send_chunks_None: "send_chunks chunk left = None \<longleftrightarrow> chunk = 0 \<and> left \<noteq> 0"
  using send_chunks_pieces [of chunk left] send_chunks_zero [of left] by (cases "chunk = 0") auto

text \<open>
  The loop that sends a throughput stream ends exactly when the chunk is not zero or there is
  nothing to send, and then the pieces are nonempty, no larger than the chunk and add up to the
  stream.
\<close>

theorem send_chunks_ends:
  "(send_chunks chunk left = None \<longleftrightarrow> chunk = 0 \<and> left \<noteq> 0) \<and>
   (send_chunks chunk left = None \<or>
    (\<exists>ms. send_chunks chunk left = Some ms \<and> sum_list ms = left \<and> list_all (\<lambda>m. 0 < m \<and> m \<le> chunk) ms))"
  using send_chunks_pieces [of chunk left] send_chunks_zero [of left] by (cases "chunk = 0") auto

section \<open>A session completes\<close>

lemma units_pieces: "units (concat (map (\<lambda>m. rest_write m []) ms)) = replicate (sum_list ms) True"
  by (induction ms) (simp_all add: replicate_add)

text \<open>The two sides of one command complete over channels of a single byte.\<close>

definition moves :: "io_op list \<Rightarrow> bool" where
  "moves ops \<longleftrightarrow> list_all (\<lambda>op. 0 < op_bytes op) ops"

lemma moves_simps [simp]:
  "moves []" "moves (Write n # ops) \<longleftrightarrow> 0 < n \<and> moves ops" "moves (Read n # ops) \<longleftrightarrow> 0 < n \<and> moves ops"
  "moves (xs @ ys) \<longleftrightarrow> moves xs \<and> moves ys"
  "moves (rest_write n ops) \<longleftrightarrow> moves ops" "moves (rest_read n ops) \<longleftrightarrow> moves ops"
  by (auto simp: moves_def rest_write_def rest_read_def)

lemma moves_concat: "(\<And>ops. ops \<in> set opss \<Longrightarrow> moves ops) \<Longrightarrow> moves (concat opss)"
  by (induction opss) simp_all

lemma moves_repeat: "moves ops \<Longrightarrow> moves (repeat_ops k ops)"
  by (auto simp: repeat_ops_def intro: moves_concat)

lemma ACK_length [simp]: "length ACK = 8"
  by (simp add: ACK_def)

lemma completes_header:
  "0 < cap \<Longrightarrow> 8 \<le> n \<Longrightarrow> completes cap (replicate n True) (replicate 8 False @ replicate (n - 8) False)"
  using completes_down [of cap n] by (simp flip: replicate_add)

lemma command_completes:
  assumes "client_ops fsize c = Some cs" "server_ops fsize c = returned (Some ss)" "8 \<le> fsize c" "0 < cap"
  shows "completes cap (units cs) (units ss)" "moves cs" "moves ss"
proof -
  have ping: "completes cap (replicate n True @ replicate n False) (replicate n False @ replicate n True)" for n
    using assms(4) by (intro completes_intros)
  note one = completes_header [OF assms(4,3)] completes_down [OF assms(4)] completes_up [OF assms(4)]
  have pieces: "send_chunks chunk b = Some ms \<Longrightarrow> sum_list ms = b" for chunk b ms
    using send_chunks_pieces [of chunk b] send_chunks_zero [of b] by (cases "chunk = 0") (auto split: if_splits)
  have mp: "moves (concat (map (\<lambda>m. rest_write m []) ms))" for ms by (rule moves_concat) auto
  show "completes cap (units cs) (units ss)"
  proof (cases c)
    case (Echo n k)
    have "cs = Write (fsize c) # repeat_ops k (rest_write n (rest_read n []))"
      "ss = Read HDR # rest_read (fsize c - HDR) (repeat_ops k (rest_read n (rest_write n [])))"
      using assms(1,2) by (auto simp: client_ops_def server_ops_def Echo Let_def split: if_splits)
    then show ?thesis
      using completes_append [OF one(1) completes_repeat [OF ping [of n], of k]]
      by (simp add: units_repeat HDR_def)
  next
    case (Sink b chunk)
    then obtain ms where ms: "send_chunks chunk b = Some ms" using assms(1) by (auto simp: client_ops_def)
    have "cs = Write (fsize c) # concat (map (\<lambda>m. rest_write m []) ms) @ [Read HDR]"
      "ss = Read HDR # rest_read (fsize c - HDR) (rest_read b [Write (length ACK)])"
      using assms(1,2) ms by (auto simp: client_ops_def server_ops_def Sink Let_def split: if_splits)
    then show ?thesis
      using completes_append [OF one(1) completes_append [OF one(2) [of b] one(3) [of 8]]]
      by (simp add: units_pieces pieces [OF ms] HDR_def del: replicate.simps)
  next
    case (Source b chunk)
    then obtain ms where ms: "send_chunks chunk b = Some ms" using assms(2) by (auto simp: server_ops_def Let_def)
    have "cs = Write (fsize c) # rest_read b [Write (length ACK)]"
      "ss = Read HDR # rest_read (fsize c - HDR) (concat (map (\<lambda>m. rest_write m []) ms) @ [Read HDR])"
      using assms(1,2) ms by (auto simp: client_ops_def server_ops_def Source Let_def)
    then show ?thesis
      using completes_append [OF one(1) completes_append [OF one(3) [of b] one(2) [of 8]]]
      by (simp add: units_pieces pieces [OF ms] HDR_def del: replicate.simps)
  next
    case Quit
    have "cs = [Write (fsize c)]" "ss = Read HDR # rest_read (fsize c - HDR) []"
      using assms(1,2) by (auto simp: client_ops_def server_ops_def Quit Let_def)
    then show ?thesis using one(1) by (simp add: HDR_def)
  qed
  show "moves cs" using assms(1,3) mp
    by (cases c) (auto simp: client_ops_def HDR_def intro!: moves_repeat)
  show "moves ss" using assms(2) mp
    by (cases c) (auto simp: server_ops_def Let_def HDR_def intro!: moves_repeat split: if_splits)
qed

lemma programs_complete:
  assumes "client_program fsize cmds = Some cs" "server_program fsize cmds = returned (Some ss)"
    "\<And>c. c \<in> set cmds \<Longrightarrow> 8 \<le> fsize c" "0 < cap"
  shows "completes cap (units cs) (units ss) \<and> moves cs \<and> moves ss"
  using assms(1-3)
proof (induction cmds arbitrary: cs ss)
  case Nil
  then show ?case by (simp add: client_program_def server_program_def completes_Nil)
next
  case (Cons c cmds)
  obtain c1 cs' where c: "client_ops fsize c = Some c1" "client_program fsize cmds = Some cs'" "cs = c1 @ cs'"
    using Cons.prems(1) by (cases "client_ops fsize c") (auto simp: client_program_def)
  obtain o1 os where o: "server_ops fsize c = returned o1" "res_seq (map (server_ops fsize) cmds) = returned os"
      "those_ops (o1 # os) = Some ss"
    using Cons.prems(2) by (auto simp: server_program_def res_simps)
  then obtain s1 ss' where s: "o1 = Some s1" "those_ops os = Some ss'" "ss = s1 @ ss'"
    by (cases o1) auto
  have IH: "completes cap (units cs') (units ss') \<and> moves cs' \<and> moves ss'"
    using Cons.IH [OF c(2), of ss'] Cons.prems(3) o(2) s(2) by (simp add: server_program_def)
  have "completes cap (units c1) (units s1)" "moves c1" "moves s1"
    using command_completes [OF c(1), of s1 cap] o(1) s(1) Cons.prems(3) [of c] assms(4) by simp_all
  then show ?case using IH c(3) s(3) by (simp add: completes_append)
qed

text \<open>A session as a pair of programs; the frames have at least their header.\<close>

lemma session_paired:
  assumes "client_program fsize cmds = Some cs" "server_program fsize cmds = returned (Some ss)"
    "\<And>c. c \<in> set cmds \<Longrightarrow> 8 \<le> fsize c" "0 < most"
  shows "paired_programs most cs ss 1"
proof
  show "0 < most" by (rule assms(4))
  show "proper (start_wire cs ss)"
    using programs_complete [OF assms(1-3), of 1] by (simp add: proper_def start_wire_def moves_def)
  show "completes cap (units cs) (units ss)" if "1 \<le> cap" for cap
    using programs_complete [OF assms(1-3), of cap] that by simp
qed

lemma frame_size_header: "8 \<le> frame_size dumps c"
  by (simp add: frame_size_def frame_def Let_def zero_pad_def)

text \<open>
  C15: A session cannot deadlock, however small the buffers of the connection are and however the
  sockets cut the transfers: in every reachable state both sides are done or one can move, and when
  nobody can move both are done and no byte is left over in either direction.
\<close>

theorem socket_session_live:
  assumes "client_program (frame_size dumps) (session sizes iters warmup throughput_bytes chunk) = Some cs"
    and "server_program (frame_size dumps) (session sizes iters warmup throughput_bytes chunk) = returned (Some ss)"
    and "0 < most" and "0 < cap"
    and "(channel_step most cap)\<^sup>*\<^sup>* (start_wire cs ss) s"
  shows "(finished s \<or> (\<exists>t. channel_step most cap s t)) \<and>
    (finished s \<and> to_peer s = 0 \<and> to_coord s = 0 \<or> (\<exists>t. channel_step most cap s t \<and> bytes_left t < bytes_left s))"
proof -
  have pair: "paired_programs most cs ss 1"
    by (rule session_paired [OF assms(1,2) frame_size_header assms(3)])
  have cap: "1 \<le> cap" using assms(4) by simp
  show ?thesis
    using paired_programs.live [OF pair cap assms(5)] paired_programs.quiet [OF pair cap assms(5)]
      io_step_less [of most cap s] by blast
qed

lemma those_ops_None: "those_ops xs = None \<longleftrightarrow> None \<in> set xs"
proof (induction xs)
  case (Cons x xs)
  then show ?case by (cases x) auto
qed simp

lemma server_program_served:
  "(\<exists>ss. server_program fsize cmds = returned (Some ss)) \<longleftrightarrow>
     (\<forall>c \<in> set cmds. \<exists>ops. server_ops fsize c = returned (Some ops))"
proof (induction cmds)
  case Nil
  then show ?case by (simp add: server_program_def)
next
  case (Cons c cmds)
  show ?case
  proof (cases "server_ops fsize c")
    case (Inr o1)
    then show ?thesis using Cons
      by (cases o1; cases "res_seq (map (server_ops fsize) cmds)") (auto simp: server_program_def)
  qed (simp add: server_program_def)
qed

lemma served:
  "(\<exists>ops. server_ops fsize (Echo n k) = returned (Some ops)) \<longleftrightarrow> n \<le> BUFFER \<or> k = 0"
  "(\<exists>ops. server_ops fsize (Sink b chunk) = returned (Some ops)) \<longleftrightarrow> min chunk b \<le> BUFFER \<and> (b = 0 \<or> chunk \<noteq> 0)"
  "(\<exists>ops. server_ops fsize (Source b chunk) = returned (Some ops)) \<longleftrightarrow> b = 0 \<or> chunk \<noteq> 0"
  "\<exists>ops. server_ops fsize Quit = returned (Some ops)"
  using send_chunks_None [of chunk b] by (auto simp: server_ops_def Let_def)

lemma session_served:
  assumes "0 < chunk"
  shows "client_program fsize (session sizes iters warmup throughput_bytes chunk) \<noteq> None \<and>
    ((\<exists>ss. server_program fsize (session sizes iters warmup throughput_bytes chunk) = returned (Some ss)) \<longleftrightarrow>
      list_all (\<lambda>n. n \<le> BUFFER \<or> echo_iters iters n + warmup = 0) sizes \<and> min chunk throughput_bytes \<le> BUFFER)"
proof -
  let ?cmds = "session sizes iters warmup throughput_bytes chunk"
  obtain ms where ms: "send_chunks chunk throughput_bytes = Some ms" using send_chunks_pieces [OF assms] by blast
  have "client_ops fsize c \<noteq> None" if "c \<in> set ?cmds" for c
    using that ms by (auto simp: session_def client_ops_def split: if_splits)
  then have "client_program fsize ?cmds \<noteq> None"
    unfolding client_program_def those_ops_None by force
  moreover have "(\<forall>c \<in> set ?cmds. \<exists>ops. server_ops fsize c = returned (Some ops)) \<longleftrightarrow>
      list_all (\<lambda>n. n \<le> BUFFER \<or> echo_iters iters n + warmup = 0) sizes \<and> min chunk throughput_bytes \<le> BUFFER"
    using assms by (cases "throughput_bytes = 0") (auto simp: session_def served list_all_iff ball_Un)
  ultimately show ?thesis by (simp add: server_program_served)
qed

text \<open>
  A session has programs for both sides exactly when its arguments allow it: the client's loop
  ends when the chunk is not zero, and the server serves it when no message that is echoed and no
  chunk is larger than its buffer; a larger one makes it raise, which the client sees as a closed
  connection.
\<close>

theorem session_programs:
  assumes "0 < chunk"
  shows "client_program fsize (session sizes iters warmup throughput_bytes chunk) \<noteq> None \<and>
    ((\<exists>ss. server_program fsize (session sizes iters warmup throughput_bytes chunk) = returned (Some ss)) \<longleftrightarrow>
      list_all (\<lambda>n. n \<le> BUFFER \<or> echo_iters iters n + warmup = 0) sizes \<and> min chunk throughput_bytes \<le> BUFFER)"
  by (rule session_served [OF assms])

section \<open>Witnesses\<close>

definition demo_dumps :: "json \<Rightarrow> string" where
  "demo_dumps v = (if v = cmd_json Quit then ''quit'' else ''echo'')"

definition demo_parse :: "string \<Rightarrow> json option" where
  "demo_parse s = (if s = ''quit'' then Some (cmd_json Quit) else Some (cmd_json (Echo 2 1)))"

theorem frames_roundtrip_witness:
  "recv_all demo_parse (length [Echo 2 1, Quit])
     (concat (map (\<lambda>c. frame demo_dumps (cmd_json c)) [Echo 2 1, Quit]) @ ''pp'') = returned ([Echo 2 1, Quit], ''pp'')"
  by (rule frames_roundtrip) (auto simp: demo_parse_def demo_dumps_def)

definition demo_session :: "cmd list" where
  "demo_session = session [2, 3] 1 0 0 0"

theorem socket_session_live_witness:
  "\<exists>cs ss. client_program (frame_size demo_dumps) demo_session = Some cs \<and>
     server_program (frame_size demo_dumps) demo_session = returned (Some ss) \<and>
     \<not> finished (start_wire cs ss) \<and> (\<exists>t. channel_step 1 1 (start_wire cs ss) t)"
proof -
  have "client_program (frame_size demo_dumps) demo_session \<noteq> None"
    by (simp add: demo_session_def session_def client_program_def client_ops_def)
  then obtain cs where cs: "client_program (frame_size demo_dumps) demo_session = Some cs" by blast
  then have "cs \<noteq> []"
    by (auto simp: demo_session_def session_def client_program_def client_ops_def)
  then have busy: "\<not> finished (start_wire cs ss)" for ss by (simp add: finished_def start_wire_def)
  have "\<forall>c \<in> set demo_session. \<exists>ops. server_ops (frame_size demo_dumps) c = returned (Some ops)"
    by (simp add: demo_session_def session_def served BUFFER_def)
  then obtain ss where ss: "server_program (frame_size demo_dumps) demo_session = returned (Some ss)"
    using server_program_served by blast
  show ?thesis
    using socket_session_live [OF cs [unfolded demo_session_def] ss [unfolded demo_session_def], of 1 1] busy cs ss by auto
qed

theorem session_programs_witness:
  "client_program (\<lambda>c. 20) (session [2000000] 1 0 0 1) \<noteq> None \<and>
   (\<nexists>ss. server_program (\<lambda>c. 20) (session [2000000] 1 0 0 1) = returned (Some ss))"
  using session_programs [of 1 "\<lambda>c. 20" "[2000000]" 1 0 0] by (simp add: BUFFER_def echo_iters_def)

end
