(* ===== verification/SocketBench.thy ===== *)
theory SocketBench
  imports SocketWire PyStats
begin

text \<open>
  What \<open>bench/socket-transport-bench.py\<close> computes around the wire: the packet counters that prove
  which interface carried the traffic, the server's loop and its report, the statistics of the
  round trips, the histogram, the throughput and the client's report. Clock readings are integers
  of nanoseconds, a sample is the rational value of its double, the files under
  \<open>/sys/class/net\<close> are an argument.
\<close>

section \<open>Counters of the interfaces\<close>

type_synonym counters = "(string \<times> (string \<times> int) list) list"

definition read_counter :: "(string \<Rightarrow> string \<Rightarrow> string res) \<Rightarrow> string \<Rightarrow> string \<Rightarrow> int res" where
  "read_counter read_stat dev k =
     res_bind (read_stat dev k) (\<lambda>t. case parse_int t of None \<Rightarrow> raised ValueError | Some n \<Rightarrow> returned n)"

text \<open>
  The packets of an interface, and its bytes if they can be read too; an interface that cannot be
  read is left out.
\<close>

definition dev_row :: "(string \<Rightarrow> string \<Rightarrow> string res) \<Rightarrow> string \<Rightarrow> (string \<times> int) list option res" where
  "dev_row read_stat dev =
     (case res_seq (map (read_counter read_stat dev) [''rx_packets'', ''tx_packets'']) of
        Inl e \<Rightarrow> if e = OSError then returned None else raised e
      | Inr ps \<Rightarrow>
          (case res_seq (map (read_counter read_stat dev) [''rx_bytes'', ''tx_bytes'']) of
             Inl e \<Rightarrow> if e = OSError then returned (Some (zip [''rx'', ''tx''] ps)) else raised e
           | Inr bs \<Rightarrow> returned (Some (zip [''rx'', ''tx''] ps @ zip [''rx_bytes'', ''tx_bytes''] bs))))"

fun counters_of :: "(string \<Rightarrow> string \<Rightarrow> string res) \<Rightarrow> string list \<Rightarrow> counters res" where
  "counters_of read_stat [] = returned []"
| "counters_of read_stat (dev # devs) =
     res_bind (dev_row read_stat dev) (\<lambda>row.
     res_bind (counters_of read_stat devs) (\<lambda>rest.
       returned (case row of None \<Rightarrow> rest | Some r \<Rightarrow> (dev, r) # rest)))"

definition netdev_counters :: "(string \<Rightarrow> string \<Rightarrow> string res) \<Rightarrow> string list \<Rightarrow> counters res" where
  "netdev_counters read_stat listing = counters_of read_stat (sort listing)"

definition row_delta :: "(string \<times> int) list \<Rightarrow> (string \<times> int) list \<Rightarrow> (string \<times> int) list res" where
  "row_delta b a =
     res_seq (map (\<lambda>(k, v). case map_of b k of None \<Rightarrow> raised KeyError | Some v0 \<Rightarrow> returned (k, v - v0)) a)"

fun counter_delta :: "counters \<Rightarrow> counters \<Rightarrow> counters res" where
  "counter_delta before [] = returned []"
| "counter_delta before ((dev, a) # after) =
     (case map_of before dev of
        None \<Rightarrow> counter_delta before after
      | Some b \<Rightarrow>
          res_bind (row_delta b a) (\<lambda>row.
          res_bind (counter_delta before after) (\<lambda>rest.
            returned (if list_ex (\<lambda>(k, v). v \<noteq> 0) row then (dev, row) # rest else rest))))"

section \<open>The server\<close>

text \<open>
  The loop over what is received: commands, or the exception that receiving one raised. \<open>handle\<close>
  is the service of a command.
\<close>

fun serve_loop :: "(cmd \<Rightarrow> unit res) \<Rightarrow> cmd res list \<Rightarrow> unit res" where
  "serve_loop handle [] = raised ConnectionError"
| "serve_loop handle (Inl e # rest) = raised e"
| "serve_loop handle (Inr Quit # rest) = returned ()"
| "serve_loop handle (Inr c # rest) = res_bind (handle c) (\<lambda>_. serve_loop handle rest)"

definition counters_json :: "counters \<Rightarrow> json" where
  "counters_json d = JObj (map (\<lambda>(dev, row). (dev, JObj (map (\<lambda>(k, v). (k, JInt v)) row))) d)"

text \<open>The report is printed in a \<open>finally\<close>, also when the loop raised.\<close>

definition run_server ::
  "(cmd \<Rightarrow> unit res) \<Rightarrow> cmd res list \<Rightarrow> counters \<Rightarrow> counters \<Rightarrow> json \<Rightarrow> json \<Rightarrow> unit res \<times> json option" where
  "run_server handle received before after local_addr peer =
     (case counter_delta before after of
        Inl e \<Rightarrow> (raised e, None)
      | Inr d \<Rightarrow>
          (serve_loop handle received,
           Some (JObj [(''role'', JStr ''server''), (''outcome'', JStr ''ok''), (''local'', local_addr), (''peer'', peer),
                       (''netdev_delta'', counters_json d)])))"

section \<open>Statistics\<close>

text \<open>\<open>pct\<close> of sorted samples: the index \<open>round(q / 100 * n + 0.5) - 1\<close>, kept in range.\<close>

definition pct_index :: "nat \<Rightarrow> pyfloat \<Rightarrow> nat res" where
  "pct_index n q =
     res_bind (fdiv q (Fin 100)) (\<lambda>u.
     res_bind (float_of_int (int n)) (\<lambda>m.
     res_bind (round_float (fadd (fmul u m) (Fin (1 / 2)))) (\<lambda>r.
       returned (nat (min (int n - 1) (max 0 (r - 1)))))))"

definition pct :: "rat list \<Rightarrow> pyfloat \<Rightarrow> pyfloat res" where
  "pct xs q = (if xs = [] then returned NaN else res_bind (pct_index (length xs) q) (\<lambda>i. returned (Fin (xs ! i))))"

text \<open>A round trip in microseconds.\<close>

definition sample_us :: "int \<Rightarrow> rat res" where
  "sample_us ns =
     res_bind (float_of_int ns) (\<lambda>x.
     res_bind (fdiv x (Fin 1000)) (\<lambda>us. case us of Fin r \<Rightarrow> returned r | _ \<Rightarrow> raised OverflowError))"

definition hist_key :: "nat \<Rightarrow> nat \<Rightarrow> rat \<Rightarrow> string" where
  "hist_key width nbins s =
     (let b = \<lfloor>s / of_nat width\<rfloor>
      in if b < int nbins then str_int (b * int width) else str_int (int nbins * int width) @ ''+'')"

definition hist :: "rat list \<Rightarrow> nat \<Rightarrow> nat \<Rightarrow> (string \<times> nat) list" where
  "hist samples width nbins = filter (\<lambda>(k, v). v \<noteq> 0) (fold bump (map (hist_key width nbins) samples) [])"

definition round2 :: "pyfloat \<Rightarrow> json" where
  "round2 x = JFloat (round_at 2 x)"

definition echo_report :: "nat \<Rightarrow> nat \<Rightarrow> nat \<Rightarrow> (int \<times> int) list \<Rightarrow> json res" where
  "echo_report size_b iters warmup stamps =
     res_bind (res_seq (map (\<lambda>(a, b). sample_us (b - a)) (drop warmup stamps))) (\<lambda>us.
     let s = sort us
     in if s = [] then raised IndexError
        else
          res_bind (pct s (Fin 50)) (\<lambda>p50.
          res_bind (pct s (Fin 90)) (\<lambda>p90.
          res_bind (pct s (Fin 99)) (\<lambda>p99.
          res_bind (pct s (fl64 (999 / 10))) (\<lambda>p999.
          res_bind (fmean s) (\<lambda>mean.
          res_bind (pstdev s) (\<lambda>dev.
          res_bind (fdiv p50 (Fin 2)) (\<lambda>half.
            returned (JObj
              [(''size_b'', JInt (int size_b)), (''iters'', JInt (int iters)), (''warmup'', JInt (int warmup)),
               (''rtt_us'', JObj
                 [(''min'', round2 (Fin (hd s))), (''p50'', round2 p50), (''p90'', round2 p90), (''p99'', round2 p99),
                  (''p999'', round2 p999), (''max'', round2 (Fin (last s))), (''mean'', round2 mean), (''stdev'', round2 dev)]),
               (''one_way_us_p50'', round2 half),
               (''hist_25us'', JObj (map (\<lambda>(k, v). (k, JInt (int v))) (hist s 25 24)))])))))))))"

definition tput :: "string \<Rightarrow> nat \<Rightarrow> int \<Rightarrow> json res" where
  "tput name bytes ns =
     res_bind (float_of_int ns) (\<lambda>x.
     res_bind (fdiv x (Fin 1000000000)) (\<lambda>secs.
     res_bind (float_of_int (int bytes * 8)) (\<lambda>b.
     res_bind (fdiv b secs) (\<lambda>r.
     res_bind (fdiv r (Fin 1000000000)) (\<lambda>gbps.
     res_bind (int_div (int bytes) 1048576) (\<lambda>mib.
     res_bind (fdiv mib secs) (\<lambda>mibps.
       returned (JObj [(''direction'', JStr name), (''bytes'', JInt (int bytes)), (''seconds'', JFloat (round_at 4 secs)),
         (''gbps'', JFloat (round_at 3 gbps)), (''MiBps'', JFloat (round_at 1 mibps))]))))))))"

record measured =
  echo_times :: "nat \<Rightarrow> (int \<times> int) list"
  tx_ns :: int
  rx_ns :: int
  netdev_before :: counters
  netdev_after :: counters
  wall :: pyfloat
  local_addr :: json
  peer_addr :: json

definition run_client :: "string \<Rightarrow> nat list \<Rightarrow> nat \<Rightarrow> nat \<Rightarrow> nat \<Rightarrow> measured \<Rightarrow> json res" where
  "run_client label sizes iters warmup throughput_bytes m =
     res_bind (res_seq (map (\<lambda>n. echo_report n (echo_iters iters n) warmup (echo_times m n)) sizes)) (\<lambda>latency.
     res_bind
       (if throughput_bytes = 0 then returned []
        else res_seq [tput ''tx_client_to_server'' throughput_bytes (tx_ns m), tput ''rx_server_to_client'' throughput_bytes (rx_ns m)])
       (\<lambda>throughput.
     res_bind (counter_delta (netdev_before m) (netdev_after m)) (\<lambda>d.
       returned (JObj [(''label'', JStr label), (''local_sockaddr'', local_addr m), (''peer_sockaddr'', peer_addr m),
         (''wall_s'', round2 (wall m)), (''latency'', JList latency), (''throughput'', JList throughput),
         (''client_netdev_delta'', counters_json d)]))))"

section \<open>The percentile\<close>

text \<open>The four percentiles the benches take, and their fractions as doubles.\<close>

datatype centile = C50 | C90 | C99 | C999

fun centile_value :: "centile \<Rightarrow> pyfloat" where
  "centile_value C50 = Fin 50"
| "centile_value C90 = Fin 90"
| "centile_value C99 = Fin 99"
| "centile_value C999 = fl64 (999 / 10)"

fun centile_fraction :: "centile \<Rightarrow> rat" where
  "centile_fraction C50 = 1 / 2"
| "centile_fraction C90 = 8106479329266893 / 9007199254740992"
| "centile_fraction C99 = 4458563631096791 / 4503599627370496"
| "centile_fraction C999 = 2249548013871563 / 2251799813685248"

lemma centile_fractions: "fdiv (centile_value q) (Fin 100) = returned (Fin (centile_fraction q))"
proof -
  have "fdiv (centile_value C50) (Fin 100) = returned (Fin (centile_fraction C50))"
    "fdiv (centile_value C90) (Fin 100) = returned (Fin (centile_fraction C90))"
    "fdiv (centile_value C99) (Fin 100) = returned (Fin (centile_fraction C99))"
    "fdiv (centile_value C999) (Fin 100) = returned (Fin (centile_fraction C999))"
    by code_simp+
  then show ?thesis by (cases q) (simp_all only:)
qed

definition centile_le :: "centile \<Rightarrow> centile \<Rightarrow> bool" where
  "centile_le p q \<longleftrightarrow> centile_fraction p \<le> centile_fraction q"

definition centile_rank :: "nat \<Rightarrow> centile \<Rightarrow> nat" where
  "centile_rank n q = (case pct_index n (centile_value q) of Inl _ \<Rightarrow> 0 | Inr i \<Rightarrow> i)"

lemma centile_range: "0 \<le> centile_fraction q" "centile_fraction q \<le> 1"
  by (cases q; simp)+

lemma pct_index_value:
  assumes "centile_le p q" "n < 2 ^ 53"
  shows "\<exists>r t. pct_index n (centile_value p) = returned (nat (min (int n - 1) (max 0 (r - 1)))) \<and>
    pct_index n (centile_value q) = returned (nat (min (int n - 1) (max 0 (t - 1)))) \<and> r \<le> t"
proof -
  have n: "int (n + 1) \<le> 2 ^ 53" using assms(2) by (metis Suc_eq_plus1 Suc_leI of_nat_le_iff of_nat_numeral of_nat_power)
  obtain x y where xy: "fmul (Fin (of_nat n)) (Fin (centile_fraction p)) = Fin x"
      "fmul (Fin (of_nat n)) (Fin (centile_fraction q)) = Fin y" "0 \<le> x" "x \<le> y" "y \<le> of_nat n"
  proof -
    have "of_nat n * centile_fraction p \<le> of_nat n * centile_fraction q" "of_nat n * centile_fraction q \<le> of_int (int n)"
      "0 \<le> of_nat n * centile_fraction p"
      using assms(1) centile_range [of p] centile_range [of q] mult_left_mono [of "centile_fraction q" 1 "of_nat n"]
      by (simp_all add: mult_left_mono centile_le_def)
    then show thesis
      using that fl64_mono_int [of "of_nat n * centile_fraction p" "of_nat n * centile_fraction q" "int n"] n by auto
  qed
  have "0 \<le> x + 1 / 2" "x + 1 / 2 \<le> y + 1 / 2" "y + 1 / 2 \<le> of_int (int (n + 1))"
    using xy(3-5) by simp_all
  then obtain v w where vw: "fl64 (x + 1 / 2) = Fin v" "fl64 (y + 1 / 2) = Fin w" "v \<le> w"
    using fl64_mono_int [of "x + 1 / 2" "y + 1 / 2" "int (n + 1)"] n by auto
  have m: "float_of_int (int n) = returned (Fin (of_nat n))" using float_of_int_exact [of "int n"] n by simp
  have c: "fmul (Fin a) (Fin b) = fmul (Fin b) (Fin a)" for a b by (simp add: mult.commute)
  have "pct_index n (centile_value p) = returned (nat (min (int n - 1) (max 0 (round_half_even v - 1))))"
    "pct_index n (centile_value q) = returned (nat (min (int n - 1) (max 0 (round_half_even w - 1))))"
    unfolding pct_index_def centile_fractions m res_bind_simps c [of "centile_fraction _"] xy(1,2)
    by (simp_all add: vw)
  then show ?thesis using round_half_even_mono [OF vw(3)] by blast
qed

lemma pct_index_rank: "n < 2 ^ 53 \<Longrightarrow> pct_index n (centile_value q) = returned (centile_rank n q)"
  using pct_index_value [of q q n] by (auto simp: centile_rank_def centile_le_def)

interpretation tcp: rank_select centile_rank centile_le "\<lambda>n. n < 2 ^ 53"
proof
  fix n p q
  show "0 < n \<Longrightarrow> n < 2 ^ 53 \<Longrightarrow> centile_rank n q < n"
    using pct_index_value [of q q n] by (auto simp: centile_rank_def centile_le_def)
  show "n < 2 ^ 53 \<Longrightarrow> centile_le p q \<Longrightarrow> centile_rank n p \<le> centile_rank n q"
    using pct_index_value [of p q n] by (auto simp: centile_rank_def)
qed

lemma pct_select: "xs \<noteq> [] \<Longrightarrow> length xs < 2 ^ 53 \<Longrightarrow> pct (sort xs) (centile_value q) = returned (Fin (tcp.select xs q))"
  by (simp add: pct_def pct_index_rank tcp.select_def) (metis length_0_conv length_sort)

text \<open>
  \<open>pct\<close> is documented as nearest rank, the \<open>ceil(q / 100 * n)\<close>-th smallest sample: of six samples
  the median is the third, and it gives the fourth.
\<close>

theorem pct_not_nearest_rank: "pct [1, 2, 3, 4, 5, 6] (Fin 50) = returned (Fin 4)"
  by code_simp

text \<open>The fields of the statistics of one message size.\<close>

definition rtt_fields :: "json \<Rightarrow> string list \<Rightarrow> pyfloat list option" where
  "rtt_fields r ks =
     (case r of
        JObj kvs \<Rightarrow>
          (case map_of kvs ''rtt_us'' of
             Some (JObj rtt) \<Rightarrow>
               those (map (\<lambda>k. case map_of rtt k of Some (JFloat f) \<Rightarrow> Some f | _ \<Rightarrow> None) ks)
           | _ \<Rightarrow> None)
      | _ \<Rightarrow> None)"

lemma select_last:
  assumes "xs \<noteq> []" "length xs < 2 ^ 53"
  shows "tcp.select xs q \<le> last (sort xs)" "hd (sort xs) \<le> tcp.select xs q"
proof -
  have ne: "sort xs \<noteq> []" using assms(1) by (metis length_0_conv length_sort)
  have r: "centile_rank (length xs) q < length (sort xs)" using tcp.rank_in_range assms by simp
  show "tcp.select xs q \<le> last (sort xs)"
    unfolding tcp.select_def last_conv_nth [OF ne] using r by (intro sorted_nth_mono) auto
  show "hd (sort xs) \<le> tcp.select xs q"
    unfolding tcp.select_def hd_conv_nth [OF ne] using r by (intro sorted_nth_mono) auto
qed

text \<open>What an entry of the report says of the samples after the warm-up.\<close>

definition entry_measures :: "nat \<Rightarrow> nat \<Rightarrow> nat \<Rightarrow> rat list \<Rightarrow> json \<Rightarrow> bool" where
  "entry_measures size_b iters warmup us j \<longleftrightarrow>
     dget j ''size_b'' = returned (Some (JInt (int size_b))) \<and>
     dget j ''iters'' = returned (Some (JInt (int iters))) \<and>
     dget j ''warmup'' = returned (Some (JInt (int warmup))) \<and>
     rtt_fields j [''min'', ''p50'', ''p90'', ''p99'', ''p999'', ''max''] =
       Some (map (\<lambda>x. round_at 2 (Fin x))
         [Min (set us), tcp.select us C50, tcp.select us C90, tcp.select us C99, tcp.select us C999, Max (set us)]) \<and>
     (\<exists>mean dev half. fmean (sort us) = returned mean \<and> pstdev (sort us) = returned dev \<and>
       rtt_fields j [''mean'', ''stdev''] = Some [round_at 2 mean, round_at 2 dev] \<and>
       fdiv (Fin (tcp.select us C50)) (Fin 2) = returned half \<and>
       dget j ''one_way_us_p50'' = returned (Some (JFloat (round_at 2 half)))) \<and>
     (\<exists>bins. dget j ''hist_25us'' = returned (Some (JObj bins)) \<and>
       (\<forall>k. map_of bins k =
          (if count_list (map (hist_key 25 24) us) k = 0 then None
           else Some (JInt (int (count_list (map (hist_key 25 24) us) k))))))"

lemma sorted_ends:
  fixes us :: "rat list"
  assumes "us \<noteq> []"
  shows "hd (sort us) = Min (set us)" "last (sort us) = Max (set us)"
proof -
  have ne: "sort us \<noteq> []" using assms by (metis length_0_conv length_sort)
  have "hd (sort us) \<le> x \<and> x \<le> last (sort us)" if x: "x \<in> set us" for x
  proof -
    have "x \<in> set (sort us)" using x by simp
    then obtain i where i: "i < length (sort us)" "sort us ! i = x" unfolding in_set_conv_nth by blast
    have "sort us ! 0 \<le> sort us ! i" "sort us ! i \<le> sort us ! (length (sort us) - 1)"
      using i(1) by (intro sorted_nth_mono; simp)+
    then show ?thesis using i(2) ne by (simp add: hd_conv_nth last_conv_nth)
  qed
  moreover have "hd (sort us) \<in> set us" "last (sort us) \<in> set us"
    using hd_in_set [OF ne] last_in_set [OF ne] by simp_all
  ultimately show "hd (sort us) = Min (set us)" "last (sort us) = Max (set us)"
    by (auto intro!: Min_eqI [symmetric] Max_eqI [symmetric])
qed

lemma bump_keys_distinct: "distinct (map fst (fold bump ks []))"
  by (induction ks rule: rev_induct) (simp_all add: distinct_bump del: distinct_map)

text \<open>
  The histogram loses nothing: its counts add up to the number of samples, and the count of a
  bin is the number of samples that fall into it.
\<close>

theorem hist_counts:
  "sum_list (map snd (hist samples width nbins)) = length samples \<and>
   map_of (hist samples width nbins) k =
     (if count_list (map (hist_key width nbins) samples) k = 0 then None
      else Some (count_list (map (hist_key width nbins) samples) k))"
proof -
  let ?ks = "map (hist_key width nbins) samples"
  have val: "map_of (fold bump ?ks []) j = (if j \<in> set ?ks then Some (count_list ?ks j) else None)" for j
    by (simp add: fold_bump)
  have pos: "\<forall>(j, n) \<in> set (fold bump ?ks []). n \<noteq> 0"
  proof -
    have "n \<noteq> 0" if "(j, n) \<in> set (fold bump ?ks [])" for j n
    proof -
      have "map_of (fold bump ?ks []) j = Some n" using that by (rule map_of_is_SomeI [OF bump_keys_distinct])
      then have "j \<in> set ?ks" "n = count_list ?ks j" using val [of j] by (auto split: if_splits)
      then show ?thesis by (simp add: count_list_0_iff)
    qed
    then show ?thesis by blast
  qed
  then have "hist samples width nbins = fold bump ?ks []"
    unfolding hist_def by (auto simp: filter_id_conv)
  then show ?thesis
    using val [of k] fold_bump_sum [of ?ks "[]"] by (auto simp: count_list_0_iff)
qed

text \<open>An entry is what the samples say, provided their number is an exact double.\<close>

lemma echo_entry:
  assumes "echo_report size_b iters warmup stamps = returned j" and "length stamps < 2 ^ 53"
  shows "\<exists>us. us \<noteq> [] \<and> length us < 2 ^ 53 \<and>
    res_seq (map (\<lambda>(a, b). sample_us (b - a)) (drop warmup stamps)) = returned us \<and>
    entry_measures size_b iters warmup us j"
proof -
  obtain us where us: "res_seq (map (\<lambda>(a, b). sample_us (b - a)) (drop warmup stamps)) = returned us"
    using assms(1) by (auto simp: echo_report_def res_simps)
  have "length us = length (drop warmup stamps)" using us by (simp add: res_seq_Inr) (metis length_map length_drop)
  then have len: "length us < 2 ^ 53" using assms(2) by simp
  have ne: "us \<noteq> []" using assms(1) us by (auto simp: echo_report_def)
  have p: "pct (sort us) (Fin 50) = returned (Fin (tcp.select us C50))"
    "pct (sort us) (Fin 90) = returned (Fin (tcp.select us C90))"
    "pct (sort us) (Fin 99) = returned (Fin (tcp.select us C99))"
    "pct (sort us) (fl64 (999 / 10)) = returned (Fin (tcp.select us C999))"
    using pct_select [OF ne len, of C50] pct_select [OF ne len, of C90] pct_select [OF ne len, of C99]
      pct_select [OF ne len, of C999] by simp_all
  have ne': "sort us \<noteq> []" using ne by (metis length_0_conv length_sort)
  obtain mean dev half where stats: "fmean (sort us) = returned mean" "pstdev (sort us) = returned dev"
      "fdiv (Fin (tcp.select us C50)) (Fin 2) = returned half"
    using assms(1) us ne' p by (auto simp: echo_report_def res_simps Let_def)
  have j: "j = JObj
      [(''size_b'', JInt (int size_b)), (''iters'', JInt (int iters)), (''warmup'', JInt (int warmup)),
       (''rtt_us'', JObj
         [(''min'', round2 (Fin (hd (sort us)))), (''p50'', round2 (Fin (tcp.select us C50))),
          (''p90'', round2 (Fin (tcp.select us C90))), (''p99'', round2 (Fin (tcp.select us C99))),
          (''p999'', round2 (Fin (tcp.select us C999))), (''max'', round2 (Fin (last (sort us)))),
          (''mean'', round2 mean), (''stdev'', round2 dev)]),
       (''one_way_us_p50'', round2 half),
       (''hist_25us'', JObj (map (\<lambda>(k, v). (k, JInt (int v))) (hist (sort us) 25 24)))]"
    using assms(1) us ne' p stats by (simp add: echo_report_def Let_def)
  have "map_of (map (\<lambda>(k, v). (k, JInt (int v))) (hist (sort us) 25 24)) k =
      (if count_list (map (hist_key 25 24) us) k = 0 then None
       else Some (JInt (int (count_list (map (hist_key 25 24) us) k))))" for k
  proof -
    have "count_list (map (hist_key 25 24) (sort us)) k = count_list (map (hist_key 25 24) us) k"
      by (metis count_mset mset_map mset_sort)
    then show ?thesis using hist_counts [of "sort us" 25 24 k] by (simp add: map_of_map)
  qed
  then have "entry_measures size_b iters warmup us j"
    unfolding entry_measures_def using stats
    by (simp add: j dget_def rtt_fields_def round2_def sorted_ends [OF ne])
  then show ?thesis using us ne len by blast
qed

text \<open>
  C36: The round-trip statistics of a report are consistent: the minimum, the four percentiles and
  the maximum ascend, also after the rounding to two places.
\<close>

theorem echo_stats_ordered:
  assumes "echo_report size_b iters warmup stamps = returned r" and "length stamps < 2 ^ 53"
  shows "\<exists>fs. rtt_fields r [''min'', ''p50'', ''p90'', ''p99'', ''p999'', ''max''] = Some fs \<and> sorted fs"
proof -
  obtain us where ne: "us \<noteq> []" and len: "length us < 2 ^ 53" and entry: "entry_measures size_b iters warmup us r"
    using echo_entry [OF assms] by blast
  have sel: "tcp.select us C50 \<le> tcp.select us C90" "tcp.select us C90 \<le> tcp.select us C99"
    "tcp.select us C99 \<le> tcp.select us C999"
    by (rule tcp.select_mono [OF ne len]; simp add: centile_le_def)+
  have ends: "Min (set us) \<le> tcp.select us q" "tcp.select us q \<le> Max (set us)" for q
    using select_last [OF ne len, of q] by (simp_all add: sorted_ends [OF ne])
  have "sorted [Min (set us), tcp.select us C50, tcp.select us C90, tcp.select us C99, tcp.select us C999, Max (set us)]"
    using sel ends order_trans [OF ends] by (auto intro: order_trans)
  then have "sorted (map (\<lambda>x. round_at 2 (Fin x))
      [Min (set us), tcp.select us C50, tcp.select us C90, tcp.select us C99, tcp.select us C999, Max (set us)])"
    by (rule sorted_map_mono) (auto simp: mono_on_def intro: round_at_mono)
  then show ?thesis using entry unfolding entry_measures_def by blast
qed

section \<open>Samples of a sound clock\<close>

lemma fl64_between: "0 \<le> x \<Longrightarrow> x \<le> of_int n \<Longrightarrow> n \<le> 2 ^ 53 \<Longrightarrow> \<exists>r. fl64 x = Fin r \<and> 0 \<le> r \<and> r \<le> of_int n"
proof -
  assume x: "0 \<le> x" "x \<le> of_int n" "n \<le> 2 ^ 53"
  then have "0 \<le> n" by linarith
  then show ?thesis using fl64_le_int x by blast
qed

lemma sample_us_bounded: "0 \<le> d \<Longrightarrow> d \<le> 2 ^ 53 \<Longrightarrow> \<exists>r. sample_us d = returned r \<and> 0 \<le> r \<and> r \<le> of_int d"
proof -
  assume d: "0 \<le> d" "d \<le> 2 ^ 53"
  have "float_of_int d = returned (Fin (of_int d))" using d float_of_int_exact [of d] by simp
  moreover obtain r where "fl64 (of_int d / 1000) = Fin r" "0 \<le> r" "r \<le> of_int d"
    using fl64_between [of "of_int d / 1000" d] d by auto
  ultimately show ?thesis by (simp add: sample_us_def)
qed

lemma samples_bounded:
  "(\<forall>d \<in> set ds. 0 \<le> d) \<Longrightarrow> sum_list ds \<le> 2 ^ 53 \<Longrightarrow>
   \<exists>us. res_seq (map sample_us ds) = returned us \<and> length us = length ds \<and> (\<forall>u \<in> set us. 0 \<le> u) \<and>
     sum_list us \<le> of_int (sum_list ds)"
proof (induction ds)
  case (Cons d ds)
  have pos: "0 \<le> d" "0 \<le> sum_list ds" using Cons.prems(1) by (auto intro: sum_list_nonneg)
  then have "d \<le> 2 ^ 53" "sum_list ds \<le> 2 ^ 53" using Cons.prems(2) by simp_all
  then obtain r us where "sample_us d = returned r" "0 \<le> r" "r \<le> of_int d"
      "res_seq (map sample_us ds) = returned us" "length us = length ds" "\<forall>u \<in> set us. 0 \<le> u"
      "sum_list us \<le> of_int (sum_list ds)"
    using sample_us_bounded [OF pos(1)] Cons by auto
  then show ?case by (intro exI [of _ "r # us"]) auto
qed simp

text \<open>The mean of samples whose sum has 53 bits is finite.\<close>

lemma fmean_bounded:
  assumes "xs \<noteq> []" "\<forall>x \<in> set xs. 0 \<le> x" "sum_list xs \<le> of_int n" "n \<le> 2 ^ 53" "length xs < 2 ^ 53"
  shows "\<exists>m. fmean xs = returned (Fin m) \<and> 0 \<le> m \<and> m \<le> of_int n"
proof -
  have "0 \<le> sum_list xs" using assms(2) by (simp add: sum_list_nonneg)
  then obtain t where t: "fl64 (sum_list xs) = Fin t" "0 \<le> t" "t \<le> of_int n"
    using fl64_between assms(3,4) by blast
  have len: "int (length xs) \<le> 2 ^ 53" using assms(5) by (metis less_imp_le of_nat_le_iff of_nat_numeral of_nat_power)
  then have l: "float_of_int (int (length xs)) = returned (Fin (of_nat (length xs)))"
    using float_of_int_exact [of "int (length xs)"] by simp
  have "0 \<le> t / of_nat (length xs)" "t / of_nat (length xs) \<le> of_int n"
  proof -
    show "0 \<le> t / of_nat (length xs)" using t(2) by simp
    have "t \<le> t * of_nat (length xs)" using t(2) assms(1) by (cases xs) (simp_all add: algebra_simps)
    then have "t / of_nat (length xs) \<le> t" using assms(1) by (simp add: divide_le_eq)
    then show "t / of_nat (length xs) \<le> of_int n" using t(3) by simp
  qed
  then obtain m where "fl64 (t / of_nat (length xs)) = Fin m" "0 \<le> m" "m \<le> of_int n"
    using fl64_between assms(4) by blast
  then show ?thesis using assms(1) t(1) l by (simp add: fmean_def float_of_rat_def)
qed

text \<open>Two decimals of a sample are a finite double.\<close>

lemma round_at_between: "0 \<le> x \<Longrightarrow> x \<le> of_int n \<Longrightarrow> n \<le> 2 ^ 53 \<Longrightarrow> \<exists>r. round_at k (Fin x) = Fin r"
proof -
  assume x: "0 \<le> x" "x \<le> of_int n" "n \<le> 2 ^ 53"
  have "x * 10 ^ k \<le> of_int (n * 10 ^ k)" using x(2) by (simp add: mult_right_mono)
  then have "round_half_even (x * 10 ^ k) \<le> n * 10 ^ k" using round_half_even_mono round_half_even_of_int by metis
  then have "of_int (round_half_even (x * 10 ^ k)) \<le> of_int n * (10 :: rat) ^ k"
    by (metis of_int_le_iff of_int_mult of_int_numeral of_int_power)
  moreover have "0 \<le> round_half_even (x * 10 ^ k)"
    using round_half_even_mono [of 0 "x * 10 ^ k"] x(1) round_half_even_of_int [of 0] by simp
  ultimately have "0 \<le> of_int (round_half_even (x * 10 ^ k)) / (10 :: rat) ^ k"
    "of_int (round_half_even (x * 10 ^ k)) / (10 :: rat) ^ k \<le> of_int n"
    by (simp_all add: divide_le_eq)
  then show ?thesis using fl64_between [OF _ _ x(3)] by (fastforce simp: round_at_def)
qed

text \<open>No duration is negative, together they have at most 53 bits of nanoseconds.\<close>

definition clocked :: "int list \<Rightarrow> bool" where
  "clocked ds \<longleftrightarrow> list_all (\<lambda>d. 0 \<le> d) ds \<and> sum_list ds \<le> 2 ^ 53 \<and> length ds < 2 ^ 53"

lemma clocked_samples:
  assumes "clocked ds" "ds \<noteq> []"
  obtains us m mean where
    "res_seq (map sample_us ds) = returned us" "sort us \<noteq> []"
    "\<And>u. u \<in> set us \<Longrightarrow> \<exists>r. round_at 2 (Fin u) = Fin r"
    "\<And>q. pct (sort us) (centile_value q) = returned (Fin (tcp.select us q))"
    "\<And>q. tcp.select us q \<in> set us" "fmean (sort us) = returned (Fin m)" "round_at 2 (Fin m) = Fin mean"
proof -
  obtain us where us: "res_seq (map sample_us ds) = returned us" "length us = length ds" "\<forall>u \<in> set us. 0 \<le> u"
      "sum_list us \<le> of_int (sum_list ds)"
    using samples_bounded [of ds] assms(1) by (auto simp: clocked_def list_all_iff)
  have len: "length us < 2 ^ 53" and tot: "sum_list ds \<le> 2 ^ 53" using us(2) assms(1) by (simp_all add: clocked_def)
  have ne: "us \<noteq> []" using us(2) assms(2) by (cases us) auto
  then have ne': "sort us \<noteq> []" by (metis length_0_conv length_sort)
  have pos: "\<forall>x \<in> set (sort us). 0 \<le> x" using us(3) by simp
  have "\<exists>m. fmean (sort us) = returned (Fin m) \<and> 0 \<le> m \<and> m \<le> of_int (sum_list ds)"
  proof (rule fmean_bounded [OF ne' pos _ tot])
    have "sum_list (sort us) = sum_list us" by (simp flip: sum_mset_sum_list)
    then show "sum_list (sort us) \<le> of_int (sum_list ds)" using us(4) by simp
  qed (use len in simp)
  then obtain m where m: "fmean (sort us) = returned (Fin m)" "0 \<le> m" "m \<le> of_int (sum_list ds)" by blast
  obtain mean where mean: "round_at 2 (Fin m) = Fin mean" using round_at_between [OF m(2,3) tot] by blast
  have finite: "\<exists>r. round_at 2 (Fin u) = Fin r" if "u \<in> set us" for u
  proof (rule round_at_between [OF _ _ tot])
    show "0 \<le> u" using us(3) that by blast
    have "u \<le> sum_list us" using member_le_sum_list [OF that] us(3) by simp
    then show "u \<le> of_int (sum_list ds)" using us(4) by linarith
  qed
  show thesis
    by (rule that [OF us(1) ne' finite pct_select [OF ne len] tcp.select_mem [OF ne len] m(1) mean])
qed

section \<open>What the server reports\<close>

text \<open>
  The report of the server says ok whatever happened: a peer that vanishes in the middle of a
  session, an unknown command and a clean end all print the same outcome.
\<close>

theorem server_reports_ok:
  assumes "counter_delta before after = returned d"
  shows "fst (run_server handle received before after a p) = serve_loop handle received \<and>
    (\<exists>r. snd (run_server handle received before after a p) = Some r \<and> dget r ''outcome'' = returned (Some (JStr ''ok''))) \<and>
    serve_loop handle [] = raised ConnectionError"
  using assms by (simp add: run_server_def dget_def)

section \<open>Which interfaces carried traffic\<close>

text \<open>
  The delta names exactly the interfaces present at both times one of whose counters moved, with
  the differences of all its counters.
\<close>

theorem delta_names_traffic:
  assumes "distinct (map fst after)" and "counter_delta before after = returned d"
  shows "map_of d dev =
    (case (map_of before dev, map_of after dev) of
       (Some b, Some a) \<Rightarrow>
         if list_all (\<lambda>(k, v). map_of b k = Some v) a then None
         else Some (map (\<lambda>(k, v). (k, v - the (map_of b k))) a)
     | _ \<Rightarrow> None)"
  using assms
proof (induction before after arbitrary: d rule: counter_delta.induct)
  case (2 before dev' a after)
  show ?case
  proof (cases "map_of before dev'")
    case None
    then show ?thesis using 2 by (auto split: option.split)
  next
    case (Some b)
    obtain row rest where row: "row_delta b a = returned row" and rest: "counter_delta before after = returned rest"
        and d: "d = (if list_ex (\<lambda>(k, v). v \<noteq> 0) row then (dev', row) # rest else rest)"
      using 2(4) Some by (auto simp: res_simps)
    have keys: "\<forall>(k, v) \<in> set a. map_of b k \<noteq> None" and row_eq: "row = map (\<lambda>(k, v). (k, v - the (map_of b k))) a"
    proof -
      have "map (\<lambda>(k, v). case map_of b k of None \<Rightarrow> raised KeyError | Some v0 \<Rightarrow> returned (k, v - v0)) a = map returned row"
        using row by (simp add: row_delta_def res_seq_Inr)
      then show "\<forall>(k, v) \<in> set a. map_of b k \<noteq> None" "row = map (\<lambda>(k, v). (k, v - the (map_of b k))) a"
        by (induction a arbitrary: row) (auto split: option.splits)
    qed
    have moved: "list_ex (\<lambda>(k, v). v \<noteq> 0) row \<longleftrightarrow> \<not> list_all (\<lambda>(k, v). map_of b k = Some v) a"
      using keys unfolding row_eq by (induction a) auto
    note rest_of = 2(2) [OF Some row _ rest]
    show ?thesis
    proof (cases "dev = dev'")
      case True
      have "map_of after dev' = None" using 2(3) by (simp add: map_of_eq_None_iff)
      then have "map_of rest dev' = None" using rest_of True 2(3) by (simp split: option.splits)
      then show ?thesis using True Some moved by (simp add: d row_eq)
    next
      case False
      then show ?thesis using rest_of 2(3) by (simp add: d)
    qed
  qed
qed (auto split: option.split)

section \<open>What the client reports\<close>

text \<open>
  C39: The report of the client is what was measured: for every size, in the order of the command line,
  an entry with the number of iterations of that size, the minimum, percentiles, maximum, mean and
  deviation of the round trips after the warm-up, and the number of them in every bin; the two directions
  of the throughput phase from their own clocks, or none without that phase; and as packet counters of
  an interface the differences between the two readings, if any of them moved.
\<close>

theorem client_report_measures:
  assumes "run_client label sizes iters warmup throughput_bytes m = returned r"
    and "\<forall>n \<in> set sizes. length (echo_times m n) < 2 ^ 53" and "distinct (map fst (netdev_after m))"
  shows "\<exists>latency throughput d.
    dget r ''label'' = returned (Some (JStr label)) \<and>
    dget r ''latency'' = returned (Some (JList latency)) \<and>
    list_all2 (\<lambda>n j. \<exists>us. res_seq (map (\<lambda>(a, b). sample_us (b - a)) (drop warmup (echo_times m n))) = returned us \<and>
      us \<noteq> [] \<and> entry_measures n (echo_iters iters n) warmup us j) sizes latency \<and>
    dget r ''throughput'' = returned (Some (JList throughput)) \<and>
    (if throughput_bytes = 0 then throughput = []
     else \<exists>tx rx. throughput = [tx, rx] \<and> tput ''tx_client_to_server'' throughput_bytes (tx_ns m) = returned tx \<and>
       tput ''rx_server_to_client'' throughput_bytes (rx_ns m) = returned rx) \<and>
    dget r ''client_netdev_delta'' = returned (Some (counters_json d)) \<and>
    (\<forall>dev. map_of d dev =
      (case (map_of (netdev_before m) dev, map_of (netdev_after m) dev) of
         (Some b, Some a) \<Rightarrow>
           if list_all (\<lambda>(k, v). map_of b k = Some v) a then None
           else Some (map (\<lambda>(k, v). (k, v - the (map_of b k))) a)
       | _ \<Rightarrow> None))"
proof -
  obtain latency thr d where latency: "map (\<lambda>n. echo_report n (echo_iters iters n) warmup (echo_times m n)) sizes = map returned latency"
      and thr: "(if throughput_bytes = 0 then returned []
        else res_seq [tput ''tx_client_to_server'' throughput_bytes (tx_ns m), tput ''rx_server_to_client'' throughput_bytes (rx_ns m)])
        = returned thr"
      and d: "counter_delta (netdev_before m) (netdev_after m) = returned d"
      and r: "r = JObj [(''label'', JStr label), (''local_sockaddr'', local_addr m), (''peer_sockaddr'', peer_addr m),
         (''wall_s'', round2 (wall m)), (''latency'', JList latency), (''throughput'', JList thr),
         (''client_netdev_delta'', counters_json d)]"
    using assms(1) by (auto simp: run_client_def res_simps res_seq_Inr)
  have "list_all2 (\<lambda>n j. echo_report n (echo_iters iters n) warmup (echo_times m n) = returned j) sizes latency"
    using latency by (simp add: list_all2_conv_all_nth list_eq_iff_nth_eq)
  then have entries: "list_all2 (\<lambda>n j. \<exists>us. res_seq (map (\<lambda>(a, b). sample_us (b - a)) (drop warmup (echo_times m n))) = returned us \<and>
      us \<noteq> [] \<and> entry_measures n (echo_iters iters n) warmup us j) sizes latency"
    by (rule list.rel_mono_strong) (use echo_entry assms(2) in blast)
  have tp: "if throughput_bytes = 0 then thr = []
     else \<exists>tx rx. thr = [tx, rx] \<and> tput ''tx_client_to_server'' throughput_bytes (tx_ns m) = returned tx \<and>
       tput ''rx_server_to_client'' throughput_bytes (rx_ns m) = returned rx"
    using thr by (auto simp: res_simps split: if_splits)
  show ?thesis
    by (intro exI [of _ latency] exI [of _ thr] exI [of _ d] conjI entries tp allI delta_names_traffic [OF assms(3) d])
      (simp_all add: r dget_def)
qed

section \<open>Witnesses\<close>

definition demo_stamps :: "(int \<times> int) list" where
  "demo_stamps = [(0, 9), (0, 5000), (0, 3000), (0, 4000)]"

lemma demo_echo: "\<exists>r. echo_report 64 3 1 demo_stamps = returned r"
proof -
  have us: "res_seq (map (\<lambda>(a, b). sample_us (b - a)) (drop 1 demo_stamps)) = returned [5, 3, 4]"
    by code_simp
  have "sort [5, 3, 4 :: rat] = [3, 4, 5]" by code_simp
  moreover have "\<exists>a. pct [3, 4, 5] (centile_value q) = returned (Fin a)" for q
    using pct_select [of "[5, 3, 4]" q] \<open>sort [5, 3, 4 :: rat] = [3, 4, 5]\<close> by simp
  note this [of C50] this [of C90] this [of C99] this [of C999]
  moreover have "fmean [3, 4, 5] = returned (Fin 4)" by code_simp
  moreover have "\<exists>f. pstdev [3, 4, 5] = returned f"
  proof -
    have "case pstdev [3, 4, 5] of Inl _ \<Rightarrow> False | Inr _ \<Rightarrow> True" by code_simp
    then show ?thesis by (cases "pstdev [3, 4, 5]") simp_all
  qed
  ultimately show ?thesis unfolding echo_report_def us by (auto simp: Let_def)
qed

theorem echo_stats_ordered_witness:
  "\<exists>r fs. rtt_fields r [''min'', ''p50'', ''p90'', ''p99'', ''p999'', ''max''] = Some fs \<and> sorted fs"
proof -
  obtain r where "echo_report 64 3 1 demo_stamps = returned r" using demo_echo by blast
  moreover have "length demo_stamps < 2 ^ 53" by (simp add: demo_stamps_def)
  ultimately show ?thesis using echo_stats_ordered by blast
qed

definition demo_before :: counters where
  "demo_before = [(''lo'', [(''rx'', 5), (''tx'', 5)]), (''thunderbolt0'', [(''rx'', 1), (''tx'', 2)])]"

definition demo_after :: counters where
  "demo_after = [(''lo'', [(''rx'', 5), (''tx'', 5)]), (''thunderbolt0'', [(''rx'', 7), (''tx'', 2)])]"

lemma demo_delta: "counter_delta demo_before demo_after = returned [(''thunderbolt0'', [(''rx'', 6), (''tx'', 0)])]"
  by code_simp

theorem server_reports_ok_witness:
  "fst (run_server (\<lambda>_. returned ()) [] demo_before demo_after JNull JNull) = raised ConnectionError"
  using server_reports_ok [OF demo_delta, of "\<lambda>_. returned ()" "[]" JNull JNull] by simp

theorem delta_names_traffic_witness:
  "map_of [(''thunderbolt0'', [(''rx'', 6), (''tx'', 0 :: int)])] ''thunderbolt0'' = Some [(''rx'', 6), (''tx'', 0)]"
  using delta_names_traffic [OF _ demo_delta, of "''thunderbolt0''"]
  by (simp add: demo_before_def demo_after_def)

definition demo_measured :: measured where
  "demo_measured =
     \<lparr>echo_times = (\<lambda>_. demo_stamps), tx_ns = 1, rx_ns = 1, netdev_before = demo_before, netdev_after = demo_after,
      wall = Fin 1, local_addr = JNull, peer_addr = JNull\<rparr>"

theorem client_report_measures_witness:
  "\<exists>r j. run_client ''rail'' [64] 3 1 0 demo_measured = returned r \<and>
     dget r ''latency'' = returned (Some (JList [j])) \<and> entry_measures 64 3 1 [5, 3, 4] j"
proof -
  obtain e where "echo_report 64 3 1 demo_stamps = returned e" using demo_echo by blast
  then have "\<exists>r. run_client ''rail'' [64] 3 1 0 demo_measured = returned r"
    by (simp add: run_client_def demo_measured_def echo_iters_def demo_delta)
  then obtain r where r: "run_client ''rail'' [64] 3 1 0 demo_measured = returned r" by blast
  have m: "\<forall>n \<in> set [64]. length (echo_times demo_measured n) < 2 ^ 53" "distinct (map fst (netdev_after demo_measured))"
    "echo_iters 3 64 = 3" "echo_times demo_measured 64 = demo_stamps"
    by (simp_all add: demo_measured_def demo_stamps_def demo_after_def echo_iters_def)
  have us: "res_seq (map (\<lambda>(a, b). sample_us (b - a)) (drop 1 demo_stamps)) = returned [5, 3, 4]" by code_simp
  obtain latency where l: "dget r ''latency'' = returned (Some (JList latency))"
      "list_all2 (\<lambda>n j. \<exists>us. res_seq (map (\<lambda>(a, b). sample_us (b - a)) (drop 1 (echo_times demo_measured n))) = returned us \<and>
        us \<noteq> [] \<and> entry_measures n (echo_iters 3 n) 1 us j) [64] latency"
    using client_report_measures [OF r m(1,2)] by blast
  then obtain j where "latency = [j]" "entry_measures 64 3 1 [5, 3, 4] j"
    by (auto simp: list_all2_Cons1 m(3,4) us simp del: One_nat_def)
  then show ?thesis using r l(1) by blast
qed

end
