(* ===== verification/GlooBench.thy ===== *)
theory GlooBench
  imports SocketBench ArgParse
begin

text \<open>
  The all-reduce bench, \<open>bench/gloo-allreduce-bench.py\<close>: its command line, the environment it pins
  the interface with, the collective calls a rank makes, the statistics of one message size and the
  line it prints. \<open>torch.distributed\<close> is an argument: what a rank's next call comes to, a return or an
  exception, given the calls it has made. So are the duration of each timed call, the packet counters
  and \<open>json.dumps\<close>. What is relied on of the group is stated where a theorem needs it: a call that
  every rank of a full group makes returns, and a call that another rank never makes raises once
  \<open>--timeout-s\<close> has passed.
\<close>

section \<open>The packet counters\<close>

definition gloo_row :: "(string \<Rightarrow> string \<Rightarrow> string res) \<Rightarrow> string \<Rightarrow> (string \<times> int) list option res" where
  "gloo_row read_stat dev =
     (case res_seq (map (read_counter read_stat dev) [''rx_packets'', ''tx_packets'']) of
        Inl e \<Rightarrow> if e = OSError then returned None else raised e
      | Inr ps \<Rightarrow> returned (Some (zip [''rx'', ''tx''] ps)))"

fun gloo_rows :: "(string \<Rightarrow> string \<Rightarrow> string res) \<Rightarrow> string list \<Rightarrow> counters res" where
  "gloo_rows read_stat [] = returned []"
| "gloo_rows read_stat (dev # devs) =
     res_bind (gloo_row read_stat dev) (\<lambda>row.
     res_bind (gloo_rows read_stat devs) (\<lambda>rest.
       returned (case row of None \<Rightarrow> rest | Some r \<Rightarrow> (dev, r) # rest)))"

text \<open>\<open>netdev\<close>: the listing is \<open>None\<close> when \<open>/sys/class/net\<close> is no directory.\<close>

definition gloo_netdev :: "(string \<Rightarrow> string \<Rightarrow> string res) \<Rightarrow> string list option \<Rightarrow> counters res" where
  "gloo_netdev read_stat listing = (case listing of None \<Rightarrow> returned [] | Some devs \<Rightarrow> gloo_rows read_stat (sort devs))"

text \<open>\<open>delta\<close> is the loop of \<open>counter_delta\<close>.\<close>

definition gloo_delta :: "counters \<Rightarrow> counters \<Rightarrow> counters res" where
  "gloo_delta before after = counter_delta before after"

section \<open>One rank\<close>

record gloo_args =
  rank_no :: int
  world_size :: int
  master_addr :: string
  master_port :: int
  iface_arg :: string
  sizes_arg :: string
  iters_arg :: int
  warmup_arg :: int
  timeout_s :: int
  no_ifname :: bool

definition gloo_parser :: "arg_spec list" where
  "gloo_parser =
     [(option_of ''--rank'' Int_arg No_value)\<lparr>arg_required := True\<rparr>,
      option_of ''--world-size'' Int_arg (Int_value 2),
      (option_of ''--master-addr'' Text_arg No_value)\<lparr>arg_required := True\<rparr>,
      (option_of ''--master-port'' Int_arg No_value)\<lparr>arg_required := True\<rparr>,
      (option_of ''--iface'' Text_arg No_value)\<lparr>arg_required := True\<rparr>,
      option_of ''--sizes'' Text_arg (Text_value ''64,4096,8192,16384,65536''),
      option_of ''--iters'' Int_arg (Int_value 2000),
      option_of ''--warmup'' Int_arg (Int_value 200),
      option_of ''--timeout-s'' Int_arg (Int_value 90),
      flag_of ''--no-ifname'']"

definition gloo_args_of :: "namespace \<Rightarrow> gloo_args" where
  "gloo_args_of ns =
     \<lparr>rank_no = int_arg ns ''--rank'', world_size = int_arg ns ''--world-size'',
      master_addr = text_arg ns ''--master-addr'', master_port = int_arg ns ''--master-port'',
      iface_arg = text_arg ns ''--iface'', sizes_arg = text_arg ns ''--sizes'',
      iters_arg = int_arg ns ''--iters'', warmup_arg = int_arg ns ''--warmup'',
      timeout_s = int_arg ns ''--timeout-s'',
      no_ifname = flag_arg ns ''--no-ifname''\<rparr>"

definition pin_env :: "gloo_args \<Rightarrow> environ \<Rightarrow> environ" where
  "pin_env a env =
     (let pinned = (if no_ifname a then env(''GLOO_SOCKET_IFNAME'' := None, ''TP_SOCKET_IFNAME'' := None)
                    else env(''GLOO_SOCKET_IFNAME'' \<mapsto> iface_arg a, ''TP_SOCKET_IFNAME'' \<mapsto> iface_arg a))
      in pinned(''MASTER_ADDR'' \<mapsto> master_addr a, ''MASTER_PORT'' \<mapsto> str_int (master_port a)))"

text \<open>
  The calls a rank makes on the group: joining it (port, number of ranks, time limit), the reduction
  of a tensor, the barrier.
\<close>

datatype coll = Join int int int | AllReduce int | Barrier

text \<open>
  One call after the other, after those already made. \<open>answer\<close> is what the last of a rank's calls comes
  to; the first exception ends the rank.
\<close>

fun make_calls :: "(coll list \<Rightarrow> unit res) \<Rightarrow> coll list \<Rightarrow> coll list \<Rightarrow> coll list \<times> unit res" where
  "make_calls answer made [] = (made, returned ())"
| "make_calls answer made (c # cs) =
     (case answer (made @ [c]) of
        Inl e \<Rightarrow> (made @ [c], raised e)
      | Inr _ \<Rightarrow> make_calls answer (made @ [c]) cs)"

text \<open>The tensor of one message size and how often it is reduced with the clock running.\<close>

definition gloo_elems :: "int \<Rightarrow> int" where
  "gloo_elems nbytes = max 1 (nbytes div 4)"

definition gloo_iters :: "int \<Rightarrow> int \<Rightarrow> int" where
  "gloo_iters iters nbytes = (if nbytes \<le> 16384 then iters else max 300 (iters div 4))"

definition size_calls :: "gloo_args \<Rightarrow> int \<Rightarrow> coll list" where
  "size_calls a nbytes =
     (let reduce = AllReduce (gloo_elems nbytes)
      in replicate (nat (warmup_arg a)) reduce @ [Barrier]
         @ replicate (nat (gloo_iters (iters_arg a) nbytes)) reduce @ [Barrier])"

text \<open>\<open>pct\<close>; of no samples the index is -1, which raises.\<close>

definition gloo_pct :: "rat list \<Rightarrow> pyfloat \<Rightarrow> pyfloat res" where
  "gloo_pct xs q =
     (if xs = [] then raised IndexError
      else res_bind (pct_index (length xs) q) (\<lambda>i. returned (Fin (xs ! i))))"

definition gloo_entry :: "int \<Rightarrow> int \<Rightarrow> int list \<Rightarrow> json res" where
  "gloo_entry iters nbytes durations =
     res_bind (res_seq (map sample_us durations)) (\<lambda>us.
     let s = sort us
     in if s = [] then raised IndexError
        else
          res_bind (gloo_pct s (Fin 50)) (\<lambda>p50.
          res_bind (gloo_pct s (Fin 90)) (\<lambda>p90.
          res_bind (gloo_pct s (Fin 99)) (\<lambda>p99.
          res_bind (fmean s) (\<lambda>mean.
            returned (JObj
              [(''size_b'', JInt (gloo_elems nbytes * 4)), (''elems'', JInt (gloo_elems nbytes)),
               (''iters'', JInt (gloo_iters iters nbytes)),
               (''allreduce_us'', JObj
                 [(''min'', round2 (Fin (hd s))), (''p50'', round2 p50), (''p90'', round2 p90), (''p99'', round2 p99),
                  (''max'', round2 (Fin (last s))), (''mean'', round2 mean)])]))))))"

text \<open>
  The loop over the sizes, each read from the argument when its turn comes: the calls made, and the
  entries or the exception. \<open>ns k i\<close> is the duration of the \<open>i\<close>-th timed call of the \<open>k\<close>-th size.
\<close>

fun size_loop ::
  "gloo_args \<Rightarrow> (coll list \<Rightarrow> unit res) \<Rightarrow> (nat \<Rightarrow> nat \<Rightarrow> int) \<Rightarrow> nat \<Rightarrow> coll list \<Rightarrow> string list \<Rightarrow> coll list \<times> json list res"
where
  "size_loop a answer ns k made [] = (made, returned [])"
| "size_loop a answer ns k made (s # ss) =
     (case parse_int s of
        None \<Rightarrow> (made, raised ValueError)
      | Some nbytes \<Rightarrow>
          (case make_calls answer made (size_calls a nbytes) of
             (made1, Inl e) \<Rightarrow> (made1, raised e)
           | (made1, Inr _) \<Rightarrow>
               (case gloo_entry (iters_arg a) nbytes (map (ns k) [0..<nat (gloo_iters (iters_arg a) nbytes)]) of
                  Inl e \<Rightarrow> (made1, raised e)
                | Inr r \<Rightarrow>
                    (case size_loop a answer ns (Suc k) made1 ss of
                       (calls, rest) \<Rightarrow> (calls, res_bind rest (\<lambda>rs. returned (r # rs)))))))"

text \<open>What the machine and the group give a rank; \<open>group_left\<close> is the end of \<open>destroy_process_group\<close>.\<close>

record gloo_world =
  environ_before :: environ
  group_call :: "coll list \<Rightarrow> unit res"
  group_left :: "unit res"
  init_seconds :: pyfloat
  devs_before :: "counters res"
  devs_after :: "counters res"
  call_ns :: "nat \<Rightarrow> nat \<Rightarrow> int"
  torch_version :: string

definition gloo_report :: "gloo_args \<Rightarrow> gloo_world \<Rightarrow> json list \<Rightarrow> counters \<Rightarrow> json" where
  "gloo_report a w results d =
     JObj [(''rank'', JInt (rank_no a)),
           (''iface_env'', JStr (case pin_env a (environ_before w) ''GLOO_SOCKET_IFNAME'' of None \<Rightarrow> ''<unset>'' | Some v \<Rightarrow> v)),
           (''master'', JStr (master_addr a @ '':'' @ str_int (master_port a))),
           (''torch'', JStr (torch_version w)),
           (''init_s'', JFloat (round_at 3 (init_seconds w))),
           (''results'', JList results),
           (''netdev_delta'', counters_json d)]"

definition gloo_main :: "gloo_args \<Rightarrow> gloo_world \<Rightarrow> coll list \<times> json res" where
  "gloo_main a w =
     (case make_calls (group_call w) [] [Join (master_port a) (world_size a) (timeout_s a)] of
        (made, Inl e) \<Rightarrow> (made, raised e)
      | (made, Inr _) \<Rightarrow>
          (case devs_before w of
             Inl e \<Rightarrow> (made, raised e)
           | Inr before \<Rightarrow>
               (case size_loop a (group_call w) (call_ns w) 0 made (split_on (CHR '','') (sizes_arg a)) of
                  (calls, results) \<Rightarrow>
                    (calls,
                     res_bind results (\<lambda>rs.
                     res_bind (devs_after w) (\<lambda>after.
                     res_bind (group_left w) (\<lambda>_.
                     res_bind (gloo_delta before after) (\<lambda>d.
                       returned (gloo_report a w rs d)))))))))"

definition GLOO_MARK :: string where "GLOO_MARK = ''GLOOBENCH ''"

definition gloo_line :: "(json \<Rightarrow> string) \<Rightarrow> json \<Rightarrow> string" where
  "gloo_line dumps report = GLOO_MARK @ dumps report"

section \<open>The entry of a size\<close>

text \<open>The statistics of an entry: two decimals of the selected samples and of their mean.\<close>

definition entry_json :: "int \<Rightarrow> int \<Rightarrow> rat \<Rightarrow> rat \<Rightarrow> rat \<Rightarrow> rat \<Rightarrow> rat \<Rightarrow> rat \<Rightarrow> json" where
  "entry_json iters nbytes lo p50 p90 p99 hi mean =
     JObj [(''size_b'', JInt (gloo_elems nbytes * 4)), (''elems'', JInt (gloo_elems nbytes)),
       (''iters'', JInt (gloo_iters iters nbytes)),
       (''allreduce_us'', JObj
         [(''min'', JFloat (Fin lo)), (''p50'', JFloat (Fin p50)), (''p90'', JFloat (Fin p90)), (''p99'', JFloat (Fin p99)),
          (''max'', JFloat (Fin hi)), (''mean'', JFloat (Fin mean))])]"

lemma gloo_entry_exact:
  assumes "clocked ds" "ds \<noteq> []"
  obtains us lo p50 p90 p99 hi mean where
    "res_seq (map sample_us ds) = returned us"
    "gloo_entry iters nbytes ds = returned (entry_json iters nbytes lo p50 p90 p99 hi mean)"
    "Fin lo = round_at 2 (Fin (hd (sort us)))" "Fin p50 = round_at 2 (Fin (tcp.select us C50))"
    "Fin p99 = round_at 2 (Fin (tcp.select us C99))"
proof -
  obtain us m mean where us: "res_seq (map sample_us ds) = returned us" "sort us \<noteq> []"
      "\<And>u. u \<in> set us \<Longrightarrow> \<exists>r. round_at 2 (Fin u) = Fin r"
      "\<And>q. pct (sort us) (centile_value q) = returned (Fin (tcp.select us q))"
      "\<And>q. tcp.select us q \<in> set us" "fmean (sort us) = returned (Fin m)" "round_at 2 (Fin m) = Fin mean"
    using clocked_samples [OF assms] by metis
  have pct: "gloo_pct (sort us) (centile_value q) = returned (Fin (tcp.select us q))" for q
    using us(2) us(4) [of q] by (simp add: pct_def gloo_pct_def)
  have mem: "hd (sort us) \<in> set us" "last (sort us) \<in> set us"
    using hd_in_set [OF us(2)] last_in_set [OF us(2)] by simp_all
  obtain lo hi p50 p90 p99 where r: "round_at 2 (Fin (hd (sort us))) = Fin lo" "round_at 2 (Fin (last (sort us))) = Fin hi"
      "round_at 2 (Fin (tcp.select us C50)) = Fin p50" "round_at 2 (Fin (tcp.select us C90)) = Fin p90"
      "round_at 2 (Fin (tcp.select us C99)) = Fin p99"
    using us(3) [OF mem(1)] us(3) [OF mem(2)] us(3) [OF us(5) [of C50]] us(3) [OF us(5) [of C90]]
      us(3) [OF us(5) [of C99]] by metis
  have "gloo_entry iters nbytes ds = returned (entry_json iters nbytes lo p50 p90 p99 hi mean)"
    using pct [of C50] pct [of C90] pct [of C99] us(2) r
    by (simp add: gloo_entry_def us(1,6,7) Let_def round2_def entry_json_def)
  then show thesis by (rule that [OF us(1)]) (simp_all add: r)
qed

text \<open>Without an iteration there is no statistic: the first sample is missing.\<close>

lemma gloo_entry_empty: "gloo_entry iters nbytes [] = raised IndexError"
  by (simp add: gloo_entry_def)

section \<open>The calls of a rank\<close>

lemma make_calls_append:
  "make_calls answer made (xs @ ys) =
     (case make_calls answer made xs of (made1, Inl e) \<Rightarrow> (made1, raised e) | (made1, Inr _) \<Rightarrow> make_calls answer made1 ys)"
  by (induction xs arbitrary: made) (auto split: sum.split)

lemma make_calls_extends: "\<exists>ys. fst (make_calls answer made cs) = made @ ys"
proof (induction cs arbitrary: made)
  case (Cons c cs)
  obtain ys where "fst (make_calls answer (made @ [c]) cs) = (made @ [c]) @ ys" using Cons by blast
  then show ?case by (auto split: sum.split)
qed simp

lemma make_calls_whole: "snd (make_calls answer made cs) = returned () \<Longrightarrow> fst (make_calls answer made cs) = made @ cs"
  by (induction cs arbitrary: made) (auto split: sum.splits)

text \<open>How far a rank comes: past every call that returns.\<close>

lemma make_calls_reaches:
  "k \<le> length cs \<Longrightarrow> \<forall>j. 0 < j \<and> j < k \<longrightarrow> answer (made @ take j cs) = returned () \<Longrightarrow>
   take (length made + k) (fst (make_calls answer made cs)) = made @ take k cs"
proof (induction cs arbitrary: made k)
  case (Cons c cs)
  show ?case
  proof (cases k)
    case 0
    obtain ys where "fst (make_calls answer made (c # cs)) = made @ ys" using make_calls_extends by blast
    then show ?thesis using 0 by (simp del: make_calls.simps)
  next
    case (Suc i)
    show ?thesis
    proof (cases "i = 0")
      case True
      obtain ys where "fst (make_calls answer (made @ [c]) cs) = (made @ [c]) @ ys" using make_calls_extends by blast
      then show ?thesis using Suc True by (auto split: sum.split)
    next
      case False
      then have ok: "answer (made @ [c]) = returned ()" using Cons.prems(2) Suc by (auto dest: spec [of _ 1])
      have "\<forall>j. 0 < j \<and> j < i \<longrightarrow> answer ((made @ [c]) @ take j cs) = returned ()"
        using Cons.prems(2) Suc by (auto dest: spec [of _ "Suc _"])
      then show ?thesis using Cons.IH [of i "made @ [c]"] Cons.prems(1) Suc ok by simp
    qed
  qed
qed simp

lemma make_calls_all:
  "snd (make_calls answer made cs) = returned () \<longleftrightarrow> (\<forall>j. 0 < j \<and> j \<le> length cs \<longrightarrow> answer (made @ take j cs) = returned ())"
proof (induction cs arbitrary: made)
  case (Cons c cs)
  have "(\<forall>j. 0 < j \<and> j \<le> length (c # cs) \<longrightarrow> answer (made @ take j (c # cs)) = returned ()) \<longleftrightarrow>
      answer (made @ [c]) = returned () \<and> (\<forall>j. 0 < j \<and> j \<le> length cs \<longrightarrow> answer ((made @ [c]) @ take j cs) = returned ())"
    (is "?all \<longleftrightarrow> ?first \<and> ?rest")
  proof
    assume ?all
    then show "?first \<and> ?rest" by (auto dest: spec [of _ 1] spec [of _ "Suc _"])
  next
    assume split: "?first \<and> ?rest"
    show ?all
    proof (intro allI impI)
      fix j assume "0 < j \<and> j \<le> length (c # cs)"
      then show "answer (made @ take j (c # cs)) = returned ()" using split by (cases j; cases "j = 1") auto
    qed
  qed
  then show ?case using Cons.IH [of "made @ [c]"] by (auto split: sum.split)
qed simp

lemma make_calls_length: "length (fst (make_calls answer made cs)) \<le> length made + length cs"
proof (induction cs arbitrary: made)
  case (Cons c cs)
  then show ?case using Cons [of "made @ [c]"] by (auto split: sum.split)
qed simp

text \<open>What a rank is to call, from its command line alone, and whether that ends in a report.\<close>

fun planned_sizes :: "int \<Rightarrow> string list \<Rightarrow> int list" where
  "planned_sizes iters [] = []"
| "planned_sizes iters (s # ss) =
     (case parse_int s of
        None \<Rightarrow> []
      | Some n \<Rightarrow> n # (if gloo_iters iters n \<le> 0 then [] else planned_sizes iters ss))"

definition planned_calls :: "gloo_args \<Rightarrow> coll list" where
  "planned_calls a =
     Join (master_port a) (world_size a) (timeout_s a)
     # concat (map (size_calls a) (planned_sizes (iters_arg a) (split_on (CHR '','') (sizes_arg a))))"

definition sizes_measurable :: "int \<Rightarrow> string list \<Rightarrow> bool" where
  "sizes_measurable iters ss \<longleftrightarrow> list_all (\<lambda>s. case parse_int s of None \<Rightarrow> False | Some n \<Rightarrow> 0 < gloo_iters iters n) ss"

definition plan_ends_well :: "gloo_args \<Rightarrow> bool" where
  "plan_ends_well a \<longleftrightarrow> sizes_measurable (iters_arg a) (split_on (CHR '','') (sizes_arg a))"

text \<open>The clock of a rank: no call takes negative time, those of one size at most \<open>2^53\<close> ns.\<close>

definition clock_sound :: "int \<Rightarrow> (nat \<Rightarrow> nat \<Rightarrow> int) \<Rightarrow> bool" where
  "clock_sound iters ns \<longleftrightarrow> (\<forall>k nbytes. clocked (map (ns k) [0..<nat (gloo_iters iters nbytes)]))"

lemma entry_raises_iff:
  assumes "clock_sound iters ns"
  shows "(\<exists>r. gloo_entry iters n (map (ns k) [0..<nat (gloo_iters iters n)]) = returned r) \<longleftrightarrow> 0 < gloo_iters iters n"
proof (cases "0 < gloo_iters iters n")
  case True
  have "clocked (map (ns k) [0..<nat (gloo_iters iters n)])" using assms by (simp add: clock_sound_def)
  moreover have "map (ns k) [0..<nat (gloo_iters iters n)] \<noteq> []" using True by simp
  ultimately show ?thesis using True gloo_entry_exact by metis
next
  case False
  then show ?thesis by (simp add: gloo_entry_empty)
qed

lemma size_loop_plan:
  assumes "clock_sound (iters_arg a) ns"
  shows "fst (size_loop a answer ns k made ss) =
      fst (make_calls answer made (concat (map (size_calls a) (planned_sizes (iters_arg a) ss)))) \<and>
    ((\<exists>rs. snd (size_loop a answer ns k made ss) = returned rs) \<longleftrightarrow>
      snd (make_calls answer made (concat (map (size_calls a) (planned_sizes (iters_arg a) ss)))) = returned () \<and>
      sizes_measurable (iters_arg a) ss)"
proof (induction ss arbitrary: k made)
  case (Cons s ss)
  show ?case
  proof (cases "parse_int s")
    case (Some n)
    obtain made1 r where calls: "make_calls answer made (size_calls a n) = (made1, r)" by (cases "make_calls answer made (size_calls a n)")
    note iff = entry_raises_iff [OF assms, of n k]
    show ?thesis
    proof (cases r)
      case (Inl e)
      then show ?thesis using Some calls by (simp add: make_calls_append sizes_measurable_def)
    next
      case (Inr u)
      show ?thesis
      proof (cases "gloo_entry (iters_arg a) n (map (ns k) [0..<nat (gloo_iters (iters_arg a) n)])")
        case entry: (Inl e)
        then show ?thesis using Some calls Inr iff by (simp add: make_calls_append sizes_measurable_def)
      next
        case entry: (Inr j)
        then show ?thesis using Some calls Inr iff Cons.IH [of "Suc k" made1]
          by (auto simp: make_calls_append sizes_measurable_def case_prod_unfold res_bind_Inr_iff)
      qed
    qed
  qed (simp add: sizes_measurable_def)
qed (simp add: sizes_measurable_def)

text \<open>Everything but the group goes well on the rank's machine.\<close>

definition gloo_ready :: "gloo_args \<Rightarrow> gloo_world \<Rightarrow> bool" where
  "gloo_ready a w \<longleftrightarrow> clock_sound (iters_arg a) (call_ns w) \<and> group_left w = returned () \<and>
     (case (devs_before w, devs_after w) of
        (Inr before, Inr after) \<Rightarrow> \<not> isl (gloo_delta before after)
      | _ \<Rightarrow> False)"

lemma gloo_main_plan:
  assumes "gloo_ready a w"
  shows "fst (gloo_main a w) = fst (make_calls (group_call w) [] (planned_calls a))"
    and "(\<exists>report. snd (gloo_main a w) = returned report) \<longleftrightarrow>
      snd (make_calls (group_call w) [] (planned_calls a)) = returned () \<and> plan_ends_well a"
proof -
  obtain before after d where devs: "devs_before w = returned before" "devs_after w = returned after"
      "gloo_delta before after = returned d" "group_left w = returned ()"
    using assms by (auto simp: gloo_ready_def isl_def split: sum.splits) (metis sum.exhaust)
  let ?join = "Join (master_port a) (world_size a) (timeout_s a)"
  note loop = size_loop_plan [of a "call_ns w" "group_call w" 0 "[?join]" "split_on (CHR '','') (sizes_arg a)"]
  have "clock_sound (iters_arg a) (call_ns w)" using assms by (simp add: gloo_ready_def)
  note loop = loop [OF this]
  show "fst (gloo_main a w) = fst (make_calls (group_call w) [] (planned_calls a))"
    using loop devs by (auto simp: gloo_main_def planned_calls_def case_prod_unfold split: sum.split)
  show "(\<exists>report. snd (gloo_main a w) = returned report) \<longleftrightarrow>
      snd (make_calls (group_call w) [] (planned_calls a)) = returned () \<and> plan_ends_well a"
    using loop devs by (auto simp: gloo_main_def planned_calls_def plan_ends_well_def case_prod_unfold res_bind_Inr_iff
        split: sum.split)
qed

section \<open>A group of ranks\<close>

abbreviation calls_of :: "gloo_args \<times> gloo_world \<Rightarrow> coll list" where
  "calls_of r \<equiv> fst (gloo_main (fst r) (snd r))"

abbreviation outcome_of :: "gloo_args \<times> gloo_world \<Rightarrow> json res" where
  "outcome_of r \<equiv> snd (gloo_main (fst r) (snd r))"

text \<open>Every rank of the world is there, once.\<close>

definition full_group :: "(gloo_args \<times> gloo_world) list \<Rightarrow> bool" where
  "full_group ranks \<longleftrightarrow>
     map (rank_no \<circ> fst) ranks = map int [0..<length ranks] \<and> list_all (\<lambda>r. world_size (fst r) = int (length ranks)) ranks"

text \<open>
  What the bench relies on of \<open>torch.distributed\<close>: a call that every rank of a full group makes, after
  the same calls, returns everywhere.
\<close>

definition group_matches :: "(gloo_args \<times> gloo_world) list \<Rightarrow> bool" where
  "group_matches ranks \<longleftrightarrow>
     (full_group ranks \<longrightarrow>
       (\<forall>h. h \<noteq> [] \<longrightarrow> (\<forall>r \<in> set ranks. take (length h) (calls_of r) = h) \<longrightarrow>
          (\<forall>r \<in> set ranks. group_call (snd r) h = returned ())))"

text \<open>And a call that comes after all the calls another rank makes raises when the time limit is over.\<close>

definition group_times_out :: "(gloo_args \<times> gloo_world) list \<Rightarrow> bool" where
  "group_times_out ranks \<longleftrightarrow>
     (\<forall>r \<in> set ranks. \<forall>q \<in> set ranks. \<forall>h. take (length h) (calls_of r) = h \<longrightarrow> length (calls_of q) < length h \<longrightarrow>
        isl (group_call (snd r) h))"

lemma same_plans_return:
  assumes "group_matches ranks" "full_group ranks" "\<forall>r \<in> set ranks. gloo_ready (fst r) (snd r)"
    and plan: "\<forall>r \<in> set ranks. planned_calls (fst r) = cs"
  shows "0 < k \<Longrightarrow> k \<le> length cs \<Longrightarrow> \<forall>r \<in> set ranks. group_call (snd r) (take k cs) = returned ()"
proof (induction k rule: less_induct)
  case (less k)
  have "take k (calls_of r) = take k cs" if r: "r \<in> set ranks" for r
  proof -
    have "\<forall>j. 0 < j \<and> j < k \<longrightarrow> group_call (snd r) ([] @ take j cs) = returned ()" using less r by simp
    from make_calls_reaches [OF less.prems(2) this] show ?thesis
      using gloo_main_plan(1) [of "fst r" "snd r"] assms(3) plan r by simp
  qed
  moreover have "take k cs \<noteq> []" using less.prems by (cases cs) auto
  moreover have "length (take k cs) = k" using less.prems by simp
  ultimately show ?case using assms(1,2) unfolding group_matches_def by metis
qed


text \<open>Which command lines ask for the same calls.\<close>

lemma planned_calls_agree:
  "master_port a = master_port b \<Longrightarrow> world_size a = world_size b \<Longrightarrow> timeout_s a = timeout_s b \<Longrightarrow> sizes_arg a = sizes_arg b \<Longrightarrow>
   iters_arg a = iters_arg b \<Longrightarrow> warmup_arg a = warmup_arg b \<Longrightarrow> planned_calls a = planned_calls b"
  by (simp add: planned_calls_def size_calls_def [abs_def])

section \<open>The environment\<close>

text \<open>
  The interface the report names is the one torch was given: the argument, or none at all with
  \<open>--no-ifname\<close>, whatever the environment said before.
\<close>

theorem gloo_names_interface:
  "dget (gloo_report a w rs d) ''iface_env'' =
     returned (Some (JStr (if no_ifname a then ''<unset>'' else iface_arg a))) \<and>
   pin_env a env ''TP_SOCKET_IFNAME'' = pin_env a env ''GLOO_SOCKET_IFNAME'' \<and>
   pin_env a env ''GLOO_SOCKET_IFNAME'' = (if no_ifname a then None else Some (iface_arg a))"
  by (simp add: dget_def gloo_report_def pin_env_def Let_def)

section \<open>The counters of the report\<close>

lemma gloo_rows_keys:
  "gloo_rows read_stat devs = returned c \<Longrightarrow>
   list_all (\<lambda>(dev, row). map fst row = [''rx'', ''tx'']) c \<and> set (map fst c) \<subseteq> set devs \<and>
     (distinct devs \<longrightarrow> distinct (map fst c))"
proof (induction devs arbitrary: c)
  case (Cons dev devs)
  obtain row rest where row: "gloo_row read_stat dev = returned row" and rest: "gloo_rows read_stat devs = returned rest"
      and c: "c = (case row of None \<Rightarrow> rest | Some r \<Rightarrow> (dev, r) # rest)"
    using Cons.prems by (auto simp: res_simps)
  have "map fst r = [''rx'', ''tx'']" if "row = Some r" for r
    using row that by (auto simp: gloo_row_def res_simps split: sum.splits if_splits)
  then show ?case using Cons.IH [OF rest] by (auto simp: c split: option.split)
qed simp

text \<open>The difference of two readings is always defined, and names each interface once.\<close>

lemma gloo_delta_defined:
  "list_all (\<lambda>(dev, row). map fst row = [''rx'', ''tx'']) before \<Longrightarrow>
   list_all (\<lambda>(dev, row). map fst row = [''rx'', ''tx'']) after \<Longrightarrow> \<exists>d. counter_delta before after = returned d"
proof (induction before after rule: counter_delta.induct)
  case (2 before dev a after)
  show ?case
  proof (cases "map_of before dev")
    case None
    then show ?thesis using 2 by simp
  next
    case (Some b)
    then have "(dev, b) \<in> set before" by (rule map_of_SomeD)
    then have "map fst b = [''rx'', ''tx'']" using 2(3) by (auto simp: list_all_iff)
    then obtain row where row: "row_delta b a = returned row"
      using 2(4) by (auto simp: row_delta_def map_eq_Cons_conv)
    then obtain d where "counter_delta before after = returned d" using 2(2) [OF Some row] 2(3,4) by auto
    then show ?thesis using Some row by simp
  qed
qed simp

theorem gloo_delta_total:
  assumes "gloo_netdev stat0 devs0 = returned before" "gloo_netdev stat1 devs1 = returned after"
  shows "\<exists>d. gloo_delta before after = returned d"
proof -
  have "list_all (\<lambda>(dev, row). map fst row = [''rx'', ''tx'']) c" if "gloo_netdev st ds = returned c" for st ds c
    using that gloo_rows_keys by (auto simp: gloo_netdev_def split: option.splits)
  then show ?thesis using gloo_delta_defined assms unfolding gloo_delta_def by blast
qed

section \<open>Witnesses\<close>

definition demo_args :: "int \<Rightarrow> gloo_args" where
  "demo_args w =
     \<lparr>rank_no = 0, world_size = 2, master_addr = ''10.99.0.1'', master_port = 29500, iface_arg = ''thunderbolt0'',
      sizes_arg = ''64'', iters_arg = 3, warmup_arg = w, timeout_s = 90, no_ifname = False\<rparr>"

definition demo_world :: gloo_world where
  "demo_world =
     \<lparr>environ_before = (\<lambda>_. None), group_call = (\<lambda>_. returned ()), group_left = returned (), init_seconds = Fin 1, devs_before = returned demo_before,
      devs_after = returned demo_after, call_ns = (\<lambda>_ _. 1), torch_version = ''2.13.0''\<rparr>"

lemma demo_clock: "clock_sound 3 (\<lambda>_ _. 1)"
proof -
  have "nat (gloo_iters 3 n) \<le> 300" for n by (simp add: gloo_iters_def)
  then have "sum_list (map (\<lambda>_. 1 :: int) [0..<nat (gloo_iters 3 n)]) \<le> 2 ^ 53" for n
    by (simp add: map_replicate_const sum_list_replicate gloo_iters_def)
  moreover have "nat (gloo_iters 3 n) < 2 ^ 53" for n by (simp add: gloo_iters_def)
  ultimately show ?thesis by (simp add: clock_sound_def clocked_def list_all_iff map_replicate_const)
qed

lemma demo_gloo_ready: "gloo_ready (demo_args w\<lparr>rank_no := r\<rparr>) (demo_world\<lparr>group_call := g\<rparr>)"
  using demo_clock by (simp add: gloo_ready_def demo_args_def demo_world_def gloo_delta_def demo_delta)

lemma demo_clock_args: "clock_sound (iters_arg (demo_args w)) (call_ns demo_world)"
  using demo_clock by (simp add: demo_args_def demo_world_def)

lemma demo_gloo_plan:
  "planned_calls (demo_args 0) = [Join 29500 2 90, Barrier, AllReduce 16, AllReduce 16, AllReduce 16, Barrier]"
  "planned_calls (demo_args 1) = [Join 29500 2 90, AllReduce 16, Barrier, AllReduce 16, AllReduce 16, AllReduce 16, Barrier]"
  "plan_ends_well (demo_args w)"
proof -
  have sizes: "split_on (CHR '','') ''64'' = [''64'']" "parse_int ''64'' = Some 64" by code_simp+
  then show "plan_ends_well (demo_args w)"
    by (simp add: plan_ends_well_def sizes_measurable_def demo_args_def gloo_iters_def)
qed code_simp+

lemma plan_rank [simp]:
  "planned_calls (a\<lparr>rank_no := r\<rparr>) = planned_calls a" "plan_ends_well (a\<lparr>rank_no := r\<rparr>) = plan_ends_well a"
  by (simp_all add: planned_calls_def size_calls_def [abs_def] plan_ends_well_def)

lemma demo_gloo_main:
  "\<exists>report. snd (gloo_main (demo_args w) demo_world) = returned report"
proof -
  have "demo_args w = demo_args w\<lparr>rank_no := 0\<rparr>" "demo_world = demo_world\<lparr>group_call := \<lambda>_. returned ()\<rparr>"
    by (simp_all add: demo_args_def demo_world_def)
  then have "gloo_ready (demo_args w) demo_world" using demo_gloo_ready by metis
  then show ?thesis using gloo_main_plan(2) [of "demo_args w" demo_world] demo_gloo_plan(3)
    by (simp add: make_calls_all demo_world_def)
qed

text \<open>
  Two ranks started alike, and two of which the second warms up once more: its last barrier is one the
  first rank never enters.
\<close>

definition late_group :: "coll list \<Rightarrow> unit res" where
  "late_group h = (if length h \<le> 6 then returned () else raised RuntimeError)"

definition demo_rank :: "int \<Rightarrow> int \<Rightarrow> gloo_args \<times> gloo_world" where
  "demo_rank r warm = (demo_args warm\<lparr>rank_no := r\<rparr>, demo_world\<lparr>group_call := late_group\<rparr>)"

lemma demo_rank_calls:
  "calls_of (demo_rank r 0) = planned_calls (demo_args 0)" "calls_of (demo_rank r 1) = planned_calls (demo_args 1)"
  "group_call (snd (demo_rank r w)) = late_group" "gloo_ready (fst (demo_rank r w)) (snd (demo_rank r w))"
  "planned_calls (fst (demo_rank r w)) = planned_calls (demo_args w)" "plan_ends_well (fst (demo_rank r w))"
proof -
  show ready: "gloo_ready (fst (demo_rank r w)) (snd (demo_rank r w))" for w
    using demo_gloo_ready by (simp add: demo_rank_def)
  show "calls_of (demo_rank r 0) = planned_calls (demo_args 0)" "calls_of (demo_rank r 1) = planned_calls (demo_args 1)"
    using gloo_main_plan(1) [OF ready] by (simp_all add: demo_rank_def demo_gloo_plan late_group_def)
qed (simp_all add: demo_rank_def demo_gloo_plan(3))

lemma demo_full: "full_group [demo_rank 0 v, demo_rank 1 w]"
  by (simp add: full_group_def demo_rank_def demo_args_def)

lemma take_is_short: "take (length h) xs = h \<Longrightarrow> length h \<le> length xs"
  by (metis length_take min.cobounded1)

lemma demo_group:
  assumes "w = 0 \<or> w = 1"
  shows "group_matches [demo_rank 0 0, demo_rank 1 w]" "group_times_out [demo_rank 0 0, demo_rank 1 w]"
  using assms
  by (auto simp: group_matches_def group_times_out_def demo_rank_calls demo_gloo_plan late_group_def dest!: take_is_short)


end
