(* ===== verification/SocketReceipt.thy ===== *)
theory SocketReceipt
  imports PyText PyStats "HOL-Library.AList"
begin

text \<open>
  The receipt of the socket transport, \<open>bench/socket-transport-receipt.py\<close>: the rounds of the raw
  file and the lines of the all-reduce logs are grouped by interface and message size, summarised,
  and compared size by size. The raw file and the log records are given as the records the benches
  write, with the rational values of their finite doubles; the listings of the log directories, the
  parser of a log record and the fixed prose of the receipt (theory \<open>SocketProse\<close>) are arguments.
\<close>

section \<open>What is read\<close>

record rtt_stats =
  p50 :: rat
  p99 :: rat
  low :: rat
  mean_us :: rat

record tput_stats =
  direction :: string
  gbps :: rat
  mib_s :: rat
  nbytes :: int
  seconds :: rat

record raw_round =
  rail :: string
  latency :: "(int \<times> rtt_stats) list"
  throughput :: "tput_stats list"

record gloo_rec =
  round_no :: nat
  iface :: string
  results :: "(int \<times> rtt_stats) list"

definition SIZES :: "int list" where
  "SIZES = [64, 4096, 8192, 16384, 65536]"

text \<open>The glob \<open>rank0.*.log\<close> and the marker of a report in a log.\<close>

definition rank0_log :: "string \<Rightarrow> bool" where
  "rank0_log name \<longleftrightarrow>
     startswith name ''rank0.'' \<and> endswith name ''.log'' \<and> length ''rank0.'' + length ''.log'' \<le> length name"

definition MARK :: string where "MARK = ''GLOOBENCH ''"

definition gloo_lines :: "string \<Rightarrow> string list" where
  "gloo_lines text = map (drop (length MARK)) (filter (\<lambda>l. startswith l MARK) (splitlines text))"

definition gloo_file :: "(string \<Rightarrow> gloo_rec option) \<Rightarrow> nat \<Rightarrow> string \<times> string \<Rightarrow> gloo_rec list res" where
  "gloo_file loads i f =
     (case split_on (CHR ''.'') (fst f) of
        _ # name # _ \<Rightarrow>
          res_seq (map (\<lambda>l. case loads l of
              None \<Rightarrow> raised ValueError
            | Some r \<Rightarrow> returned (r\<lparr>round_no := i, iface := name\<rparr>)) (gloo_lines (snd f)))
      | _ \<Rightarrow> raised IndexError)"

text \<open>\<open>load_gloo\<close>: a directory is given as its files, name and text.\<close>

definition load_gloo :: "(string \<Rightarrow> gloo_rec option) \<Rightarrow> (string \<times> string) list list \<Rightarrow> gloo_rec list res" where
  "load_gloo loads dirs =
     res_bind (res_seq (concat (map
         (\<lambda>(i, files). map (gloo_file loads i) (sort_key fst (filter (rank0_log \<circ> fst) files)))
         (enumerate 1 dirs)))) (\<lambda>rows. returned (concat rows))"

section \<open>Grouping\<close>

type_synonym 'r table = "(string \<times> (string \<times> 'r) list) list"

definition dict_or :: "('k \<times> 'v) list \<Rightarrow> 'k \<Rightarrow> 'v \<Rightarrow> 'v" where
  "dict_or d k v = (case map_of d k of None \<Rightarrow> v | Some w \<Rightarrow> w)"

text \<open>\<open>d.setdefault(r, {}).setdefault(k, []).append(x)\<close>\<close>

fun push :: "string \<times> string \<times> 'r \<Rightarrow> 'r list table \<Rightarrow> 'r list table" where
  "push (r, k, x) d = AList.update r (AList.update k (dict_or (dict_or d r []) k [] @ [x]) (dict_or d r [])) d"

definition grouped :: "(string \<times> string \<times> 'r) list \<Rightarrow> 'r list table" where
  "grouped xs = fold push xs []"

definition tcp_entries :: "raw_round list \<Rightarrow> (string \<times> string \<times> rtt_stats) list" where
  "tcp_entries rounds = concat (map (\<lambda>r. map (\<lambda>(n, s). (rail r, str_int n, s)) (latency r)) rounds)"

definition gloo_entries :: "gloo_rec list \<Rightarrow> (string \<times> string \<times> rtt_stats) list" where
  "gloo_entries gloo = concat (map (\<lambda>g. map (\<lambda>(n, s). (iface g, str_int n, s)) (results g)) gloo)"

section \<open>Summaries\<close>

record summary =
  p50s :: "rat list"
  p99s :: "rat list"
  min_low :: rat
  means :: "rat list"

definition summarise :: "rtt_stats list \<Rightarrow> summary res" where
  "summarise vs =
     (case map low vs of
        [] \<Rightarrow> raised ValueError
      | l # ls \<Rightarrow> returned \<lparr>p50s = map p50 vs, p99s = map p99 vs, min_low = fold min ls l, means = map mean_us vs\<rparr>)"

definition summaries :: "rtt_stats list table \<Rightarrow> summary table res" where
  "summaries d =
     res_seq (map (\<lambda>(r, sizes).
       res_bind (res_seq (map (\<lambda>(k, vs). res_bind (summarise vs) (\<lambda>s. returned (k, s))) sizes)) (\<lambda>row.
         returned (r, row))) d)"

definition cell :: "summary table \<Rightarrow> string \<Rightarrow> string \<Rightarrow> summary res" where
  "cell d r k =
     (case map_of d r of None \<Rightarrow> raised KeyError
      | Some sizes \<Rightarrow> (case map_of sizes k of None \<Rightarrow> raised KeyError | Some s \<Rightarrow> returned s))"

text \<open>\<open>med\<close>: the middle, or the mean of the two in the middle to two places.\<close>

definition med :: "rat list \<Rightarrow> pyfloat res" where
  "med xs =
     (let s = sort xs; n = length xs
      in if n mod 2 = 1 then returned (Fin (s ! (n div 2)))
         else if n = 0 then raised IndexError
         else res_bind (fdiv (fadd (Fin (s ! (n div 2 - 1))) (Fin (s ! (n div 2)))) (Fin 2)) (\<lambda>x. returned (round_at 2 x)))"

section \<open>The comparison\<close>

record verdict =
  size_b :: int
  tcp_p50 :: "pyfloat \<times> pyfloat"
  tcp_p99 :: "pyfloat \<times> pyfloat"
  ar_p50 :: "pyfloat \<times> pyfloat"
  ar_p99 :: "pyfloat \<times> pyfloat"
  tcp_winner :: string
  tcp_ratio :: pyfloat
  ar_winner :: string
  ar_ratio :: pyfloat

abbreviation TB :: string where "TB \<equiv> ''thunderbolt0''"
abbreviation ETH :: string where "ETH \<equiv> ''enp191s0''"

definition med_of :: "(summary \<Rightarrow> rat list) \<Rightarrow> summary table \<Rightarrow> string \<Rightarrow> string \<Rightarrow> pyfloat res" where
  "med_of f d r k = res_bind (cell d r k) (\<lambda>s. med (f s))"

text \<open>The pair of an interface table: Thunderbolt first.\<close>

definition both :: "(summary \<Rightarrow> rat list) \<Rightarrow> summary table \<Rightarrow> string \<Rightarrow> (pyfloat \<times> pyfloat) res" where
  "both f d k = res_bind (med_of f d TB k) (\<lambda>t. res_bind (med_of f d ETH k) (\<lambda>e. returned (t, e)))"

definition winner :: "pyfloat \<times> pyfloat \<Rightarrow> string" where
  "winner p = (if flt (snd p) (fst p) then ETH else TB)"

definition ratio :: "pyfloat \<times> pyfloat \<Rightarrow> pyfloat res" where
  "ratio p = res_bind (fdiv (fst p) (snd p)) (\<lambda>x. returned (round_at 2 x))"

definition verdict_row :: "summary table \<Rightarrow> summary table \<Rightarrow> int \<Rightarrow> verdict res" where
  "verdict_row tcp ar s =
     (let k = str_int s
      in res_bind (both p50s tcp k) (\<lambda>t50.
         res_bind (both p50s ar k) (\<lambda>a50.
         res_bind (both p99s tcp k) (\<lambda>t99.
         res_bind (both p99s ar k) (\<lambda>a99.
         res_bind (ratio t50) (\<lambda>tr.
         res_bind (ratio a50) (\<lambda>ar_r.
           returned \<lparr>size_b = s, tcp_p50 = t50, tcp_p99 = t99, ar_p50 = a50, ar_p99 = a99,
             tcp_winner = winner t50, tcp_ratio = tr, ar_winner = winner a50, ar_ratio = ar_r\<rparr>)))))))"

fun put_tput :: "string \<times> tput_stats \<Rightarrow> tput_stats table \<Rightarrow> tput_stats table" where
  "put_tput (r, t) d = AList.update r (AList.update (direction t) t (dict_or d r [])) d"

definition tput_table :: "raw_round list \<Rightarrow> tput_stats table" where
  "tput_table rounds = fold put_tput (concat (map (\<lambda>r. map (Pair (rail r)) (throughput r)) rounds)) []"

section \<open>The receipt\<close>

definition OUTCOME :: string where
  "OUTCOME = ''ok:5gbe-wire-beats-thunderbolt-rail-at-decode-sizes''"

definition floats :: "rat list \<Rightarrow> json" where
  "floats xs = JList (map (\<lambda>x. JFloat (Fin x)) xs)"

definition table_json :: "('r \<Rightarrow> json) \<Rightarrow> 'r table \<Rightarrow> json" where
  "table_json f d = JObj (map (\<lambda>(r, row). (r, JObj (map (\<lambda>(k, x). (k, f x)) row))) d)"

definition ar_summary_json :: "summary \<Rightarrow> (string \<times> json) list" where
  "ar_summary_json s = [(''p50_us'', floats (p50s s)), (''p99_us'', floats (p99s s)), (''min_us'', JFloat (Fin (min_low s)))]"

definition tcp_summary_json :: "summary \<Rightarrow> (string \<times> json) list" where
  "tcp_summary_json s = ar_summary_json s @ [(''mean_us'', floats (means s))]"

definition tput_json :: "tput_stats \<Rightarrow> json" where
  "tput_json t =
     JObj [(''gbps'', JFloat (Fin (gbps t))), (''MiBps'', JFloat (Fin (mib_s t))), (''bytes'', JInt (nbytes t)),
           (''seconds'', JFloat (Fin (seconds t)))]"

definition pair_json :: "pyfloat \<times> pyfloat \<Rightarrow> json" where
  "pair_json p = JObj [(TB, JFloat (fst p)), (ETH, JFloat (snd p))]"

definition verdict_json :: "verdict \<Rightarrow> json" where
  "verdict_json v =
     JObj [(''size_b'', JInt (size_b v)),
           (''tcp_rtt_p50_us'', pair_json (tcp_p50 v)), (''tcp_rtt_p99_us'', pair_json (tcp_p99 v)),
           (''gloo_allreduce_p50_us'', pair_json (ar_p50 v)), (''gloo_allreduce_p99_us'', pair_json (ar_p99 v)),
           (''tcp_winner'', JStr (tcp_winner v)), (''tcp_ratio_tb_over_eth'', JFloat (tcp_ratio v)),
           (''allreduce_winner'', JStr (ar_winner v)), (''allreduce_ratio_tb_over_eth'', JFloat (ar_ratio v))]"

text \<open>
  \<open>main\<close>: the rows of the comparison and the receipt; \<open>front\<close> and \<open>back\<close> are the prose before and
  after the measurements.
\<close>

definition comparison :: "raw_round list \<Rightarrow> gloo_rec list \<Rightarrow> verdict list res" where
  "comparison rounds gloo =
     res_bind (summaries (grouped (tcp_entries rounds))) (\<lambda>tcp.
     res_bind (summaries (grouped (gloo_entries gloo))) (\<lambda>ar.
       res_seq (map (verdict_row tcp ar) SIZES)))"

definition receipt_main ::
  "(string \<times> json) list \<Rightarrow> (string \<times> json) list \<Rightarrow> string \<Rightarrow> raw_round list \<Rightarrow> gloo_rec list \<Rightarrow> json res" where
  "receipt_main front back ts rounds gloo =
     res_bind (summaries (grouped (tcp_entries rounds))) (\<lambda>tcp.
     res_bind (summaries (grouped (gloo_entries gloo))) (\<lambda>ar.
     res_bind (res_seq (map (verdict_row tcp ar) SIZES)) (\<lambda>rows.
       returned (JObj
         [(''step'', JStr ''socket-transport''), (''status'', JStr ''pass''), (''ts'', JStr ts),
          (''data'', JObj
            ([(''outcome'', JStr OUTCOME), (''loop'', JStr ''python'')] @ front @
             [(''tcp_rtt_us'', table_json (JObj \<circ> tcp_summary_json) tcp),
              (''gloo_allreduce_us'', table_json (JObj \<circ> ar_summary_json) ar),
              (''throughput'', table_json tput_json (tput_table rounds)),
              (''comparison'', JList (map verdict_json rows))] @ back))]))))"

section \<open>What a group holds\<close>

definition measured :: "(string \<times> string \<times> 'r) list \<Rightarrow> string \<Rightarrow> string \<Rightarrow> 'r list" where
  "measured xs r k = map (snd \<circ> snd) (filter (\<lambda>e. fst e = r \<and> fst (snd e) = k) xs)"

definition lookup2 :: "'r table \<Rightarrow> string \<Rightarrow> string \<Rightarrow> 'r option" where
  "lookup2 d r k = map_of (dict_or d r []) k"

lemma lookup2_push:
  "lookup2 (push (r', k', x) d) r k =
     (if r = r' \<and> k = k' then Some (dict_or (dict_or d r' []) k' [] @ [x]) else lookup2 d r k)"
  by (auto simp: lookup2_def dict_or_def update_conv' split: option.split)

lemma lookup2_grouped: "lookup2 (grouped xs) r k = (if measured xs r k = [] then None else Some (measured xs r k))"
proof (induction xs arbitrary: r k rule: rev_induct)
  case (snoc e xs)
  obtain r' k' x where e: "e = (r', k', x)" by (cases e) auto
  have "grouped (xs @ [e]) = push e (grouped xs)" by (simp add: grouped_def)
  moreover have "dict_or (dict_or (grouped xs) r' []) k' [] = measured xs r' k'"
    using snoc.IH [of r' k'] unfolding lookup2_def by (simp add: dict_or_def [of _ k'])
  ultimately show ?case using snoc.IH [of r k] by (auto simp: e lookup2_push measured_def simp del: push.simps)
qed (simp add: grouped_def lookup2_def dict_or_def measured_def)

lemma seq_assoc:
  "res_seq (map (\<lambda>(k, v). res_bind (f v) (\<lambda>w. returned (k, w))) d) = returned e \<Longrightarrow>
   case map_of d k of
     None \<Rightarrow> map_of e k = None
   | Some v \<Rightarrow> (\<exists>w. f v = returned w \<and> map_of e k = Some w)"
  by (induction d arbitrary: e) (auto simp: res_simps split: option.split)

lemma summaries_cell:
  assumes "summaries d = returned e"
  shows "cell e r k = (case lookup2 d r k of None \<Rightarrow> raised KeyError | Some vs \<Rightarrow> summarise vs)"
proof -
  have out: "case map_of d r of
      None \<Rightarrow> map_of e r = None
    | Some sizes \<Rightarrow> (\<exists>row. res_seq (map (\<lambda>(k, vs). res_bind (summarise vs) (\<lambda>s. returned (k, s))) sizes) = returned row \<and>
        map_of e r = Some row)"
    using assms unfolding summaries_def by (rule seq_assoc)
  show ?thesis
  proof (cases "map_of d r")
    case (Some sizes)
    then obtain row where row: "res_seq (map (\<lambda>(k, vs). res_bind (summarise vs) (\<lambda>s. returned (k, s))) sizes) = returned row"
        "map_of e r = Some row"
      using out by auto
    show ?thesis using seq_assoc [OF row(1), of k] row(2) Some
      by (auto simp: cell_def lookup2_def dict_or_def split: option.splits)
  qed (use out in \<open>simp add: cell_def lookup2_def dict_or_def\<close>)
qed

lemma summarise_fields:
  "summarise vs = returned s \<Longrightarrow> p50s s = map p50 vs \<and> p99s s = map p99 vs \<and> vs \<noteq> []"
  by (cases vs) (auto simp: summarise_def)

text \<open>The statistics of an interface and a size, in the order of the rounds.\<close>

definition tcp_samples :: "raw_round list \<Rightarrow> string \<Rightarrow> int \<Rightarrow> rtt_stats list" where
  "tcp_samples rounds r n = concat (map (\<lambda>x. map snd (filter (\<lambda>l. fst l = n) (latency x))) (filter (\<lambda>x. rail x = r) rounds))"

definition ar_samples :: "gloo_rec list \<Rightarrow> string \<Rightarrow> int \<Rightarrow> rtt_stats list" where
  "ar_samples gloo r n = concat (map (\<lambda>x. map snd (filter (\<lambda>l. fst l = n) (results x))) (filter (\<lambda>x. iface x = r) gloo))"

lemma measured_append: "measured (xs @ ys) r k = measured xs r k @ measured ys r k"
  by (simp add: measured_def)

lemma measured_Nil [simp]: "measured [] r k = []"
  by (simp add: measured_def)

lemma measured_rows:
  "measured (map (\<lambda>(n, s). (r', str_int n, s)) rows) r (str_int n) =
     (if r' = r then map snd (filter (\<lambda>l. fst l = n) rows) else [])"
  by (induction rows) (auto simp: measured_def)

lemma measured_tcp: "measured (tcp_entries rounds) r (str_int n) = tcp_samples rounds r n"
  by (induction rounds) (simp_all add: tcp_entries_def tcp_samples_def measured_append measured_rows)

lemma measured_ar: "measured (gloo_entries gloo) r (str_int n) = ar_samples gloo r n"
  by (induction gloo) (simp_all add: gloo_entries_def ar_samples_def measured_append measured_rows)

lemma med_of_measured:
  assumes "summaries (grouped xs) = returned e" and "med_of f e r k = returned m"
    and "\<And>vs s. summarise vs = returned s \<Longrightarrow> f s = map g vs"
  shows "med (map g (measured xs r k)) = returned m"
proof -
  obtain s where s: "cell e r k = returned s" "med (f s) = returned m"
    using assms(2) by (auto simp: med_of_def res_simps)
  then have "summarise (measured xs r k) = returned s"
    using summaries_cell [OF assms(1), of r k] lookup2_grouped [of xs r k] by (auto split: if_splits)
  then show ?thesis using assms(3) s(2) by simp
qed

text \<open>What a row of the comparison should say.\<close>

definition medians :: "(string \<Rightarrow> rtt_stats list) \<Rightarrow> (rtt_stats \<Rightarrow> rat) \<Rightarrow> pyfloat \<times> pyfloat \<Rightarrow> bool" where
  "medians samples g p \<longleftrightarrow>
     med (map g (samples TB)) = returned (fst p) \<and> med (map g (samples ETH)) = returned (snd p)"

text \<open>The wire wins only with the lower median; the ratio is Thunderbolt's median over the wire's, to two places.\<close>

definition judged :: "pyfloat \<times> pyfloat \<Rightarrow> string \<Rightarrow> pyfloat \<Rightarrow> bool" where
  "judged p w r \<longleftrightarrow>
     w = (if flt (snd p) (fst p) then ''enp191s0'' else ''thunderbolt0'') \<and>
     (\<exists>q. fdiv (fst p) (snd p) = returned q \<and> r = round_at 2 q)"

lemma judged_iff: "judged p w r \<longleftrightarrow> w = winner p \<and> ratio p = returned r"
  by (auto simp: judged_def winner_def ratio_def res_bind_Inr_iff)

definition row_right :: "raw_round list \<Rightarrow> gloo_rec list \<Rightarrow> int \<Rightarrow> verdict \<Rightarrow> bool" where
  "row_right rounds gloo n v \<longleftrightarrow>
     size_b v = n \<and>
     medians (\<lambda>r. tcp_samples rounds r n) p50 (tcp_p50 v) \<and> medians (\<lambda>r. tcp_samples rounds r n) p99 (tcp_p99 v) \<and>
     medians (\<lambda>r. ar_samples gloo r n) p50 (ar_p50 v) \<and> medians (\<lambda>r. ar_samples gloo r n) p99 (ar_p99 v) \<and>
     judged (tcp_p50 v) (tcp_winner v) (tcp_ratio v) \<and> judged (ar_p50 v) (ar_winner v) (ar_ratio v)"

lemma both_medians:
  assumes "summaries (grouped xs) = returned e" "both f e k = returned p"
    and "\<And>vs s. summarise vs = returned s \<Longrightarrow> f s = map g vs"
  shows "medians (\<lambda>r. measured xs r k) g p"
proof -
  have "med_of f e TB k = returned (fst p)" "med_of f e ETH k = returned (snd p)"
    using assms(2) by (auto simp: both_def res_simps)
  then show ?thesis using med_of_measured [OF assms(1) _ assms(3)] by (simp add: medians_def)
qed

lemma verdict_row_right:
  assumes t: "summaries (grouped (tcp_entries rounds)) = returned tcp"
    and a: "summaries (grouped (gloo_entries gloo)) = returned ar"
    and v: "verdict_row tcp ar n = returned v"
  shows "row_right rounds gloo n v"
proof -
  have f: "p50s s = map p50 vs" "p99s s = map p99 vs" if "summarise vs = returned s" for vs s
    using summarise_fields [OF that] by simp_all
  have parts: "both p50s tcp (str_int n) = returned (tcp_p50 v)" "both p99s tcp (str_int n) = returned (tcp_p99 v)"
      "both p50s ar (str_int n) = returned (ar_p50 v)" "both p99s ar (str_int n) = returned (ar_p99 v)"
      "ratio (tcp_p50 v) = returned (tcp_ratio v)" "ratio (ar_p50 v) = returned (ar_ratio v)"
      "size_b v = n" "tcp_winner v = winner (tcp_p50 v)" "ar_winner v = winner (ar_p50 v)"
    using v by (auto simp: verdict_row_def Let_def res_simps)
  show ?thesis
    using both_medians [OF t parts(1) f(1)] both_medians [OF t parts(2) f(2)]
      both_medians [OF a parts(3) f(1)] both_medians [OF a parts(4) f(2)] parts(5-)
    by (simp add: row_right_def judged_iff measured_tcp measured_ar)
qed

text \<open>
  C21: The comparison has one row per message size, in order, and a row compares the medians of
  exactly the rounds measured at that size on the two interfaces: the winner is the wire if and only
  if its median is lower, and the ratio is that of the same two medians.
\<close>

theorem comparison_exact:
  assumes "comparison rounds gloo = returned rows"
  shows "list_all2 (row_right rounds gloo) [64, 4096, 8192, 16384, 65536] rows"
proof -
  obtain tcp ar where t: "summaries (grouped (tcp_entries rounds)) = returned tcp"
      and a: "summaries (grouped (gloo_entries gloo)) = returned ar"
      and rows: "map (verdict_row tcp ar) SIZES = map returned rows"
    using assms by (auto simp: comparison_def res_simps res_seq_Inr)
  have "list_all2 (\<lambda>n v. verdict_row tcp ar n = returned v) SIZES rows"
    using rows by (simp add: list_all2_conv_all_nth list_eq_iff_nth_eq)
  then have "list_all2 (row_right rounds gloo) SIZES rows"
    by (rule list_all2_mono) (rule verdict_row_right [OF t a])
  then show ?thesis by (simp add: SIZES_def)
qed

section \<open>Winner and ratio\<close>

lemma round_half_even_scaled: "0 \<le> x \<Longrightarrow> x \<le> of_int n \<Longrightarrow> 0 \<le> round_half_even (x * 100) \<and> round_half_even (x * 100) \<le> n * 100"
  using round_half_even_mono [of 0 "x * 100"] round_half_even_mono [of "x * 100" "of_int (n * 100)"]
    round_half_even_of_int [of 0] round_half_even_of_int [of "n * 100"]
  by simp

lemma med_range:
  assumes "med xs = returned m" and "\<forall>x \<in> set xs. 0 \<le> x \<and> x \<le> 2 ^ 52"
  shows "\<exists>a. m = Fin a \<and> 0 \<le> a"
proof -
  have el: "sort xs ! i \<in> set xs" if "i < length xs" for i
    using that by (metis length_sort nth_mem set_sort)
  show ?thesis
  proof (cases "length xs mod 2 = 1")
    case True
    then have "m = Fin (sort xs ! (length xs div 2))" using assms(1) by (simp add: med_def Let_def)
    moreover have "length xs div 2 < length xs" using True by (cases xs) auto
    ultimately show ?thesis using assms(2) el by blast
  next
    case False
    then have ne: "length xs \<noteq> 0" "even (length xs)" using assms(1) by (auto simp: med_def Let_def)
    let ?x = "sort xs ! (length xs div 2 - 1)" and ?y = "sort xs ! (length xs div 2)"
    have "length xs div 2 - 1 < length xs" "length xs div 2 < length xs" using ne by linarith+
    then have "?x \<in> set xs" "?y \<in> set xs" using el by blast+
    then have "0 \<le> ?x" "?x \<le> 2 ^ 52" "0 \<le> ?y" "?y \<le> 2 ^ 52" using assms(2) by blast+
    then have "0 \<le> ?x + ?y" "?x + ?y \<le> of_int (2 ^ 53)" by simp_all
    from fl64_le_int [OF this] obtain t where t: "fl64 (?x + ?y) = Fin t" "0 \<le> t" "t \<le> of_int (2 ^ 53)"
      by auto
    then have "0 \<le> t / 2" "t / 2 \<le> of_int (2 ^ 52)" by simp_all
    from fl64_le_int [OF this] obtain h where h: "fl64 (t / 2) = Fin h" "0 \<le> h" "h \<le> of_int (2 ^ 52)"
      by auto
    have "m = round_at 2 (Fin h)" using assms(1) ne t(1) h(1) False by (simp add: med_def Let_def)
    moreover have "\<exists>a. round_at 2 (Fin h) = Fin a \<and> 0 \<le> a"
    proof -
      have b: "0 \<le> round_half_even (h * 100)" "round_half_even (h * 100) \<le> 2 ^ 52 * 100"
        using round_half_even_scaled [OF h(2,3)] by auto
      have lo: "0 \<le> of_int (round_half_even (h * 100)) / (100 :: rat)" using b by simp
      have "of_int (round_half_even (h * 100)) \<le> (of_int (2 ^ 52 * 100) :: rat)" using b(2) of_int_le_iff by blast
      then have "of_int (round_half_even (h * 100)) / (100 :: rat) \<le> of_int (2 ^ 52)" by simp
      from fl64_le_int [OF lo this] show ?thesis by (auto simp: round_at_def)
    qed
    ultimately show ?thesis by simp
  qed
qed

text \<open>
  Winner and ratio of a row agree, also after the rounding: a row won by the wire has a ratio of
  at least one, a row won by Thunderbolt of at most one.
\<close>

theorem ratio_agrees:
  assumes "row_right rounds gloo n v"
    and "\<forall>r. \<forall>s \<in> set (tcp_samples rounds r n). 0 \<le> p50 s \<and> p50 s \<le> 2 ^ 52"
  shows "if tcp_winner v = ''enp191s0'' then Fin 1 \<le> tcp_ratio v else tcp_ratio v \<le> Fin 1"
proof -
  have med: "med (map p50 (tcp_samples rounds TB n)) = returned (fst (tcp_p50 v))"
    "med (map p50 (tcp_samples rounds ETH n)) = returned (snd (tcp_p50 v))"
    and w: "tcp_winner v = winner (tcp_p50 v)" and r: "ratio (tcp_p50 v) = returned (tcp_ratio v)"
    using assms(1) by (simp_all add: row_right_def judged_iff medians_def)
  obtain t e where te: "tcp_p50 v = (Fin t, Fin e)" "0 \<le> t" "0 \<le> e"
    using med_range [OF med(1)] med_range [OF med(2)] assms(2) by (cases "tcp_p50 v") auto
  then have e: "0 < e" and rv: "tcp_ratio v = round_at 2 (fl64 (t / e))"
    using r by (auto simp: ratio_def split: if_splits)
  have one: "round_at 2 (fl64 1) = Fin 1" "fl64 1 \<noteq> NaN" by code_simp+
  have nn: "fl64 (t / e) \<noteq> NaN" using fl64_nonneg [of "t / e"] te e by auto
  show ?thesis
  proof (cases "e < t")
    case True
    then have "round_at 2 (fl64 1) \<le> round_at 2 (fl64 (t / e))"
      using e nn one(2) by (intro round_at_mono fl64_mono) simp_all
    then show ?thesis using True te w rv one(1) by (simp add: winner_def)
  next
    case False
    then have "round_at 2 (fl64 (t / e)) \<le> round_at 2 (fl64 1)"
      using e nn one(2) by (intro round_at_mono fl64_mono) simp_all
    then show ?thesis using False te w rv one(1) by (simp add: winner_def)
  qed
qed

section \<open>An outcome that does not depend on the measurements\<close>

text \<open>One round in which Thunderbolt takes 1 microsecond where the wire takes 2, at every size.\<close>

definition stats_of :: "rat \<Rightarrow> rtt_stats" where
  "stats_of x = \<lparr>p50 = x, p99 = x, low = x, mean_us = x\<rparr>"

definition tb_rounds :: "raw_round list" where
  "tb_rounds =
     [\<lparr>rail = TB, latency = map (\<lambda>n. (n, stats_of 1)) SIZES, throughput = []\<rparr>,
      \<lparr>rail = ETH, latency = map (\<lambda>n. (n, stats_of 2)) SIZES, throughput = []\<rparr>]"

definition tb_gloo :: "gloo_rec list" where
  "tb_gloo =
     [\<lparr>round_no = 1, iface = TB, results = map (\<lambda>n. (n, stats_of 1)) SIZES\<rparr>,
      \<lparr>round_no = 1, iface = ETH, results = map (\<lambda>n. (n, stats_of 2)) SIZES\<rparr>]"


definition size_names :: "string list" where
  "size_names = [''64'', ''4096'', ''8192'', ''16384'', ''65536'']"

lemma str_sizes: "map str_int SIZES = size_names"
proof -
  have "str_int 64 = ''64''" "str_int 4096 = ''4096''" "str_int 8192 = ''8192''" "str_int 16384 = ''16384''"
    "str_int 65536 = ''65536''"
    by (simp_all add: str_int_def str_nat.simps char_of_def bit_0)
  then show ?thesis by (simp add: SIZES_def size_names_def)
qed

definition tb_table :: "summary table" where
  "tb_table =
     map (\<lambda>(r, x). (r, map (\<lambda>k. (k, \<lparr>p50s = [x], p99s = [x], min_low = x, means = [x]\<rparr>)) size_names)) [(TB, 1), (ETH, 2)]"

lemma tb_tables:
  "summaries (grouped (tcp_entries tb_rounds)) = returned tb_table"
  "summaries (grouped (gloo_entries tb_gloo)) = returned tb_table"
proof -
  define es where "es = map (\<lambda>k. (TB, k, stats_of 1)) size_names @ map (\<lambda>k. (ETH, k, stats_of 2)) size_names"
  have "tcp_entries tb_rounds = es" "gloo_entries tb_gloo = es"
    unfolding es_def str_sizes [symmetric] by (simp_all add: tcp_entries_def gloo_entries_def tb_rounds_def tb_gloo_def)
  moreover have "summaries (grouped es) = returned tb_table"
    unfolding es_def by code_simp
  ultimately show "summaries (grouped (tcp_entries tb_rounds)) = returned tb_table"
    "summaries (grouped (gloo_entries tb_gloo)) = returned tb_table" by simp_all
qed

lemma tb_row:
  assumes "n \<in> set SIZES"
  shows "\<exists>v. verdict_row tb_table tb_table n = returned v \<and> tcp_winner v = TB \<and> ar_winner v = TB \<and> tcp_ratio v = Fin (1 / 2)"
proof -
  have c: "cell tb_table TB k = returned \<lparr>p50s = [1], p99s = [1], min_low = 1, means = [1]\<rparr>"
    "cell tb_table ETH k = returned \<lparr>p50s = [2], p99s = [2], min_low = 2, means = [2]\<rparr>" if "k \<in> set size_names" for k
    using that by (auto simp: cell_def tb_table_def size_names_def)
  have "str_int n \<in> set size_names" using assms by (simp add: str_sizes [symmetric])
  note c = c [OF this]
  moreover have "ratio (Fin 1, Fin 2) = returned (Fin (1 / 2))" by code_simp
  ultimately show ?thesis
    by (simp add: verdict_row_def Let_def both_def med_of_def med_def winner_def)
qed

lemma tb_comparison:
  obtains rows where "comparison tb_rounds tb_gloo = returned rows" "length rows = 5"
    "list_all (\<lambda>v. tcp_winner v = TB \<and> ar_winner v = TB \<and> tcp_ratio v = Fin (1 / 2)) rows"
proof -
  obtain f where f: "n \<in> set SIZES \<Longrightarrow> verdict_row tb_table tb_table n = returned (f n) \<and>
      tcp_winner (f n) = TB \<and> ar_winner (f n) = TB \<and> tcp_ratio (f n) = Fin (1 / 2)" for n
    using tb_row by metis
  then have "map (verdict_row tb_table tb_table) SIZES = map returned (map f SIZES)" by simp
  then have "comparison tb_rounds tb_gloo = returned (map f SIZES)"
    by (simp only: comparison_def tb_tables res_bind_simps res_seq_Inr)
  moreover have "list_all (\<lambda>v. tcp_winner v = TB \<and> ar_winner v = TB \<and> tcp_ratio v = Fin (1 / 2)) (map f SIZES)"
    using f by (simp add: list_all_iff)
  ultimately show thesis using that by (simp add: SIZES_def)
qed

lemma tb_receipt:
  "\<exists>data. receipt_main front back ts tb_rounds tb_gloo =
     returned (JObj [(''step'', JStr ''socket-transport''), (''status'', JStr ''pass''), (''ts'', JStr ts), (''data'', data)]) \<and>
     dget data ''outcome'' = returned (Some (JStr ''ok:5gbe-wire-beats-thunderbolt-rail-at-decode-sizes''))"
proof -
  obtain rows where "comparison tb_rounds tb_gloo = returned rows" by (rule tb_comparison)
  then have "res_seq (map (verdict_row tb_table tb_table) SIZES) = returned rows"
    by (simp add: comparison_def tb_tables)
  then show ?thesis by (simp add: receipt_main_def tb_tables dget_def OUTCOME_def)
qed

text \<open>
  The outcome of the receipt is fixed: measurements by which Thunderbolt wins at every size, with
  half the latency, still give a receipt that passes and whose outcome is that the wire wins.
\<close>

theorem outcome_not_measured:
  "\<exists>rounds gloo rows. comparison rounds gloo = returned rows \<and> length rows = 5 \<and>
     list_all (\<lambda>v. tcp_winner v = ''thunderbolt0'' \<and> ar_winner v = ''thunderbolt0'' \<and> tcp_ratio v = Fin (1 / 2)) rows \<and>
     (\<exists>data. receipt_main front back ts rounds gloo =
        returned (JObj [(''step'', JStr ''socket-transport''), (''status'', JStr ''pass''), (''ts'', JStr ts), (''data'', data)]) \<and>
        dget data ''outcome'' = returned (Some (JStr ''ok:5gbe-wire-beats-thunderbolt-rail-at-decode-sizes'')))"
proof -
  obtain rows where rows: "comparison tb_rounds tb_gloo = returned rows" "length rows = 5"
    "list_all (\<lambda>v. tcp_winner v = TB \<and> ar_winner v = TB \<and> tcp_ratio v = Fin (1 / 2)) rows"
    by (rule tb_comparison)
  then show ?thesis using tb_receipt by blast
qed

section \<open>Witnesses\<close>

theorem comparison_exact_witness:
  "\<exists>rows. list_all2 (row_right tb_rounds tb_gloo) [64, 4096, 8192, 16384, 65536] rows"
proof -
  obtain rows where "comparison tb_rounds tb_gloo = returned rows" using tb_comparison by metis
  then show ?thesis using comparison_exact by blast
qed

lemma tb_samples: "s \<in> set (tcp_samples tb_rounds r 64) \<Longrightarrow> p50 s = 1 \<or> p50 s = 2"
  by (auto simp: tcp_samples_def tb_rounds_def stats_of_def split: if_splits)

theorem ratio_agrees_witness: "\<exists>v. row_right tb_rounds tb_gloo 64 v \<and> tcp_winner v = TB \<and> tcp_ratio v \<le> Fin 1"
proof -
  obtain v where v: "verdict_row tb_table tb_table 64 = returned v" "tcp_winner v = TB"
    using tb_row [of 64] by (auto simp: SIZES_def)
  then have right: "row_right tb_rounds tb_gloo 64 v" using verdict_row_right tb_tables by blast
  have "\<forall>r. \<forall>s \<in> set (tcp_samples tb_rounds r 64). 0 \<le> p50 s \<and> p50 s \<le> 2 ^ 52"
    using tb_samples by fastforce
  then show ?thesis using ratio_agrees [OF right] v(2) right by auto
qed

end
