(* ===== verification/SocketRun.thy ===== *)
theory SocketRun
  imports PyValue PyText
begin

text \<open>
  The driver \<open>bench/socket-transport-run.py\<close>: one run of the socket bench over a rail, with its
  server on the worker and its client here, and the rounds over all rails. What the two processes
  print and how they end is an argument, and so is \<open>json.loads\<close>; a server that the driver kills is
  part of the result.
\<close>

section \<open>The constants\<close>

type_synonym rail = "string \<times> string \<times> string"

text \<open>Label, source address of the client and address the server binds; the device names are unused.\<close>

definition RAILS :: "rail list" where
  "RAILS =
     [(''thunderbolt0'', ''10.99.0.1'', ''10.99.0.2''),
      (''enp191s0'', ''10.99.1.1'', ''10.99.1.2'')]"

definition SSH :: "string list" where
  "SSH = [''ssh'', ''-o'', ''BatchMode=yes'', ''-o'', ''ConnectTimeout=5'', ''10.99.9.2'']"

definition SIZES :: string where "SIZES = ''64,4096,8192,16384,65536''"
definition ITERS :: nat where "ITERS = 20000"
definition WARMUP :: nat where "WARMUP = 1000"
definition TPUT_BYTES :: nat where "TPUT_BYTES = push_bit 30 1"
definition ROUNDS :: nat where "ROUNDS = 2"
definition PORT_BASE :: nat where "PORT_BASE = 45611"

section \<open>One rail\<close>

text \<open>
  What the processes of one attempt do: the first line of the server, whether the client or the
  server outlasts its timeout, the exit status of the client and what both have printed.
\<close>

record attempt =
  listen_line :: string
  client_late :: bool
  client_status :: int
  client_stdout :: string
  server_late :: bool
  server_stdout :: string

definition last_json :: "(string \<Rightarrow> json option) \<Rightarrow> string \<Rightarrow> json res" where
  "last_json loads s =
     (case splitlines (strip s) of
        [] \<Rightarrow> raised IndexError
      | ls \<Rightarrow> (case loads (last ls) of None \<Rightarrow> raised ValueError | Some j \<Rightarrow> returned j))"

definition server_args :: "string \<Rightarrow> nat \<Rightarrow> string list" where
  "server_args dst port = [''python3'', ''-'', ''--role'', ''server'', ''--bind'', dst, ''--port'', str_nat port]"

definition client_cmd :: "string \<Rightarrow> string \<Rightarrow> rail \<Rightarrow> nat \<Rightarrow> nat \<Rightarrow> string list" where
  "client_cmd python bench rail port throughput =
     (case rail of (label, src, dst) \<Rightarrow>
        [python, bench, ''--role'', ''client'', ''--bind-src'', src, ''--connect'', dst, ''--port'', str_nat port,
         ''--sizes'', SIZES, ''--iters'', str_nat ITERS, ''--warmup'', str_nat WARMUP,
         ''--throughput-bytes'', str_nat throughput, ''--label'', label])"

text \<open>
  The command of the server that the report shows: all but the last eight words of the real one,
  followed by a copy of them.
\<close>

definition server_cmd :: "string \<Rightarrow> nat \<Rightarrow> string list" where
  "server_cmd dst port = SSH @ server_args dst port"

definition shown_server_cmd :: "string \<Rightarrow> nat \<Rightarrow> string" where
  "shown_server_cmd dst port =
     join '' '' (take (length (server_cmd dst port) - 8) (server_cmd dst port)) @
     '' python3 - --role server --bind '' @ dst @ '' --port '' @ str_nat port @
     ''  (< bench/socket-transport-bench.py)''"

definition listens :: "string \<Rightarrow> bool" where
  "listens line = contains_str line (CHR 0x22 # ''listen'' @ [CHR 0x22])"

text \<open>The result and whether the server has been killed.\<close>

definition run_rail ::
  "(string \<Rightarrow> json option) \<Rightarrow> string \<Rightarrow> string \<Rightarrow> attempt \<Rightarrow> rail \<Rightarrow> nat \<Rightarrow> nat \<Rightarrow> json res \<times> bool" where
  "run_rail loads python bench a rail port throughput =
     (if \<not> listens (listen_line a) then (raised RuntimeError, True)
      else if client_late a then (raised TimeoutExpired, False)
      else if client_status a \<noteq> 0 then (raised RuntimeError, True)
      else
        (res_bind (last_json loads (client_stdout a)) (\<lambda>client.
         res_bind (if server_late a then raised TimeoutExpired else returned ()) (\<lambda>_.
         res_bind (if strip (server_stdout a) = [] then returned (JObj []) else last_json loads (server_stdout a)) (\<lambda>server.
         res_bind (case loads (listen_line a) of None \<Rightarrow> raised ValueError | Some j \<Rightarrow> dict_item j ''listen'') (\<lambda>addr.
           returned (JObj
             [(''rail'', JStr (fst rail)), (''server_listen'', addr), (''client'', client), (''server'', server),
              (''client_cmd'', JStr (join '' '' (client_cmd python bench rail port throughput))),
              (''server_cmd'', JStr (shown_server_cmd (snd (snd rail)) port))]))))), False))"

section \<open>All rounds\<close>

text \<open>\<open>res["round"] = r\<close> on the dictionary of a rail.\<close>

fun with_round :: "nat \<Rightarrow> json \<Rightarrow> json" where
  "with_round r (JObj kvs) = JObj (kvs @ [(''round'', JInt (int r))])"
| "with_round r j = j"

text \<open>
  The two nested loops; \<open>run\<close> is \<open>run_rail\<close> with what the processes of that attempt do. The state
  is the next port and the results so far.
\<close>

fun round_rails :: "(rail \<Rightarrow> nat \<Rightarrow> nat \<Rightarrow> json res) \<Rightarrow> nat \<Rightarrow> nat \<Rightarrow> rail list \<Rightarrow> nat \<times> json list \<Rightarrow> (nat \<times> json list) res" where
  "round_rails run r tb [] s = returned s"
| "round_rails run r tb (rail # rails) s =
     res_bind (run rail (fst s) tb) (\<lambda>res. round_rails run r tb rails (fst s + 1, snd s @ [with_round r res]))"

fun all_rounds :: "(rail \<Rightarrow> nat \<Rightarrow> nat \<Rightarrow> json res) \<Rightarrow> nat \<Rightarrow> rail list \<Rightarrow> nat list \<Rightarrow> nat \<times> json list \<Rightarrow> (nat \<times> json list) res" where
  "all_rounds run rounds rails [] s = returned s"
| "all_rounds run rounds rails (r # rs) s =
     res_bind (round_rails run r (if r = rounds - 1 then TPUT_BYTES else 0) rails s) (all_rounds run rounds rails rs)"

text \<open>The text of the raw file, if it is written.\<close>

definition run_main :: "(json \<Rightarrow> string) \<Rightarrow> string \<Rightarrow> string \<Rightarrow> (rail \<Rightarrow> nat \<Rightarrow> nat \<Rightarrow> json res) \<Rightarrow> string res" where
  "run_main dumps host release run =
     res_bind (all_rounds run ROUNDS RAILS [0..<ROUNDS] (PORT_BASE, [])) (\<lambda>(port, rounds).
       returned (dumps (JObj [(''rounds'', JList rounds), (''host'', JStr host), (''kernel'', JStr release)]) @ [newline]))"

section \<open>The plan\<close>

text \<open>What is to be measured: the rails alternate within a round, every session has a port of its own.\<close>

definition plan :: "rail list \<Rightarrow> nat \<Rightarrow> nat list \<Rightarrow> (nat \<times> nat \<times> rail) list" where
  "plan rails port rs = enumerate port (List.product rs rails)"

definition planned :: "(rail \<Rightarrow> nat \<Rightarrow> nat \<Rightarrow> json res) \<Rightarrow> nat \<Rightarrow> nat \<times> nat \<times> rail \<Rightarrow> json res" where
  "planned run rounds e =
     (case e of (port, r, rail) \<Rightarrow>
        res_bind (run rail port (if r = rounds - 1 then TPUT_BYTES else 0)) (\<lambda>res. returned (with_round r res)))"

lemma res_seq_append: "res_seq (xs @ ys) = res_bind (res_seq xs) (\<lambda>as. res_bind (res_seq ys) (\<lambda>bs. returned (as @ bs)))"
proof (induction xs)
  case (Cons x xs)
  then show ?case by (cases x; cases "res_seq xs"; cases "res_seq ys") simp_all
qed (cases "res_seq ys"; simp)

lemma round_rails_plan:
  "round_rails run r (if r = rounds - 1 then TPUT_BYTES else 0) rails (port, acc) =
     res_bind (res_seq (map (planned run rounds) (enumerate port (map (Pair r) rails)))) (\<lambda>js.
       returned (port + length rails, acc @ js))"
proof (induction rails arbitrary: port acc)
  case (Cons rail rails)
  let ?tb = "if r = rounds - 1 then TPUT_BYTES else 0"
  show ?case
  proof (cases "run rail port ?tb")
    case (Inr res)
    then have "round_rails run r ?tb (rail # rails) (port, acc) =
        round_rails run r ?tb rails (Suc port, acc @ [with_round r res])"
      by (simp only: round_rails.simps res_bind_simps fst_conv snd_conv) simp
    moreover have "planned run rounds (port, r, rail) = returned (with_round r res)"
      using Inr by (simp only: planned_def prod.case res_bind_simps)
    ultimately show ?thesis
      by (simp only: Cons.IH list.map enumerate_simps res_seq.simps res_bind_simps)
        (cases "res_seq (map (planned run rounds) (enumerate (Suc port) (map (Pair r) rails)))"; simp)
  next
    case (Inl e)
    then show ?thesis by (simp only: round_rails.simps planned_def prod.case list.map enumerate_simps res_seq.simps res_bind_simps fst_conv)
  qed
qed simp

lemma enumerate_append: "enumerate n (xs @ ys) = enumerate n xs @ enumerate (n + length xs) ys"
  by (induction xs arbitrary: n) simp_all

lemma all_rounds_plan:
  "all_rounds run rounds rails rs (port, acc) =
     res_bind (res_seq (map (planned run rounds) (plan rails port rs))) (\<lambda>js.
       returned (port + length rs * length rails, acc @ js))"
proof (induction rs arbitrary: port acc)
  case (Cons r rs)
  have "plan rails port (r # rs) = enumerate port (map (Pair r) rails) @ plan rails (port + length rails) rs"
    by (simp add: plan_def enumerate_append)
  then show ?case
    by (simp only: all_rounds.simps round_rails_plan map_append res_seq_append)
      (cases "res_seq (map (planned run rounds) (enumerate port (map (Pair r) rails)))";
       cases "res_seq (map (planned run rounds) (plan rails (port + length rails) rs))"; simp add: Cons.IH)
qed (simp add: plan_def)

lemma raw_file_all_ran:
  "run_main dumps host release run =
     res_bind (res_seq (map
         (\<lambda>(port, r, rail, tb). res_bind (run rail port tb) (\<lambda>res. returned (with_round r res)))
         [(45611, 0, RAILS ! 0, 0), (45612, 0, RAILS ! 1, 0),
          (45613, 1, RAILS ! 0, TPUT_BYTES), (45614, 1, RAILS ! 1, TPUT_BYTES)]))
       (\<lambda>rounds. returned
         (dumps (JObj [(''rounds'', JList rounds), (''host'', JStr host), (''kernel'', JStr release)]) @ [newline]))"
proof -
  have "[0..<ROUNDS] = [0, 1]" by code_simp
  then have "plan RAILS PORT_BASE [0..<ROUNDS] =
      [(45611, 0, RAILS ! 0), (45612, 0, RAILS ! 1), (45613, 1, RAILS ! 0), (45614, 1, RAILS ! 1)]"
    by (simp add: plan_def RAILS_def PORT_BASE_def)
  moreover have "map (planned run ROUNDS)
        [(45611, 0, RAILS ! 0), (45612, 0, RAILS ! 1), (45613, 1, RAILS ! 0), (45614, 1, RAILS ! 1)] =
      map (\<lambda>(port, r, rail, tb). res_bind (run rail port tb) (\<lambda>res. returned (with_round r res)))
         [(45611, 0, RAILS ! 0, 0), (45612, 0, RAILS ! 1, 0),
          (45613, 1, RAILS ! 0, TPUT_BYTES), (45614, 1, RAILS ! 1, TPUT_BYTES)]"
    by (simp add: planned_def ROUNDS_def)
  ultimately show ?thesis
    unfolding run_main_def all_rounds_plan
    by (simp only:) (cases "res_seq (map
         (\<lambda>(port, r, rail, tb). res_bind (run rail port tb) (\<lambda>res. returned (with_round r res)))
         [(45611, 0, RAILS ! 0, 0), (45612, 0, RAILS ! 1, 0),
          (45613, 1, RAILS ! 0, TPUT_BYTES), (45614, 1, RAILS ! 1, TPUT_BYTES)])"; simp)
qed

text \<open>
  The raw file is written exactly when every planned session succeeded, and then holds their
  results in the planned order: rails alternating within a round, one port after the other, and only
  the last round measuring throughput.
\<close>

theorem raw_file_iff_all_ran:
  "run_main dumps host release run =
     res_bind (res_seq (map
         (\<lambda>(port, r, rail, tb). res_bind (run rail port tb) (\<lambda>res. returned (with_round r res)))
         [(45611, 0, RAILS ! 0, 0), (45612, 0, RAILS ! 1, 0),
          (45613, 1, RAILS ! 0, TPUT_BYTES), (45614, 1, RAILS ! 1, TPUT_BYTES)]))
       (\<lambda>rounds. returned
         (dumps (JObj [(''rounds'', JList rounds), (''host'', JStr host), (''kernel'', JStr release)]) @ [newline]))"
  by (rule raw_file_all_ran)

text \<open>
  A session counts only if the server listened and the client ended in time without an error;
  when the server does not come up or the client fails it is an error, and the server is killed.
\<close>

theorem rail_needs_both_ends:
  "(\<forall>res k. run_rail loads python bench a rail port tb = (returned res, k) \<longrightarrow>
      listens (listen_line a) \<and> \<not> client_late a \<and> client_status a = 0 \<and> \<not> server_late a \<and> \<not> k \<and>
      (\<exists>client. last_json loads (client_stdout a) = returned client \<and> dict_item res ''client'' = returned client)) \<and>
   (snd (run_rail loads python bench a rail port tb) \<longleftrightarrow>
      \<not> listens (listen_line a) \<or> \<not> client_late a \<and> client_status a \<noteq> 0) \<and>
   (snd (run_rail loads python bench a rail port tb) \<longrightarrow>
      fst (run_rail loads python bench a rail port tb) = raised RuntimeError)"
  by (auto simp: run_rail_def res_simps split: if_splits)

definition demo_attempt :: attempt where
  "demo_attempt =
     \<lparr>listen_line = CHR 0x22 # ''listen'' @ [CHR 0x22], client_late = False, client_status = 0,
      client_stdout = ''{}'', server_late = False, server_stdout = []\<rparr>"

theorem rail_needs_both_ends_witness:
  "\<exists>res. run_rail (\<lambda>_. Some (JObj [(''listen'', JNull)])) ''python'' ''bench'' demo_attempt (RAILS ! 0) 5 0 = (returned res, False) \<and>
    dict_item res ''client'' = returned (JObj [(''listen'', JNull)]) \<and>
    fst (run_rail (\<lambda>_. None) ''python'' ''bench'' (demo_attempt\<lparr>client_status := 1\<rparr>) (RAILS ! 0) 5 0) = raised RuntimeError"
proof -
  let ?run = "run_rail (\<lambda>_. Some (JObj [(''listen'', JNull)])) ''python'' ''bench'' demo_attempt (RAILS ! 0) 5 0"
  have json: "last_json (\<lambda>_. Some (JObj [(''listen'', JNull)])) ''{}'' = returned (JObj [(''listen'', JNull)])"
    by code_simp
  have "listens (listen_line demo_attempt)" by code_simp
  moreover have "strip [] = []" by code_simp
  ultimately have "\<exists>res. ?run = (returned res, False)"
    using json by (simp add: run_rail_def demo_attempt_def)
  then obtain res where res: "?run = (returned res, False)" by blast
  have "snd (run_rail (\<lambda>_. None) ''python'' ''bench'' (demo_attempt\<lparr>client_status := 1\<rparr>) (RAILS ! 0) 5 0)"
    by (simp add: run_rail_def demo_attempt_def)
  then have "fst (run_rail (\<lambda>_. None) ''python'' ''bench'' (demo_attempt\<lparr>client_status := 1\<rparr>) (RAILS ! 0) 5 0) = raised RuntimeError"
    using rail_needs_both_ends by blast
  moreover obtain client where "last_json (\<lambda>_. Some (JObj [(''listen'', JNull)])) (client_stdout demo_attempt) = returned client"
      "dict_item res ''client'' = returned client"
    using rail_needs_both_ends res by blast
  moreover have "client_stdout demo_attempt = ''{}''" by (simp add: demo_attempt_def)
  ultimately show ?thesis using res json by auto
qed

text \<open>The command the report shows is the one that is run, with its input spelled out.\<close>

lemma shown_server_cmd_faithful:
  "shown_server_cmd dst port = join '' '' (server_cmd dst port) @ ''  (< bench/socket-transport-bench.py)''"
  by (simp add: shown_server_cmd_def server_cmd_def server_args_def SSH_def)

end
