(* ===== verification/SocketLogs.thy ===== *)
theory SocketLogs
  imports GlooBench SocketReceipt SocketRun "HOL-Library.Countable"
begin

text \<open>
  From the benches to the receipt: what \<open>bench/socket-transport-receipt.py\<close> takes out of the JSON
  that \<open>bench/gloo-allreduce-bench.py\<close> printed into a log and that \<open>bench/socket-transport-run.py\<close>
  wrote into the raw file. A view is \<open>None\<close> where the lookup of the receipt would raise. The
  theorems follow the numbers of a measurement through the files into the receipt.
\<close>

section \<open>The records in the JSON\<close>

definition the_field :: "json \<Rightarrow> string \<Rightarrow> json option" where
  "the_field d k = (case d of JObj kvs \<Rightarrow> map_of kvs k | _ \<Rightarrow> None)"

definition real_field :: "json \<Rightarrow> string \<Rightarrow> rat option" where
  "real_field d k = Option.bind (the_field d k) (\<lambda>v. case num v of Some (Fin q) \<Rightarrow> Some q | _ \<Rightarrow> None)"

definition int_field :: "json \<Rightarrow> string \<Rightarrow> int option" where
  "int_field d k = (case the_field d k of Some (JInt n) \<Rightarrow> Some n | _ \<Rightarrow> None)"

definition list_field :: "json \<Rightarrow> string \<Rightarrow> json list option" where
  "list_field d k = (case the_field d k of Some (JList xs) \<Rightarrow> Some xs | _ \<Rightarrow> None)"

definition str_field :: "json \<Rightarrow> string \<Rightarrow> string option" where
  "str_field d k = (case the_field d k of Some (JStr s) \<Rightarrow> Some s | _ \<Rightarrow> None)"

lemmas field_defs = the_field_def real_field_def int_field_def list_field_def str_field_def

definition stats_view :: "json \<Rightarrow> rtt_stats option" where
  "stats_view v =
     Option.bind (real_field v ''p50'') (\<lambda>a. Option.bind (real_field v ''p99'') (\<lambda>b.
     Option.bind (real_field v ''min'') (\<lambda>c. Option.bind (real_field v ''mean'') (\<lambda>d.
       Some \<lparr>p50 = a, p99 = b, low = c, mean_us = d\<rparr>))))"

text \<open>One size of a latency list or of the results of a log; \<open>k\<close> is the key of its statistics.\<close>

definition size_view :: "string \<Rightarrow> json \<Rightarrow> (int \<times> rtt_stats) option" where
  "size_view k e =
     Option.bind (int_field e ''size_b'') (\<lambda>n. Option.bind (Option.bind (the_field e k) stats_view) (\<lambda>s. Some (n, s)))"

definition gloo_view :: "json \<Rightarrow> gloo_rec option" where
  "gloo_view r =
     Option.bind (list_field r ''results'') (\<lambda>xs. Option.bind (those (map (size_view ''allreduce_us'') xs)) (\<lambda>rs.
       Some \<lparr>round_no = 0, iface = [], results = rs\<rparr>))"

definition tput_view :: "json \<Rightarrow> tput_stats option" where
  "tput_view t =
     Option.bind (str_field t ''direction'') (\<lambda>a. Option.bind (real_field t ''gbps'') (\<lambda>b.
     Option.bind (real_field t ''MiBps'') (\<lambda>c. Option.bind (int_field t ''bytes'') (\<lambda>d.
     Option.bind (real_field t ''seconds'') (\<lambda>e.
       Some \<lparr>direction = a, gbps = b, mib_s = c, nbytes = d, seconds = e\<rparr>)))))"

definition round_view :: "json \<Rightarrow> raw_round option" where
  "round_view r =
     Option.bind (str_field r ''rail'') (\<lambda>label. Option.bind (the_field r ''client'') (\<lambda>client.
     Option.bind (list_field client ''latency'') (\<lambda>ls. Option.bind (those (map (size_view ''rtt_us'') ls)) (\<lambda>lat.
     Option.bind (list_field client ''throughput'') (\<lambda>ts. Option.bind (those (map tput_view ts)) (\<lambda>thr.
       Some \<lparr>rail = label, latency = lat, throughput = thr\<rparr>))))))"

definition raw_view :: "json \<Rightarrow> raw_round list option" where
  "raw_view raw = Option.bind (list_field raw ''rounds'') (\<lambda>rs. those (map round_view rs))"

section \<open>The all-reduce logs\<close>

text \<open>A log: the lines of the process, one of them the report of the bench.\<close>

definition gloo_log :: "(json \<Rightarrow> string) \<Rightarrow> string list \<Rightarrow> json \<Rightarrow> string list \<Rightarrow> string" where
  "gloo_log dumps pre report post = text_of_lines (pre @ gloo_line dumps report # post)"

definition plain_line :: "string \<Rightarrow> bool" where
  "plain_line l \<longleftrightarrow> one_line l \<and> \<not> startswith l ''GLOOBENCH ''"

lemma gloo_lines_log:
  assumes "list_all plain_line pre" "list_all plain_line post" "one_line (dumps report)"
  shows "gloo_lines (gloo_log dumps pre report post) = [dumps report]"
proof -
  have "one_line ''GLOOBENCH ''" by code_simp
  then have "list_all one_line (pre @ gloo_line dumps report # post)"
    using assms by (auto simp: list_all_iff plain_line_def gloo_line_def GLOO_MARK_def one_line_def)
  then have "splitlines (gloo_log dumps pre report post) = pre @ gloo_line dumps report # post"
    unfolding gloo_log_def by (rule splitlines_text)
  moreover have "filter (\<lambda>l. startswith l MARK) ls = []" if "list_all plain_line ls" for ls
    using that by (induction ls) (simp_all add: plain_line_def MARK_def)
  ultimately show ?thesis
    using assms(1,2) by (simp add: gloo_lines_def gloo_line_def GLOO_MARK_def MARK_def startswith_def)
qed

text \<open>What the receipt knows of one size of the bench: the two-decimal statistics of its samples.\<close>

definition entry_measured :: "int \<Rightarrow> int list \<Rightarrow> int \<times> rtt_stats \<Rightarrow> bool" where
  "entry_measured n ds e \<longleftrightarrow>
     (\<exists>us. res_seq (map sample_us ds) = returned us \<and> fst e = gloo_elems n * 4 \<and>
        Fin (p50 (snd e)) = round_at 2 (Fin (tcp.select us C50)) \<and>
        Fin (p99 (snd e)) = round_at 2 (Fin (tcp.select us C99)) \<and>
        Fin (low (snd e)) = round_at 2 (Fin (hd (sort us))))"

lemma entry_view:
  assumes "gloo_entry iters n ds = returned j" "clocked ds"
  shows "\<exists>e. size_view ''allreduce_us'' j = Some e \<and> entry_measured n ds e"
proof -
  have "ds \<noteq> []" using assms(1) gloo_entry_empty by auto
  then obtain us lo p50' p90' p99' hi mean where e: "res_seq (map sample_us ds) = returned us"
      "gloo_entry iters n ds = returned (entry_json iters n lo p50' p90' p99' hi mean)"
      "Fin lo = round_at 2 (Fin (hd (sort us)))" "Fin p50' = round_at 2 (Fin (tcp.select us C50))"
      "Fin p99' = round_at 2 (Fin (tcp.select us C99))"
    using gloo_entry_exact [OF assms(2)] by metis
  have "size_view ''allreduce_us'' (entry_json iters n lo p50' p90' p99' hi mean) =
      Some (gloo_elems n * 4, \<lparr>p50 = p50', p99 = p99', low = lo, mean_us = mean\<rparr>)"
    by (simp add: size_view_def stats_view_def entry_json_def field_defs)
  then show ?thesis using assms(1) e by (auto simp: entry_measured_def)
qed

text \<open>The entries of a whole run, size by size.\<close>

lemma size_loop_view:
  assumes "clock_sound (iters_arg a) ns" "snd (size_loop a answer ns k made ss) = returned rs"
  shows "\<exists>ms. those (map (size_view ''allreduce_us'') rs) = Some ms \<and> length ms = length ss \<and>
    (\<forall>i < length ss. \<exists>n. parse_int (ss ! i) = Some n \<and>
       entry_measured n (map (ns (k + i)) [0..<nat (gloo_iters (iters_arg a) n)]) (ms ! i))"
  using assms(2)
proof (induction ss arbitrary: k made rs)
  case (Cons s ss)
  obtain n where n: "parse_int s = Some n" using Cons.prems by (auto split: option.splits)
  let ?ds = "map (ns k) [0..<nat (gloo_iters (iters_arg a) n)]"
  obtain j made1 rs' where j: "gloo_entry (iters_arg a) n ?ds = returned j"
      and rs': "snd (size_loop a answer ns (Suc k) made1 ss) = returned rs'" and rs: "rs = j # rs'"
    using Cons.prems n by (auto simp: res_simps case_prod_unfold split: sum.splits)
  obtain e where e: "size_view ''allreduce_us'' j = Some e" "entry_measured n ?ds e"
    using entry_view [OF j] assms(1) by (auto simp: clock_sound_def)
  obtain ms where ms: "those (map (size_view ''allreduce_us'') rs') = Some ms" "length ms = length ss"
      "\<And>i. i < length ss \<Longrightarrow> \<exists>n. parse_int (ss ! i) = Some n \<and>
         entry_measured n (map (ns (Suc k + i)) [0..<nat (gloo_iters (iters_arg a) n)]) (ms ! i)"
    using Cons.IH [OF rs'] by blast
  show ?case
  proof (intro exI [of _ "e # ms"] conjI allI impI)
    fix i assume "i < length (s # ss)"
    then show "\<exists>n. parse_int ((s # ss) ! i) = Some n \<and>
        entry_measured n (map (ns (k + i)) [0..<nat (gloo_iters (iters_arg a) n)]) ((e # ms) ! i)"
      using n e(2) ms(3) by (cases i) auto
  qed (use e ms rs in simp_all)
qed simp

text \<open>
  C26: What the bench measured is what the receipt compares: from the log of a rank that finished, among
  any other output, the receipt reads exactly one record, filed under the round and the interface
  of the file name, with the statistics of the timed calls of every size.
\<close>

theorem gloo_log_read_back:
  assumes run: "snd (gloo_main a w) = returned report" "clock_sound (iters_arg a) (call_ns w)"
    and law: "loads (dumps report) = Some report" "one_line (dumps report)"
    and noise: "list_all plain_line pre" "list_all plain_line post" and dev: "CHR ''.'' \<notin> set dev"
  shows "\<exists>ms. gloo_file (\<lambda>l. Option.bind (loads l) gloo_view) i (''rank0.'' @ dev @ ''.log'', gloo_log dumps pre report post)
      = returned [\<lparr>round_no = i, iface = dev, results = ms\<rparr>] \<and>
    length ms = length (split_on (CHR '','') (sizes_arg a)) \<and>
    (\<forall>k < length ms. \<exists>n. parse_int (split_on (CHR '','') (sizes_arg a) ! k) = Some n \<and>
       entry_measured n (map (call_ns w k) [0..<nat (gloo_iters (iters_arg a) n)]) (ms ! k))"
proof -
  obtain made rs d where
    rs: "snd (size_loop a (group_call w) (call_ns w) 0 made (split_on (CHR '','') (sizes_arg a))) = returned rs"
      and report: "report = gloo_report a w rs d"
    using run(1) by (auto simp: gloo_main_def Let_def case_prod_unfold res_simps split: sum.splits)
  obtain ms where ms: "those (map (size_view ''allreduce_us'') rs) = Some ms"
      "length ms = length (split_on (CHR '','') (sizes_arg a))"
      "\<And>k. k < length ms \<Longrightarrow> \<exists>n. parse_int (split_on (CHR '','') (sizes_arg a) ! k) = Some n \<and>
       entry_measured n (map (call_ns w k) [0..<nat (gloo_iters (iters_arg a) n)]) (ms ! k)"
    using size_loop_view [OF run(2) rs] by auto
  have view: "gloo_view report = Some \<lparr>round_no = 0, iface = [], results = ms\<rparr>"
    using ms(1) by (simp add: report gloo_report_def gloo_view_def field_defs)
  have name: "split_on (CHR ''.'') (''rank0.'' @ dev @ ''.log'') = [''rank0'', dev, ''log'']"
  proof -
    have "split_on (CHR ''.'') (dev @ ''.log'') = [dev, ''log'']" using dev by (induction dev) auto
    then show ?thesis by simp
  qed
  have "gloo_file (\<lambda>l. Option.bind (loads l) gloo_view) i (''rank0.'' @ dev @ ''.log'', gloo_log dumps pre report post)
      = returned [\<lparr>round_no = i, iface = dev, results = ms\<rparr>]"
    using gloo_lines_log [of pre post dumps report] law noise view name by (simp add: gloo_file_def)
  then show ?thesis using ms(2,3) by blast
qed

section \<open>The raw file\<close>

text \<open>What the receipt knows of one message size of a session.\<close>

definition echo_measured :: "nat \<Rightarrow> int list \<Rightarrow> int \<times> rtt_stats \<Rightarrow> bool" where
  "echo_measured n ds e \<longleftrightarrow>
     (\<exists>us. res_seq (map sample_us ds) = returned us \<and> fst e = int n \<and>
        Fin (p50 (snd e)) = round_at 2 (Fin (tcp.select us C50)) \<and>
        Fin (p99 (snd e)) = round_at 2 (Fin (tcp.select us C99)) \<and>
        Fin (low (snd e)) = round_at 2 (Fin (hd (sort us))))"

lemma echo_measured_size: "echo_measured n ds e \<Longrightarrow> fst e = int n"
  by (auto simp: echo_measured_def)

definition timed :: "nat \<Rightarrow> (int \<times> int) list \<Rightarrow> int list" where
  "timed warmup stamps = map (\<lambda>(a, b). b - a) (drop warmup stamps)"

lemma echo_view:
  assumes run: "echo_report n iters warmup stamps = returned j" and ok: "clocked (timed warmup stamps)"
  shows "\<exists>e. size_view ''rtt_us'' j = Some e \<and> echo_measured n (timed warmup stamps) e"
proof -
  have seq: "map (\<lambda>(a, b). sample_us (b - a)) (drop warmup stamps) = map sample_us (timed warmup stamps)"
    by (simp add: timed_def case_prod_unfold comp_def)
  have "sort us \<noteq> [] \<Longrightarrow> res_seq (map sample_us (timed warmup stamps)) = returned us \<Longrightarrow> timed warmup stamps \<noteq> []" for us
    by (cases "timed warmup stamps") auto
  then have "timed warmup stamps \<noteq> []" using run by (auto simp: echo_report_def seq res_simps Let_def split: if_splits)
  then obtain us m mean where us: "res_seq (map sample_us (timed warmup stamps)) = returned us" "sort us \<noteq> []"
      "\<And>u. u \<in> set us \<Longrightarrow> \<exists>r. round_at 2 (Fin u) = Fin r"
      "\<And>q. pct (sort us) (centile_value q) = returned (Fin (tcp.select us q))"
      "\<And>q. tcp.select us q \<in> set us" "fmean (sort us) = returned (Fin m)" "round_at 2 (Fin m) = Fin mean"
    using clocked_samples [OF ok] by metis
  have mem: "hd (sort us) \<in> set us" using hd_in_set [OF us(2)] by simp
  obtain lo p50' p99' where r: "round_at 2 (Fin (hd (sort us))) = Fin lo"
      "round_at 2 (Fin (tcp.select us C50)) = Fin p50'" "round_at 2 (Fin (tcp.select us C99)) = Fin p99'"
    using us(3) [OF mem] us(3) [OF us(5) [of C50]] us(3) [OF us(5) [of C99]] by metis
  have "size_view ''rtt_us'' j = Some (int n, \<lparr>p50 = p50', p99 = p99', low = lo, mean_us = mean\<rparr>)"
    using run us(2) us(4) [of C50] us(4) [of C99]
    by (auto simp: echo_report_def seq us(1,6,7) r Let_def res_simps round2_def size_view_def stats_view_def field_defs)
  then show ?thesis using us(1) r by (auto simp: echo_measured_def)
qed

text \<open>
  A session as the driver records it: the rail and the report the client printed. Its clock is sound
  and its throughput finite.
\<close>

definition session_record :: "nat list \<Rightarrow> nat \<Rightarrow> nat \<Rightarrow> rail \<Rightarrow> nat \<Rightarrow> SocketBench.measured \<Rightarrow> json \<Rightarrow> bool" where
  "session_record ns iters warmup r tb m res \<longleftrightarrow>
     (\<exists>client. run_client (fst r) ns iters warmup tb m = returned client \<and>
        str_field res ''rail'' = Some (fst r) \<and> the_field res ''client'' = Some client) \<and>
     list_all (\<lambda>n. clocked (timed warmup (echo_times m n))) ns \<and>
     list_all (\<lambda>(name, t). case tput name tb t of Inl _ \<Rightarrow> True | Inr j \<Rightarrow> tput_view j \<noteq> None)
       [(''tx_client_to_server'', tx_ns m), (''rx_server_to_client'', rx_ns m)]"

text \<open>The driver makes such a record when the last line the client printed is its report.\<close>

lemma run_rail_record:
  assumes "fst (run_rail loads python bench a r port tb) = returned res"
    and "last_json loads (client_stdout a) = returned client" "run_client (fst r) ns iters warmup tb m = returned client"
    and "list_all (\<lambda>n. clocked (timed warmup (echo_times m n))) ns"
    and "list_all (\<lambda>(name, t). case tput name tb t of Inl _ \<Rightarrow> True | Inr j \<Rightarrow> tput_view j \<noteq> None)
       [(''tx_client_to_server'', tx_ns m), (''rx_server_to_client'', rx_ns m)]"
  shows "session_record ns iters warmup r tb m res"
  using assms by (auto simp: run_rail_def session_record_def field_defs res_simps split: if_splits)

lemma with_round_field: "the_field res k = Some v \<Longrightarrow> the_field (with_round r res) k = Some v"
  by (cases res) (auto simp: the_field_def map_add_def split: option.split)

definition round_measured :: "nat list \<Rightarrow> nat \<Rightarrow> rail \<Rightarrow> nat \<Rightarrow> SocketBench.measured \<Rightarrow> raw_round \<Rightarrow> bool" where
  "round_measured ns warmup r tb m x \<longleftrightarrow>
     rail x = fst r \<and>
     list_all2 (\<lambda>n e. echo_measured n (timed warmup (echo_times m n)) e) ns (latency x) \<and>
     map direction (throughput x) = (if tb = 0 then [] else [''tx_client_to_server'', ''rx_server_to_client'']) \<and>
     list_all (\<lambda>t. nbytes t = int tb) (throughput x)"

lemma tput_view_fields: "tput name tb t = returned j \<Longrightarrow> tput_view j = Some v \<Longrightarrow> direction v = name \<and> nbytes v = int tb"
  by (auto simp: tput_def tput_view_def field_defs res_simps bind_eq_Some_conv split: option.splits)

lemma round_view_measured:
  assumes "session_record ns iters warmup r tb m res"
  shows "\<exists>x. round_view (with_round k res) = Some x \<and> round_measured ns warmup r tb m x"
proof -
  obtain client where c: "run_client (fst r) ns iters warmup tb m = returned client" "the_field res ''rail'' = Some (JStr (fst r))"
      "the_field res ''client'' = Some client"
    using assms by (auto simp: session_record_def str_field_def split: option.splits json.splits)
  obtain ls ts d where ls: "map (\<lambda>n. echo_report n (echo_iters iters n) warmup (echo_times m n)) ns = map returned ls"
      and ts: "(if tb = 0 then returned [] else res_seq [tput ''tx_client_to_server'' tb (tx_ns m), tput ''rx_server_to_client'' tb (rx_ns m)])
        = returned ts"
      and client: "list_field client ''latency'' = Some ls" "list_field client ''throughput'' = Some ts"
    using c(1) by (auto simp: run_client_def res_simps res_seq_Inr field_defs)
  have "list_all2 (\<lambda>n j. \<exists>e. size_view ''rtt_us'' j = Some e \<and> echo_measured n (timed warmup (echo_times m n)) e) ns ls"
  proof -
    have "list_all (\<lambda>n. clocked (timed warmup (echo_times m n))) ns" using assms by (simp add: session_record_def)
    then show ?thesis using ls
    proof (induction ns arbitrary: ls)
      case (Cons n ns)
      then show ?case using echo_view by (cases ls) auto
    qed simp
  qed
  then have "\<exists>lat. those (map (size_view ''rtt_us'') ls) = Some lat \<and>
      list_all2 (\<lambda>n e. echo_measured n (timed warmup (echo_times m n)) e) ns lat"
    by (induction rule: list_all2_induct) auto
  then obtain lat where lat: "those (map (size_view ''rtt_us'') ls) = Some lat"
      "list_all2 (\<lambda>n e. echo_measured n (timed warmup (echo_times m n)) e) ns lat" by blast
  have "\<exists>thr. those (map tput_view ts) = Some thr \<and>
      map direction thr = (if tb = 0 then [] else [''tx_client_to_server'', ''rx_server_to_client'']) \<and>
      list_all (\<lambda>t. nbytes t = int tb) thr"
  proof (cases "tb = 0")
    case False
    then obtain t1 t2 where t: "tput ''tx_client_to_server'' tb (tx_ns m) = returned t1"
        "tput ''rx_server_to_client'' tb (rx_ns m) = returned t2" "ts = [t1, t2]"
      using ts by (auto simp: res_simps)
    have "list_all (\<lambda>(name, t). case tput name tb t of Inl _ \<Rightarrow> True | Inr j \<Rightarrow> tput_view j \<noteq> None)
        [(''tx_client_to_server'', tx_ns m), (''rx_server_to_client'', rx_ns m)]"
      using assms by (simp only: session_record_def)
    then obtain v1 v2 where v: "tput_view t1 = Some v1" "tput_view t2 = Some v2"
      by (auto simp only: list.pred_inject prod.case t sum.case not_None_eq)
    show ?thesis
      using tput_view_fields [OF t(1) v(1)] tput_view_fields [OF t(2) v(2)] False
      by (intro exI [of _ "[v1, v2]"]) (simp add: t(3) v)
  qed (use ts in simp)
  then show ?thesis
    using c(2,3) lat client by (auto simp: round_view_def round_measured_def str_field_def with_round_field)
qed

lemma one_per_size:
  assumes "list_all2 P ns es" "\<And>n e. P n e \<Longrightarrow> fst e = int n" "distinct ns" "n \<in> set ns"
  shows "\<exists>e. filter (\<lambda>l. fst l = int n) es = [e] \<and> P n e"
  using assms(1,3,4)
proof (induction rule: list_all2_induct)
  case (Cons k ns e es)
  have keys: "fst e = int k" "map fst es = map int ns"
  proof -
    show "fst e = int k" using Cons.hyps(1) by (rule assms(2))
    show "map fst es = map int ns" using Cons.hyps(2) by (induction rule: list_all2_induct) (simp_all add: assms(2))
  qed
  show ?case
  proof (cases "k = n")
    case True
    have "int n \<notin> fst ` set es"
      using Cons.prems(1) True keys(2) by (metis distinct.simps(2) image_iff list.set_map of_nat_eq_iff)
    then have "filter (\<lambda>l. fst l = int n) es = []" by (auto simp: filter_empty_conv intro: rev_image_eqI)
    then show ?thesis using True keys(1) Cons.hyps(1) by simp
  qed (use Cons keys in simp)
qed simp

lemma round_samples:
  assumes "round_measured ns warmup r tb m x" "distinct ns" "n \<in> set ns"
  shows "\<exists>e. tcp_samples [x] (fst r) (int n) = [snd e] \<and> echo_measured n (timed warmup (echo_times m n)) e"
    and "l \<noteq> fst r \<Longrightarrow> tcp_samples [x] l (int n) = []"
proof -
  have all: "list_all2 (\<lambda>n e. echo_measured n (timed warmup (echo_times m n)) e) ns (latency x)"
    using assms(1) by (simp add: round_measured_def)
  have size_of: "echo_measured n (timed warmup (echo_times m n)) e \<Longrightarrow> fst e = int n" for n e by (rule echo_measured_size)
  obtain e where "filter (\<lambda>l. fst l = int n) (latency x) = [e]" "echo_measured n (timed warmup (echo_times m n)) e"
    using one_per_size [OF all size_of assms(2,3)] by blast
  moreover have "rail x = fst r" using assms(1) by (simp add: round_measured_def)
  ultimately show "\<exists>e. tcp_samples [x] (fst r) (int n) = [snd e] \<and> echo_measured n (timed warmup (echo_times m n)) e"
    by (intro exI [of _ e]) (simp add: tcp_samples_def)
  show "l \<noteq> fst r \<Longrightarrow> tcp_samples [x] l (int n) = []"
    using assms(1) by (auto simp: tcp_samples_def round_measured_def)
qed

text \<open>
  C23: The raw file of a complete run gives the receipt, for every rail and message size, exactly the
  statistics of the two sessions over that rail, in the order of the rounds; the throughput of each
  rail comes from its second session.
\<close>

theorem raw_file_read_back:
  assumes run: "run_main dumps host release run = returned contents"
    and law: "\<And>j. loads (dumps j @ [newline]) = Some j"
    and sessions: "\<And>r port tb res. run r port tb = returned res \<Longrightarrow> session_record ns iters warmup r tb (m port) res"
    and ns: "distinct ns" "n \<in> set ns"
  shows "\<exists>rounds. Option.bind (loads contents) raw_view = Some rounds \<and>
    list_all2 (\<lambda>port s. echo_measured n (timed warmup (echo_times (m port) n)) (int n, s))
      [45611, 45613] (tcp_samples rounds ''thunderbolt0'' (int n)) \<and>
    list_all2 (\<lambda>port s. echo_measured n (timed warmup (echo_times (m port) n)) (int n, s))
      [45612, 45614] (tcp_samples rounds ''enp191s0'' (int n)) \<and>
    map (length \<circ> throughput) rounds = [0, 0, 2, 2]"
proof -
  obtain j1 j2 j3 j4 where j: "run (RAILS ! 0) 45611 0 = returned j1" "run (RAILS ! 1) 45612 0 = returned j2"
      "run (RAILS ! 0) 45613 TPUT_BYTES = returned j3" "run (RAILS ! 1) 45614 TPUT_BYTES = returned j4"
      and written: "contents = dumps (JObj [(''rounds'', JList [with_round 0 j1, with_round 0 j2, with_round 1 j3, with_round 1 j4]),
        (''host'', JStr host), (''kernel'', JStr release)]) @ [newline]"
    using run unfolding raw_file_all_ran by (auto simp: res_simps)
  obtain x1 x2 x3 x4 where v: "round_view (with_round 0 j1) = Some x1" "round_view (with_round 0 j2) = Some x2"
        "round_view (with_round 1 j3) = Some x3" "round_view (with_round 1 j4) = Some x4"
      and x: "round_measured ns warmup (RAILS ! 0) 0 (m 45611) x1" "round_measured ns warmup (RAILS ! 1) 0 (m 45612) x2"
        "round_measured ns warmup (RAILS ! 0) TPUT_BYTES (m 45613) x3" "round_measured ns warmup (RAILS ! 1) TPUT_BYTES (m 45614) x4"
    using round_view_measured [OF sessions [OF j(1)]] round_view_measured [OF sessions [OF j(2)]]
      round_view_measured [OF sessions [OF j(3)]] round_view_measured [OF sessions [OF j(4)]] by metis
  have "Option.bind (loads contents) raw_view = Some [x1, x2, x3, x4]"
    by (simp add: written law raw_view_def field_defs v v(3,4) [unfolded One_nat_def])
  moreover have rails: "fst (RAILS ! 0) = ''thunderbolt0''" "fst (RAILS ! 1) = ''enp191s0''" "TPUT_BYTES \<noteq> 0"
    by (simp_all add: RAILS_def TPUT_BYTES_def)
  have meas: "echo_measured n ds (int n, snd e)" if "echo_measured n ds e" for ds e
    using that by (auto simp: echo_measured_def)
  have four: "tcp_samples [x1, x2, x3, x4] l k =
      tcp_samples [x1] l k @ tcp_samples [x2] l k @ tcp_samples [x3] l k @ tcp_samples [x4] l k" for l k
    by (simp add: tcp_samples_def)
  have "list_all2 (\<lambda>port s. echo_measured n (timed warmup (echo_times (m port) n)) (int n, s))
      [45611, 45613] (tcp_samples [x1, x2, x3, x4] ''thunderbolt0'' (int n))"
    using round_samples(1) [OF x(1) ns] round_samples(2) [OF x(2) ns] round_samples(1) [OF x(3) ns]
      round_samples(2) [OF x(4) ns] rails meas by (auto simp: four)
  moreover have "list_all2 (\<lambda>port s. echo_measured n (timed warmup (echo_times (m port) n)) (int n, s))
      [45612, 45614] (tcp_samples [x1, x2, x3, x4] ''enp191s0'' (int n))"
    using round_samples(2) [OF x(1) ns] round_samples(1) [OF x(2) ns] round_samples(2) [OF x(3) ns]
      round_samples(1) [OF x(4) ns] rails meas by (auto simp: four)
  moreover have "map (length \<circ> throughput) [x1, x2, x3, x4] = [0, 0, 2, 2]"
  proof -
    have "length (throughput y) = (if tb = 0 then 0 else 2)" if "round_measured ns warmup r tb mm y" for r tb mm y
    proof -
      have "length (map direction (throughput y)) = (if tb = 0 then 0 else 2)"
        using that by (simp add: round_measured_def)
      then show ?thesis by simp
    qed
    from this [OF x(1)] this [OF x(2)] this [OF x(3)] this [OF x(4)] show ?thesis using rails(3) by simp
  qed
  ultimately show ?thesis by (intro exI conjI)
qed

section \<open>Witnesses\<close>

theorem gloo_log_read_back_witness:
  "\<exists>report ms. gloo_file (\<lambda>l. Option.bind (if l = ''{}'' then Some report else None) gloo_view) 1
      (''rank0.enp191s0.log'', gloo_log (\<lambda>_. ''{}'') [''joining''] report []) =
      returned [\<lparr>round_no = 1, iface = ''enp191s0'', results = ms\<rparr>] \<and>
    length ms = 1 \<and> entry_measured 64 [1, 1, 1] (ms ! 0)"
proof -
  obtain report where report: "snd (gloo_main (demo_args 2) demo_world) = returned report" using demo_gloo_main by blast
  have sound: "clock_sound (iters_arg (demo_args 2)) (call_ns demo_world)"
    by (rule demo_clock_args)
  have lines: "one_line ''{}''" "list_all plain_line [''joining'']" "list_all plain_line []" "CHR ''.'' \<notin> set ''enp191s0''"
    by code_simp+
  have sizes: "split_on (CHR '','') (sizes_arg (demo_args 2)) = [''64'']" "parse_int ''64'' = Some 64" by code_simp+
  have ns: "map (call_ns demo_world 0) [0..<nat (gloo_iters (iters_arg (demo_args 2)) 64)] = [1, 1, 1]"
    by (simp add: demo_world_def demo_args_def gloo_iters_def map_replicate_const numeral_3_eq_3)
  obtain ms where ms: "gloo_file (\<lambda>l. Option.bind (if l = ''{}'' then Some report else None) gloo_view) 1
        (''rank0.'' @ ''enp191s0'' @ ''.log'', gloo_log (\<lambda>_. ''{}'') [''joining''] report []) =
        returned [\<lparr>round_no = 1, iface = ''enp191s0'', results = ms\<rparr>]"
      "length ms = length (split_on (CHR '','') (sizes_arg (demo_args 2)))"
      "\<And>k. k < length ms \<Longrightarrow> \<exists>n. parse_int (split_on (CHR '','') (sizes_arg (demo_args 2)) ! k) = Some n \<and>
       entry_measured n (map (call_ns demo_world k) [0..<nat (gloo_iters (iters_arg (demo_args 2)) n)]) (ms ! k)"
    using gloo_log_read_back [OF report sound, of "\<lambda>l. if l = ''{}'' then Some report else None" "\<lambda>_. ''{}''",
        OF _ lines(1-4), of 1] by auto
  have "length ms = 1" using ms(2) sizes(1) by simp
  moreover from this have "entry_measured 64 [1, 1, 1] (ms ! 0)" using ms(3) [of 0] sizes ns by simp
  ultimately show ?thesis using ms(1) by auto
qed

instance pyfloat :: countable
  by countable_datatype

instance json :: countable
  by countable_datatype

lemma demo_tput: "case tput name TPUT_BYTES 1 of Inl _ \<Rightarrow> False | Inr j \<Rightarrow> tput_view j \<noteq> None"
proof -
  have "case res_bind (float_of_int 1) (\<lambda>x. res_bind (fdiv x (Fin 1000000000)) (\<lambda>secs.
      res_bind (float_of_int (1073741824 * 8)) (\<lambda>b. res_bind (fdiv b secs) (\<lambda>r. res_bind (fdiv r (Fin 1000000000)) (\<lambda>gbps.
      res_bind (int_div 1073741824 1048576) (\<lambda>mib. res_bind (fdiv mib secs) (\<lambda>mibps.
        returned (round_at 4 secs, round_at 3 gbps, round_at 1 mibps)))))))) of
     Inr (Fin a, Fin b, Fin c) \<Rightarrow> True | _ \<Rightarrow> False"
    by code_simp
  then show ?thesis
    by (auto simp: tput_def TPUT_BYTES_def tput_view_def field_defs res_simps split: sum.splits pyfloat.splits)
qed

text \<open>A run in which every exchange takes a microsecond or so.\<close>

definition demo_session :: "rail \<Rightarrow> nat \<Rightarrow> nat \<Rightarrow> json res" where
  "demo_session r port tb =
     (if tb = 0 \<or> tb = TPUT_BYTES then
        res_bind (run_client (fst r) [64] 3 1 tb demo_measured) (\<lambda>client.
          returned (JObj [(''rail'', JStr (fst r)), (''client'', client)]))
      else raised RuntimeError)"

lemma demo_sessions:
  "\<exists>client. run_client (fst r) [64] 3 1 0 demo_measured = returned client"
  "\<exists>client. run_client (fst r) [64] 3 1 TPUT_BYTES demo_measured = returned client"
proof -
  obtain e where e: "echo_report 64 3 1 demo_stamps = returned e" using demo_echo by blast
  have "\<exists>j. tput name TPUT_BYTES 1 = returned j" for name
    using demo_tput [of name] by (cases "tput name TPUT_BYTES 1") simp_all
  then obtain f where f: "tput name TPUT_BYTES 1 = returned (f name)" for name by metis
  show "\<exists>client. run_client (fst r) [64] 3 1 0 demo_measured = returned client"
    using e by (simp add: run_client_def demo_measured_def echo_iters_def demo_delta)
  show "\<exists>client. run_client (fst r) [64] 3 1 TPUT_BYTES demo_measured = returned client"
    using e f by (simp add: run_client_def demo_measured_def echo_iters_def demo_delta)
qed

lemma demo_record:
  assumes "demo_session r port tb = returned res"
  shows "session_record [64] 3 1 r tb demo_measured res"
proof -
  have "clocked (timed 1 demo_stamps)" by (simp add: clocked_def timed_def demo_stamps_def)
  moreover have tb: "tb = 0 \<or> tb = TPUT_BYTES" using assms by (simp add: demo_session_def split: if_splits)
  have "case tput name tb 1 of Inl _ \<Rightarrow> True | Inr j \<Rightarrow> tput_view j \<noteq> None" for name
  proof -
    have "case tput name 0 1 of Inl _ \<Rightarrow> True | Inr j \<Rightarrow> tput_view j \<noteq> None" by code_simp
    moreover have "case tput name TPUT_BYTES 1 of Inl _ \<Rightarrow> True | Inr j \<Rightarrow> tput_view j \<noteq> None"
      using demo_tput [of name] by (cases "tput name TPUT_BYTES 1") simp_all
    ultimately show ?thesis using tb by blast
  qed
  moreover obtain client where "run_client (fst r) [64] 3 1 tb demo_measured = returned client"
      "res = JObj [(''rail'', JStr (fst r)), (''client'', client)]"
    using assms tb by (simp only: demo_session_def if_True) (auto simp: res_simps)
  ultimately show ?thesis
    by (simp add: session_record_def field_defs) (simp add: demo_measured_def)
qed

theorem raw_file_read_back_witness:
  "\<exists>rounds a b. length (tcp_samples rounds ''thunderbolt0'' 64) = 2 \<and>
     tcp_samples rounds ''enp191s0'' 64 = [a, b] \<and> echo_measured 64 (timed 1 demo_stamps) (64, a) \<and>
     map (length \<circ> throughput) rounds = [0, 0, 2, 2]"
proof -
  define enc :: "json \<Rightarrow> string" where "enc j = str_nat (to_nat j)" for j
  define dec :: "string \<Rightarrow> json option" where "dec s = Some (from_nat (int_of_digits (butlast s)))" for s
  have law: "dec (enc j @ [newline]) = Some j" for j by (simp add: enc_def dec_def)
  have "demo_session (RAILS ! i) port 0 = returned (JObj [(''rail'', JStr (fst (RAILS ! i))),
      (''client'', projr (run_client (fst (RAILS ! i)) [64] 3 1 0 demo_measured))])"
    "demo_session (RAILS ! i) port TPUT_BYTES = returned (JObj [(''rail'', JStr (fst (RAILS ! i))),
      (''client'', projr (run_client (fst (RAILS ! i)) [64] 3 1 TPUT_BYTES demo_measured))])" for i port
    using demo_sessions [of "RAILS ! i"] by (auto simp: demo_session_def)
  then obtain contents where run: "run_main enc [] [] demo_session = returned contents"
    unfolding raw_file_all_ran by simp
  have "\<exists>rounds. Option.bind (dec contents) raw_view = Some rounds \<and>
    list_all2 (\<lambda>port s. echo_measured 64 (timed 1 (echo_times demo_measured 64)) (int 64, s))
      [45611, 45613 :: nat] (tcp_samples rounds ''thunderbolt0'' (int 64)) \<and>
    list_all2 (\<lambda>port s. echo_measured 64 (timed 1 (echo_times demo_measured 64)) (int 64, s))
      [45612, 45614 :: nat] (tcp_samples rounds ''enp191s0'' (int 64)) \<and>
    map (length \<circ> throughput) rounds = [0, 0, 2, 2]"
    by (rule raw_file_read_back [where m = "\<lambda>_. demo_measured", OF run law demo_record]) simp_all
  then obtain rounds where r: "list_all2 (\<lambda>port s. echo_measured 64 (timed 1 (echo_times demo_measured 64)) (int 64, s))
      [45611, 45613 :: nat] (tcp_samples rounds ''thunderbolt0'' (int 64))"
    "list_all2 (\<lambda>port s. echo_measured 64 (timed 1 (echo_times demo_measured 64)) (int 64, s))
      [45612, 45614 :: nat] (tcp_samples rounds ''enp191s0'' (int 64))"
    "map (length \<circ> throughput) rounds = [0, 0, 2, 2]"
    by (elim exE conjE)
  have stamps: "echo_times demo_measured 64 = demo_stamps" by (simp add: demo_measured_def)
  obtain a b where ab: "tcp_samples rounds ''enp191s0'' (int 64) = [a, b]"
      "echo_measured 64 (timed 1 demo_stamps) (int 64, a)"
    using r(2) unfolding list_all2_Cons1 list_all2_Nil stamps by blast
  have "length (tcp_samples rounds ''thunderbolt0'' (int 64)) = 2" using list_all2_lengthD [OF r(1)] by simp
  then show ?thesis using ab r(3) unfolding of_nat_numeral by (intro exI conjI)
qed

end
