(* ===== verification/SocketCommand.thy ===== *)
theory SocketCommand
  imports SocketRun SocketBench ArgParse ShellWords
begin

text \<open>
  The command line of \<open>bench/socket-transport-bench.py\<close> and how the driver
  \<open>bench/socket-transport-run.py\<close> uses it: the server's words go over \<open>ssh\<close>, the client's to a local
  interpreter, and the properties say that the two processes which come of them talk of the same session.
\<close>

section \<open>Parser and dispatch\<close>

definition socket_parser :: "arg_spec list" where
  "socket_parser =
     [(option_of ''--role'' Text_arg No_value)\<lparr>arg_choices := [''server'', ''client''], arg_required := True\<rparr>,
      option_of ''--bind'' Text_arg (Text_value ''0.0.0.0''),
      option_of ''--bind-src'' Text_arg (Text_value ''0.0.0.0''),
      option_of ''--connect'' Text_arg (Text_value []),
      option_of ''--port'' Int_arg (Int_value 45601),
      option_of ''--sizes'' Text_arg (Text_value ''64,4096,8192,16384,65536''),
      option_of ''--iters'' Int_arg (Int_value 20000),
      option_of ''--warmup'' Int_arg (Int_value 1000),
      option_of ''--throughput-bytes'' Int_arg (Int_value (push_bit 30 1)),
      option_of ''--chunk'' Int_arg (Int_value (push_bit 20 1)),
      option_of ''--label'' Text_arg (Text_value [])]"

record client_args =
  bind_src :: string
  connect_to :: string
  at_port :: int
  size_list :: string
  iterations :: int
  warmups :: int
  stream_bytes :: int
  chunk_bytes :: int
  label_of :: string

definition client_args_of :: "namespace \<Rightarrow> client_args" where
  "client_args_of ns =
     \<lparr>bind_src = text_arg ns ''--bind-src'', connect_to = text_arg ns ''--connect'', at_port = int_arg ns ''--port'',
      size_list = text_arg ns ''--sizes'', iterations = int_arg ns ''--iters'', warmups = int_arg ns ''--warmup'',
      stream_bytes = int_arg ns ''--throughput-bytes'', chunk_bytes = int_arg ns ''--chunk'',
      label_of = text_arg ns ''--label''\<rparr>"

text \<open>What an invocation does: the parser stops it, or it serves an address, or it drives a session.\<close>

datatype socket_role = Socket_stopped int | Serve string int | Drive client_args

definition socket_main :: "string list \<Rightarrow> socket_role" where
  "socket_main argv =
     (case parse_args socket_parser argv of
        Parser_exit n \<Rightarrow> Socket_stopped n
      | Parsed ns \<Rightarrow>
          if text_arg ns ''--role'' = ''server'' then Serve (text_arg ns ''--bind'') (int_arg ns ''--port'')
          else Drive (client_args_of ns))"

text \<open>\<open>[int(s) for s in args.sizes.split(",")]\<close>.\<close>

definition client_sizes :: "string \<Rightarrow> int list res" where
  "client_sizes s =
     res_seq (map (\<lambda>x. case parse_int x of None \<Rightarrow> raised ValueError | Some n \<Rightarrow> returned n) (split_on (CHR '','') s))"

text \<open>The session of a client whose numbers are not negative.\<close>

definition client_session :: "client_args \<Rightarrow> cmd list res" where
  "client_session a =
     res_bind (client_sizes (size_list a)) (\<lambda>sizes.
       returned (session (map nat sizes) (nat (iterations a)) (nat (warmups a)) (nat (stream_bytes a)) (nat (chunk_bytes a))))"

section \<open>What the driver sends\<close>

definition server_line :: "string \<Rightarrow> nat \<Rightarrow> written list" where
  "server_line dst port =
     [With_value ''--role'' ''server'', With_value ''--bind'' dst, With_value ''--port'' (str_nat port)]"

definition client_line :: "rail \<Rightarrow> nat \<Rightarrow> nat \<Rightarrow> written list" where
  "client_line rail port throughput =
     (case rail of (label, src, dst) \<Rightarrow>
       [With_value ''--role'' ''client'', With_value ''--bind-src'' src, With_value ''--connect'' dst,
        With_value ''--port'' (str_nat port), With_value ''--sizes'' SIZES, With_value ''--iters'' (str_nat ITERS),
        With_value ''--warmup'' (str_nat WARMUP), With_value ''--throughput-bytes'' (str_nat throughput),
        With_value ''--label'' label])"

lemma socket_lines:
  "server_args dst port = [''python3'', ''-''] @ command_line (server_line dst port)"
  "client_cmd python bench rail port tb = [python, bench] @ command_line (client_line rail port tb)"
  by (simp_all add: server_args_def server_line_def client_cmd_def client_line_def command_line_def split: prod.split)

lemma socket_long_names: "long_names socket_parser"
  unfolding long_names_def socket_parser_def
  by (simp add: option_of_def help_name_def startswith_def)

lemma socket_specs:
  "find_spec socket_parser ''--role'' =
     Some ((option_of ''--role'' Text_arg No_value)\<lparr>arg_choices := [''server'', ''client''], arg_required := True\<rparr>)"
  "find_spec socket_parser ''--bind'' = Some (option_of ''--bind'' Text_arg (Text_value ''0.0.0.0''))"
  "find_spec socket_parser ''--bind-src'' = Some (option_of ''--bind-src'' Text_arg (Text_value ''0.0.0.0''))"
  "find_spec socket_parser ''--connect'' = Some (option_of ''--connect'' Text_arg (Text_value []))"
  "find_spec socket_parser ''--port'' = Some (option_of ''--port'' Int_arg (Int_value 45601))"
  "find_spec socket_parser ''--sizes'' = Some (option_of ''--sizes'' Text_arg (Text_value ''64,4096,8192,16384,65536''))"
  "find_spec socket_parser ''--iters'' = Some (option_of ''--iters'' Int_arg (Int_value 20000))"
  "find_spec socket_parser ''--warmup'' = Some (option_of ''--warmup'' Int_arg (Int_value 1000))"
  "find_spec socket_parser ''--throughput-bytes'' =
     Some (option_of ''--throughput-bytes'' Int_arg (Int_value (push_bit 30 1)))"
  "find_spec socket_parser ''--label'' = Some (option_of ''--label'' Text_arg (Text_value []))"
  by (simp_all add: socket_parser_def option_of_def)

lemma nat_is_value [simp]: "can_be_value names (str_nat n)"
proof (rule plain_value)
  show "str_nat n = [] \<or> hd (str_nat n) \<noteq> CHR ''-''"
    using str_nat_digits [of n] digit_char by (cases "str_nat n") auto
qed

lemma socket_required:
  "ws \<noteq> [] \<Longrightarrow> written_name (hd ws) = ''--role'' \<Longrightarrow>
   \<forall>s \<in> set socket_parser. arg_required s \<longrightarrow> arg_name s \<in> set (map written_name ws)"
  by (cases ws) (auto simp: socket_parser_def option_of_def)

lemma server_reads:
  assumes "dst = [] \<or> hd dst \<noteq> CHR ''-''"
  shows "socket_main (command_line (server_line dst port)) = Serve dst (int port)"
proof -
  have "list_all (well_written socket_parser) (server_line dst port)"
    using assms by (simp add: server_line_def socket_specs option_of_def convert_arg_def)
  from parse_command_line [OF socket_long_names this socket_required] show ?thesis
    by (simp add: socket_main_def server_line_def socket_specs option_of_def convert_arg_def arg_readers)
qed

lemma client_reads:
  assumes "\<forall>s \<in> {label, src, dst}. s = [] \<or> hd s \<noteq> CHR ''-''"
  shows "socket_main (command_line (client_line (label, src, dst) port tb)) =
    Drive \<lparr>bind_src = src, connect_to = dst, at_port = int port, size_list = SIZES, iterations = int ITERS,
      warmups = int WARMUP, stream_bytes = int tb, chunk_bytes = push_bit 20 1, label_of = label\<rparr>"
proof -
  have "list_all (well_written socket_parser) (client_line (label, src, dst) port tb)"
    using assms by (simp add: client_line_def socket_specs option_of_def convert_arg_def SIZES_def)
  from parse_command_line [OF socket_long_names this socket_required]
  have "parse_args socket_parser (command_line (client_line (label, src, dst) port tb)) =
      Parsed (foldl (meaning_of socket_parser) (defaults socket_parser) (client_line (label, src, dst) port tb))"
    by (simp add: client_line_def)
  then show ?thesis
    by (simp add: socket_main_def client_args_of_def client_line_def socket_specs option_of_def convert_arg_def
        arg_readers defaults_def socket_parser_def)
qed

lemma sizes_read: "client_sizes SIZES = returned [64, 4096, 8192, 16384, 65536]"
  unfolding SIZES_def by code_simp

lemma server_words_read:
  assumes "reads_quoted sh" and "(label, src, dst) \<in> set RAILS"
  shows "sh (remote_command (server_cmd dst port)) = Some ([''python3'', ''-''] @ command_line (server_line dst port))"
proof -
  have "list_all (\<lambda>w. w \<noteq> [] \<and> list_all shell_safe w) (server_args dst port)"
  proof -
    have "py_digit c \<Longrightarrow> shell_safe c" for c by (auto simp: py_digit_def shell_safe_def word_char_def Let_def)
    then have "list_all shell_safe (str_nat port)" using str_nat_digits [of port] by (auto simp: list_all_iff)
    moreover have "list_all shell_safe dst" using assms(2) unfolding RAILS_def by (auto; code_simp)
    moreover have "list_all (list_all shell_safe) [''python3'', ''-'', ''--role'', ''server'', ''--bind'', ''--port'']"
      by code_simp
    moreover have "dst \<noteq> []" using assms(2) by (auto simp: RAILS_def)
    ultimately show ?thesis
      by (simp add: server_args_def)
  qed
  moreover have "server_args dst port \<noteq> []" by (simp add: server_args_def)
  ultimately have "sh (join '' '' (server_args dst port)) = Some (server_args dst port)"
    by (intro plain_words_read [OF assms(1)])
  moreover have "drop 6 (server_cmd dst port) = server_args dst port" by (simp add: server_cmd_def SSH_def)
  ultimately show ?thesis
    by (simp only: remote_command_def socket_lines(1))
qed

text \<open>
  C24: For every rail of the driver the two command lines fit together: the server's, as the remote shell
  hands it on, binds the rail's address and the port of the session; the client's connects there from the
  rail's own address under the rail's label, and the session it drives is the one of the driver's
  constants, which both programs can serve to its end.
\<close>

theorem driver_halves_agree:
  assumes "reads_quoted sh" and "(label, src, dst) \<in> set RAILS" and "tb = 0 \<or> tb = TPUT_BYTES"
  shows "\<exists>words a cmds. sh (remote_command (server_cmd dst port)) = Some ([''python3'', ''-''] @ words) \<and>
    socket_main words = Serve dst (int port) \<and>
    socket_main (drop 2 (client_cmd python bench (label, src, dst) port tb)) = Drive a \<and>
    connect_to a = dst \<and> at_port a = int port \<and> bind_src a = src \<and> label_of a = label \<and>
    client_session a = returned cmds \<and>
    cmds = session [64, 4096, 8192, 16384, 65536] ITERS WARMUP tb (push_bit 20 1) \<and>
    client_program fsize cmds \<noteq> None \<and> (\<exists>ss. server_program fsize cmds = returned (Some ss))"
proof -
  have rails: "\<forall>s \<in> {label, src, dst}. s = [] \<or> hd s \<noteq> CHR ''-''"
    using assms(2) by (auto simp: RAILS_def)
  note remote = server_words_read [OF assms(1,2), of port]
  define a where "a = \<lparr>bind_src = src, connect_to = dst, at_port = int port, size_list = SIZES, iterations = int ITERS,
        warmups = int WARMUP, stream_bytes = int tb, chunk_bytes = push_bit 20 1, label_of = label\<rparr>"
  define cmds where "cmds = session [64, 4096, 8192, 16384, 65536] ITERS WARMUP tb (push_bit 20 1)"
  have drive: "socket_main (drop 2 (client_cmd python bench (label, src, dst) port tb)) = Drive a"
    using client_reads [OF rails] by (simp add: socket_lines a_def)
  have cmds: "client_session a = returned cmds"
    by (simp add: client_session_def sizes_read a_def cmds_def push_bit_eq_mult)
  have "client_program fsize cmds \<noteq> None \<and> (\<exists>ss. server_program fsize cmds = returned (Some ss))"
    using session_served [of "push_bit 20 1" fsize "[64, 4096, 8192, 16384, 65536]" ITERS WARMUP tb] assms(3)
    by (simp add: BUFFER_def TPUT_BYTES_def push_bit_eq_mult cmds_def)
  then show ?thesis
    using remote server_reads [of dst port] rails drive cmds
    by (intro exI [of _ "command_line (server_line dst port)"] exI [of _ a] exI [of _ cmds] conjI)
      (simp_all add: a_def cmds_def)
qed

theorem driver_halves_agree_witness:
  "\<exists>words a. shell_words (remote_command (server_cmd ''10.99.1.2'' 45612)) = Some ([''python3'', ''-''] @ words) \<and>
     socket_main words = Serve ''10.99.1.2'' 45612 \<and>
     socket_main (drop 2 (client_cmd ''python'' ''bench'' (''enp191s0'', ''10.99.1.1'', ''10.99.1.2'') 45612 0)) = Drive a \<and>
     connect_to a = ''10.99.1.2''"
proof -
  have "(''enp191s0'', ''10.99.1.1'', ''10.99.1.2'') \<in> set RAILS" by (simp add: RAILS_def)
  from driver_halves_agree [OF shell_words_reads_quoted this, of 0 45612 "''python''" "''bench''" "\<lambda>_. 20"]
  show ?thesis by auto
qed

end
