(* ===== verification/SocketProse.thy ===== *)
theory SocketProse
  imports SocketReceipt SocketCommand GlooBench
begin

text \<open>
  The fixed part of the receipt of \<open>bench/socket-transport-receipt.py\<close>: what it says of the hardware,
  the method, the findings and the commands, as JSON. The properties compare what it says of the method
  with the models of the programs that measure.
\<close>

section \<open>The prose\<close>

definition PURPOSE :: "json" where
  "PURPOSE =
     JStr (''Replaces the INFERRED cell at docs/DECISIONS-2026-08-30.md:168 ('RCCL sockets over '' @
            ''thunderbolt0 | ~150-300 us | INFERRED') with a measurement, and clears RDMA Gate 0 '' @
            ''(host/rdma/attended-bringup.md), which requires a committed socket-transport benchmark before '' @
            ''the A/B may run.'')"

definition HEADLINE :: "json" where
  "HEADLINE =
     JStr (''At every decode-relevant message size the 5 GbE control wire (enp191s0, 10.99.1.0/30) delivers '' @
            ''a LOWER Gloo all-reduce latency than the Thunderbolt tensor rail (thunderbolt0, 10.99.0.0/30) '' @
            em_dash @
            '' by 1.6x to 2.7x. thunderbolt0 wins only bulk single-stream throughput (~1.9x). The transport '' @
            ''of record FN_TRANSPORT_RUNG=rail0-sockets is therefore NOT the latency-optimal choice for TP=2 '' @
            ''decode and should be re-opened.'')"

definition hardware :: "string \<Rightarrow> json \<Rightarrow> json" where
  "hardware host kernel_name =
     JObj
      [(''coordinator'', JStr host),
       (''worker'', JStr ''10.99.9.2''),
       (''kernel'', kernel_name),
       (''rails'', JObj
          [(''thunderbolt0'', JObj
              [(''cable'', JStr ''A''),
               (''subnet'', JStr ''10.99.0.0/30''),
               (''mtu'', JInt 1500),
               (''coordinator'', JStr ''10.99.0.1''),
               (''worker'', JStr ''10.99.0.2''),
               (''driver'', JStr ''thunderbolt_net''),
               (''parentdev'', JStr ''1-2.0''),
               (''link_trained_gbps'', JInt 40)]),
           (''enp191s0'', JObj
              [(''wire'', JStr ''5 GbE control''),
               (''subnet'', JStr ''10.99.1.0/30''),
               (''mtu'', JInt 1500),
               (''coordinator'', JStr ''10.99.1.1''),
               (''worker'', JStr ''10.99.1.2''),
               (''pci'', JStr ''0000:bf:00.0''),
               (''link_gbps'', JInt 5)])])]"

definition METHOD :: "json" where
  "METHOD =
     JObj
      [(''tools_present'', JObj
          [(''iperf3'', JBool False),
           (''netperf'', JBool False),
           (''sockperf'', JBool False),
           (''qperf'', JBool False),
           (''note'', JStr ''none installed on either node; nothing was installed'')]),
       (''harness'', JStr ''bench/socket-transport-bench.py (stdlib only), driven by bench/socket-transport-run.py''),
       (''allreduce_harness'', JStr ''bench/gloo-allreduce-bench.py via bench/gloo-allreduce-run.sh''),
       (''tcp'', JObj
          [(''pattern'', JStr ''blocking TCP ping-pong on one persistent connection, TCP_NODELAY on both ends''),
           (''sizes_b'', JList (map JInt SocketReceipt.SIZES)),
           (''iters_per_size'', JObj
              [(''<=16384'', JInt 20000),
               (''65536'', JInt 5000)]),
           (''warmup_iters'', JInt 1000),
           (''rounds'', JInt 2),
           (''round_robin'', JStr ''rails alternate within each round so drift hits both equally''),
           (''percentile'', JStr ''nearest-rank on the sorted sample vector, no interpolation'')]),
       (''allreduce'', JObj
          [(''backend'', JStr ''gloo''),
           (''world_size'', JInt 2),
           (''dtype'', JStr ''float32''),
           (''device'', JStr ''cpu''),
           (''iters_per_size'', JObj
              [(''<=16384'', JInt 2000),
               (''65536'', JInt 500)]),
           (''warmup_iters'', JInt 200),
           (''rounds'', JInt 2),
           (''where'', JStr (''inside the already-running flashnext-pair container (host netns, torch 2.13.0+rocm7.14.0); '' @
                    ''torch is NOT installed on either host python'')),
           (''no_serve_started'', JBool True)]),
       (''interface_pinning'', JObj
          [(''how'', JStr (''client binds its source address explicitly, server binds its listen address explicitly; both '' @
                    ''rails are /30 so the bound address selects the netdev unambiguously'')),
           (''verified_by'', JStr ''per-netdev rx/tx packet counters sampled on BOTH nodes around every timed phase; carried below''),
           (''caveat'', JStr (''ssh to the worker (10.99.9.2) routes via 10.99.1.2 dev enp191s0, so the idle control '' @
                    ''connection shares the physical wire with the enp191s0 baseline. Its traffic during measurement '' @
                    ''is ~100 packets against ~1.5M, i.e. negligible, and it disadvantages enp191s0 rather than '' @
                    ''flattering it.''))])]"

definition FINDINGS :: "json" where
  "FINDINGS =
     JList
      [JObj
          [(''id'', JStr ''tb-fixed-floor''),
           (''claim'', JStr (''thunderbolt0 has a FLAT ~130 us TCP RTT floor that is independent of payload from 64 B through '' @
                    ''16 KiB (p50 130.4 us at every one of those sizes, 92-98% of samples in a single 25 us '' @
                    ''histogram bin), while its minimum observed RTT is 30-34 us.'')),
           (''reading'', JStr (''The ~100 us gap between the floor and the minimum is thunderbolt_net / IP-stack wakeup cost, '' @
                    ''not fabric time-of-flight. The fabric is fast; the netdev path on top of it is not.''))],
       JObj
          [(''id'', JStr ''eth-scales-tb-does-not''),
           (''claim'', JStr (''enp191s0 RTT p50 rises with size as a real wire does (56.6 us at 64 B, 138 us at 4 KiB, 144 us '' @
                    ''at 8 KiB, 134-138 us at 16 KiB, 316 us at 64 KiB); thunderbolt0 is pinned at its floor until '' @
                    ''64 KiB.'')),
           (''reading'', JStr (''At 64 B the wire is 2.3x faster. The two cross over around 4-16 KiB where thunderbolt0's flat '' @
                    ''floor happens to sit just under the wire's rising curve on p50 '' @
                    em_dash @
                    '' but see tb-tail.''))],
       JObj
          [(''id'', JStr ''tb-tail''),
           (''claim'', JStr (''thunderbolt0 carries a second latency mode near 275-300 us that captures 4-9% of samples at '' @
                    ''4-8 KiB, so its p99 is 298-338 us against enp191s0's 144-238 us. On the very first cold sweep '' @
                    ''of the session that mode captured the MEDIAN at 8 and 16 KiB (p50 300.4 / 304.3 us).'')),
           (''reading'', JStr (''thunderbolt0's small-message p50 advantage at 8-16 KiB is 4-10% and is not robust; its tail is '' @
                    ''decisively worse and is bistable across runs.''))],
       JObj
          [(''id'', JStr ''allreduce-decides-it''),
           (''claim'', JStr (''The Gloo all-reduce '' @
                    em_dash @
                    '' the shape the decision is actually about '' @
                    em_dash @
                    '' shows no crossover at all. enp191s0 wins at every size in both rounds: 64 B 225-238 vs '' @
                    ''375-384 us, 4 KiB 234-244 vs 626-631 us, 8 KiB 251-267 vs 521-523 us, 16 KiB 259-260 vs '' @
                    ''525-531 us, 64 KiB 350-356 vs 656-672 us.'')),
           (''reading'', JStr (''Gloo's 2-rank all-reduce costs roughly two round trips, which doubles thunderbolt0's per-RTT '' @
                    ''penalty and erases the narrow p50 crossover seen in the raw ping-pong. This is the number that '' @
                    ''should drive the decision.''))],
       JObj
          [(''id'', JStr ''throughput-is-the-only-tb-win''),
           (''claim'', JStr (''thunderbolt0 sustains 8.81 Gb/s TX and 9.20 Gb/s RX on a 1 GiB single-stream transfer (an '' @
                    ''earlier identical sweep gave 9.19 / 9.36, so call it 8.8-9.4); enp191s0 sustains 4.71 Gb/s in '' @
                    ''both directions.'')),
           (''reading'', JStr (''thunderbolt0 delivers only ~22-23% of the 40 Gb/s the link trains at (20 Gb/s x 2), on a '' @
                    ''single TCP stream. enp191s0 delivers ~94% of its 5 Gb/s. The rail's ~1.9x bandwidth advantage '' @
                    ''matters for prefill and for weight/KV movement, not for decode-step all-reduce.''))],
       JObj
          [(''id'', JStr ''memo-baseline-reproduced''),
           (''claim'', JStr (''The memo's TCP-over-5GbE figure of 137.8 us p50 at 4 KiB reproduces as 138.1 and 138.5 us p50 '' @
                    ''in the two rounds here.'')),
           (''reading'', JStr (''Independent confirmation that this harness is measuring the same quantity the memo's 5 GbE '' @
                    ''cell recorded, so the thunderbolt0 column is directly comparable to it.''))],
       JObj
          [(''id'', JStr ''gloo-ifname-proved''),
           (''claim'', JStr (''With GLOO_SOCKET_IFNAME set explicitly in both ranks, TP=2-shaped Gloo rendezvous and '' @
                    ''all-reduce succeed over both rails. With it deliberately unset (--no-ifname control), Gloo '' @
                    ''resolved to loopback and died: 'failed to connect ... local=[127.0.0.1]:49866, '' @
                    ''remote=[127.0.0.2]:20365 ... SO_ERROR: Connection refused', then 'RuntimeError: Gloo '' @
                    ''connectFullMesh failed ... timed out connecting'.'')),
           (''reading'', JStr (''Independent reproduction of the blocker being repaired on fix/gloo-socket-ifname, and '' @
                    ''independent proof that setting GLOO_SOCKET_IFNAME is both necessary and sufficient for the '' @
                    ''rendezvous.''))]]"

definition IMPLICATIONS :: "json" where
  "IMPLICATIONS =
     JObj
      [(''transport_of_record'', JStr (''FN_TRANSPORT_RUNG=rail0-sockets is not justified by latency. For decode-step all-reduce, '' @
                ''GLOO_SOCKET_IFNAME=enp191s0 is 1.6-2.7x faster than thunderbolt0 today. A split assignment '' @
                em_dash @
                '' enp191s0 for the latency-bound collective, thunderbolt0 for bulk movement '' @
                em_dash @
                '' is the configuration these numbers point at, and costs nothing to try.'')),
       (''rdma_gate_0'', JStr (''Gate 0's committed socket-transport benchmark now exists. The A/B's baseline to beat is '' @
                ''enp191s0 at 225-356 us all-reduce, not thunderbolt0 at 375-672 us. Note no RDMA verbs device '' @
                ''exists on either node today and NCCL_IB_DISABLE=1 is pinned unconditionally at '' @
                ''host/fn-env.sh:152, so Gate 0 is unblocked on evidence but the hardware precondition is still '' @
                ''unmet.'')),
       (''usb4stream'', JStr (''The ~100 us between thunderbolt0's 130 us RTT floor and its 30-34 us minimum is exactly the '' @
                ''IP-stack overhead the raw-DMA stream primitive would bypass. That is a concrete, quantified '' @
                ''budget for the docs/USB4STREAM-TRANSPORT.md section 4 trigger criteria: a stream path must '' @
                ''land under ~225 us all-reduce-equivalent to beat the 5 GbE wire, and the fabric minimum says '' @
                ''that is not obviously out of reach.''))]"

definition SCOPE :: "json" where
  "SCOPE =
     JObj
      [(''vllm_serve_started'', JBool False),
       (''tally_touched'', JBool False),
       (''configfs_written'', JBool False),
       (''thunderbolt_device_nodes_opened'', JBool False),
       (''cable_b_touched'', JBool False),
       (''packages_installed'', JBool False),
       (''containers_started_or_stopped'', JBool False),
       (''note'', JStr (''cable B / thunderbolt1 belongs to the concurrent stream bench and was not used here; the only '' @
                ''thunderbolt1 counters in the deltas are 2-4 stray multicast packets from the kernel's own '' @
                ''224.0.0.0/4 route.''))]"

definition COMMANDS :: "json" where
  "COMMANDS =
     JList
      [JStr ''python3 bench/socket-transport-run.py'',
       JStr (''ssh -o BatchMode=yes -o ConnectTimeout=5 10.99.9.2 python3 - --role server --bind 10.99.0.2 '' @
                ''--port <p>  (< bench/socket-transport-bench.py)''),
       JStr (''python3 bench/socket-transport-bench.py --role client --bind-src 10.99.0.1 --connect 10.99.0.2 '' @
                ''--port <p> --sizes 64,4096,8192,16384,65536 --iters 20000 --warmup 1000 --throughput-bytes '' @
                ''1073741824 --label thunderbolt0''),
       JStr (''python3 bench/socket-transport-bench.py --role client --bind-src 10.99.1.1 --connect 10.99.1.2 '' @
                ''--port <p> --sizes 64,4096,8192,16384,65536 --iters 20000 --warmup 1000 --throughput-bytes '' @
                ''1073741824 --label enp191s0''),
       JStr (''bash bench/gloo-allreduce-run.sh thunderbolt0 10.99.0.1 <p> --iters 2000 --warmup 200 '' @
                ''--timeout-s 90''),
       JStr (''bash bench/gloo-allreduce-run.sh enp191s0 10.99.1.1 <p> --iters 2000 --warmup 200 --timeout-s '' @
                ''90''),
       JStr (''bash bench/gloo-allreduce-run.sh thunderbolt0 10.99.0.1 <p> --iters 20 --warmup 5 --sizes 64 '' @
                ''--timeout-s 45 --no-ifname   # the failing control'')]"

definition RAW_NOTE :: "json" where
  "RAW_NOTE =
     JStr (''results/socket-transport-raw.json (full per-size histograms, per-netdev counter deltas from '' @
            ''both nodes, both rounds)'')"

section \<open>The whole receipt\<close>

definition receipt_front :: "string \<Rightarrow> json \<Rightarrow> (string \<times> json) list" where
  "receipt_front host kernel_name =
     [(''purpose'', PURPOSE), (''headline'', HEADLINE), (''hardware'', hardware host kernel_name), (''method'', METHOD)]"

definition receipt_back :: "(string \<times> json) list" where
  "receipt_back =
     [(''findings'', FINDINGS), (''implications'', IMPLICATIONS), (''scope_and_safety'', SCOPE),
      (''commands'', COMMANDS), (''raw'', RAW_NOTE), (''wall_clock_s'', JInt 57)]"

text \<open>The receipt from the logs; \<open>kernel_name\<close> is what the raw file says of the kernel.\<close>

definition socket_receipt :: "string \<Rightarrow> json \<Rightarrow> string \<Rightarrow> raw_round list \<Rightarrow> gloo_rec list \<Rightarrow> json res" where
  "socket_receipt host kernel_name ts rounds gloo =
     receipt_main (receipt_front host kernel_name) receipt_back ts rounds gloo"

section \<open>The method it declares\<close>

fun at_path :: "json \<Rightarrow> string list \<Rightarrow> json option" where
  "at_path j [] = Some j"
| "at_path (JObj kvs) (k # ks) = Option.bind (map_of kvs k) (\<lambda>v. at_path v ks)"
| "at_path _ (k # ks) = None"

definition size_class :: "int \<Rightarrow> string" where
  "size_class n = (if n \<le> 16384 then ''<=16384'' else ''65536'')"

lemma method_tcp:
  "at_path METHOD [''tcp'', ''sizes_b''] = Some (JList (map JInt SocketReceipt.SIZES))"
  "at_path METHOD [''tcp'', ''iters_per_size'', ''<=16384''] = Some (JInt 20000)"
  "at_path METHOD [''tcp'', ''iters_per_size'', ''65536''] = Some (JInt 5000)"
  "at_path METHOD [''tcp'', ''warmup_iters''] = Some (JInt 1000)"
  "at_path METHOD [''tcp'', ''rounds''] = Some (JInt 2)"
  by (simp_all add: METHOD_def)

lemma method_allreduce:
  "at_path METHOD [''allreduce'', ''world_size''] = Some (JInt 2)"
  "at_path METHOD [''allreduce'', ''iters_per_size'', ''<=16384''] = Some (JInt 2000)"
  "at_path METHOD [''allreduce'', ''iters_per_size'', ''65536''] = Some (JInt 500)"
  "at_path METHOD [''allreduce'', ''warmup_iters''] = Some (JInt 200)"
  by (simp_all add: METHOD_def)

lemma sizes_alike: "client_sizes SocketRun.SIZES = returned SocketReceipt.SIZES"
  by (simp add: sizes_read SocketReceipt.SIZES_def)

text \<open>
  What the receipt says of its method is what the programs do by their constants and defaults: the sizes
  are those that the driver asks the client for, and for each size the number of iterations is the one
  that the session, and the all-reduce bench, run; so are the warm-ups, the rounds and the group's size.
\<close>

theorem method_as_run:
  "at_path METHOD [''tcp'', ''sizes_b''] = Some (JList (map JInt SocketReceipt.SIZES)) \<and>
   client_sizes SocketRun.SIZES = returned SocketReceipt.SIZES \<and>
   list_all (\<lambda>n. at_path METHOD [''tcp'', ''iters_per_size'', size_class n] = Some (JInt (int (echo_iters ITERS (nat n)))))
     SocketReceipt.SIZES \<and>
   at_path METHOD [''tcp'', ''warmup_iters''] = Some (JInt (int WARMUP)) \<and>
   at_path METHOD [''tcp'', ''rounds''] = Some (JInt (int ROUNDS)) \<and>
   (\<exists>k w. map_of (defaults gloo_parser) ''--iters'' = Some (Int_value k) \<and>
      map_of (defaults gloo_parser) ''--warmup'' = Some (Int_value w) \<and>
      at_path METHOD [''allreduce'', ''warmup_iters''] = Some (JInt w) \<and>
      list_all (\<lambda>n. at_path METHOD [''allreduce'', ''iters_per_size'', size_class n] = Some (JInt (gloo_iters k n)))
        SocketReceipt.SIZES \<and>
      map_of (defaults gloo_parser) ''--world-size'' = Some (Int_value 2) \<and>
      at_path METHOD [''allreduce'', ''world_size''] = Some (JInt 2))"
proof -
  have gloo: "map_of (defaults gloo_parser) ''--iters'' = Some (Int_value 2000)"
    "map_of (defaults gloo_parser) ''--warmup'' = Some (Int_value 200)"
    "map_of (defaults gloo_parser) ''--world-size'' = Some (Int_value 2)"
    by (simp_all add: gloo_parser_def defaults_def option_of_def flag_of_def)
  have "list_all (\<lambda>n. at_path METHOD [''tcp'', ''iters_per_size'', size_class n] =
      Some (JInt (int (echo_iters ITERS (nat n))))) SocketReceipt.SIZES"
    by (simp add: SocketReceipt.SIZES_def size_class_def method_tcp echo_iters_def ITERS_def)
  moreover have "list_all (\<lambda>n. at_path METHOD [''allreduce'', ''iters_per_size'', size_class n] =
      Some (JInt (gloo_iters 2000 n))) SocketReceipt.SIZES"
    by (simp add: SocketReceipt.SIZES_def size_class_def method_allreduce gloo_iters_def)
  ultimately show ?thesis
    using gloo method_tcp method_allreduce sizes_alike by (simp add: WARMUP_def ROUNDS_def)
qed

text \<open>
  The command lines it lists are those of the driver's last round, with \<open><p>\<close> where the port is.
\<close>

definition BENCH_PATH :: string where "BENCH_PATH = ''bench/socket-transport-bench.py''"

fun with_port :: "string \<Rightarrow> string list \<Rightarrow> string list" where
  "with_port p (w # v # ws) = (if w = ''--port'' then w # p # ws else w # with_port p (v # ws))"
| "with_port p ws = ws"

definition shown_line :: "string list \<Rightarrow> string" where
  "shown_line ws = join '' '' (with_port ''<p>'' ws)"

lemma counts_printed: "str_nat ITERS = ''20000''" "str_nat WARMUP = ''1000''" "str_nat TPUT_BYTES = ''1073741824''"
  by (simp_all add: ITERS_def WARMUP_def TPUT_BYTES_def push_bit_eq_mult str_nat.simps char_of_def
      bit_Suc_0_iff)

theorem commands_as_run:
  "py_item COMMANDS 1 = returned (JStr (shown_line (server_cmd (snd (snd (RAILS ! 0))) port) @ ''  (< '' @ BENCH_PATH @ '')'')) \<and>
   py_item COMMANDS 2 = returned (JStr (shown_line (client_cmd ''python3'' BENCH_PATH (RAILS ! 0) port TPUT_BYTES))) \<and>
   py_item COMMANDS 3 = returned (JStr (shown_line (client_cmd ''python3'' BENCH_PATH (RAILS ! 1) port TPUT_BYTES)))"
  by (simp add: COMMANDS_def shown_line_def server_cmd_def server_args_def client_cmd_def RAILS_def SSH_def
      SocketRun.SIZES_def BENCH_PATH_def counts_printed)

end
