(* ===== verification/Spec2Isabelle.thy ===== *)
theory Spec2Isabelle
  imports ReceiptCommand GuardReport GuardCommand StreamReceipts BenchCommand OffloadBatch ExpertUnion SyncTrace AllreduceReport
    StreamCommand SocketLogs SocketCommand SocketProse
begin

text \<open>
  flashnext serves one large language model on two nodes joined by Thunderbolt cables. What is its own
  logic is in Python: a gate that decides whether the model may be split over the two nodes, benches
  that measure the links between them and the serving itself, probes that are loaded into the
  serving engine, and the scripts that keep and grade the receipts (JSON files) all of them leave.
  This development models these programs as functions and step relations and proves what makes them
  correct, and where they do not do what their comments say, that.

  The parts and how they interact.

  A run of any bench or probe writes a receipt into \<open>results/receipts\<close>; \<open>scripts/receipt-restore.py\<close>
  keeps it pure (a receipt that differs only in its timestamp is put back) and mirrors it to a
  durable directory; \<open>scripts/receipts-verify.py\<close> grades both copies and fails the ladder.
  \<open>host/fn-tp2-guards.py\<close> runs on both nodes before the engine is started: it reads the headers of the
  checkpoint, evaluates twelve assertions and compares the digest of what it read with its twin's.
  The probes \<open>fn_offload_batch\<close>, \<open>fn_expert_union\<close>, \<open>fn_synctrace\<close> and \<open>fn_allreduce_timer\<close> of
  \<open>container/rootfs\<close> replace methods of the engine. \<open>bench/usb4stream-bench.py\<close> opens a raw stream over
  one cable, which is only safe on the right cable and while no engine is served over it;
  \<open>bench/socket-transport-*.py\<close> measure the same links through sockets, and \<open>bench/fn-stream-client.py\<close>
  measures the engine.

  Foundations.
  \<^item> \<open>Prelude\<close>: exceptions, results (\<open>pyexc + 'a\<close>), strings and association lists.
  \<^item> \<open>PyValue\<close>: JSON values with Python's equality and truth; \<open>strip_ts\<close>, the timestamp eraser.
  \<^item> \<open>PyFloat\<close>, \<open>PyStats\<close>: doubles as rationals with rounding of exact results, \<open>round\<close>, exact
    summation, means and roots; the locale \<open>rank_select\<close> of a percentile that picks a sample, with
    the lemmas that selections are samples and grow with the percentile. It is interpreted on the
    three percentiles of the benches and the timer.
  \<^item> \<open>PyText\<close>: numbers in text, \<open>split\<close>, \<open>splitlines\<close>, \<open>replace\<close>, \<open>join\<close>.
  \<^item> \<open>ArgParse\<close>: what the programs use of \<open>argparse\<close>; a line written of full option names and plain values
    is read as it is meant, and every parsed value has its option's type. \<open>ShellWords\<close>: \<open>shlex.quote\<close>, and
    what is expected of a shell that reads quoted words.
  \<^item> \<open>FileStore\<close>: a file tree whose writes may be refused or torn; \<open>ReceiptStore\<close>: the locale
    \<open>receipt_store\<close> (putting is idempotent, keeps other receipts, stores what it was given) and the
    batch of puts over it, interpreted on \<open>_place\<close> of the receipt guard and on the timer's \<open>flush\<close>.
  \<^item> \<open>ByteChannel\<close>: two programs of reads and writes over two bounded byte channels, as a step
    relation in which one system call moves any part of what is asked; the locale \<open>paired_programs\<close>
    with deadlock freedom and termination, interpreted on the schedules of the stream bench.
  \<^item> \<open>Instrument\<close>: methods replaced on an object; the locales \<open>instrument\<close> (installing is idempotent and
    invisible), \<open>removable\<close> and \<open>sampling_window\<close> (what a probe records is exactly the calls after
    the skipped ones, up to its size), interpreted on the three probes.

  Receipts.
  \<^item> \<open>ReceiptRestore\<close> is \<open>scripts/receipt-restore.py\<close>: \<open>restore\<close>, \<open>mirror\<close>, \<open>write\<close>, \<open>main\<close>. Shown: a
    restore puts back exactly the committed receipts that differ only in time; the mirror is
    idempotent and complete; the durable copy is there whatever the write into the repository meets.
  \<^item> \<open>ReceiptsVerify\<close> is \<open>scripts/receipts-verify.py\<close>: the bounds of each step, the graded and quarantined
    sets, \<open>--require\<close> and \<open>main\<close>. Shown: the gate passes exactly when every graded receipt is clean and
    every required step is there; the bound of the stream bench accepts exactly the complete
    receipts and the typed refusals. \<open>GateMain\<close> is its \<open>main\<close> with what it prints: every violation it
    counts is one line, and its status is that of the report.
  \<^item> \<open>ReceiptCommand\<close>: the command lines of both scripts; a receipt that \<open>--write\<close> has written is what the
    gate grades, and answers \<open>--require\<close>.

  The gate.
  \<^item> \<open>Checkpoint\<close>: headers, expert stacks, schedule, digests and the shard plan. Shown: the plan puts
    every tensor in exactly one place and an expert on the rank of its range; the schedule is
    derivable exactly when every layer has one kind of attention; equal digests mean equal inputs.
  \<^item> \<open>Tp2Guards\<close>: the twelve assertions and \<open>main\<close>. Shown: an exit status of 0 means a sound split; the
    predicted residency is too low for some rank exactly when the ranks own unequal amounts.
  \<^item> \<open>GuardReport\<close>: the details and the report; it tells the same as the exit status.
  \<^item> \<open>TwinGate\<close>: the runs on both nodes together: what a passing gate says of the twin's copy, if the digest
    tells the two payloads apart, and that the twin's block size is not part of it. \<open>GuardCommand\<close>: the command line; what the coordinator
    sends over ssh makes the twin answer as \<open>TwinGate\<close> says.

  The stream bench, \<open>bench/usb4stream-bench.py\<close>.
  \<^item> \<open>StreamSchedule\<close>: the two schedules; they cannot deadlock exactly when the channels hold the largest
    exchange, and every run ends.
  \<^item> \<open>CableResolve\<close>: from a cable to its device node, and the interlock that both ends are of one cable.
  \<^item> \<open>StreamBench\<close>: the roles as traces of effects; a device is opened once, on the resolved cable, after
    every check; the rehearsal has no effects and decides the same.
  \<^item> \<open>StreamReceipts\<close>: every receipt of the coordinator passes the gate's bound.
  \<^item> \<open>BenchCommand\<close>: the command line and the commands for the peer; what the coordinator launches opens at
    most the device that the guard had accepted.

  The socket benches.
  \<^item> \<open>SocketWire\<close>: the frames, the commands and both sides of a session of
    \<open>bench/socket-transport-bench.py\<close>; commands are decoded as sent, a session cannot deadlock, and
    which sessions the server can serve.
  \<^item> \<open>SocketBench\<close>: its counters, statistics, histogram and reports; the client's report is what was
    measured. \<open>SocketCommand\<close>: its command line, and
    that the driver's two command lines make one session.
  \<^item> \<open>GlooBench\<close> is \<open>bench/gloo-allreduce-bench.py\<close>; the process group of torch is an argument. When every
    rank is there and the command lines ask for the same calls, all of them return and the reports are
    printed; a rank that asks for more calls than another ends with an exception.
  \<^item> \<open>SocketRun\<close>, \<open>SocketReceipt\<close>: the driver and the receipt; the comparison is of exactly the medians of
    the measured rounds, while the outcome beside it is fixed. \<open>SocketLogs\<close>: the
    receipt reads out of the raw file and the logs exactly the statistics that the benches measured.
    \<open>SocketProse\<close> is the fixed part of the receipt; the method and the commands it declares are those that
    run.

  The serving client, \<open>bench/fn-stream-client.py\<close>.
  \<^item> \<open>StreamMetrics\<close> (the server's histograms), \<open>StreamRequest\<close> (one streamed completion and its
    fingerprint), \<open>StreamConcurrency\<close> (every interleaving of the workers), \<open>StreamClient\<close> (prompt,
    CSV file, \<open>main\<close>), \<open>StreamCommand\<close> (the command line and its environment). Shown among others: the
    CSV file, read back under its column names, is the measured batch.

  The probes of the engine.
  \<^item> \<open>OffloadBatch\<close>, \<open>ExpertUnion\<close>, \<open>SyncTrace\<close>: the budgets of the KV offloader, the union of routed
    experts, the tracer of blocking transfers, with the file and the table the last two write.
  \<^item> \<open>LayerWalk\<close>, \<open>AllreduceTimer\<close>, \<open>AllreduceReport\<close>: the attribution of a collective to a layer, the timer
    and its receipt, the operator's table.

  This theory adds what spans parts: the receipts of the instruments at the gate.

  Bounds. Recursion is structural or has a measure; the one loop of the code that may not end, the
  sending of a stream in chunks, is a \<open>partial_function\<close> with its termination characterised. No
  program needs fuel (the reader of CSV text, a specification, has the length of the text, which is
  more than its rows). Machine integers do not occur (Python integers are unbounded); doubles are rounded after
  every operation, and a theorem that needs a sum or an index to be exact says so by a bound of
  \<open>2^53\<close>. The walk up the frames is bounded by the depth of the configuration, as in the code.

  Arguments of the model, standing for what is not in the repository: the JSON decoder and encoder
  (where a theorem needs it, with the law that decoding what was encoded gives it back), SHA-256, git,
  ssh, podman, ping, sysfs and configfs, HTTP, torch and its process group, the remote shell, the clock, \<open>str\<close> of a float, and the order in
  which Python iterates a set.

  Not modelled: the shell, nix and container files, the patches to third-party projects and the C++
  probe (other languages); the wording of messages on stderr and of usage texts; socket options; the tensors of the Gloo bench and how torch moves them. The tests are not modelled; what they expect is what the
  properties state in general.
\<close>

section \<open>Receipts that the gate grades on their shape\<close>

lemma no_bound:
  assumes "list_all (\<lambda>e. \<not> startswith step (fst e)) BOUNDS"
  shows "check_bounds p (JObj ((''step'', JStr step) # kvs)) BOUNDS = returned []"
proof -
  have "check_bounds p (JObj ((''step'', JStr step) # kvs)) bs = returned []"
    if "list_all (\<lambda>e. \<not> startswith step (fst e)) bs" for bs
    using that by (induction bs) (auto simp: step_has_prefix_def ReceiptsVerify.get_or_def)
  then show ?thesis using assms by blast
qed

lemma shape_clean:
  assumes "list_all (\<lambda>e. \<not> startswith step (fst e)) BOUNDS" "step \<noteq> []"
  shows "grade_receipt p (JObj [(''step'', JStr step), (''status'', JStr ''pass''), (''ts'', JStr ts), (''data'', d)]) =
    returned ([stem (last p), step], [])"
  using no_bound [OF assms(1)] assms(2)
  by (cases step) (auto simp: grade_receipt_def names_of_def or_empty_def dget_def)

lemma unbounded_steps:
  "list_all (\<lambda>e. \<not> startswith ''allreduce'' (fst e)) BOUNDS"
  "list_all (\<lambda>e. \<not> startswith ''socket-transport'' (fst e)) BOUNDS"
  by (simp_all add: BOUNDS_def startswith_def)

lemma timer_receipt_clean:
  "grade_receipt p (ar_receipt c s rank ts) = returned ([stem (last p), ''allreduce''], [])"
  unfolding ar_receipt_def by (rule shape_clean) (simp_all add: unbounded_steps)

text \<open>
  The gate grades the receipts of the instruments on their shape: whatever the all-reduce timer has
  recorded, and whatever the socket benches have measured, their receipts have no violation and
  answer to the names of their files and steps.
\<close>

theorem instruments_never_redden:
  assumes "receipt_main front back ts rounds gloo = returned r"
  shows "grade_receipt p r = returned ([stem (last p), ''socket-transport''], []) \<and>
    grade_receipt p (ar_receipt c s rank ts) = returned ([stem (last p), ''allreduce''], [])"
proof -
  obtain d where "r = JObj [(''step'', JStr ''socket-transport''), (''status'', JStr ''pass''), (''ts'', JStr ts), (''data'', d)]"
    using assms by (auto simp: receipt_main_def res_bind_Inr_iff)
  then show ?thesis using shape_clean [OF unbounded_steps(2)] timer_receipt_clean by simp
qed

theorem instruments_never_redden_witness:
  "\<exists>r. receipt_main [] [] ''t'' tb_rounds tb_gloo = returned r \<and>
     grade_receipt [''socket-transport.json''] r = returned ([stem ''socket-transport.json'', ''socket-transport''], [])"
proof -
  obtain r where r: "receipt_main [] [] ''t'' tb_rounds tb_gloo = returned r" using tb_receipt by blast
  show ?thesis using instruments_never_redden [OF r, of "[''socket-transport.json'']"] r by auto
qed

text \<open>
  C37: From the timer to the gate: after a flush that wrote a new file, the gate reads it from the disk
  and finds no violation, and the file answers to the step a \<open>--require\<close> names.
\<close>

theorem flushed_receipt_graded:
  assumes "ar_flush loads dumps c rank ts s = (Some p, s')"
    and "\<not> is_file (disk s) (path_parts p)" and "readable (disk s) (path_parts p)"
    and "loads (dumps (ar_receipt c s rank ts) @ [newline]) = Some (ar_receipt c s rank ts)"
    and "utf8 (dumps (ar_receipt c s rank ts) @ [newline])"
  shows "grade_path utf8 loads (disk s') (path_parts p) = returned ([stem (last (path_parts p)), ''allreduce''], [])"
proof -
  let ?r = "ar_receipt c s rank ts" and ?p = "path_parts (receipt_path c rank)"
  have p: "p = receipt_path c rank" and put: "fst (bank loads (disk s) ?p ?r (dumps ?r @ [newline])) \<in> range Inr"
    and s': "disk s' = snd (bank loads (disk s) ?p ?r (dumps ?r @ [newline]))"
    using assms(1) by (auto simp: ar_flush_def Let_def split: prod.splits sum.splits)
  let ?w = "snd (mkdirs (disk s) (butlast ?p))"
  have "fst (write_text ?w ?p (dumps ?r @ [newline])) = returned ()"
    and w: "disk s' = snd (write_text ?w ?p (dumps ?r @ [newline]))"
    using put s' assms(2) by (auto simp: p bank_def split: prod.splits sum.splits)
  then have "read_text (disk s') ?p = returned (dumps ?r @ [newline])"
    using assms(3) write_text_ok by (simp add: read_text_Inr w p)
  then show ?thesis using assms(4,5) timer_receipt_clean by (simp add: grade_path_def p)
qed

theorem flushed_receipt_graded_witness:
  "\<exists>p s'. ar_flush (\<lambda>_. Some (ar_receipt demo_config (ar_fresh demo_comms (\<lambda>_ _. None) empty_world) None ''t1''))
      (\<lambda>_. ''r'') demo_config None ''t1'' (ar_fresh demo_comms (\<lambda>_ _. None) empty_world) = (Some p, s') \<and>
    grade_path (\<lambda>_. True) (\<lambda>_. Some (ar_receipt demo_config (ar_fresh demo_comms (\<lambda>_ _. None) empty_world) None ''t1''))
      (disk s') (path_parts p) = returned ([''allreduce'', ''allreduce''], [])"
proof -
  define s where "s = ar_fresh demo_comms (\<lambda>_ _. None) empty_world"
  define r where "r = ar_receipt demo_config s None ''t1''"
  have disk: "disk s = empty_world" by (simp add: s_def ar_fresh_def)
  obtain p s' where f: "ar_flush (\<lambda>_. Some r) (\<lambda>_. ''r'') demo_config None ''t1'' s = (Some p, s')" and p: "p = ''/out/allreduce.json''"
    using demo_flush unfolding s_def r_def by blast
  have parts: "path_parts p = [''out'', ''allreduce.json'']" unfolding p by code_simp
  have "stem ''allreduce.json'' = ''allreduce''" by code_simp
  moreover have "grade_path (\<lambda>_. True) (\<lambda>_. Some r) (disk s') (path_parts p) = returned ([stem (last (path_parts p)), ''allreduce''], [])"
    by (rule flushed_receipt_graded [OF f])
      (simp_all add: disk empty_world_def is_file_def node_at_def parts r_def [symmetric])
  ultimately show ?thesis using f unfolding s_def [symmetric] r_def [symmetric] by (auto simp: parts)
qed

end
